(* ===== verification/Prelude.thy ===== *)
theory Prelude
  imports Main "HOL-Library.Char_ord" "HOL-Library.List_Lexorder" "HOL-Library.Product_Lexorder"
    "HOL-Library.Code_Target_Nat"
begin

text \<open>
  Shared vocabulary of the development: the parts of Rust's standard library that the program
  uses on strings, results and vectors, with the generic lemmas the component theories rest on.

  A Rust \<open>str\<close> is UTF-8, so a string here is its list of bytes (\<open>char\<close> is a byte). White space
  is Rust's \<open>char::is_whitespace\<close>, that is Unicode \<open>White_Space\<close>, recognised on its UTF-8
  encoding: \<open>ws_len s\<close> is the number of bytes of the white-space character \<open>s\<close> begins with, 0 if
  it begins with another one. Orderings of strings are Rust's byte-wise ones (the lexicographic
  order of \<open>List_Lexorder\<close> over \<open>Char_ord\<close>).
\<close>

named_theorems frust_defs \<open>unfolding rules of small projections and tests\<close>
named_theorems frust_inv \<open>preservation lemmas of invariants\<close>

section \<open>Results\<close>

text \<open>\<open>Result<T, E>\<close> is the sum \<open>'e + 'a\<close> with the error on the left.\<close>

definition is_ok_res :: "'e + 'a \<Rightarrow> bool" where
  "is_ok_res r = (case r of Inl _ \<Rightarrow> False | Inr _ \<Rightarrow> True)"

definition map_err :: "('e \<Rightarrow> 'f) \<Rightarrow> 'e + 'a \<Rightarrow> 'f + 'a" where
  "map_err f r = (case r of Inl e \<Rightarrow> Inl (f e) | Inr a \<Rightarrow> Inr a)"

lemma is_ok_res_simps [simp]: "is_ok_res (Inr a)" "\<not> is_ok_res (Inl e)"
  by (simp_all add: is_ok_res_def)

lemma map_err_simps [simp]: "map_err f (Inr a) = Inr a" "map_err f (Inl e) = Inl (f e)"
  by (simp_all add: map_err_def)

lemma map_err_eq_Inr [simp]: "map_err f r = Inr a \<longleftrightarrow> r = Inr a"
  by (cases r) simp_all

text \<open>Collecting a vector of results stops at the first error, as \<open>collect\<close> into a \<open>Result\<close>.\<close>

fun collect_res :: "('e + 'a) list \<Rightarrow> 'e + 'a list" where
  "collect_res [] = Inr []"
| "collect_res (Inl e # rs) = Inl e"
| "collect_res (Inr a # rs) = (case collect_res rs of Inl e \<Rightarrow> Inl e | Inr as \<Rightarrow> Inr (a # as))"

lemma collect_res_Inr_iff: "collect_res rs = Inr as \<longleftrightarrow> rs = map Inr as"
proof (induction rs arbitrary: as rule: collect_res.induct)
  case 1
  then show ?case by auto
next
  case (2 e rs)
  then show ?case by (cases as) auto
next
  case (3 a rs)
  show ?case
  proof (cases "collect_res rs")
    case (Inl e)
    with 3 show ?thesis by (cases as) auto
  next
    case (Inr bs)
    with 3 show ?thesis by (cases as) auto
  qed
qed

section \<open>Characters and numerals\<close>

definition ascii_lower :: "char \<Rightarrow> char" where
  "ascii_lower c = (if CHR ''A'' \<le> c \<and> c \<le> CHR ''Z'' then char_of (of_char c + 32 :: nat) else c)"

definition ascii_upper :: "char \<Rightarrow> char" where
  "ascii_upper c = (if CHR ''a'' \<le> c \<and> c \<le> CHR ''z'' then char_of (of_char c - 32 :: nat) else c)"

definition eq_ignore_case :: "string \<Rightarrow> string \<Rightarrow> bool" where
  "eq_ignore_case a b = (map ascii_lower a = map ascii_lower b)"

definition is_digit :: "char \<Rightarrow> bool" where
  "is_digit c = (CHR ''0'' \<le> c \<and> c \<le> CHR ''9'')"

definition is_alnum :: "char \<Rightarrow> bool" where
  "is_alnum c = (is_digit c \<or> (CHR ''a'' \<le> c \<and> c \<le> CHR ''z'') \<or> (CHR ''A'' \<le> c \<and> c \<le> CHR ''Z''))"

definition digit_char :: "nat \<Rightarrow> char" where
  "digit_char d = char_of (48 + d)"

definition digit_val :: "char \<Rightarrow> nat" where
  "digit_val c = of_char c - 48"

fun nat_str :: "nat \<Rightarrow> string" where
  "nat_str n = (if n < 10 then [digit_char n] else nat_str (n div 10) @ [digit_char (n mod 10)])"

declare nat_str.simps [simp del]

definition int_str :: "int \<Rightarrow> string" where
  "int_str i = (if i < 0 then ''-'' @ nat_str (nat (- i)) else nat_str (nat i))"

text \<open>A lower-case hexadecimal digit.\<close>

definition hex_digit :: "nat \<Rightarrow> char" where
  "hex_digit n = (if n < 10 then char_of (48 + n) else char_of (87 + n))"

text \<open>The value of a string of decimal digits.\<close>

definition digits_val :: "string \<Rightarrow> nat" where
  "digits_val ds = fold (\<lambda>c n. 10 * n + digit_val c) ds 0"

lemma is_digit_iff: "is_digit c \<longleftrightarrow> (48 \<le> (of_char c :: nat) \<and> (of_char c :: nat) \<le> 57)"
  by (simp add: is_digit_def less_eq_char_def)

text \<open>A property of every byte, checked on the 256 of them.\<close>

lemma all_chars:
  assumes "list_all P (map char_of [0..<256 :: nat])"
  shows "P c"
proof -
  have "char_of (of_char c :: nat) = c" "(of_char c :: nat) < 256" by simp_all
  then have "c \<in> set (map char_of [0..<256 :: nat])" by (metis atLeastLessThan_iff imageI le0 set_map set_upt)
  with assms show ?thesis by (simp only: list_all_iff)
qed

lemma digit_char_props:
  assumes "d < 10"
  shows "is_digit (digit_char d)" and "digit_val (digit_char d) = d"
  using assms by (simp_all add: digit_char_def is_digit_iff digit_val_def)

lemma nat_str_digits: "list_all is_digit (nat_str n)"
proof (induction n rule: nat_str.induct)
  case (1 n)
  then show ?case
    by (subst nat_str.simps) (auto simp: digit_char_props)
qed

lemma nat_str_nonempty [simp]: "nat_str n \<noteq> []"
  by (subst nat_str.simps) simp

lemma digits_val_append1: "digits_val (ds @ [c]) = 10 * digits_val ds + digit_val c"
  by (simp add: digits_val_def)

lemma digits_val_nat_str [simp]: "digits_val (nat_str n) = n"
proof (induction n rule: nat_str.induct)
  case (1 n)
  show ?case
  proof (cases "n < 10")
    case True
    then show ?thesis
      by (subst nat_str.simps) (simp add: digits_val_def digit_char_props)
  next
    case False
    have "digits_val (nat_str n) = digits_val (nat_str (n div 10) @ [digit_char (n mod 10)])"
      using False by (subst nat_str.simps) simp
    also have "\<dots> = 10 * (n div 10) + n mod 10"
      using False "1.IH" by (simp add: digits_val_append1 digit_char_props)
    finally show ?thesis by simp
  qed
qed

lemma digits_val_zeros: "digits_val (replicate k CHR ''0'' @ ds) = digits_val ds"
  by (induction k) (simp_all add: digits_val_def digit_val_def)

section \<open>Strings\<close>

fun join :: "string \<Rightarrow> string list \<Rightarrow> string" where
  "join sep [] = []"
| "join sep [x] = x"
| "join sep (x # y # xs) = x @ sep @ join sep (y # xs)"

definition strip_prefix :: "string \<Rightarrow> string \<Rightarrow> string option" where
  "strip_prefix p s = (if take (length p) s = p then Some (drop (length p) s) else None)"

definition strip_suffix :: "string \<Rightarrow> string \<Rightarrow> string option" where
  "strip_suffix q s =
     (if length q \<le> length s \<and> drop (length s - length q) s = q
      then Some (take (length s - length q) s) else None)"

lemma strip_prefix_Some: "strip_prefix p s = Some r \<longleftrightarrow> s = p @ r"
  by (auto simp: strip_prefix_def) (metis append_take_drop_id)

lemma strip_suffix_Some: "strip_suffix q s = Some r \<longleftrightarrow> s = r @ q"
  by (auto simp: strip_suffix_def) (metis append_take_drop_id)

text \<open>\<open>s.replace(c, r)\<close> for a single character.\<close>

definition replace_char :: "char \<Rightarrow> string \<Rightarrow> string \<Rightarrow> string" where
  "replace_char c r s = concat (map (\<lambda>x. if x = c then r else [x]) s)"

lemma replace_char_simps [simp]:
  "replace_char c r [] = []"
  "replace_char c r (x # xs) = (if x = c then r else [x]) @ replace_char c r xs"
  by (simp_all add: replace_char_def)

text \<open>\<open>s.split(c)\<close> for a single character: always at least one part.\<close>

fun split_char :: "char \<Rightarrow> string \<Rightarrow> string list" where
  "split_char c [] = [[]]"
| "split_char c (x # xs) =
     (if x = c then [] # split_char c xs
      else case split_char c xs of [] \<Rightarrow> [[x]] | p # ps \<Rightarrow> (x # p) # ps)"

lemma split_char_nonempty [simp]: "split_char c s \<noteq> []"
  by (induction s) (auto split: list.splits)

lemma split_char_none: "c \<notin> set s \<Longrightarrow> split_char c s = [s]"
  by (induction s) auto

lemma split_char_one: "c \<notin> set a \<Longrightarrow> split_char c (a @ c # b) = a # split_char c b"
  by (induction a) auto

text \<open>\<open>s.split_once(c)\<close> for a single character: the text before and after the first one.\<close>

fun split_once :: "char \<Rightarrow> string \<Rightarrow> (string \<times> string) option" where
  "split_once c [] = None"
| "split_once c (x # xs) =
     (if x = c then Some ([], xs) else map_option (\<lambda>(a, b). (x # a, b)) (split_once c xs))"

lemma split_once_Some: "split_once c s = Some (a, b) \<longleftrightarrow> s = a @ c # b \<and> c \<notin> set a"
proof (induction s arbitrary: a)
  case (Cons x xs)
  then show ?case by (cases a) auto
qed simp

lemma split_once_None: "split_once c s = None \<longleftrightarrow> c \<notin> set s"
  by (induction s) auto

section \<open>White space\<close>

text \<open>
  The UTF-8 encodings of \<open>White_Space\<close>: U+0009..U+000D, U+0020, U+0085, U+00A0, U+1680,
  U+2000..U+200A, U+2028, U+2029, U+202F, U+205F, U+3000.
\<close>

definition ascii_ws :: "char \<Rightarrow> bool" where
  "ascii_ws c = (c = CHR '' '' \<or> (9 \<le> (of_char c :: nat) \<and> (of_char c :: nat) \<le> 13))"

definition ws2 :: "char \<Rightarrow> char \<Rightarrow> bool" where
  "ws2 a b = (a = CHR 0xC2 \<and> (b = CHR 0x85 \<or> b = CHR 0xA0))"

definition ws3 :: "char \<Rightarrow> char \<Rightarrow> char \<Rightarrow> bool" where
  "ws3 a b c =
     ((a = CHR 0xE1 \<and> b = CHR 0x9A \<and> c = CHR 0x80)
    \<or> (a = CHR 0xE2 \<and> b = CHR 0x80 \<and>
        ((128 \<le> (of_char c :: nat) \<and> (of_char c :: nat) \<le> 138)
         \<or> c = CHR 0xA8 \<or> c = CHR 0xA9 \<or> c = CHR 0xAF))
    \<or> (a = CHR 0xE2 \<and> b = CHR 0x81 \<and> c = CHR 0x9F)
    \<or> (a = CHR 0xE3 \<and> b = CHR 0x80 \<and> c = CHR 0x80))"

fun ws_len :: "string \<Rightarrow> nat" where
  "ws_len [] = 0"
| "ws_len [a] = (if ascii_ws a then 1 else 0)"
| "ws_len [a, b] = (if ascii_ws a then 1 else if ws2 a b then 2 else 0)"
| "ws_len (a # b # c # s) =
     (if ascii_ws a then 1 else if ws2 a b then 2 else if ws3 a b c then 3 else 0)"

lemma ws_len_le: "ws_len s \<le> length s"
  by (cases s rule: ws_len.cases) auto

lemma ws_len_space [simp]: "ws_len (CHR '' '' # s) = 1"
  by (cases s rule: ws_len.cases) (auto simp: ascii_ws_def)

text \<open>The length of the white-space character a string ends with, read on its reversal.\<close>

fun ws_len_end :: "string \<Rightarrow> nat" where
  "ws_len_end [] = 0"
| "ws_len_end [a] = (if ascii_ws a then 1 else 0)"
| "ws_len_end [a, b] = (if ascii_ws a then 1 else if ws2 b a then 2 else 0)"
| "ws_len_end (a # b # c # s) =
     (if ascii_ws a then 1 else if ws2 b a then 2 else if ws3 c b a then 3 else 0)"

lemma ws_len_end_le: "ws_len_end s \<le> length s"
  by (cases s rule: ws_len_end.cases) auto

function trim_start :: "string \<Rightarrow> string" where
  "trim_start s = (if ws_len s = 0 then s else trim_start (drop (ws_len s) s))"
  by pat_completeness auto
termination
proof (relation "measure length")
  fix s :: string
  assume "ws_len s \<noteq> 0"
  then have "s \<noteq> []" by (cases s) auto
  with \<open>ws_len s \<noteq> 0\<close> show "(drop (ws_len s) s, s) \<in> measure length"
    by simp
qed simp

function trim_end_rev :: "string \<Rightarrow> string" where
  "trim_end_rev s = (if ws_len_end s = 0 then s else trim_end_rev (drop (ws_len_end s) s))"
  by pat_completeness auto
termination
proof (relation "measure length")
  fix s :: string
  assume "ws_len_end s \<noteq> 0"
  then have "s \<noteq> []" by (cases s) auto
  with \<open>ws_len_end s \<noteq> 0\<close> show "(drop (ws_len_end s) s, s) \<in> measure length"
    by simp
qed simp

declare trim_start.simps [simp del] trim_end_rev.simps [simp del]

text \<open>\<open>str::trim\<close>.\<close>

definition trim :: "string \<Rightarrow> string" where
  "trim s = rev (trim_end_rev (rev (trim_start s)))"

text \<open>\<open>str::split_whitespace\<close>, collected. The accumulator holds the current token.\<close>

function split_ws_from :: "string \<Rightarrow> string \<Rightarrow> string list" where
  "split_ws_from acc s =
     (if s = [] then (if acc = [] then [] else [acc])
      else if ws_len s \<noteq> 0
        then (if acc = [] then [] else [acc]) @ split_ws_from [] (drop (ws_len s) s)
        else split_ws_from (acc @ [hd s]) (tl s))"
  by pat_completeness auto
termination
  by (relation "measure (\<lambda>(acc, s). length s)") (auto simp: neq_Nil_conv)

declare split_ws_from.simps [simp del]

definition split_ws :: "string \<Rightarrow> string list" where
  "split_ws s = split_ws_from [] s"

text \<open>A token: non-empty, and no white-space character begins inside it.\<close>

definition no_ws :: "string \<Rightarrow> bool" where
  "no_ws t = (\<forall>i < length t. ws_len (drop i t) = 0)"


lemma ws_len_append: "ws_len p \<noteq> 0 \<Longrightarrow> ws_len (p @ q) = ws_len p"
proof (cases p rule: ws_len.cases)
  case (2 a)
  then show "ws_len p \<noteq> 0 \<Longrightarrow> ?thesis"
    by (cases q rule: ws_len.cases) (auto split: if_splits)
next
  case (3 a b)
  then show "ws_len p \<noteq> 0 \<Longrightarrow> ?thesis"
    by (cases q) (auto split: if_splits)
qed auto

lemma ws_len_prefix: "ws_len (p @ q) = 0 \<Longrightarrow> ws_len p = 0"
  using ws_len_append by fastforce

lemma ws_len_before_space:
  assumes "ws_len p = 0" and "p \<noteq> []"
  shows "ws_len (p @ CHR '' '' # q) = 0"
proof (cases p rule: ws_len.cases)
  case (2 a)
  with assms show ?thesis
    by (cases q) (auto simp: ws2_def ws3_def split: if_splits)
next
  case (3 a b)
  with assms show ?thesis
    by (auto simp: ws3_def split: if_splits)
qed (use assms in auto)

lemma no_ws_tl: "no_ws (c # t) \<Longrightarrow> no_ws t"
  unfolding no_ws_def by (metis Suc_less_eq drop_Suc_Cons length_Cons)

lemma no_ws_hd: "no_ws (c # t) \<Longrightarrow> ws_len (c # t) = 0"
  unfolding no_ws_def by force

lemma no_ws_chars: "no_ws t \<Longrightarrow> CHR '' '' \<notin> set t"
proof (induction t)
  case (Cons c t)
  then show ?case
    using no_ws_hd [of c t] no_ws_tl [of c t] by auto
qed simp

lemma split_ws_from_token_end:
  "no_ws t \<Longrightarrow> acc @ t \<noteq> [] \<Longrightarrow> split_ws_from acc t = [acc @ t]"
proof (induction t arbitrary: acc)
  case Nil
  then show ?case by (simp add: split_ws_from.simps)
next
  case (Cons c t)
  then show ?case
    using no_ws_hd [of c t] no_ws_tl [of c t] Cons.IH [of "acc @ [c]"]
    by (subst split_ws_from.simps) simp
qed

lemma split_ws_from_token:
  "no_ws t \<Longrightarrow> acc @ t \<noteq> [] \<Longrightarrow>
   split_ws_from acc (t @ CHR '' '' # s) = (acc @ t) # split_ws_from [] s"
proof (induction t arbitrary: acc)
  case Nil
  then show ?case by (subst split_ws_from.simps) simp
next
  case (Cons c t)
  have "ws_len ((c # t) @ CHR '' '' # s) = 0"
    using Cons.prems no_ws_hd by (intro ws_len_before_space) auto
  then show ?case
    using Cons.prems(1) no_ws_tl [of c t] Cons.IH [of "acc @ [c]"]
    by (subst split_ws_from.simps) simp
qed

lemma split_ws_token: "no_ws t \<Longrightarrow> t \<noteq> [] \<Longrightarrow> split_ws (t @ CHR '' '' # s) = t # split_ws s"
  using split_ws_from_token [of t "[]" s] by (simp add: split_ws_def)

text \<open>Joining tokens with a space and splitting again gives the tokens.\<close>

definition is_token :: "string \<Rightarrow> bool" where
  "is_token t = (t \<noteq> [] \<and> no_ws t)"

lemma split_ws_join: "list_all is_token ts \<Longrightarrow> split_ws (join '' '' ts) = ts"
proof (induction "'' ''" ts rule: join.induct)
  case 1
  then show ?case by (simp add: split_ws_def split_ws_from.simps)
next
  case (2 x)
  then show ?case
    using split_ws_from_token_end [of x "[]"] by (simp add: split_ws_def is_token_def)
next
  case (3 x y xs)
  then show ?case by (simp add: split_ws_token is_token_def)
qed

lemma split_ws_from_tokens:
  assumes "\<forall>i < length acc. ws_len (drop i acc @ s) = 0"
  shows "list_all is_token (split_ws_from acc s)"
  using assms
proof (induction acc s rule: split_ws_from.induct)
  case (1 acc s)
  have acc: "acc \<noteq> [] \<Longrightarrow> is_token acc"
    using "1.prems" ws_len_prefix by (fastforce simp: is_token_def no_ws_def)
  show ?case
  proof (cases "s = [] \<or> ws_len s \<noteq> 0")
    case True
    then show ?thesis
      using acc "1.IH"(1) by (subst split_ws_from.simps) auto
  next
    case False
    then have s: "s \<noteq> []" "ws_len s = 0" by auto
    have "\<forall>i < length (acc @ [hd s]). ws_len (drop i (acc @ [hd s]) @ tl s) = 0"
    proof (intro allI impI)
      fix i assume "i < length (acc @ [hd s])"
      then consider "i < length acc" | "i = length acc" by fastforce
      then show "ws_len (drop i (acc @ [hd s]) @ tl s) = 0"
        using s "1.prems" by cases simp_all
    qed
    then show ?thesis
      using s "1.IH"(2) by (subst split_ws_from.simps) simp
  qed
qed

lemma split_ws_tokens: "list_all is_token (split_ws s)"
  unfolding split_ws_def by (rule split_ws_from_tokens) simp

lemma split_ws_token_in: "t \<in> set (split_ws s) \<Longrightarrow> is_token t"
  using split_ws_tokens [of s] by (simp add: list_all_iff)

text \<open>Trimming.\<close>

definition trimmed :: "string \<Rightarrow> bool" where
  "trimmed t = (ws_len t = 0 \<and> ws_len_end (rev t) = 0)"

lemma trim_trimmed_id: "trimmed t \<Longrightarrow> trim t = t"
  unfolding trimmed_def trim_def
  by (subst trim_start.simps, simp, subst trim_end_rev.simps, simp)

lemma ws_len_trim_start: "ws_len (trim_start s) = 0"
  by (induction s rule: trim_start.induct) (subst trim_start.simps, simp)

lemma ws_len_end_trim_end: "ws_len_end (trim_end_rev s) = 0"
  by (induction s rule: trim_end_rev.induct) (subst trim_end_rev.simps, simp)

lemma trim_end_rev_suffix: "\<exists>p. s = p @ trim_end_rev s"
proof (induction s rule: trim_end_rev.induct)
  case (1 s)
  show ?case
  proof (cases "ws_len_end s = 0")
    case True
    then show ?thesis by (subst trim_end_rev.simps) simp
  next
    case False
    with 1 obtain p where "drop (ws_len_end s) s = p @ trim_end_rev (drop (ws_len_end s) s)"
      by blast
    then have "s = (take (ws_len_end s) s @ p) @ trim_end_rev s"
      using False by (subst trim_end_rev.simps) (metis append.assoc append_take_drop_id)
    then show ?thesis by blast
  qed
qed

lemma trim_is_trimmed: "trimmed (trim s)"
proof -
  obtain p where "rev (trim_start s) = p @ trim_end_rev (rev (trim_start s))"
    using trim_end_rev_suffix by blast
  then have "trim_start s = trim s @ rev p"
    unfolding trim_def by (metis rev_append rev_rev_ident)
  then have "ws_len (trim s) = 0"
    using ws_len_trim_start [of s] ws_len_prefix by metis
  then show ?thesis
    by (simp add: trimmed_def trim_def ws_len_end_trim_end)
qed

lemma trim_idem [simp]: "trim (trim s) = trim s"
  by (rule trim_trimmed_id [OF trim_is_trimmed])

text \<open>An ASCII character that is not white space neither begins nor ends one.\<close>

definition ascii_nonws :: "char \<Rightarrow> bool" where
  "ascii_nonws c = ((of_char c :: nat) < 128 \<and> \<not> ascii_ws c)"

lemma ascii_nonws_ws: "ascii_nonws a \<Longrightarrow> \<not> ascii_ws a \<and> \<not> ws2 a b \<and> \<not> ws3 a b c"
  by (auto simp: ascii_nonws_def ws2_def ws3_def)

lemma ascii_nonws_ws_end: "ascii_nonws a \<Longrightarrow> \<not> ascii_ws a \<and> \<not> ws2 b a \<and> \<not> ws3 c b a"
  by (auto simp: ascii_nonws_def ws2_def ws3_def)

lemma ws_len_ascii: "ascii_nonws a \<Longrightarrow> ws_len (a # s) = 0"
  using ascii_nonws_ws by (cases "a # s" rule: ws_len.cases) auto

lemma ws_len_end_ascii: "ascii_nonws a \<Longrightarrow> ws_len_end (a # s) = 0"
  using ascii_nonws_ws_end by (cases "a # s" rule: ws_len_end.cases) auto

lemma trimmed_ascii: "ascii_nonws a \<Longrightarrow> ascii_nonws b \<Longrightarrow> trimmed (a # s @ [b])"
  by (simp add: trimmed_def ws_len_ascii ws_len_end_ascii)

lemma no_ws_ascii: "list_all ascii_nonws t \<Longrightarrow> no_ws t"
  unfolding no_ws_def
proof (intro allI impI)
  fix i assume "list_all ascii_nonws t" and i: "i < length t"
  then have "ascii_nonws (t ! i)" by (simp add: list_all_length)
  then show "ws_len (drop i t) = 0"
    using ws_len_ascii i by (metis Cons_nth_drop_Suc)
qed

section \<open>Vectors\<close>

text \<open>\<open>sort_by_key\<close> of Rust is stable, as \<open>sort_key\<close> is.\<close>

lemma sum_list_map_plus:
  "sum_list (map (\<lambda>x. f x + g x) xs) = sum_list (map f xs) + (sum_list (map g xs) :: nat)"
  by (induction xs) simp_all

lemma length_filter_partition:
  "length (filter P xs) + length (filter (\<lambda>x. \<not> P x) xs) = length xs"
  by (induction xs) simp_all

section \<open>First occurrences\<close>

text \<open>
  \<open>find\<close>, \<open>contains\<close> and \<open>replacen(.., 1)\<close> with a string pattern: the text before and after its first
  occurrence.
\<close>

fun split_str :: "string \<Rightarrow> string \<Rightarrow> (string \<times> string) option" where
  "split_str p [] = (if p = [] then Some ([], []) else None)"
| "split_str p (c # s) =
     (case strip_prefix p (c # s) of
        Some r \<Rightarrow> Some ([], r)
      | None \<Rightarrow> map_option (\<lambda>(a, b). (c # a, b)) (split_str p s))"

definition contains_str :: "string \<Rightarrow> string \<Rightarrow> bool" where
  "contains_str p s = (split_str p s \<noteq> None)"

definition replace_first :: "string \<Rightarrow> string \<Rightarrow> string \<Rightarrow> string" where
  "replace_first p r s = (case split_str p s of Some (a, b) \<Rightarrow> a @ r @ b | None \<Rightarrow> s)"

lemma split_str_Some: "split_str p s = Some (a, b) \<Longrightarrow> s = a @ p @ b"
  by (induction p s arbitrary: a rule: split_str.induct)
    (auto simp: strip_prefix_Some split: option.splits if_splits)

lemma strip_prefix_append [simp]: "strip_prefix p (p @ s) = Some s"
  by (simp add: strip_prefix_Some)

lemma split_str_here [simp]: "split_str p (p @ s) = Some ([], s)"
proof (cases "p @ s")
  case (Cons c r)
  have "strip_prefix p (c # r) = Some s" unfolding Cons [symmetric] by simp
  then show ?thesis by (simp add: Cons)
qed simp

text \<open>A pattern whose first character does not occur in a text is found after the text.\<close>

lemma split_str_skip:
  "c \<notin> set a \<Longrightarrow> split_str (c # p) (a @ s) = map_option (\<lambda>(x, y). (a @ x, y)) (split_str (c # p) s)"
proof (induction a)
  case Nil
  then show ?case by (cases "split_str (c # p) s") auto
next
  case (Cons d a)
  then have "strip_prefix (c # p) (d # a @ s) = None" by (auto simp: strip_prefix_def)
  with Cons show ?case by (cases "split_str (c # p) s") auto
qed

lemma split_str_none: "c \<notin> set a \<Longrightarrow> split_str (c # p) a = None"
  using split_str_skip [of c a p "[]"] by simp

end
