(* ===== verification/Ordered_Map.thy ===== *)
theory Ordered_Map
  imports Prelude
begin

text \<open>
  \<open>BTreeMap\<close>: the ordered map the program keeps schema objects in. The interface a client relies
  on is the locale \<open>ordered_map\<close> (insert, lookup, the entries in key order); the model is an
  association list kept sorted by key, which is what iterating a \<open>BTreeMap\<close> yields, and the
  interpretation \<open>bt\<close> discharges the laws for it.
\<close>

text \<open>An association list with distinct keys is determined by its keys and its lookup.\<close>

lemma alist_keys_lookup:
  "distinct (map fst xs) \<Longrightarrow> map (\<lambda>k. (k, the (map_of xs k))) (map fst xs) = xs"
proof -
  assume "distinct (map fst xs)"
  then have "(fst e, the (map_of xs (fst e))) = e" if "e \<in> set xs" for e
    using that by (cases e) (simp add: map_of_is_SomeI)
  then show ?thesis by (simp add: map_idI)
qed

section \<open>The interface\<close>

locale ordered_map =
  fixes empty :: "'m"
    and insert :: "'k::linorder \<Rightarrow> 'v \<Rightarrow> 'm \<Rightarrow> 'm"
    and lookup :: "'m \<Rightarrow> 'k \<Rightarrow> 'v option"
    and entries :: "'m \<Rightarrow> ('k \<times> 'v) list"
    and invar :: "'m \<Rightarrow> bool"
  assumes lookup_empty: "lookup empty k = None"
    and lookup_insert: "invar m \<Longrightarrow> lookup (insert k v m) = (lookup m)(k \<mapsto> v)"
    and entries_lookup: "invar m \<Longrightarrow> map_of (entries m) = lookup m"
    and entries_sorted: "invar m \<Longrightarrow> sorted (map fst (entries m)) \<and> distinct (map fst (entries m))"
    and invar_empty: "invar empty"
    and invar_insert: "invar m \<Longrightarrow> invar (insert k v m)"
begin

lemma in_entries_iff:
  assumes "invar m"
  shows "(k, v) \<in> set (entries m) \<longleftrightarrow> lookup m k = Some v"
  using entries_lookup [OF assms] entries_sorted [OF assms]
  by (metis map_of_eq_Some_iff)

lemma keys_dom: "invar m \<Longrightarrow> fst ` set (entries m) = dom (lookup m)"
  using entries_lookup by (metis dom_map_of_conv_image_fst)

text \<open>Two maps that agree on every key list the same entries, in the same order.\<close>

lemma entries_ext:
  assumes "invar m" and "invar n" and "lookup m = lookup n"
  shows "entries m = entries n"
proof -
  have "set (map fst (entries m)) = set (map fst (entries n))"
    using assms keys_dom by (metis list.set_map)
  then have keys: "map fst (entries m) = map fst (entries n)"
    using assms entries_sorted by (blast intro: sorted_distinct_set_unique)
  have "map_of (entries m) = map_of (entries n)"
    using assms entries_lookup by simp
  then show ?thesis
    using keys assms entries_sorted alist_keys_lookup by metis
qed

text \<open>A fold of inserts keeps the last value written to each key.\<close>

lemma invar_inserts: "invar m \<Longrightarrow> invar (fold (\<lambda>(k, v). insert k v) kvs m)"
  by (induction kvs arbitrary: m) (auto simp: invar_insert)

lemma lookup_inserts:
  "invar m \<Longrightarrow> lookup (fold (\<lambda>(k, v). insert k v) kvs m) = lookup m ++ map_of (rev kvs)"
proof (induction kvs arbitrary: m)
  case (Cons kv kvs)
  then show ?case
    by (cases kv) (auto simp: invar_insert lookup_insert map_add_def split: option.splits)
qed simp

end

section \<open>The model\<close>

type_synonym ('k, 'v) btree = "('k \<times> 'v) list"

fun bt_insert :: "'k::linorder \<Rightarrow> 'v \<Rightarrow> ('k, 'v) btree \<Rightarrow> ('k, 'v) btree" where
  "bt_insert k v [] = [(k, v)]"
| "bt_insert k v (e # m) =
     (if fst e = k then (k, v) # m
      else if k < fst e then (k, v) # e # m
      else e # bt_insert k v m)"

fun bt_remove :: "'k \<Rightarrow> ('k, 'v) btree \<Rightarrow> ('k, 'v) btree" where
  "bt_remove k [] = []"
| "bt_remove k (e # m) = (if fst e = k then m else e # bt_remove k m)"

definition bt_invar :: "('k::linorder, 'v) btree \<Rightarrow> bool" where
  "bt_invar m = (sorted (map fst m) \<and> distinct (map fst m))"

lemma bt_invar_Nil [simp]: "bt_invar []"
  by (simp add: bt_invar_def)

lemma bt_invar_Cons: "bt_invar (e # m) \<longleftrightarrow> (\<forall>k \<in> fst ` set m. fst e < k) \<and> bt_invar m"
  by (auto simp: bt_invar_def less_le)

lemma bt_insert_keys: "fst ` set (bt_insert k v m) = {k} \<union> fst ` set m"
  by (induction m) auto

lemma bt_invar_insert: "bt_invar m \<Longrightarrow> bt_invar (bt_insert k v m)"
  by (induction m) (auto simp: bt_invar_Cons bt_insert_keys)

lemma bt_lookup_insert: "bt_invar m \<Longrightarrow> map_of (bt_insert k v m) = (map_of m)(k \<mapsto> v)"
  by (induction m) (auto simp: bt_invar_Cons)

lemma bt_remove_keys: "set (bt_remove k m) \<subseteq> set m"
  by (induction m) auto

lemma bt_invar_remove: "bt_invar m \<Longrightarrow> bt_invar (bt_remove k m)"
  by (induction m) (use bt_remove_keys in \<open>fastforce simp: bt_invar_Cons\<close>)+

lemma bt_lookup_remove:
  assumes "bt_invar m"
  shows "map_of (bt_remove k m) = (map_of m)(k := None)"
  using assms
proof (induction m)
  case (Cons e m)
  show ?case
  proof (cases "fst e = k")
    case True
    with Cons.prems have "k \<notin> fst ` set m" by (auto simp: bt_invar_Cons)
    then have "map_of m k = None" by (simp add: map_of_eq_None_iff)
    with True show ?thesis by (auto simp: fun_eq_iff)
  next
    case False
    with Cons show ?thesis by (auto simp: bt_invar_Cons fun_eq_iff)
  qed
qed auto

interpretation bt: ordered_map "[]" bt_insert map_of "\<lambda>m. m" bt_invar
  by unfold_locales (auto simp: bt_lookup_insert bt_invar_insert, auto simp: bt_invar_def)

lemmas bt_simps = bt_invar_insert bt_invar_remove bt_lookup_insert bt_lookup_remove

end
