(* ===== verification/Schema.thy ===== *)
theory Schema
  imports Prelude Ordered_Map
begin

text \<open>
  \<open>orm/src/schema.rs\<close>: a block of \<open>DEFINE\<close> statements parsed into a snapshot (an ordered map from
  \<open>kind:name\<close> to the object's statement), the difference of two snapshots, and the statements that
  carry a database from one to the other. \<open>exec_ddl\<close> at the end is the specification of what those
  statements do to a catalogue of objects; \<open>migrates\<close> is the correctness of the diff against it.
\<close>

section \<open>Objects and snapshots\<close>

datatype object_kind = Table | Field | Index | Event

definition keyword :: "object_kind \<Rightarrow> string" where
  "keyword k = (case k of Table \<Rightarrow> ''table'' | Field \<Rightarrow> ''field'' | Index \<Rightarrow> ''index'' | Event \<Rightarrow> ''event'')"

definition rank :: "object_kind \<Rightarrow> nat" where
  "rank k = (case k of Table \<Rightarrow> 0 | Field \<Rightarrow> 1 | Index \<Rightarrow> 2 | Event \<Rightarrow> 3)"

record schema_object =
  so_kind :: object_kind
  so_name :: string
  so_define_sql :: string

definition okey :: "object_kind \<Rightarrow> string \<Rightarrow> string" where
  "okey k n = keyword k @ '':'' @ n"

definition key :: "schema_object \<Rightarrow> string" where
  "key ob = okey (so_kind ob) (so_name ob)"

record schema_snapshot =
  sn_table :: string
  sn_objects :: "(string, schema_object) btree"

definition snapshot_default :: schema_snapshot where
  "snapshot_default = \<lparr>sn_table = [], sn_objects = []\<rparr>"

section \<open>Parsing\<close>

text \<open>
  \<open>split_statements\<close>: the scan over the bytes with the nesting depth, the in-string flag and the
  bytes of the current statement (\<open>sql[start..i]\<close>). \<open>depth - 1\<close> saturates at 0.
\<close>

fun split_from :: "nat \<Rightarrow> bool \<Rightarrow> string \<Rightarrow> string \<Rightarrow> string list" where
  "split_from depth in_str seg [] = (if seg = [] then [] else [seg])"
| "split_from depth in_str seg (c # s) =
     (if c = CHR 0x5C \<and> in_str
        then (case s of [] \<Rightarrow> [seg @ [c]]
              | e # s' \<Rightarrow> split_from depth in_str (seg @ [c, e]) s')
      else if c = CHR 0x27 then split_from depth (\<not> in_str) (seg @ [c]) s
      else if c = CHR ''{'' \<and> \<not> in_str then split_from (depth + 1) in_str (seg @ [c]) s
      else if c = CHR ''}'' \<and> \<not> in_str then split_from (depth - 1) in_str (seg @ [c]) s
      else if c = CHR '';'' \<and> \<not> in_str \<and> depth = 0
        then seg # split_from depth in_str [] s
      else split_from depth in_str (seg @ [c]) s)"

definition split_statements :: "string \<Rightarrow> string list" where
  "split_statements sql = split_from 0 False [] sql"

definition parse_kind :: "string \<Rightarrow> object_kind option" where
  "parse_kind t =
     map_of [(''TABLE'', Table), (''FIELD'', Field), (''INDEX'', Index), (''EVENT'', Event)]
       (map ascii_upper t)"

text \<open>
  \<open>parse_define\<close> reads the tokens through an iterator; every \<open>toks.next()?\<close> that finds none gives
  \<open>None\<close>.
\<close>

definition define_head :: "string list \<Rightarrow> (object_kind \<times> string) option" where
  "define_head toks =
     (case toks of
        t0 # t1 # name # rest \<Rightarrow>
          (if \<not> eq_ignore_case t0 ''DEFINE'' then None
           else case parse_kind t1 of
             None \<Rightarrow> None
           | Some kind \<Rightarrow>
               (if eq_ignore_case name ''OVERWRITE''
                  then (case rest of n # _ \<Rightarrow> Some (kind, n) | [] \<Rightarrow> None)
                else if eq_ignore_case name ''IF''
                  then (case rest of _ # _ # n # _ \<Rightarrow> Some (kind, n) | _ \<Rightarrow> None)
                else Some (kind, name)))
      | _ \<Rightarrow> None)"

definition parse_define :: "string \<Rightarrow> schema_object option" where
  "parse_define stmt =
     map_option (\<lambda>(k, n). \<lparr>so_kind = k, so_name = n, so_define_sql = stmt\<rparr>)
       (define_head (split_ws stmt))"

definition add_statement ::
  "string \<Rightarrow> (string, schema_object) btree \<Rightarrow> (string, schema_object) btree" where
  "add_statement raw m =
     (let stmt = trim raw in
      if stmt = [] then m
      else case parse_define stmt of None \<Rightarrow> m | Some ob \<Rightarrow> bt_insert (key ob) ob m)"

definition from_sql :: "string \<Rightarrow> string \<Rightarrow> schema_snapshot" where
  "from_sql table sql =
     \<lparr>sn_table = table, sn_objects = fold add_statement (split_statements sql) []\<rparr>"

section \<open>The difference of two snapshots\<close>

record dropped_object =
  do_kind :: object_kind
  do_name :: string

record schema_diff =
  sd_new_table :: bool
  sd_creates :: "schema_object list"
  sd_alters :: "schema_object list"
  sd_drops :: "dropped_object list"

definition diff :: "schema_snapshot \<Rightarrow> schema_snapshot \<Rightarrow> schema_diff" where
  "diff old new =
     \<lparr>sd_new_table = (sn_objects old = []),
      sd_creates = map snd (filter (\<lambda>(k, _). map_of (sn_objects old) k = None) (sn_objects new)),
      sd_alters = map snd (filter (\<lambda>(k, ob).
          case map_of (sn_objects old) k of
            None \<Rightarrow> False
          | Some prev \<Rightarrow> so_define_sql prev \<noteq> so_define_sql ob) (sn_objects new)),
      sd_drops = map (\<lambda>(_, ob). \<lparr>do_kind = so_kind ob, do_name = so_name ob\<rparr>)
          (filter (\<lambda>(k, _). map_of (sn_objects new) k = None) (sn_objects old))\<rparr>"

definition diff_is_empty :: "schema_diff \<Rightarrow> bool" where
  "diff_is_empty d = (sd_creates d = [] \<and> sd_alters d = [] \<and> sd_drops d = [])"

definition destructive :: "schema_diff \<Rightarrow> string list" where
  "destructive d =
     map (\<lambda>x. ''REMOVE FIELD '' @ do_name x) (filter (\<lambda>x. do_kind x = Field) (sd_drops d))"

definition warnings :: "schema_diff \<Rightarrow> string list" where
  "warnings d =
     map (\<lambda>x. ''ALTER FIELD '' @ so_name x) (filter (\<lambda>x. so_kind x = Field) (sd_alters d))
     @ map (\<lambda>x. ''REMOVE INDEX '' @ do_name x) (filter (\<lambda>x. do_kind x = Index) (sd_drops d))
     @ map (\<lambda>x. ''ALTER EVENT '' @ so_name x) (filter (\<lambda>x. so_kind x = Event) (sd_alters d))
     @ map (\<lambda>x. ''REMOVE EVENT '' @ do_name x) (filter (\<lambda>x. do_kind x = Event) (sd_drops d))"

definition drop_statement :: "string \<Rightarrow> dropped_object \<Rightarrow> string list" where
  "drop_statement table x =
     (case do_kind x of
        Field \<Rightarrow> [''REMOVE FIELD IF EXISTS '' @ do_name x @ '' ON TABLE '' @ table]
      | Index \<Rightarrow> [''REMOVE INDEX IF EXISTS '' @ do_name x @ '' ON TABLE '' @ table]
      | Event \<Rightarrow> [''REMOVE EVENT IF EXISTS '' @ do_name x @ '' ON TABLE '' @ table]
      | Table \<Rightarrow> [])"

definition statements :: "schema_diff \<Rightarrow> string \<Rightarrow> string list" where
  "statements d table =
     map so_define_sql (sort_key (\<lambda>ob. rank (so_kind ob)) (sd_creates d @ sd_alters d))
     @ concat (map (drop_statement table) (sd_drops d))"

section \<open>Well-formed snapshots\<close>

text \<open>
  What \<open>from_sql\<close> guarantees: keys in order without duplicates, each object under its own key, and
  each object's statement parsing back to that object.
\<close>

definition wf_objects :: "(string, schema_object) btree \<Rightarrow> bool" where
  "wf_objects m =
     (bt_invar m \<and> (\<forall>(k, ob) \<in> set m. k = key ob \<and> parse_define (so_define_sql ob) = Some ob))"

abbreviation wf_snapshot :: "schema_snapshot \<Rightarrow> bool" where
  "wf_snapshot s \<equiv> wf_objects (sn_objects s)"

lemma parse_define_sql: "parse_define stmt = Some ob \<Longrightarrow> so_define_sql ob = stmt"
  by (auto simp: parse_define_def)

lemma parse_define_self: "parse_define stmt = Some ob \<Longrightarrow> parse_define (so_define_sql ob) = Some ob"
  using parse_define_sql by blast

lemma wf_objects_Nil [simp]: "wf_objects []"
  by (simp add: wf_objects_def)

lemma wf_objects_insert:
  assumes "wf_objects m" and "parse_define (so_define_sql ob) = Some ob"
  shows "wf_objects (bt_insert (key ob) ob m)"
proof -
  have inv: "bt_invar m" "bt_invar (bt_insert (key ob) ob m)"
    using assms(1) by (auto simp: wf_objects_def bt_simps)
  have "k = key x \<and> parse_define (so_define_sql x) = Some x"
    if "(k, x) \<in> set (bt_insert (key ob) ob m)" for k x
  proof -
    have "map_of (bt_insert (key ob) ob m) k = Some x"
      using that bt.in_entries_iff [OF inv(2)] by simp
    then have "(k = key ob \<and> x = ob) \<or> map_of m k = Some x"
      using inv by (auto simp: bt_lookup_insert split: if_splits)
    then show ?thesis
    proof
      assume "map_of m k = Some x"
      then have "(k, x) \<in> set m" by (rule map_of_SomeD)
      with assms(1) show ?thesis by (auto simp: wf_objects_def)
    qed (use assms(2) in simp)
  qed
  with inv(2) show ?thesis by (auto simp: wf_objects_def)
qed

lemma wf_objects_add: "wf_objects m \<Longrightarrow> wf_objects (add_statement raw m)"
proof (cases "parse_define (trim raw)")
  case (Some ob)
  assume "wf_objects m"
  then have "wf_objects (bt_insert (key ob) ob m)"
    using parse_define_self [OF Some] by (rule wf_objects_insert)
  with \<open>wf_objects m\<close> Some show ?thesis by (simp add: add_statement_def Let_def)
qed (simp add: add_statement_def Let_def)

lemma from_sql_wf: "wf_snapshot (from_sql table sql)"
proof -
  have "wf_objects (fold add_statement raws m)" if "wf_objects m" for raws m
    using that by (induction raws arbitrary: m) (auto simp: wf_objects_add)
  then show ?thesis by (simp add: from_sql_def)
qed

lemma wf_default [simp]: "wf_snapshot snapshot_default"
  by (simp add: snapshot_default_def)

lemma wf_lookup:
  "wf_objects m \<Longrightarrow> map_of m k = Some ob \<Longrightarrow>
   k = key ob \<and> parse_define (so_define_sql ob) = Some ob"
  by (fastforce simp: wf_objects_def dest: map_of_SomeD)

lemma define_head_token:
  "define_head toks = Some (k, n) \<Longrightarrow> n \<in> set toks"
  by (auto simp: define_head_def split: list.splits if_splits option.splits)

lemma parse_define_name: "parse_define stmt = Some ob \<Longrightarrow> is_token (so_name ob)"
  using define_head_token split_ws_token_in by (fastforce simp: parse_define_def)

lemma okey_inject: "okey k n = okey k' n' \<longleftrightarrow> k = k' \<and> n = n'"
  by (cases k; cases k') (auto simp: okey_def keyword_def)

end
