(* ===== verification/Schema_Exec.thy ===== *)
theory Schema_Exec
  imports Schema
begin

text \<open>
  What a list of DDL statements does to a catalogue of schema objects, read from the statements'
  text alone, and the refinement that connects it to \<open>schema.rs\<close>: executing the statements that
  \<open>SchemaDiff::statements\<close> emits for \<open>diff old new\<close> turns the catalogue of \<open>old\<close> into the one of
  \<open>new\<close>.
\<close>

section \<open>The specification: executing statements\<close>

definition remove_head :: "string list \<Rightarrow> (object_kind \<times> string) option" where
  "remove_head toks =
     (case toks of
        t0 # t1 # t2 # t3 # name # _ \<Rightarrow>
          (if eq_ignore_case t0 ''REMOVE'' \<and> eq_ignore_case t2 ''IF'' \<and> eq_ignore_case t3 ''EXISTS''
           then map_option (\<lambda>k. (k, name)) (parse_kind t1) else None)
      | _ \<Rightarrow> None)"

definition exec_ddl ::
  "string \<Rightarrow> (string, schema_object) btree \<Rightarrow> (string, schema_object) btree" where
  "exec_ddl stmt m =
     (case parse_define stmt of
        Some ob \<Rightarrow> bt_insert (key ob) ob m
      | None \<Rightarrow>
          (case remove_head (split_ws stmt) of
             Some (k, n) \<Rightarrow> bt_remove (okey k n) m
           | None \<Rightarrow> m))"

section \<open>Executing the emitted statements\<close>

lemma is_token_ascii: "t \<noteq> [] \<Longrightarrow> list_all ascii_nonws t \<Longrightarrow> is_token t"
  by (simp add: is_token_def no_ws_ascii)

lemma split_ws_words:
  assumes "w \<in> {''FIELD'', ''INDEX'', ''EVENT''}"
  shows "split_ws (''REMOVE '' @ w @ '' IF EXISTS '' @ x) = [''REMOVE'', w, ''IF'', ''EXISTS''] @ split_ws x"
proof -
  have tok: "is_token t" if "t \<in> {''REMOVE'', ''FIELD'', ''INDEX'', ''EVENT'', ''IF'', ''EXISTS''}" for t
    using that by (intro is_token_ascii) (auto simp: ascii_nonws_def ascii_ws_def)
  have step: "split_ws (t @ CHR '' '' # s) = t # split_ws s"
    if "t \<in> {''REMOVE'', ''FIELD'', ''INDEX'', ''EVENT'', ''IF'', ''EXISTS''}" for t s
    by (rule split_ws_token) (use tok [OF that] in \<open>simp_all add: is_token_def\<close>)
  have "split_ws (''REMOVE '' @ w @ '' IF EXISTS '' @ x)
      = split_ws (''REMOVE'' @ CHR '' '' # (w @ CHR '' '' # (''IF'' @ CHR '' '' # (''EXISTS'' @ CHR '' '' # x))))"
    by simp
  also have "\<dots> = ''REMOVE'' # w # ''IF'' # ''EXISTS'' # split_ws x"
  proof -
    have "split_ws (w @ CHR '' '' # s) = w # split_ws s" for s
      using assms by (intro step) auto
    moreover have "split_ws (t @ CHR '' '' # s) = t # split_ws s"
      if "t = ''REMOVE'' \<or> t = ''IF'' \<or> t = ''EXISTS''" for t s
      using that by (intro step) auto
    ultimately show ?thesis by (simp only: simp_thms)
  qed
  finally show ?thesis by simp
qed

lemma exec_remove:
  assumes "is_token n" and "(w, k) \<in> {(''FIELD'', Field), (''INDEX'', Index), (''EVENT'', Event)}"
  shows "exec_ddl (''REMOVE '' @ w @ '' IF EXISTS '' @ n @ '' ON TABLE '' @ t) m = bt_remove (okey k n) m"
proof -
  have n: "split_ws (n @ '' ON TABLE '' @ t) = n # split_ws (''ON TABLE '' @ t)"
    using split_ws_token [of n "''ON TABLE '' @ t"] assms(1) by (simp add: is_token_def)
  have toks: "split_ws (''REMOVE '' @ w @ '' IF EXISTS '' @ n @ '' ON TABLE '' @ t)
      = [''REMOVE'', w, ''IF'', ''EXISTS'', n] @ split_ws (''ON TABLE '' @ t)"
    using split_ws_words [of w "n @ '' ON TABLE '' @ t"] assms(2) n by auto
  let ?stmt = "''REMOVE '' @ w @ '' IF EXISTS '' @ n @ '' ON TABLE '' @ t"
  have "define_head ([''REMOVE'', w, ''IF'', ''EXISTS'', n] @ r) = None" for r
    by (simp add: define_head_def eq_ignore_case_def ascii_lower_def)
  then have "parse_define ?stmt = None"
    by (simp only: parse_define_def toks option.map)
  moreover have "parse_kind w = Some k"
    using assms(2) by (auto simp: parse_kind_def ascii_upper_def)
  then have "remove_head ([''REMOVE'', w, ''IF'', ''EXISTS'', n] @ r) = Some (k, n)" for r
    by (simp add: remove_head_def eq_ignore_case_def)
  then have "remove_head (split_ws ?stmt) = Some (k, n)"
    by (simp only: toks)
  ultimately show ?thesis
    by (simp only: exec_ddl_def option.case prod.case)
qed

lemma exec_drop_statement:
  assumes "is_token (do_name x)"
  shows "fold exec_ddl (drop_statement table x) m =
     (if do_kind x = Table then m else bt_remove (okey (do_kind x) (do_name x)) m)"
  using exec_remove [of "do_name x" "''FIELD''" Field] exec_remove [of "do_name x" "''INDEX''" Index]
    exec_remove [of "do_name x" "''EVENT''" Event] assms
  by (cases "do_kind x") (simp_all add: drop_statement_def)

definition drop_keys :: "dropped_object list \<Rightarrow> string set" where
  "drop_keys ds = {okey (do_kind x) (do_name x) | x. x \<in> set ds \<and> do_kind x \<noteq> Table}"

lemma exec_drops:
  assumes "list_all (\<lambda>x. is_token (do_name x)) ds" and "bt_invar m"
  shows "bt_invar (fold exec_ddl (concat (map (drop_statement table) ds)) m)"
    and "map_of (fold exec_ddl (concat (map (drop_statement table) ds)) m)
         = (\<lambda>k. if k \<in> drop_keys ds then None else map_of m k)"
proof -
  have "bt_invar (fold exec_ddl (concat (map (drop_statement table) ds)) m) \<and>
    map_of (fold exec_ddl (concat (map (drop_statement table) ds)) m)
      = (\<lambda>k. if k \<in> drop_keys ds then None else map_of m k)"
    using assms
  proof (induction ds arbitrary: m)
    case Nil
    then show ?case by (simp add: drop_keys_def)
  next
    case (Cons x ds)
    let ?m = "if do_kind x = Table then m else bt_remove (okey (do_kind x) (do_name x)) m"
    have "fold exec_ddl (concat (map (drop_statement table) (x # ds))) m
        = fold exec_ddl (concat (map (drop_statement table) ds)) ?m"
      using Cons.prems exec_drop_statement by simp
    moreover have "bt_invar ?m"
      using Cons.prems by (simp add: bt_simps)
    moreover have "map_of ?m = (\<lambda>k. if k \<in> drop_keys [x] then None else map_of m k)"
      using Cons.prems by (auto simp: bt_simps drop_keys_def)
    moreover have "drop_keys (x # ds) = drop_keys [x] \<union> drop_keys ds"
      by (auto simp: drop_keys_def)
    moreover have "bt_invar (fold exec_ddl (concat (map (drop_statement table) ds)) ?m) \<and>
      map_of (fold exec_ddl (concat (map (drop_statement table) ds)) ?m)
        = (\<lambda>k. if k \<in> drop_keys ds then None else map_of ?m k)"
      using Cons.IH [of ?m] Cons.prems(1) \<open>bt_invar ?m\<close> by simp
    ultimately show ?case
      by (simp only: Un_iff) (auto simp: fun_eq_iff)
  qed
  then show "bt_invar (fold exec_ddl (concat (map (drop_statement table) ds)) m)"
    and "map_of (fold exec_ddl (concat (map (drop_statement table) ds)) m)
         = (\<lambda>k. if k \<in> drop_keys ds then None else map_of m k)"
    by blast+
qed

lemma exec_defines:
  assumes "list_all (\<lambda>ob. parse_define (so_define_sql ob) = Some ob) obs"
  shows "fold exec_ddl (map so_define_sql obs) m
       = fold (\<lambda>(k, v). bt_insert k v) (map (\<lambda>ob. (key ob, ob)) obs) m"
  using assms by (induction obs arbitrary: m) (auto simp: exec_ddl_def)

section \<open>What the diff contains\<close>

lemma wf_mem: "wf_objects m \<Longrightarrow> (k, ob) \<in> set m \<longleftrightarrow> map_of m k = Some ob"
  using bt.in_entries_iff [of m k ob] by (simp add: wf_objects_def)

lemma creates_alters_iff:
  assumes "wf_snapshot new"
  shows "ob \<in> set (sd_creates (diff old new) @ sd_alters (diff old new)) \<longleftrightarrow>
     map_of (sn_objects new) (key ob) = Some ob \<and>
     (map_of (sn_objects old) (key ob) = None \<or>
      (\<exists>prev. map_of (sn_objects old) (key ob) = Some prev \<and> so_define_sql prev \<noteq> so_define_sql ob))"
proof -
  have mem: "(k, x) \<in> set (sn_objects new) \<longleftrightarrow> map_of (sn_objects new) k = Some x" for k x
    using assms bt.in_entries_iff [of "sn_objects new"] by (simp add: wf_objects_def)
  have key: "k = key x" if "map_of (sn_objects new) k = Some x" for k x
    using wf_lookup [OF assms that] by simp
  let ?changed = "\<lambda>k x. \<exists>prev. map_of (sn_objects old) k = Some prev \<and> so_define_sql prev \<noteq> so_define_sql x"
  have "ob \<in> set (sd_creates (diff old new)) \<longleftrightarrow>
      (\<exists>k. map_of (sn_objects new) k = Some ob \<and> map_of (sn_objects old) k = None)"
    by (auto simp: diff_def mem image_iff)
  moreover have "ob \<in> set (sd_alters (diff old new)) \<longleftrightarrow>
      (\<exists>k. map_of (sn_objects new) k = Some ob \<and> ?changed k ob)"
    by (auto simp: diff_def mem image_iff split: option.splits)
  ultimately have "ob \<in> set (sd_creates (diff old new) @ sd_alters (diff old new)) \<longleftrightarrow>
      (\<exists>k. map_of (sn_objects new) k = Some ob \<and> (map_of (sn_objects old) k = None \<or> ?changed k ob))"
    by auto
  then show ?thesis using key by metis
qed

lemma drops_iff:
  assumes "wf_snapshot old"
  shows "x \<in> set (sd_drops (diff old new)) \<longleftrightarrow>
     (\<exists>ob. map_of (sn_objects old) (okey (do_kind x) (do_name x)) = Some ob
        \<and> so_kind ob = do_kind x \<and> so_name ob = do_name x)
     \<and> map_of (sn_objects new) (okey (do_kind x) (do_name x)) = None"
proof -
  have mem: "(k, ob) \<in> set (sn_objects old) \<longleftrightarrow> map_of (sn_objects old) k = Some ob" for k ob
    using assms bt.in_entries_iff [of "sn_objects old"] by (simp add: wf_objects_def)
  have key: "k = okey (so_kind ob) (so_name ob)" if "map_of (sn_objects old) k = Some ob" for k ob
    using wf_lookup [OF assms that] by (simp add: key_def)
  show ?thesis
  proof
    assume "x \<in> set (sd_drops (diff old new))"
    then obtain k ob where "map_of (sn_objects old) k = Some ob" "map_of (sn_objects new) k = None"
      "x = \<lparr>do_kind = so_kind ob, do_name = so_name ob\<rparr>"
      by (auto simp: diff_def mem)
    then show "(\<exists>ob. map_of (sn_objects old) (okey (do_kind x) (do_name x)) = Some ob
        \<and> so_kind ob = do_kind x \<and> so_name ob = do_name x)
      \<and> map_of (sn_objects new) (okey (do_kind x) (do_name x)) = None"
      using key by auto
  next
    assume r: "(\<exists>ob. map_of (sn_objects old) (okey (do_kind x) (do_name x)) = Some ob
        \<and> so_kind ob = do_kind x \<and> so_name ob = do_name x)
      \<and> map_of (sn_objects new) (okey (do_kind x) (do_name x)) = None"
    then obtain ob where "(okey (do_kind x) (do_name x), ob) \<in> set (sn_objects old)"
      "so_kind ob = do_kind x" "so_name ob = do_name x"
      using mem by blast
    with r show "x \<in> set (sd_drops (diff old new))"
      by (force simp: diff_def image_iff)
  qed
qed

lemma drops_tokens: "wf_snapshot old \<Longrightarrow> list_all (\<lambda>x. is_token (do_name x)) (sd_drops (diff old new))"
  using wf_lookup parse_define_name by (fastforce simp: list_all_iff drops_iff)

text \<open>Each key is created, altered or dropped at most once.\<close>

lemma creates_alters_keys_distinct:
  assumes "wf_snapshot new"
  shows "distinct (map key (sd_creates (diff old new) @ sd_alters (diff old new)))"
proof -
  have keys: "map key (map snd (filter P (sn_objects new))) = map fst (filter P (sn_objects new))" for P
    using assms by (auto simp: wf_objects_def)
  have dist: "distinct (map fst (filter P (sn_objects new)))" for P
    using assms by (simp add: wf_objects_def bt_invar_def distinct_map_filter)
  have "set (map fst (filter (\<lambda>(k, _). map_of (sn_objects old) k = None) (sn_objects new)))
      \<inter> set (map fst (filter (\<lambda>(k, ob). case map_of (sn_objects old) k of None \<Rightarrow> False
          | Some prev \<Rightarrow> so_define_sql prev \<noteq> so_define_sql ob) (sn_objects new))) = {}"
    by (auto split: option.splits)
  then show ?thesis
    using keys dist by (simp only: diff_def schema_diff.simps map_append distinct_append)
qed


section \<open>The emitted statements migrate the catalogue\<close>

text \<open>
  Executing the statements of \<open>diff old new\<close> on the catalogue of \<open>old\<close> gives exactly the objects
  of \<open>new\<close>, except that a table object that \<open>new\<close> lacks stays: the engine never drops a table.
\<close>

lemma map_of_keyed:
  assumes "distinct (map key obs)"
  shows "map_of (rev (map (\<lambda>ob. (key ob, ob)) obs)) k = Some ob \<longleftrightarrow> ob \<in> set obs \<and> key ob = k"
proof -
  have "map fst (map (\<lambda>ob. (key ob, ob)) obs) = map key obs" by simp
  then have "distinct (map fst (rev (map (\<lambda>ob. (key ob, ob)) obs)))"
    using assms by (metis distinct_rev rev_map)
  then show ?thesis by (auto simp: map_of_eq_Some_iff)
qed

lemma drop_keys_diff:
  assumes "wf_snapshot old"
  shows "k \<in> drop_keys (sd_drops (diff old new)) \<longleftrightarrow>
     map_of (sn_objects new) k = None \<and>
     (\<exists>ob. map_of (sn_objects old) k = Some ob \<and> so_kind ob \<noteq> Table)"
proof -
  have key: "k = okey (so_kind ob) (so_name ob)" if "map_of (sn_objects old) k = Some ob" for k ob
    using wf_lookup [OF assms that] by (simp add: key_def)
  show ?thesis
  proof
    assume "k \<in> drop_keys (sd_drops (diff old new))"
    then show "map_of (sn_objects new) k = None \<and>
      (\<exists>ob. map_of (sn_objects old) k = Some ob \<and> so_kind ob \<noteq> Table)"
      by (auto simp: drop_keys_def drops_iff [OF assms])
  next
    assume r: "map_of (sn_objects new) k = None \<and>
      (\<exists>ob. map_of (sn_objects old) k = Some ob \<and> so_kind ob \<noteq> Table)"
    then obtain ob where ob: "map_of (sn_objects old) k = Some ob" "so_kind ob \<noteq> Table" by blast
    let ?x = "\<lparr>do_kind = so_kind ob, do_name = so_name ob\<rparr>"
    have "?x \<in> set (sd_drops (diff old new))"
      using r ob key [OF ob(1)] by (simp add: drops_iff [OF assms])
    then show "k \<in> drop_keys (sd_drops (diff old new))"
      using ob key [OF ob(1)] unfolding drop_keys_def by force
  qed
qed

lemma migrate_lookup:
  assumes old: "wf_snapshot old" and new: "wf_snapshot new"
  shows "bt_invar (fold exec_ddl (statements (diff old new) table) (sn_objects old))"
    and "map_of (fold exec_ddl (statements (diff old new) table) (sn_objects old)) k =
      (case map_of (sn_objects new) k of
         Some ob \<Rightarrow> Some (if (\<exists>prev. map_of (sn_objects old) k = Some prev
                                \<and> so_define_sql prev = so_define_sql ob)
                         then the (map_of (sn_objects old) k) else ob)
       | None \<Rightarrow> (case map_of (sn_objects old) k of
           Some ob \<Rightarrow> if so_kind ob = Table then Some ob else None
         | None \<Rightarrow> None))"
proof -
  let ?d = "diff old new" and ?old = "sn_objects old"
  define obs where "obs = sort_key (\<lambda>ob. rank (so_kind ob)) (sd_creates ?d @ sd_alters ?d)"
  define upds where "upds = map_of (rev (map (\<lambda>ob. (key ob, ob)) obs))"
  define m1 where "m1 = fold exec_ddl (map so_define_sql obs) ?old"
  have inv: "bt_invar ?old" using old by (simp add: wf_objects_def)
  have set_obs: "set obs = set (sd_creates ?d @ sd_alters ?d)" by (simp only: obs_def set_sort)
  have parse: "list_all (\<lambda>ob. parse_define (so_define_sql ob) = Some ob) obs"
    unfolding list_all_iff set_obs using creates_alters_iff [OF new] wf_lookup [OF new] by blast
  have m1: "m1 = fold (\<lambda>(k, v). bt_insert k v) (map (\<lambda>ob. (key ob, ob)) obs) ?old"
    using exec_defines [OF parse] by (simp only: m1_def)
  have "distinct (map key obs)"
    using creates_alters_keys_distinct [OF new, of old]
    by (simp only: obs_def distinct_map distinct_sort set_sort)
  note keyed = map_of_keyed [OF this, folded upds_def]
  have inv1: "bt_invar m1"
    using bt.invar_inserts [OF inv] by (simp only: m1)
  have look1: "map_of m1 k = (case upds k of None \<Rightarrow> map_of ?old k | Some ob \<Rightarrow> Some ob)" for k
    unfolding m1 bt.lookup_inserts [OF inv] upds_def map_add_def by (rule refl)
  have stm: "fold exec_ddl (statements ?d table) ?old
      = fold exec_ddl (concat (map (drop_statement table) (sd_drops ?d))) m1"
    by (simp only: statements_def obs_def m1_def fold_append o_apply)
  show "bt_invar (fold exec_ddl (statements ?d table) ?old)"
    unfolding stm by (rule exec_drops(1) [OF drops_tokens [OF old] inv1])
  have look2: "map_of (fold exec_ddl (statements ?d table) ?old) k
      = (if k \<in> drop_keys (sd_drops ?d) then None else map_of m1 k)"
    unfolding stm by (simp only: exec_drops(2) [OF drops_tokens [OF old] inv1])
  have upd: "upds k = Some ob \<longleftrightarrow> map_of (sn_objects new) k = Some ob \<and>
      (map_of ?old k = None \<or> (\<exists>prev. map_of ?old k = Some prev \<and> so_define_sql prev \<noteq> so_define_sql ob))"
    for ob
    unfolding keyed set_obs using creates_alters_iff [OF new] wf_lookup [OF new] by metis
  have upd_None: "upds k = None" if "\<And>ob. upds k \<noteq> Some ob"
    using that [of "the (upds k)"] by (cases "upds k") simp_all
  show "map_of (fold exec_ddl (statements ?d table) ?old) k =
      (case map_of (sn_objects new) k of
         Some ob \<Rightarrow> Some (if (\<exists>prev. map_of ?old k = Some prev \<and> so_define_sql prev = so_define_sql ob)
                         then the (map_of ?old k) else ob)
       | None \<Rightarrow> (case map_of ?old k of
           Some ob \<Rightarrow> if so_kind ob = Table then Some ob else None
         | None \<Rightarrow> None))"
  proof (cases "map_of (sn_objects new) k")
    case None
    then have "map_of m1 k = map_of ?old k"
      using upd_None upd by (simp add: look1)
    with None show ?thesis
      by (cases "map_of ?old k") (simp_all add: look2 drop_keys_diff [OF old])
  next
    case (Some ob)
    then have nd: "k \<notin> drop_keys (sd_drops ?d)" by (simp add: drop_keys_diff [OF old])
    show ?thesis
    proof (cases "\<exists>prev. map_of ?old k = Some prev \<and> so_define_sql prev = so_define_sql ob")
      case True
      then obtain prev where prev: "map_of ?old k = Some prev" "so_define_sql prev = so_define_sql ob"
        by blast
      then have "upds k = None"
        using upd_None upd Some by simp
      then show ?thesis
        using prev Some nd by (simp add: look2 look1)
    next
      case False
      then have "upds k = Some ob"
        using upd Some by (cases "map_of ?old k") simp_all
      then have "map_of m1 k = Some ob" by (simp only: look1 option.case)
      then show ?thesis
        using False Some nd by (simp only: look2 option.case if_False)
    qed
  qed
qed

text \<open>An unchanged statement means an unchanged object, so the result is \<open>new\<close>'s own object.\<close>

lemma migrate_lookup_new:
  assumes "wf_snapshot old" and "wf_snapshot new"
  shows "map_of (fold exec_ddl (statements (diff old new) table) (sn_objects old)) k =
      (case map_of (sn_objects new) k of
         Some ob \<Rightarrow> Some ob
       | None \<Rightarrow> (case map_of (sn_objects old) k of
           Some ob \<Rightarrow> if so_kind ob = Table then Some ob else None
         | None \<Rightarrow> None))"
proof -
  have same: "prev = ob" if "map_of (sn_objects old) k = Some prev" "map_of (sn_objects new) k = Some ob"
    "so_define_sql prev = so_define_sql ob" for prev ob
    using wf_lookup [OF assms(1) that(1)] wf_lookup [OF assms(2) that(2)] that(3)
    by (metis option.inject)
  show ?thesis
  proof (cases "map_of (sn_objects new) k")
    case None
    then show ?thesis by (simp only: migrate_lookup(2) [OF assms] option.case)
  next
    case (Some ob)
    have "the (map_of (sn_objects old) k) = ob"
      if "map_of (sn_objects old) k = Some prev \<and> so_define_sql prev = so_define_sql ob" for prev
      using that same Some by simp
    then have "(if (\<exists>prev. map_of (sn_objects old) k = Some prev \<and> so_define_sql prev = so_define_sql ob)
        then the (map_of (sn_objects old) k) else ob) = ob"
      by meson
    with Some show ?thesis by (simp only: migrate_lookup(2) [OF assms] option.case)
  qed
qed

text \<open>The tables of \<open>old\<close> that \<open>new\<close> lacks: the only objects a migration leaves behind.\<close>

definition keeps_tables :: "schema_snapshot \<Rightarrow> schema_snapshot \<Rightarrow> bool" where
  "keeps_tables old new =
     list_all (\<lambda>(k, ob). so_kind ob = Table \<longrightarrow> map_of (sn_objects new) k \<noteq> None) (sn_objects old)"

lemma migrate_exact:
  assumes old: "wf_snapshot old" and new: "wf_snapshot new" and keep: "keeps_tables old new"
  shows "fold exec_ddl (statements (diff old new) table) (sn_objects old) = sn_objects new"
proof (rule bt.entries_ext)
  show "bt_invar (fold exec_ddl (statements (diff old new) table) (sn_objects old))"
    by (rule migrate_lookup(1) [OF old new])
  show "bt_invar (sn_objects new)" using new by (simp add: wf_objects_def)
  show "map_of (fold exec_ddl (statements (diff old new) table) (sn_objects old)) = map_of (sn_objects new)"
  proof
    fix k
    have "map_of (sn_objects new) k \<noteq> None"
      if "map_of (sn_objects old) k = Some ob" "so_kind ob = Table" for ob
      using keep that by (auto simp: keeps_tables_def list_all_iff dest: map_of_SomeD)
    then show "map_of (fold exec_ddl (statements (diff old new) table) (sn_objects old)) k
        = map_of (sn_objects new) k"
      unfolding migrate_lookup_new [OF old new] by (auto split: option.splits)
  qed
qed

text \<open>An empty diff means the same objects.\<close>

lemma diff_empty_iff:
  assumes old: "wf_snapshot old" and new: "wf_snapshot new"
  shows "diff_is_empty (diff old new) \<longleftrightarrow> sn_objects old = sn_objects new"
proof
  assume e: "diff_is_empty (diff old new)"
  then have st: "statements (diff old new) [] = []"
    by (simp add: diff_is_empty_def statements_def)
  have "\<not> (\<exists>k ob. map_of (sn_objects old) k = Some ob \<and> map_of (sn_objects new) k = None)"
  proof
    assume "\<exists>k ob. map_of (sn_objects old) k = Some ob \<and> map_of (sn_objects new) k = None"
    then obtain k ob where kb: "map_of (sn_objects old) k = Some ob" "map_of (sn_objects new) k = None"
      by blast
    then have "\<lparr>do_kind = so_kind ob, do_name = so_name ob\<rparr> \<in> set (sd_drops (diff old new))"
      using wf_lookup [OF old kb(1)] by (auto simp: drops_iff [OF old] key_def)
    with e show False by (simp add: diff_is_empty_def)
  qed
  then have dom: "map_of (sn_objects new) k \<noteq> None" if "map_of (sn_objects old) k = Some ob" for k ob
    using that by fastforce
  have mem: "map_of (sn_objects old) (fst e) = Some (snd e)" if "e \<in> set (sn_objects old)" for e
    using that wf_mem [OF old, of "fst e" "snd e"] by simp
  have "keeps_tables old new"
    unfolding keeps_tables_def list_all_iff using dom mem by fastforce
  then show "sn_objects old = sn_objects new"
    using migrate_exact [OF old new, of "[]"] st by simp
next
  assume eq: "sn_objects old = sn_objects new"
  have "map_of (sn_objects new) (fst e) = Some (snd e)" if "e \<in> set (sn_objects new)" for e
    using that wf_mem [OF new, of "fst e" "snd e"] by simp
  with eq show "diff_is_empty (diff old new)"
    by (auto simp: diff_is_empty_def diff_def filter_empty_conv)
qed

end
