(* ===== verification/Field.thy ===== *)
theory Field
  imports Prelude "HOL-Library.Monad_Syntax"
begin

text \<open>
  \<open>orm/src/field.rs\<close>: the structured view of one \<open>DEFINE FIELD\<close> statement and the severity of a
  field-level change. The parser works on the statement's text, as the code does; the classifier
  is the code's decision table with its reasons.
\<close>

section \<open>Field types\<close>

datatype surreal_type =
    TString | TInt | TFloat | TBool | TDatetime | TDuration | TDecimal | TBytes | TUuid | TObject
  | TAny
  | TRecord string
  | TArray surreal_type
  | TGeometry string
  | TOther string

definition is_opaque :: "surreal_type \<Rightarrow> bool" where
  "is_opaque t = (case t of TAny \<Rightarrow> True | TOther _ \<Rightarrow> True | _ \<Rightarrow> False)"

fun render :: "surreal_type \<Rightarrow> string" where
  "render TString = ''string''"
| "render TInt = ''int''"
| "render TFloat = ''float''"
| "render TBool = ''bool''"
| "render TDatetime = ''datetime''"
| "render TDuration = ''duration''"
| "render TDecimal = ''decimal''"
| "render TBytes = ''bytes''"
| "render TUuid = ''uuid''"
| "render TObject = ''object''"
| "render TAny = ''any''"
| "render (TRecord t) = (if t = [] then ''record'' else ''record<'' @ t @ ''>'')"
| "render (TArray inner) = ''array<'' @ render inner @ ''>''"
| "render (TGeometry g) = ''geometry<'' @ g @ ''>''"
| "render (TOther s) = s"

definition simple_types :: "(string \<times> surreal_type) list" where
  "simple_types =
     [(''string'', TString), (''int'', TInt), (''float'', TFloat), (''bool'', TBool),
      (''datetime'', TDatetime), (''duration'', TDuration), (''decimal'', TDecimal),
      (''bytes'', TBytes), (''uuid'', TUuid), (''object'', TObject), (''any'', TAny),
      (''record'', TRecord []), (''array'', TArray TAny)]"

text \<open>\<open>s.strip_prefix(p).and_then(|x| x.strip_suffix('>'))\<close>.\<close>

definition strip_angle :: "string \<Rightarrow> string \<Rightarrow> string option" where
  "strip_angle p s = Option.bind (strip_prefix p s) (strip_suffix ''>'')"

lemma strip_angle_Some: "strip_angle p s = Some x \<longleftrightarrow> s = p @ x @ ''>''"
  by (auto simp: strip_angle_def strip_prefix_Some strip_suffix_Some bind_eq_Some_conv)

lemma length_trim: "length (trim s) \<le> length s"
proof -
  have start: "length (trim_start s) \<le> length s" for s
  proof (induction s rule: trim_start.induct)
    case (1 s)
    show ?case
    proof (cases "ws_len s = 0")
      case True
      then show ?thesis by (subst trim_start.simps) simp
    next
      case False
      with 1 have "length (trim_start (drop (ws_len s) s)) \<le> length s" by simp
      with False show ?thesis by (subst trim_start.simps) simp
    qed
  qed
  have "length (trim_end_rev s) \<le> length s" for s
  proof -
    obtain p where "s = p @ trim_end_rev s" using trim_end_rev_suffix by blast
    then show ?thesis by (metis length_append le_add2)
  qed
  then have "length (trim_end_rev (rev (trim_start s))) \<le> length (trim_start s)"
    by (metis length_rev)
  with start [of s] show ?thesis by (simp add: trim_def)
qed

function parse_inner :: "string \<Rightarrow> surreal_type" where
  "parse_inner raw =
     (let s = trim raw in
      case map_of simple_types s of
        Some t \<Rightarrow> t
      | None \<Rightarrow>
          (case strip_angle ''record<'' s of
             Some t \<Rightarrow> TRecord t
           | None \<Rightarrow>
               (case strip_angle ''array<'' s of
                  Some inner \<Rightarrow> TArray (parse_inner inner)
                | None \<Rightarrow>
                    (case strip_angle ''geometry<'' s of
                       Some g \<Rightarrow> TGeometry g
                     | None \<Rightarrow> TOther s))))"
  by pat_completeness auto
termination
proof (relation "measure length")
  fix raw s inner
  assume "s = trim raw" and "strip_angle ''array<'' s = Some inner"
  then have "length inner < length (trim raw)"
    by (simp add: strip_angle_Some)
  with length_trim [of raw] show "(inner, raw) \<in> measure length" by simp
qed simp

declare parse_inner.simps [simp del]

text \<open>
  \<open>render\<close> is a canonical spelling: reading it back gives the same type, for every type that the
  parser can produce.
\<close>

lemma trimmed_angle:
  assumes "c \<in> {CHR ''r'', CHR ''a'', CHR ''g''}"
  shows "trimmed (c # p @ ''>'')"
proof -
  have "ascii_nonws c" and "ascii_nonws (CHR ''>'')"
    using assms by (auto simp: ascii_nonws_def ascii_ws_def)
  then show ?thesis by (rule trimmed_ascii)
qed

lemma map_of_simple_angle: "map_of simple_types (p @ x @ ''>'') = None"
proof -
  have "last k \<noteq> CHR ''>''" if "k \<in> fst ` set simple_types" for k
    using that by (auto simp: simple_types_def)
  moreover have "last (p @ x @ ''>'') = CHR ''>''" by simp
  ultimately have "p @ x @ ''>'' \<notin> fst ` set simple_types" by metis
  then show ?thesis by (simp add: map_of_eq_None_iff)
qed

lemma strip_angle_self [simp]: "strip_angle p (p @ x @ ''>'') = Some x"
  by (simp add: strip_angle_Some)

lemma strip_angle_other:
  "strip_angle ''record<'' (''array<'' @ x) = None"
  "strip_angle ''record<'' (''geometry<'' @ x) = None"
  "strip_angle ''array<'' (''geometry<'' @ x) = None"
  by (simp_all add: strip_angle_def strip_prefix_def)

lemma parse_inner_record: "parse_inner (''record<'' @ t @ ''>'') = TRecord t"
  using trimmed_angle [of "CHR ''r''" "''ecord<'' @ t"] map_of_simple_angle [of "''record<''" t]
    strip_angle_self [of "''record<''" t]
  by (subst parse_inner.simps) (simp add: trim_trimmed_id)

lemma parse_inner_array: "parse_inner (''array<'' @ t @ ''>'') = TArray (parse_inner t)"
  using trimmed_angle [of "CHR ''a''" "''rray<'' @ t"] map_of_simple_angle [of "''array<''" t]
    strip_angle_self [of "''array<''" t] strip_angle_other(1) [of "t @ ''>''"]
  by (subst parse_inner.simps) (simp add: trim_trimmed_id)

lemma parse_inner_geometry: "parse_inner (''geometry<'' @ t @ ''>'') = TGeometry t"
  using trimmed_angle [of "CHR ''g''" "''eometry<'' @ t"] map_of_simple_angle [of "''geometry<''" t]
    strip_angle_self [of "''geometry<''" t] strip_angle_other(2,3) [of "t @ ''>''"]
  by (subst parse_inner.simps) (simp add: trim_trimmed_id)

lemma trimmed_simple: "k \<in> fst ` set simple_types \<Longrightarrow> trimmed k"
  by (auto simp: simple_types_def trimmed_def ascii_ws_def ws2_def ws3_def)

lemma parse_inner_simple: "map_of simple_types s = Some t \<Longrightarrow> parse_inner s = t"
  using trimmed_simple [of s]
  by (subst parse_inner.simps) (force simp: trim_trimmed_id dest: map_of_SomeD)

text \<open>The types the parser produces.\<close>

lemma parse_render_simple:
  "map_of simple_types s = Some t \<Longrightarrow> parse_inner (render t) = t"
proof -
  assume "map_of simple_types s = Some t"
  then have "t \<in> snd ` set simple_types" by (force dest: map_of_SomeD)
  then have cases: "map_of simple_types (render t) = Some t \<or> t = TArray TAny"
    by (auto simp: simple_types_def)
  have "parse_inner ''any'' = TAny"
    by (rule parse_inner_simple) (simp add: simple_types_def)
  then have "parse_inner (render (TArray TAny)) = TArray TAny"
    using parse_inner_array [of "''any''"] by simp
  with cases show ?thesis using parse_inner_simple by blast
qed

lemma parse_render_parse: "parse_inner (render (parse_inner raw)) = parse_inner raw"
proof (induction raw rule: parse_inner.induct)
  case (1 raw)
  let ?s = "trim raw"
  consider (simple) t where "map_of simple_types ?s = Some t"
    | (rec) t where "map_of simple_types ?s = None" "strip_angle ''record<'' ?s = Some t"
    | (arr) t where "map_of simple_types ?s = None" "strip_angle ''record<'' ?s = None"
        "strip_angle ''array<'' ?s = Some t"
    | (geo) t where "map_of simple_types ?s = None" "strip_angle ''record<'' ?s = None"
        "strip_angle ''array<'' ?s = None" "strip_angle ''geometry<'' ?s = Some t"
    | (other) "map_of simple_types ?s = None" "strip_angle ''record<'' ?s = None"
        "strip_angle ''array<'' ?s = None" "strip_angle ''geometry<'' ?s = None"
    by (metis option.exhaust)
  then show ?case
  proof cases
    case simple
    then have "parse_inner raw = t" by (subst parse_inner.simps) simp
    with simple show ?thesis using parse_render_simple by simp
  next
    case rec
    then have raw: "parse_inner raw = TRecord t" by (subst parse_inner.simps) simp
    have "parse_inner ''record'' = TRecord []"
      by (rule parse_inner_simple) (simp add: simple_types_def)
    then have "parse_inner (render (TRecord t)) = TRecord t"
      using parse_inner_record [of t] by simp
    with raw show ?thesis by simp
  next
    case arr
    then have raw: "parse_inner raw = TArray (parse_inner t)" by (subst parse_inner.simps) simp
    have "parse_inner (render (TArray (parse_inner t))) = TArray (parse_inner (render (parse_inner t)))"
      using parse_inner_array [of "render (parse_inner t)"] by simp
    with raw "1.IH" [OF refl arr] show ?thesis by simp
  next
    case geo
    then have raw: "parse_inner raw = TGeometry t" by (subst parse_inner.simps) simp
    with parse_inner_geometry [of t] show ?thesis by simp
  next
    case other
    then have "parse_inner raw = TOther ?s" by (subst parse_inner.simps) simp
    with other show ?thesis by (subst parse_inner.simps) simp
  qed
qed

section \<open>The parser of \<open>DEFINE FIELD\<close>\<close>

record field_snapshot =
  fs_name :: string
  fs_table :: string
  fs_ty :: surreal_type
  fs_optional :: bool
  fs_readonly :: bool
  fs_has_value_or_default :: bool
  fs_has_assert :: bool

definition is_clause_keyword :: "string \<Rightarrow> bool" where
  "is_clause_keyword t =
     list_ex (eq_ignore_case t)
       [''VALUE'', ''DEFAULT'', ''READONLY'', ''ASSERT'', ''PERMISSIONS'', ''COMMENT'',
        ''FLEXIBLE'', ''REFERENCE'']"

text \<open>\<open>toks.get(i)\<close>.\<close>

definition get :: "'a list \<Rightarrow> nat \<Rightarrow> 'a option" where
  "get xs i = (if i < length xs then Some (xs ! i) else None)"

text \<open>The scan of the clauses after the table name (the code's nested \<open>while\<close> loops).\<close>

record clause_scan =
  cs_type_parts :: "string list"
  cs_readonly :: bool
  cs_value :: bool
  cs_assert :: bool

function scan_clauses :: "string list \<Rightarrow> clause_scan \<Rightarrow> clause_scan" where
  "scan_clauses [] a = a"
| "scan_clauses (t # ts) a =
     (if eq_ignore_case t ''TYPE''
        then scan_clauses (dropWhile (\<lambda>u. \<not> is_clause_keyword u) ts)
               (a\<lparr>cs_type_parts := cs_type_parts a @ takeWhile (\<lambda>u. \<not> is_clause_keyword u) ts\<rparr>)
      else if eq_ignore_case t ''READONLY'' then scan_clauses ts (a\<lparr>cs_readonly := True\<rparr>)
      else if eq_ignore_case t ''VALUE'' \<or> eq_ignore_case t ''DEFAULT''
        then scan_clauses ts (a\<lparr>cs_value := True\<rparr>)
      else if eq_ignore_case t ''ASSERT'' then scan_clauses ts (a\<lparr>cs_assert := True\<rparr>)
      else scan_clauses ts a)"
  by pat_completeness auto
termination
  by (relation "measure (\<lambda>(ts, a). length ts)")
    (auto simp: less_Suc_eq_le length_dropWhile_le)

definition option_type :: "string \<Rightarrow> bool \<times> surreal_type" where
  "option_type type_str =
     (if type_str = [] then (True, TAny)
      else if strip_prefix ''option<'' (map ascii_lower type_str) \<noteq> None
              \<and> last type_str = CHR ''>''
        then (True, parse_inner (butlast (drop 7 type_str)))
      else (False, parse_inner type_str))"

text \<open>\<open>trim_end_matches(';')\<close>.\<close>

definition trim_end_semis :: "string \<Rightarrow> string" where
  "trim_end_semis s = rev (dropWhile (\<lambda>c. c = CHR '';'') (rev s))"

definition parse_tokens :: "string list \<Rightarrow> field_snapshot option" where
  "parse_tokens toks = do {
     t0 \<leftarrow> get toks 0;
     if \<not> eq_ignore_case t0 ''DEFINE'' then None else do {
     t1 \<leftarrow> get toks 1;
     if \<not> eq_ignore_case t1 ''FIELD'' then None else do {
     t2 \<leftarrow> get toks 2;
     let i = (if eq_ignore_case t2 ''OVERWRITE'' then 3
              else if eq_ignore_case t2 ''IF'' then 5 else 2);
     name \<leftarrow> get toks i;
     t3 \<leftarrow> get toks (i + 1);
     if \<not> eq_ignore_case t3 ''ON'' then None else do {
     t4 \<leftarrow> get toks (i + 2);
     if \<not> eq_ignore_case t4 ''TABLE'' then None else do {
     table \<leftarrow> get toks (i + 3);
     let a = scan_clauses (drop (i + 4) toks)
               \<lparr>cs_type_parts = [], cs_readonly = False, cs_value = False, cs_assert = False\<rparr>;
     let ot = option_type (join '' '' (cs_type_parts a));
     Some \<lparr>fs_name = name, fs_table = table, fs_ty = snd ot, fs_optional = fst ot,
           fs_readonly = cs_readonly a, fs_has_value_or_default = cs_value a,
           fs_has_assert = cs_assert a\<rparr> }}}}}"

definition field_parse :: "string \<Rightarrow> field_snapshot option" where
  "field_parse define_sql = parse_tokens (split_ws (trim (trim_end_semis (trim define_sql))))"

section \<open>Change classification\<close>

datatype field_class = Safe | Warn | NeedsBackfill | Blocked

datatype field_change =
    NoOp | Added | Dropped | TypeWidened | TypeNarrowed | BecameOptional | BecameRequired
  | AttributesChanged | Conservative

record classification =
  cl_change :: field_change
  cl_class :: field_class
  cl_reason :: string

definition cl_new :: "field_change \<Rightarrow> field_class \<Rightarrow> string \<Rightarrow> classification" where
  "cl_new c k r = \<lparr>cl_change = c, cl_class = k, cl_reason = r\<rparr>"

lemma cl_new_simps [simp]:
  "cl_change (cl_new c k r) = c" "cl_class (cl_new c k r) = k" "cl_reason (cl_new c k r) = r"
  by (simp_all add: cl_new_def)

text \<open>The UTF-8 bytes of the dash and the arrow in the code's messages.\<close>

definition em_dash :: string where
  "em_dash = [CHR 0xE2, CHR 0x80, CHR 0x94]"

definition arrow :: string where
  "arrow = [CHR 0xE2, CHR 0x86, CHR 0x92]"

fun is_widening :: "surreal_type \<Rightarrow> surreal_type \<Rightarrow> bool" where
  "is_widening TInt TFloat = True"
| "is_widening TInt TDecimal = True"
| "is_widening TFloat TDecimal = True"
| "is_widening _ _ = False"

definition attrs_changed :: "field_snapshot \<Rightarrow> field_snapshot \<Rightarrow> bool" where
  "attrs_changed p n =
     (fs_readonly p \<noteq> fs_readonly n
      \<or> fs_has_value_or_default p \<noteq> fs_has_value_or_default n
      \<or> fs_has_assert p \<noteq> fs_has_assert n)"

definition classify_modify :: "field_snapshot \<Rightarrow> field_snapshot \<Rightarrow> classification" where
  "classify_modify p n =
     (if is_opaque (fs_ty p) \<or> is_opaque (fs_ty n)
        then (if p = n then cl_new NoOp Safe ''no meaningful change''
              else cl_new Conservative Blocked
                     (''unrecognized / flexible field type '' @ em_dash @ '' manual review''))
      else
        let null_narrows = fs_optional p \<and> \<not> fs_optional n;
            null_widens = \<not> fs_optional p \<and> fs_optional n
        in if fs_ty p = fs_ty n
             then (if null_narrows
                     then cl_new BecameRequired NeedsBackfill
                            (''optional '' @ arrow @ '' required '' @ em_dash
                             @ '' existing NULLs need a backfill'')
                   else if null_widens
                     then cl_new BecameOptional Safe
                            (''required '' @ arrow @ '' optional (widening)'')
                   else if attrs_changed p n
                     then cl_new AttributesChanged Warn
                            ''field attributes changed (assert/value/readonly)''
                   else cl_new NoOp Safe ''no meaningful change'')
           else if is_widening (fs_ty p) (fs_ty n)
             then (if null_narrows
                     then cl_new BecameRequired NeedsBackfill
                            (''type widened but optional '' @ arrow @ '' required '' @ em_dash
                             @ '' backfill needed'')
                   else cl_new TypeWidened Safe ''type widened'')
           else cl_new TypeNarrowed Blocked
                  (''type narrowed / incompatible '' @ em_dash
                   @ '' possible data loss or coercion''))"

fun classify_field_change ::
  "field_snapshot option \<Rightarrow> field_snapshot option \<Rightarrow> classification" where
  "classify_field_change None None = cl_new NoOp Safe ''no field''"
| "classify_field_change None (Some n) =
     (if fs_optional n \<or> fs_has_value_or_default n
        then cl_new Added Safe ''added optional/defaulted field''
      else cl_new Added NeedsBackfill
             (''added required field without default '' @ em_dash
              @ '' existing rows need a value''))"
| "classify_field_change (Some _) None =
     cl_new Dropped Blocked (''field dropped '' @ em_dash @ '' data loss'')"
| "classify_field_change (Some p) (Some n) = classify_modify p n"

end
