(* ===== verification/Classify.thy ===== *)
theory Classify
  imports Field Schema_Exec "HOL-Library.Multiset"
begin

text \<open>
  \<open>orm/src/classify.rs\<close>: two snapshots give a report of classified field changes with a tally of
  severities. The lemmas relate the report to the text-level diff of \<open>Schema\<close> and the tally to the
  entries.
\<close>

section \<open>Severity and tallies\<close>

text \<open>Severities are ordered as \<open>worst\<close> reads them.\<close>

fun severity :: "field_class \<Rightarrow> nat" where
  "severity Safe = 0"
| "severity Warn = 1"
| "severity NeedsBackfill = 2"
| "severity Blocked = 3"

lemma severity_inject [simp]: "severity a = severity b \<longleftrightarrow> a = b"
  by (cases a; cases b) simp_all

instantiation field_class :: linorder
begin

definition less_eq_field_class :: "field_class \<Rightarrow> field_class \<Rightarrow> bool" where
  "less_eq_field_class a b = (severity a \<le> severity b)"

definition less_field_class :: "field_class \<Rightarrow> field_class \<Rightarrow> bool" where
  "less_field_class a b = (severity a < severity b)"

instance
  by standard (auto simp: less_eq_field_class_def less_field_class_def)

end

record class_summary =
  su_safe :: nat
  su_warn :: nat
  su_needs_backfill :: nat
  su_blocked :: nat

definition summary_default :: class_summary where
  "summary_default = \<lparr>su_safe = 0, su_warn = 0, su_needs_backfill = 0, su_blocked = 0\<rparr>"

definition total :: "class_summary \<Rightarrow> nat" where
  "total s = su_safe s + su_warn s + su_needs_backfill s + su_blocked s"

definition worst :: "class_summary \<Rightarrow> field_class option" where
  "worst s =
     (if 0 < su_blocked s then Some Blocked
      else if 0 < su_needs_backfill s then Some NeedsBackfill
      else if 0 < su_warn s then Some Warn
      else if 0 < su_safe s then Some Safe
      else None)"

definition tally :: "field_class \<Rightarrow> class_summary \<Rightarrow> class_summary" where
  "tally c s =
     (case c of
        Safe \<Rightarrow> s\<lparr>su_safe := su_safe s + 1\<rparr>
      | Warn \<Rightarrow> s\<lparr>su_warn := su_warn s + 1\<rparr>
      | NeedsBackfill \<Rightarrow> s\<lparr>su_needs_backfill := su_needs_backfill s + 1\<rparr>
      | Blocked \<Rightarrow> s\<lparr>su_blocked := su_blocked s + 1\<rparr>)"

definition count_class :: "class_summary \<Rightarrow> field_class \<Rightarrow> nat" where
  "count_class s c =
     (case c of Safe \<Rightarrow> su_safe s | Warn \<Rightarrow> su_warn s
      | NeedsBackfill \<Rightarrow> su_needs_backfill s | Blocked \<Rightarrow> su_blocked s)"

lemma count_class_simps [simp]:
  "count_class s Safe = su_safe s" "count_class s Warn = su_warn s"
  "count_class s NeedsBackfill = su_needs_backfill s" "count_class s Blocked = su_blocked s"
  by (simp_all add: count_class_def)

lemma count_tally: "count_class (tally c s) d = count_class s d + (if c = d then 1 else 0)"
  by (cases c; cases d) (simp_all add: tally_def)

lemma count_default [simp]: "count_class summary_default c = 0"
  by (cases c) (simp_all add: summary_default_def)

lemma summary_eqI: "(\<And>c. count_class s c = count_class t c) \<Longrightarrow> s = t"
  using count_class_simps by (metis class_summary.equality old.unit.exhaust)

definition tally_all :: "field_class list \<Rightarrow> class_summary" where
  "tally_all cs = fold tally cs summary_default"

lemma count_tally_all: "count_class (tally_all cs) c = count_list cs c"
proof -
  have "count_class (fold tally cs s) c = count_class s c + count_list cs c" for s
    by (induction cs arbitrary: s) (auto simp: count_tally)
  then show ?thesis by (simp add: tally_all_def)
qed

lemma total_tally_all: "total (tally_all cs) = length cs"
proof -
  have "total (tally c s) = total s + 1" for c s
    by (cases c) (simp_all add: total_def tally_def)
  then have "total (fold tally cs s) = total s + length cs" for s
    by (induction cs arbitrary: s) simp_all
  then show ?thesis by (simp add: tally_all_def total_def summary_default_def)
qed

text \<open>\<open>worst\<close> is the greatest severity tallied.\<close>

lemma worst_count:
  "worst s = (if 0 < count_class s Blocked then Some Blocked
     else if 0 < count_class s NeedsBackfill then Some NeedsBackfill
     else if 0 < count_class s Warn then Some Warn
     else if 0 < count_class s Safe then Some Safe else None)"
  by (simp add: worst_def)

lemma worst_tally_all: "worst (tally_all cs) = (if cs = [] then None else Some (Max (set cs)))"
proof (cases "cs = []")
  case True
  then show ?thesis by (simp add: tally_all_def worst_def summary_default_def)
next
  case False
  define m where "m = Max (set cs)"
  have mem: "m \<in> set cs" using False by (simp add: m_def)
  have ge: "severity d \<le> severity m" if "d \<in> set cs" for d
    using that by (metis List.finite_set Max_ge less_eq_field_class_def m_def)
  have cnt: "0 < count_class (tally_all cs) d \<longleftrightarrow> d \<in> set cs" for d
    using count_list_0_iff [of cs d] by (simp add: count_tally_all neq0_conv [symmetric] del: neq0_conv)
  have "worst (tally_all cs) = Some m"
  proof (cases m)
    case Safe
    with mem ge have "Blocked \<notin> set cs" "NeedsBackfill \<notin> set cs" "Warn \<notin> set cs" by fastforce+
    with mem Safe show ?thesis by (simp only: worst_count cnt if_True if_False)
  next
    case Warn
    with mem ge have "Blocked \<notin> set cs" "NeedsBackfill \<notin> set cs" by fastforce+
    with mem Warn show ?thesis by (simp only: worst_count cnt if_True if_False)
  next
    case NeedsBackfill
    with mem ge have "Blocked \<notin> set cs" by fastforce+
    with mem NeedsBackfill show ?thesis by (simp only: worst_count cnt if_True if_False)
  next
    case Blocked
    with mem show ?thesis by (simp only: worst_count cnt if_True if_False)
  qed
  with False show ?thesis by (simp add: m_def)
qed

section \<open>Reports\<close>

record field_change_entry =
  fe_field :: string
  fe_change :: field_change
  fe_class :: field_class
  fe_from_type :: "string option"
  fe_to_type :: "string option"
  fe_reason :: string

record field_change_report =
  fr_entries :: "field_change_entry list"
  fr_summary :: class_summary

definition report_default :: field_change_report where
  "report_default = \<lparr>fr_entries = [], fr_summary = summary_default\<rparr>"

definition fcr_is_empty :: "field_change_report \<Rightarrow> bool" where
  "fcr_is_empty r = (fr_entries r = [])"

text \<open>The loop skips dropped entries and tallies the others.\<close>

definition non_drop_summary :: "field_change_report \<Rightarrow> class_summary" where
  "non_drop_summary r =
     fold (\<lambda>e s. if fe_change e = Dropped then s else tally (fe_class e) s)
       (fr_entries r) summary_default"

definition render_field_type :: "field_snapshot \<Rightarrow> string" where
  "render_field_type fs =
     (if fs_optional fs then ''option<'' @ render (fs_ty fs) @ ''>'' else render (fs_ty fs))"

definition push ::
  "string \<Rightarrow> classification \<Rightarrow> field_snapshot option \<Rightarrow> field_snapshot option
   \<Rightarrow> field_change_report \<Rightarrow> field_change_report" where
  "push field c from_t to_t r =
     r\<lparr>fr_summary := tally (cl_class c) (fr_summary r),
       fr_entries := fr_entries r @
         [\<lparr>fe_field = field, fe_change = cl_change c, fe_class = cl_class c,
           fe_from_type = map_option render_field_type from_t,
           fe_to_type = map_option render_field_type to_t, fe_reason = cl_reason c\<rparr>]\<rparr>"

definition push_conservative ::
  "string \<Rightarrow> bool \<Rightarrow> bool \<Rightarrow> field_change_report \<Rightarrow> field_change_report" where
  "push_conservative field had_from had_to r =
     r\<lparr>fr_summary := tally Blocked (fr_summary r),
       fr_entries := fr_entries r @
         [\<lparr>fe_field = field, fe_change = Conservative, fe_class = Blocked,
           fe_from_type = (if had_from then Some ''?'' else None),
           fe_to_type = (if had_to then Some ''?'' else None),
           fe_reason = ''unparseable field definition '' @ em_dash @ '' manual review''\<rparr>]\<rparr>"

definition parse_field :: "schema_object \<Rightarrow> field_snapshot option" where
  "parse_field ob = field_parse (so_define_sql ob)"

text \<open>An added field of a table that this migration creates needs no backfill.\<close>

definition classify_added :: "bool \<Rightarrow> field_snapshot \<Rightarrow> classification" where
  "classify_added table_is_new n =
     (let c = classify_field_change None (Some n) in
      if table_is_new \<and> cl_class c = NeedsBackfill
        then c\<lparr>cl_class := Safe,
               cl_reason := ''added to a newly-created table (no existing rows)''\<rparr>
      else c)"

definition classify_new_object ::
  "(string, schema_object) btree \<Rightarrow> bool \<Rightarrow> string \<times> schema_object
   \<Rightarrow> field_change_report \<Rightarrow> field_change_report" where
  "classify_new_object old_objects table_is_new e r =
     (let ob = snd e in
      if so_kind ob \<noteq> Field then r
      else case map_of old_objects (fst e) of
        None \<Rightarrow>
          (case parse_field ob of
             Some n \<Rightarrow> push (so_name ob) (classify_added table_is_new n) None (Some n) r
           | None \<Rightarrow> push_conservative (so_name ob) False True r)
      | Some prev \<Rightarrow>
          (if so_define_sql prev \<noteq> so_define_sql ob
             then (case (parse_field prev, parse_field ob) of
                     (Some p, Some n) \<Rightarrow>
                       push (so_name ob) (classify_field_change (Some p) (Some n)) (Some p) (Some n) r
                   | _ \<Rightarrow> push_conservative (so_name ob) True True r)
           else r))"

definition classify_old_object ::
  "(string, schema_object) btree \<Rightarrow> string \<times> schema_object
   \<Rightarrow> field_change_report \<Rightarrow> field_change_report" where
  "classify_old_object new_objects e r =
     (let ob = snd e in
      if so_kind ob \<noteq> Field then r
      else if map_of new_objects (fst e) = None
        then (case parse_field ob of
                Some p \<Rightarrow> push (so_name ob) (classify_field_change (Some p) None) (Some p) None r
              | None \<Rightarrow> push_conservative (so_name ob) True False r)
      else r)"

definition classify_diff :: "schema_snapshot \<Rightarrow> schema_snapshot \<Rightarrow> field_change_report" where
  "classify_diff old new =
     (let table_is_new = \<not> list_ex (\<lambda>e. so_kind (snd e) = Table) (sn_objects old);
          r1 = fold (classify_new_object (sn_objects old) table_is_new) (sn_objects new) report_default
      in fold (classify_old_object (sn_objects new)) (sn_objects old) r1)"

section \<open>The tally agrees with the entries\<close>

definition report_inv :: "field_change_report \<Rightarrow> bool" where
  "report_inv r = (fr_summary r = tally_all (map fe_class (fr_entries r)))"

lemma report_inv_default [simp]: "report_inv report_default"
  by (simp add: report_inv_def report_default_def tally_all_def)

lemma report_inv_push [frust_inv]: "report_inv r \<Longrightarrow> report_inv (push f c x y r)"
  by (simp add: report_inv_def push_def tally_all_def)

lemma report_inv_push_conservative [frust_inv]: "report_inv r \<Longrightarrow> report_inv (push_conservative f a b r)"
  by (simp add: report_inv_def push_conservative_def tally_all_def)

lemma report_inv_fold: "(\<And>e r. report_inv r \<Longrightarrow> report_inv (f e r)) \<Longrightarrow> report_inv r \<Longrightarrow> report_inv (fold f es r)"
  by (induction es arbitrary: r) simp_all

lemma report_inv_new: "report_inv r \<Longrightarrow> report_inv (classify_new_object old tn e r)"
  by (auto simp: classify_new_object_def Let_def frust_inv split: option.splits)

lemma report_inv_old: "report_inv r \<Longrightarrow> report_inv (classify_old_object new e r)"
  by (auto simp: classify_old_object_def Let_def frust_inv split: option.splits)

lemma classify_diff_inv: "report_inv (classify_diff old new)"
  unfolding classify_diff_def Let_def
  by (intro report_inv_fold report_inv_new report_inv_old report_inv_default)

lemma non_drop_tally:
  "non_drop_summary r = tally_all (map fe_class (filter (\<lambda>e. fe_change e \<noteq> Dropped) (fr_entries r)))"
proof -
  have "fold (\<lambda>e s. if fe_change e = Dropped then s else tally (fe_class e) s) es s
      = fold tally (map fe_class (filter (\<lambda>e. fe_change e \<noteq> Dropped) es)) s" for es s
    by (induction es arbitrary: s) simp_all
  then show ?thesis by (simp add: non_drop_summary_def tally_all_def)
qed

section \<open>The entries are the field changes of the diff\<close>

lemma fields_new:
  "map fe_field (fr_entries (fold (classify_new_object m tn) es r)) =
     map fe_field (fr_entries r) @
     map (\<lambda>e. so_name (snd e))
       (filter (\<lambda>e. so_kind (snd e) = Field \<and>
          (case map_of m (fst e) of None \<Rightarrow> True
           | Some prev \<Rightarrow> so_define_sql prev \<noteq> so_define_sql (snd e))) es)"
proof (induction es arbitrary: r)
  case (Cons e es)
  have "map fe_field (fr_entries (classify_new_object m tn e r)) = map fe_field (fr_entries r) @
      (if so_kind (snd e) = Field \<and> (case map_of m (fst e) of None \<Rightarrow> True
         | Some prev \<Rightarrow> so_define_sql prev \<noteq> so_define_sql (snd e)) then [so_name (snd e)] else [])"
    by (auto simp: classify_new_object_def push_def push_conservative_def Let_def split: option.splits)
  with Cons.IH [of "classify_new_object m tn e r"] show ?case by simp
qed simp

lemma fields_old:
  "map fe_field (fr_entries (fold (classify_old_object m) es r)) =
     map fe_field (fr_entries r) @
     map (\<lambda>e. so_name (snd e))
       (filter (\<lambda>e. so_kind (snd e) = Field \<and> map_of m (fst e) = None) es)"
proof (induction es arbitrary: r)
  case (Cons e es)
  have "map fe_field (fr_entries (classify_old_object m e r)) = map fe_field (fr_entries r) @
      (if so_kind (snd e) = Field \<and> map_of m (fst e) = None then [so_name (snd e)] else [])"
    by (auto simp: classify_old_object_def push_def push_conservative_def Let_def split: option.splits)
  with Cons.IH [of "classify_old_object m e r"] show ?case by simp
qed simp


text \<open>
  The report names exactly the field objects that the text-level diff creates, alters or drops,
  each once: the two engines never disagree about which fields change.
\<close>

lemma filter_or_mset:
  assumes "\<And>x. x \<in> set xs \<Longrightarrow> \<not> (P x \<and> Q x)"
  shows "mset (filter (\<lambda>x. P x \<or> Q x) xs) = mset (filter P xs) + mset (filter Q xs)"
  using assms by (induction xs) auto

lemma classified_fields:
  "mset (map fe_field (fr_entries (classify_diff old new))) =
     mset (map so_name (filter (\<lambda>ob. so_kind ob = Field) (sd_creates (diff old new) @ sd_alters (diff old new))))
     + mset (map do_name (filter (\<lambda>x. do_kind x = Field) (sd_drops (diff old new))))"
proof -
  let ?o = "sn_objects old" and ?n = "sn_objects new"
  let ?C = "\<lambda>e. map_of ?o (fst e) = None"
  let ?A = "\<lambda>e. case map_of ?o (fst e) of None \<Rightarrow> False | Some prev \<Rightarrow> so_define_sql prev \<noteq> so_define_sql (snd e)"
  let ?F = "\<lambda>e. so_kind (snd e) = Field"
  have split: "filter (\<lambda>e. ?F e \<and> (case map_of ?o (fst e) of None \<Rightarrow> True
        | Some prev \<Rightarrow> so_define_sql prev \<noteq> so_define_sql (snd e))) ?n
      = filter (\<lambda>e. (?F e \<and> ?C e) \<or> (?F e \<and> ?A e)) ?n"
    by (rule filter_cong) (auto split: option.splits)
  have disj: "mset (filter (\<lambda>e. (?F e \<and> ?C e) \<or> (?F e \<and> ?A e)) ?n)
      = mset (filter (\<lambda>e. ?F e \<and> ?C e) ?n) + mset (filter (\<lambda>e. ?F e \<and> ?A e) ?n)"
    by (rule filter_or_mset) (auto split: option.splits)
  have creates: "map so_name (filter (\<lambda>ob. so_kind ob = Field) (sd_creates (diff old new)))
      = map (\<lambda>e. so_name (snd e)) (filter (\<lambda>e. ?F e \<and> ?C e) ?n)"
    by (simp add: diff_def filter_map comp_def case_prod_unfold conj_commute)
  have alters: "map so_name (filter (\<lambda>ob. so_kind ob = Field) (sd_alters (diff old new)))
      = map (\<lambda>e. so_name (snd e)) (filter (\<lambda>e. ?F e \<and> ?A e) ?n)"
    by (simp add: diff_def filter_map comp_def case_prod_unfold conj_commute)
  have drops: "map do_name (filter (\<lambda>x. do_kind x = Field) (sd_drops (diff old new)))
      = map (\<lambda>e. so_name (snd e)) (filter (\<lambda>e. ?F e \<and> map_of ?n (fst e) = None) ?o)"
    by (simp add: diff_def filter_map comp_def case_prod_unfold conj_commute)
  have "map fe_field (fr_entries (classify_diff old new))
      = map (\<lambda>e. so_name (snd e)) (filter (\<lambda>e. (?F e \<and> ?C e) \<or> (?F e \<and> ?A e)) ?n)
        @ map (\<lambda>e. so_name (snd e)) (filter (\<lambda>e. ?F e \<and> map_of ?n (fst e) = None) ?o)"
    by (simp only: classify_diff_def Let_def fields_old fields_new split report_default_def
        field_change_report.simps list.map append_Nil)
  then show ?thesis
    unfolding filter_append map_append creates alters drops
    by (simp only: mset_append mset_map disj image_mset_union)
qed

text \<open>
  A dropped entry is a parsed drop and is \<open>Blocked\<close>; every drop of a field whose statement does not
  parse is recorded as \<open>Conservative\<close> instead, so it stays in the non-drop tally.
\<close>

lemma classify_old_object_drop:
  assumes "so_kind ob = Field" and "map_of m k = None"
  shows "fr_entries (classify_old_object m (k, ob) r) = fr_entries r @
      [\<lparr>fe_field = so_name ob,
        fe_change = (if parse_field ob = None then Conservative else Dropped),
        fe_class = Blocked,
        fe_from_type = Some (case parse_field ob of None \<Rightarrow> ''?'' | Some p \<Rightarrow> render_field_type p),
        fe_to_type = None,
        fe_reason = (if parse_field ob = None
          then ''unparseable field definition '' @ em_dash @ '' manual review''
          else ''field dropped '' @ em_dash @ '' data loss'')\<rparr>]"
  using assms
  by (cases "parse_field ob") (simp_all add: classify_old_object_def push_def push_conservative_def)

end
