(* ===== verification/Resource.thy ===== *)
theory Resource
  imports Schema Complex_Main
begin

text \<open>
  \<open>orm/src/resource.rs\<close>: what the migration engine is given. The transport (\<open>Conn\<close>, \<open>ConnFactory\<close>)
  talks to SurrealDB, which is not part of the program: a connection is a function of the state of
  the whole store (type \<open>'w\<close>) and of the statement text, and returns the statement results and the
  store's next state. JSON decoding and printing (\<open>serde_json\<close>) are fields of \<open>codec\<close>. The error of
  a fallible operation is its message, as \<open>anyhow\<close> displays it.
\<close>

section \<open>Values and statement results\<close>

datatype json =
    JNull
  | JBool bool
  | JInt int
  | JFloat string \<comment> \<open>the number's printed form\<close>
  | JString string
  | JArray "json list"
  | JObject "(string \<times> json) list"

text \<open>Reading a JSON value: \<open>get\<close> with a string, \<open>as_str\<close>, \<open>as_array\<close> and the first element of an array.\<close>

definition json_get :: "string \<Rightarrow> json \<Rightarrow> json option" where
  "json_get k v = (case v of JObject fs \<Rightarrow> map_of fs k | _ \<Rightarrow> None)"

definition json_str :: "json \<Rightarrow> string option" where
  "json_str v = (case v of JString s \<Rightarrow> Some s | _ \<Rightarrow> None)"

definition json_array :: "json \<Rightarrow> json list option" where
  "json_array v = (case v of JArray vs \<Rightarrow> Some vs | _ \<Rightarrow> None)"

definition json_first :: "json \<Rightarrow> json option" where
  "json_first v = (case v of JArray (x # _) \<Rightarrow> Some x | _ \<Rightarrow> None)"

text \<open>\<open>as_i64\<close>: an integer in the range of \<open>i64\<close>.\<close>

definition json_i64 :: "json \<Rightarrow> int option" where
  "json_i64 v = (case v of JInt i \<Rightarrow> (if - (2 ^ 63) \<le> i \<and> i < 2 ^ 63 then Some i else None) | _ \<Rightarrow> None)"

record stmt_result =
  sr_ok :: bool
  sr_result :: json

type_synonym 'w conn = "'w \<Rightarrow> string \<Rightarrow> (string + stmt_result list) \<times> 'w"

record storage_location =
  sl_namespace :: string
  sl_database :: string

record resource_spec =
  rs_app :: string
  rs_name :: string
  rs_schema :: string
  rs_deps :: "string list"

record migration_record =
  mr_name :: string
  mr_version :: int
  mr_snapshot :: string

text \<open>
  The third-party printing and decoding the engine calls: \<open>serde_json\<close>'s \<open>Display\<close> of a value, the
  derived (de)serialisation of a snapshot and of the row types it reads, and the \<open>{:?}\<close> form of a
  string in messages (whose escapes depend on the Unicode tables of the standard library).
\<close>

record codec =
  cd_show :: "json \<Rightarrow> string"
  cd_debug_str :: "string \<Rightarrow> string"
  cd_snapshot_to_string :: "schema_snapshot \<Rightarrow> string + string"
  cd_snapshot_from_str :: "string \<Rightarrow> string + schema_snapshot"
  cd_history_rows :: "json \<Rightarrow> string + migration_record list"
  cd_string_rows :: "string \<Rightarrow> json \<Rightarrow> string + string list"

definition cd_debug :: "codec \<Rightarrow> string list \<Rightarrow> string" where
  "cd_debug cd ss = ''['' @ join '', '' (map (cd_debug_str cd) ss) @ '']''"

text \<open>\<open>EngineCtx\<close> with its connection factory and its tenancy strategy.\<close>

record 'w engine_ctx =
  cx_acquire :: "'w \<Rightarrow> storage_location \<Rightarrow> (string + 'w conn) \<times> 'w"
  cx_platform_scope :: storage_location
  cx_locate :: "string \<Rightarrow> storage_location"
  cx_requires_deploy :: bool
  cx_strategy_name :: string
  cx_bootstrap_sql :: "string option"

section \<open>Executing statements\<close>

definition exec :: "codec \<Rightarrow> 'w conn \<Rightarrow> 'w \<Rightarrow> string \<Rightarrow> (string + json) \<times> 'w" where
  "exec cd conn w sql =
     (case conn w sql of
        (Inl e, w') \<Rightarrow> (Inl e, w')
      | (Inr stmts, w') \<Rightarrow>
          (case find (\<lambda>s. \<not> sr_ok s) stmts of
             Some s \<Rightarrow> (Inl (''statement failed: '' @ cd_show cd (sr_result s)), w')
           | None \<Rightarrow> (Inr (if stmts = [] then JNull else sr_result (last stmts)), w')))"

definition escape_str :: "string \<Rightarrow> string" where
  "escape_str s = replace_char (CHR 0x27) [CHR 0x5C, CHR 0x27] (replace_char (CHR 0x5C) [CHR 0x5C, CHR 0x5C] s)"

lemma exec_state: "snd (exec cd conn w sql) = snd (conn w sql)"
  by (auto simp: exec_def split: prod.splits sum.splits option.splits)

lemma exec_Inr_iff:
  "(\<exists>v. fst (exec cd conn w sql) = Inr v) \<longleftrightarrow>
     (\<exists>stmts. fst (conn w sql) = Inr stmts \<and> list_all sr_ok stmts)"
  by (auto simp: exec_def list_all_iff find_None_iff find_Some_iff split: prod.splits sum.splits option.splits)

text \<open>
  Reading a quoted literal back: inside the quotes a backslash takes the next character literally
  and a quote ends the literal.
\<close>

fun unquote_body :: "string \<Rightarrow> (string \<times> string) option" where
  "unquote_body [] = None"
| "unquote_body (c # s) =
     (if c = CHR 0x27 then Some ([], s)
      else if c = CHR 0x5C then
        (case s of [] \<Rightarrow> None
         | d # s' \<Rightarrow> map_option (\<lambda>(v, r). (d # v, r)) (unquote_body s'))
      else map_option (\<lambda>(v, r). (c # v, r)) (unquote_body s))"

lemma escape_str_simps [simp]:
  "escape_str [] = []"
  "escape_str (c # s) = (if c = CHR 0x27 \<or> c = CHR 0x5C then [CHR 0x5C, c] else [c]) @ escape_str s"
  by (simp_all add: escape_str_def)

lemma unquote_escape: "unquote_body (escape_str s @ CHR 0x27 # rest) = Some (s, rest)"
  by (induction s) simp_all

section \<open>Durations\<close>

text \<open>
  \<open>duration_secs\<close> over exact rationals (the code computes the same sums in \<open>f64\<close>). A component is a
  number followed by a unit; a number that does not parse contributes nothing.
\<close>

definition parse_decimal :: "string \<Rightarrow> rat option" where
  "parse_decimal s =
     (case split_char CHR ''.'' s of
        [a] \<Rightarrow> (if a \<noteq> [] \<and> list_all is_digit a then Some (of_nat (digits_val a)) else None)
      | [a, b] \<Rightarrow>
          (if (a \<noteq> [] \<or> b \<noteq> []) \<and> list_all is_digit a \<and> list_all is_digit b
           then Some (of_nat (digits_val (a @ b)) / 10 ^ length b) else None)
      | _ \<Rightarrow> None)"

definition unit_secs :: "string \<Rightarrow> rat" where
  "unit_secs u =
     (if u = ''ns'' then 1 / 1000000000
      else if u = ''us'' \<or> u = [CHR 0xC2, CHR 0xB5, CHR ''s''] then 1 / 1000000
      else if u = ''ms'' then 1 / 1000
      else if u = ''s'' \<or> u = [] then 1
      else if u = ''m'' then 60
      else if u = ''h'' then 3600
      else if u = ''d'' then 86400
      else if u = ''w'' then 604800
      else 0)"

definition flush_secs :: "string \<Rightarrow> string \<Rightarrow> rat \<Rightarrow> rat" where
  "flush_secs num unit acc =
     (case parse_decimal num of None \<Rightarrow> acc | Some v \<Rightarrow> acc + v * unit_secs unit)"

fun duration_from :: "string \<Rightarrow> string \<Rightarrow> rat \<Rightarrow> string \<Rightarrow> rat" where
  "duration_from num unit acc [] = flush_secs num unit acc"
| "duration_from num unit acc (c # s) =
     (if is_digit c \<or> c = CHR ''.''
        then (if unit \<noteq> [] then duration_from [c] [] (flush_secs num unit acc) s
              else duration_from (num @ [c]) unit acc s)
      else duration_from num (unit @ [c]) acc s)"

definition duration_secs :: "string \<Rightarrow> rat" where
  "duration_secs s = duration_from [] [] 0 s"

end
