(* ===== verification/Toposort_Proofs.thy ===== *)
theory Toposort_Proofs
  imports Toposort
begin

text \<open>
  Correctness of the dependency ordering: the order is a permutation of the resources, a resource
  never comes before one it links to when the links are acyclic, and with a cycle only the
  resources that depend on it fall back to input order.
\<close>

section \<open>The maps\<close>

lemma map_of_filter_ne: "map_of (filter (\<lambda>e. fst e \<noteq> k) m) j = (if j = k then None else map_of m j)"
  by (induction m) auto

lemma map_of_hm_insert [simp]: "map_of (hm_insert k v m) = (map_of m)(k \<mapsto> v)"
  by (auto simp: hm_insert_def map_of_filter_ne fun_eq_iff)

lemma map_of_hm_decr:
  "map_of (hm_decr k m) j = (if j = k then map_option (\<lambda>x. x - 1) (map_of m k) else map_of m j)"
  by (induction m) (auto simp: hm_decr_def)

lemma map_of_hm_inserts:
  "map_of (fold (\<lambda>x m. hm_insert (f x) (g x) m) xs m) = map_of m ++ map_of (rev (map (\<lambda>x. (f x, g x)) xs))"
  by (induction xs arbitrary: m) (auto simp: fun_eq_iff map_add_def split: option.splits)

lemma map_of_rev_distinct:
  "distinct (map f xs) \<Longrightarrow> x \<in> set xs \<Longrightarrow> map_of (rev (map (\<lambda>x. (f x, g x)) xs)) (f x) = Some (g x)"
  by (rule map_of_is_SomeI) (auto simp: rev_map [symmetric] comp_def)

definition deps_of :: "(string \<times> string list) list \<Rightarrow> string \<Rightarrow> string list" where
  "deps_of m k = (case map_of m k of None \<Rightarrow> [] | Some vs \<Rightarrow> vs)"

lemma deps_of_push: "deps_of (hm_push k v m) j = deps_of m j @ (if j = k then [v] else [])"
  by (simp add: deps_of_def hm_push_def split: option.splits)

lemma deps_of_pushes:
  "deps_of (fold (\<lambda>d. hm_push d n) ds m) j = deps_of m j @ replicate (count_list ds j) n"
  by (induction ds arbitrary: m) (auto simp: deps_of_push replicate_append_same)

lemma deps_of_dependents:
  "deps_of (build_dependents nodes) j
     = concat (map (\<lambda>n. replicate (count_list (real_deps nodes n) j) (fst n)) nodes)"
proof -
  have "deps_of (fold (\<lambda>n m. fold (\<lambda>d. hm_push d (fst n)) (g n) m) ns m) j
      = deps_of m j @ concat (map (\<lambda>n. replicate (count_list (g n) j) (fst n)) ns)"
    for g and ns :: "node list" and m
    by (induction ns arbitrary: m) (simp_all add: deps_of_pushes)
  then show ?thesis by (simp add: build_dependents_def deps_of_def)
qed

section \<open>The inner loop\<close>

lemma release_indeg:
  "map_of (fst (release ms indeg q)) j = map_option (\<lambda>x. x - int (count_list ms j)) (map_of indeg j)"
proof (induction ms indeg q rule: release.induct)
  case (1 indeg q)
  then show ?case by (cases "map_of indeg j") simp_all
next
  case (2 m ms indeg q)
  show ?case
  proof (cases "map_of indeg m")
    case None
    with 2 show ?thesis by (cases "j = m") auto
  next
    case (Some e)
    with 2 show ?thesis
      by (cases "map_of indeg j"; cases "e - 1 = 0"; cases "j = m") (auto simp: map_of_hm_decr)
  qed
qed

definition released :: "string list \<Rightarrow> (string \<times> int) list \<Rightarrow> string set" where
  "released ms indeg = {j. \<exists>e. map_of indeg j = Some e \<and> 1 \<le> e \<and> e \<le> int (count_list ms j)}"

lemma released_Cons:
  assumes "map_of indeg m = Some e"
  shows "released (m # ms) indeg = (if e = 1 then {m} else {}) \<union> released ms (hm_decr m indeg)"
    and "e = 1 \<Longrightarrow> m \<notin> released ms (hm_decr m indeg)"
  using assms by (auto simp: released_def map_of_hm_decr)

lemma release_queue:
  "\<exists>p. snd (release ms indeg q) = q @ p \<and> distinct p \<and> set p = released ms indeg"
proof (induction ms indeg q rule: release.induct)
  case (1 indeg q)
  then show ?case by (auto simp: released_def)
next
  case (2 m ms indeg q)
  show ?case
  proof (cases "map_of indeg m")
    case None
    then have "released (m # ms) indeg = released ms indeg"
      by (auto simp: released_def split: if_splits)
    with 2 None show ?thesis by simp
  next
    case (Some e)
    show ?thesis
    proof (cases "e = 1")
      case True
      with 2 Some obtain p where "snd (release ms (hm_decr m indeg) (q @ [m])) = (q @ [m]) @ p"
        "distinct p" "set p = released ms (hm_decr m indeg)" by auto
      with True Some show ?thesis
        using released_Cons [OF Some] by (intro exI [of _ "m # p"]) simp
    next
      case False
      with 2 Some released_Cons [OF Some] show ?thesis by auto
    qed
  qed
qed

section \<open>The loop invariant\<close>

definition rdeps :: "node list \<Rightarrow> string \<Rightarrow> string list" where
  "rdeps nodes n = (case map_of nodes n of None \<Rightarrow> [] | Some ds \<Rightarrow> real_deps nodes (n, ds))"

definition topo_ok :: "node list \<Rightarrow> string list \<Rightarrow> bool" where
  "topo_ok nodes order = (\<forall>xs n ys. order = xs @ n # ys \<longrightarrow> set (rdeps nodes n) \<subseteq> set xs)"

definition kahn_inv :: "node list \<Rightarrow> string list \<Rightarrow> (string \<times> int) list \<Rightarrow> string list \<Rightarrow> bool" where
  "kahn_inv nodes queue indeg order \<longleftrightarrow>
     distinct (order @ queue) \<and> set (order @ queue) \<subseteq> fst ` set nodes
     \<and> (\<forall>n \<in> fst ` set nodes. map_of indeg n = Some (int (length (filter (\<lambda>d. d \<notin> set order) (rdeps nodes n)))))
     \<and> (\<forall>n \<in> fst ` set nodes. n \<in> set (order @ queue) \<longleftrightarrow> set (rdeps nodes n) \<subseteq> set order)
     \<and> topo_ok nodes order"

lemma rdeps_node:
  "distinct (map fst nodes) \<Longrightarrow> n \<in> set nodes \<Longrightarrow> rdeps nodes (fst n) = real_deps nodes n"
  by (cases n) (simp add: rdeps_def map_of_is_SomeI)

lemma rdeps_names: "set (rdeps nodes n) \<subseteq> fst ` set nodes - {n}"
  by (auto simp: rdeps_def real_deps_def split: option.splits)

lemma topo_ok_snoc: "topo_ok nodes order \<Longrightarrow> set (rdeps nodes n) \<subseteq> set order \<Longrightarrow> topo_ok nodes (order @ [n])"
  unfolding topo_ok_def by (auto simp: append_eq_append_conv2 append_eq_Cons_conv Cons_eq_append_conv)

lemma count_dependents:
  assumes "distinct (map fst nodes)" and "j \<in> fst ` set nodes"
  shows "count_list (deps_of (build_dependents nodes) n) j = count_list (rdeps nodes j) n"
proof -
  have "count_list (concat (map (\<lambda>x. replicate (count_list (f x) n) (fst x)) ns)) (fst x)
      = count_list (f x) n"
    if "distinct (map fst ns)" "x \<in> set ns" for f and ns :: "node list" and x
  proof -
    have zero: "count_list (concat (map (\<lambda>x. replicate (count_list (f x) n) (fst x)) xs)) k = 0"
      if "k \<notin> fst ` set xs" for xs :: "node list" and k
      using that by (auto simp: count_list_0_iff)
    have rep: "count_list (replicate i a) a = i" for i and a :: string by (induction i) auto
    have rep0: "a \<noteq> b \<Longrightarrow> count_list (replicate i a) b = 0" for i and a b :: string
      by (induction i) auto
    show ?thesis
      using that
    proof (induction ns)
      case (Cons y ys)
      show ?case
      proof (cases "x = y")
        case True
        with Cons.prems zero [of "fst x" ys] show ?thesis by (simp add: rep)
      next
        case False
        with Cons.prems have "x \<in> set ys" and "fst y \<noteq> fst x" by force+
        with Cons show ?thesis by (simp add: rep0)
      qed
    qed simp
  qed
  moreover obtain x where x: "x \<in> set nodes" "j = fst x" using assms(2) by auto
  ultimately show ?thesis
    using assms(1) by (simp add: deps_of_dependents rdeps_node)
qed

lemma filter_not_insert:
  "a \<notin> A \<Longrightarrow> length (filter (\<lambda>d. d \<notin> A) ds) = length (filter (\<lambda>d. d \<noteq> a \<and> d \<notin> A) ds) + count_list ds a"
  by (induction ds) auto

lemma filter_empty_subset: "filter (\<lambda>d. d \<notin> A) ds = [] \<longleftrightarrow> set ds \<subseteq> A"
  by (auto simp: filter_empty_conv)


lemma kahn_inv_step:
  assumes names: "distinct (map fst nodes)" and inv: "kahn_inv nodes (n # queue) indeg order"
  shows "kahn_inv nodes (snd (release (deps_of (build_dependents nodes) n) indeg queue))
           (fst (release (deps_of (build_dependents nodes) n) indeg queue)) (order @ [n])"
proof -
  let ?N = "fst ` set nodes" and ?ms = "deps_of (build_dependents nodes) n"
  let ?indeg = "fst (release ?ms indeg queue)" and ?queue = "snd (release ?ms indeg queue)"
  have dist: "distinct (order @ n # queue)" and sub: "set (order @ n # queue) \<subseteq> ?N"
    and deg: "\<And>j. j \<in> ?N \<Longrightarrow> map_of indeg j = Some (int (length (filter (\<lambda>d. d \<notin> set order) (rdeps nodes j))))"
    and seen: "\<And>j. j \<in> ?N \<Longrightarrow> j \<in> set (order @ n # queue) \<longleftrightarrow> set (rdeps nodes j) \<subseteq> set order"
    and topo: "topo_ok nodes order"
    using inv by (auto simp: kahn_inv_def)
  have n: "n \<in> ?N" "n \<notin> set order" using dist sub by auto
  have left: "int (length (filter (\<lambda>d. d \<notin> set order) (rdeps nodes j))) - int (count_list ?ms j)
      = int (length (filter (\<lambda>d. d \<notin> set (order @ [n])) (rdeps nodes j)))" if "j \<in> ?N" for j
    using filter_not_insert [OF n(2), of "rdeps nodes j"] count_dependents [OF names that, of n] by simp
  have deg': "map_of ?indeg j = Some (int (length (filter (\<lambda>d. d \<notin> set (order @ [n])) (rdeps nodes j))))"
    if "j \<in> ?N" for j
    using left [OF that] by (simp add: release_indeg deg [OF that])
  have ms_names: "j \<in> ?N" if "0 < count_list ?ms j" for j
  proof -
    have "set ?ms \<subseteq> ?N" by (force simp: deps_of_dependents)
    then show ?thesis using that by (metis count_notin less_irrefl subsetD)
  qed
  have rel: "j \<in> released ?ms indeg \<longleftrightarrow>
      j \<in> ?N \<and> \<not> set (rdeps nodes j) \<subseteq> set order \<and> set (rdeps nodes j) \<subseteq> set (order @ [n])" for j
  proof (cases "j \<in> ?N")
    case True
    have "j \<in> released ?ms indeg \<longleftrightarrow>
        filter (\<lambda>d. d \<notin> set order) (rdeps nodes j) \<noteq> []
        \<and> int (length (filter (\<lambda>d. d \<notin> set (order @ [n])) (rdeps nodes j))) \<le> 0"
    proof -
      have "j \<in> released ?ms indeg \<longleftrightarrow>
          1 \<le> length (filter (\<lambda>d. d \<notin> set order) (rdeps nodes j))
          \<and> int (length (filter (\<lambda>d. d \<notin> set order) (rdeps nodes j))) \<le> int (count_list ?ms j)"
        by (auto simp: released_def deg [OF True])
      moreover have "1 \<le> length xs \<longleftrightarrow> xs \<noteq> []" for xs :: "string list"
        by (cases xs) simp_all
      moreover have "int (length (filter (\<lambda>d. d \<notin> set order) (rdeps nodes j))) \<le> int (count_list ?ms j)
          \<longleftrightarrow> int (length (filter (\<lambda>d. d \<notin> set (order @ [n])) (rdeps nodes j))) \<le> 0"
        using left [OF True] by linarith
      ultimately show ?thesis by (simp only: )
    qed
    then show ?thesis
      using True filter_empty_subset [of "set order" "rdeps nodes j"]
        filter_empty_subset [of "set (order @ [n])" "rdeps nodes j"] by simp
  next
    case False
    then show ?thesis using ms_names [of j] by (force simp: released_def)
  qed
  obtain p where p: "?queue = queue @ p" "distinct p" "set p = released ?ms indeg"
    using release_queue by blast
  have "set p \<inter> set (order @ n # queue) = {}"
    using rel seen p(3) by blast
  then have dist': "distinct ((order @ [n]) @ ?queue)"
    using dist p by auto
  have sub': "set ((order @ [n]) @ ?queue) \<subseteq> ?N"
    using sub p rel by auto
  have seen': "j \<in> set ((order @ [n]) @ ?queue) \<longleftrightarrow> set (rdeps nodes j) \<subseteq> set (order @ [n])"
    if "j \<in> ?N" for j
    using seen [OF that] rel [of j] p that by auto
  have "topo_ok nodes (order @ [n])"
    using topo_ok_snoc [OF topo] seen [OF n(1)] by simp
  then show ?thesis
    unfolding kahn_inv_def using dist' sub' deg' seen' by blast
qed

lemma kahn_loop_inv:
  assumes names: "distinct (map fst nodes)" and "kahn_inv nodes queue indeg order"
  shows "\<exists>indeg'. kahn_inv nodes [] indeg' (kahn_loop (build_dependents nodes) queue indeg order)"
  using assms(2)
proof (induction "build_dependents nodes" queue indeg order rule: kahn_loop.induct)
  case (1 indeg order)
  then show ?case by auto
next
  case (2 n queue indeg order)
  from kahn_inv_step [OF names "2.prems"] show ?case
    using "2.hyps" by (simp add: Let_def deps_of_def)
qed

lemma map_of_indeg:
  assumes "distinct (map fst nodes)" and "n \<in> fst ` set nodes"
  shows "map_of (build_indeg nodes) n = Some (int (length (rdeps nodes n)))"
proof -
  obtain x where x: "x \<in> set nodes" "n = fst x" using assms(2) by auto
  with map_of_rev_distinct [OF assms(1) x(1), of "\<lambda>x. int (length (real_deps nodes x))"] assms(1)
  show ?thesis by (simp add: build_indeg_def map_of_hm_inserts rdeps_node)
qed

lemma kahn_inv_initial:
  assumes names: "distinct (map fst nodes)"
  shows "kahn_inv nodes (initial_queue nodes) (build_indeg nodes) []"
  unfolding kahn_inv_def using names map_of_indeg [OF names]
  by (auto simp: initial_queue_def topo_ok_def)

lemma append_missing_eq:
  "distinct ns \<Longrightarrow> append_missing order ns = order @ filter (\<lambda>n. n \<notin> set order) ns"
proof (induction ns arbitrary: order)
  case (Cons n ns)
  have "filter (\<lambda>x. x \<noteq> n \<and> x \<notin> set order) ns = filter (\<lambda>x. x \<notin> set order) ns"
    using Cons.prems by (intro filter_cong) auto
  with Cons show ?case by simp
qed simp

section \<open>Main results\<close>

text \<open>The part of the order that Kahn's algorithm settles: exactly the nodes free of cycles below.\<close>

definition kahn_prefix :: "node list \<Rightarrow> string list" where
  "kahn_prefix nodes = kahn_loop (build_dependents nodes) (initial_queue nodes) (build_indeg nodes) []"

lemma kahn_prefix_props:
  assumes "distinct (map fst nodes)"
  shows "distinct (kahn_prefix nodes)" and "set (kahn_prefix nodes) \<subseteq> fst ` set nodes"
    and "topo_ok nodes (kahn_prefix nodes)"
    and "n \<in> fst ` set nodes \<Longrightarrow>
         n \<in> set (kahn_prefix nodes) \<longleftrightarrow> set (rdeps nodes n) \<subseteq> set (kahn_prefix nodes)"
  using kahn_loop_inv [OF assms kahn_inv_initial [OF assms]]
  by (auto simp: kahn_inv_def kahn_prefix_def)

lemma toposort_eq:
  assumes "distinct (map fst nodes)"
  shows "toposort_keys nodes
       = kahn_prefix nodes @ filter (\<lambda>n. n \<notin> set (kahn_prefix nodes)) (map fst nodes)"
proof (cases "length (kahn_prefix nodes) < length nodes")
  case True
  then show ?thesis
    using append_missing_eq [OF assms] by (simp add: toposort_keys_def kahn_prefix_def Let_def)
next
  case False
  have "card (fst ` set nodes) = length nodes"
    using assms distinct_card [OF assms] by simp
  then have "card (fst ` set nodes) \<le> card (set (kahn_prefix nodes))"
    using False kahn_prefix_props(1) [OF assms] by (simp add: distinct_card)
  then have "set (kahn_prefix nodes) = fst ` set nodes"
    using kahn_prefix_props(2) [OF assms] by (metis List.finite_set card_seteq finite_imageI)
  then have "filter (\<lambda>n. n \<notin> set (kahn_prefix nodes)) (map fst nodes) = []"
    by (simp add: filter_empty_conv)
  with False show ?thesis by (simp add: toposort_keys_def kahn_prefix_def)
qed

lemma toposort_permutes:
  assumes "distinct (map fst nodes)"
  shows "mset (toposort_keys nodes) = mset (map fst nodes)"
proof -
  have "distinct (toposort_keys nodes)"
    using assms kahn_prefix_props(1) [OF assms] by (auto simp: toposort_eq [OF assms])
  moreover have "set (toposort_keys nodes) = set (map fst nodes)"
    using kahn_prefix_props(2) [OF assms] by (auto simp: toposort_eq [OF assms])
  ultimately show ?thesis using assms by (metis set_eq_iff_mset_eq_distinct)
qed

text \<open>Acyclic links: some level function increases along every link between resources.\<close>

lemma toposort_acyclic:
  assumes names: "distinct (map fst nodes)"
    and level: "\<And>n d. n \<in> fst ` set nodes \<Longrightarrow> d \<in> set (rdeps nodes n) \<Longrightarrow> level d < (level n :: nat)"
  shows "topo_ok nodes (toposort_keys nodes)"
proof -
  have "n \<in> set (kahn_prefix nodes)" if "n \<in> fst ` set nodes" for n
    using that
  proof (induction "level n" arbitrary: n rule: less_induct)
    case less
    then have "set (rdeps nodes n) \<subseteq> set (kahn_prefix nodes)"
      using level rdeps_names [of nodes n] by blast
    with less.prems show ?case using kahn_prefix_props(4) [OF names] by blast
  qed
  then have "toposort_keys nodes = kahn_prefix nodes"
    by (simp add: toposort_eq [OF names] filter_empty_conv)
  then show ?thesis using kahn_prefix_props(3) [OF names] by simp
qed

section \<open>Resources\<close>

lemma take_named_eq:
  assumes "distinct ns" and "\<And>n. n \<in> set ns \<Longrightarrow> map_of m n = Some (f n)"
  shows "take_named ns m = map f ns"
  using assms
proof (induction ns arbitrary: m)
  case (Cons n ns)
  then have "take_named ns (filter (\<lambda>e. fst e \<noteq> n) m) = map f ns"
    by (intro Cons.IH) (auto simp: map_of_filter_ne)
  with Cons.prems show ?case by simp
qed simp

definition nodes_of :: "resource_spec list \<Rightarrow> node list" where
  "nodes_of regs = map (\<lambda>r. (rs_name r, record_deps r)) regs"

lemma names_of_nodes: "map fst (nodes_of regs) = map rs_name regs"
  by (simp add: nodes_of_def comp_def)

lemma order_resources_names:
  assumes "distinct (map rs_name regs)"
  shows "map rs_name (order_resources regs) = toposort_keys (nodes_of regs)"
    and "mset (order_resources regs) = mset regs"
proof -
  let ?m = "fold (\<lambda>r m. hm_insert (rs_name r) r m) regs []"
  have dist: "distinct (map fst (nodes_of regs))" using assms by (simp only: names_of_nodes)
  note perm = toposort_permutes [OF dist, unfolded names_of_nodes]
  define f where "f n = the (map_of ?m n)" for n
  have look: "map_of ?m (rs_name r) = Some r" if "r \<in> set regs" for r
    using map_of_rev_distinct [OF assms that, of "\<lambda>r. r"] by (simp add: map_of_hm_inserts)
  then have f: "f (rs_name r) = r" if "r \<in> set regs" for r using that by (simp add: f_def)
  have set_eq: "set (toposort_keys (nodes_of regs)) = rs_name ` set regs"
    using perm by (metis list.set_map set_mset_mset)
  have "distinct (toposort_keys (nodes_of regs))"
    using perm assms by (metis mset_eq_imp_distinct_iff)
  then have eq: "order_resources regs = map f (toposort_keys (nodes_of regs))"
    unfolding order_resources_def nodes_of_def [symmetric]
    by (rule take_named_eq) (use set_eq look f in force)
  show "map rs_name (order_resources regs) = toposort_keys (nodes_of regs)"
    unfolding eq map_map by (rule map_idI) (use set_eq f in auto)
  have "mset (order_resources regs) = image_mset f (image_mset rs_name (mset regs))"
    using perm by (simp add: eq)
  also have "\<dots> = image_mset (\<lambda>r. r) (mset regs)"
    unfolding multiset.map_comp by (rule image_mset_cong) (use f in auto)
  finally show "mset (order_resources regs) = mset regs" by simp
qed

end
