(* ===== verification/Props_Schema.thy ===== *)
theory Props_Schema
  imports Schema_Exec Classify Toposort_Proofs
begin

text \<open>
  The properties of the schema layer: snapshots, their difference, the statements that realise it, the
  field types, the classification report and the dependency order.
\<close>

section \<open>Snapshots and differences\<close>

text \<open>C37: every snapshot read from schema text is well formed: its keys are sorted and unique, each
  object stands under its own key, and each object's statement parses back to that object.\<close>

theorem snapshot_well_formed: "wf_snapshot (from_sql table sql)"
  by (rule from_sql_wf)





lemma destructive_iff:
  "destructive (diff old new) \<noteq> [] \<longleftrightarrow>
     (\<exists>(k, ob)\<in>set (sn_objects old). so_kind ob = Field \<and> map_of (sn_objects new) k = None)"
  by (force simp: destructive_def diff_def filter_empty_conv)

text \<open>a resource is skipped exactly when its schema objects are unchanged, and its diff counts as
  destructive exactly when a field of the old schema is missing from the new one.\<close>

theorem diff_emptiness_and_destruction:
  "(diff_is_empty (diff (from_sql table a) (from_sql table b))
      \<longleftrightarrow> sn_objects (from_sql table a) = sn_objects (from_sql table b))
   \<and> (destructive (diff old new) \<noteq> [] \<longleftrightarrow>
        (\<exists>(k, ob)\<in>set (sn_objects old). so_kind ob = Field \<and> map_of (sn_objects new) k = None))"
  using diff_empty_iff [OF from_sql_wf from_sql_wf] destructive_iff by blast

section \<open>Field types\<close>

text \<open>printing a parsed field type and parsing it again gives the same type.\<close>

theorem field_type_roundtrip: "parse_inner (render (parse_inner raw)) = parse_inner raw"
  by (rule parse_render_parse)

section \<open>Classification\<close>

text \<open>every field the diff creates, alters or drops is classified exactly once, and the report's
  summary is the tally of its entries.\<close>

theorem fields_classified_once:
  "mset (map fe_field (fr_entries (classify_diff old new))) =
     mset (map so_name (filter (\<lambda>ob. so_kind ob = Field) (sd_creates (diff old new) @ sd_alters (diff old new))))
     + mset (map do_name (filter (\<lambda>x. do_kind x = Field) (sd_drops (diff old new))))
   \<and> fr_summary (classify_diff old new) = tally_all (map fe_class (fr_entries (classify_diff old new)))"
  using classified_fields [of old new] classify_diff_inv [of old new] by (simp only: report_inv_def)

section \<open>Dependency order\<close>

text \<open>C34: ordering resources with distinct names loses none of them, and when their links are acyclic
  (a level function decreases along every link to a resource of the set) every resource comes after
  all the resources it links to.\<close>

theorem resources_ordered:
  assumes "distinct (map rs_name regs)"
    and "\<forall>n\<in>rs_name ` set regs. \<forall>d\<in>set (rdeps (nodes_of regs) n). level d < (level n :: nat)"
  shows "mset (order_resources regs) = mset regs
    \<and> topo_ok (nodes_of regs) (map rs_name (order_resources regs))"
proof -
  have "distinct (map fst (nodes_of regs))" using assms(1) by (simp only: names_of_nodes)
  moreover have "fst ` set (nodes_of regs) = rs_name ` set regs" by (simp add: nodes_of_def image_image)
  ultimately have "topo_ok (nodes_of regs) (toposort_keys (nodes_of regs))"
    using toposort_acyclic [of "nodes_of regs" level] assms(2) by simp
  with order_resources_names [OF assms(1)] show ?thesis by simp
qed

definition invoice_resources :: "resource_spec list" where
  "invoice_resources =
     [\<lparr>rs_app = ''a'', rs_name = ''line'', rs_schema = [], rs_deps = [''invoice'', ''item'']\<rparr>,
      \<lparr>rs_app = ''a'', rs_name = ''invoice'', rs_schema = [], rs_deps = [''invoice'']\<rparr>,
      \<lparr>rs_app = ''a'', rs_name = ''item'', rs_schema = [], rs_deps = []\<rparr>]"

theorem resources_ordered_witness:
  "mset (order_resources invoice_resources) = mset invoice_resources
    \<and> topo_ok (nodes_of invoice_resources) (map rs_name (order_resources invoice_resources))"
  by (rule resources_ordered [where level = "\<lambda>n. if n = ''line'' then 1 else 0"]) code_simp+

text \<open>two resources with the same name (of different apps) are not both ordered: one is silently
  dropped and never migrated.\<close>

theorem same_name_loses_resource:
  "length (order_resources
     [\<lparr>rs_app = ''crm'', rs_name = ''note'', rs_schema = s1, rs_deps = []\<rparr>,
      \<lparr>rs_app = ''hr'', rs_name = ''note'', rs_schema = s2, rs_deps = []\<rparr>]) = 1"
  by code_simp

end
