(* ===== verification/Decision.thy ===== *)
theory Decision
  imports Classify
begin

text \<open>
  \<open>orm/src/decision.rs\<close>: the migration policy. \<open>decide\<close> judges an explicit apply, \<open>boot_action\<close> the
  automatic one at startup. The locale \<open>gate\<close> is what the callers rely on when they fold the
  tallies of many resources into one: a refusal is monotone in the tally. Both policies are
  interpretations of it.
\<close>

section \<open>The policy\<close>

datatype environment = Dev | Test | Prod

definition is_strict :: "environment \<Rightarrow> bool" where
  "is_strict env = (env = Prod)"

definition env_as_str :: "environment \<Rightarrow> string" where
  "env_as_str env = (case env of Dev \<Rightarrow> ''dev'' | Test \<Rightarrow> ''test'' | Prod \<Rightarrow> ''prod'')"

definition environment_default :: environment where
  "environment_default = Prod"

record decision_note =
  dn_severity :: field_class
  dn_message :: string

datatype boot_decision = Allow | WarnWith "decision_note list" | RefuseWith "decision_note list"

definition is_allow :: "boot_decision \<Rightarrow> bool" where
  "is_allow d = (case d of Allow \<Rightarrow> True | _ \<Rightarrow> False)"

definition is_refuse :: "boot_decision \<Rightarrow> bool" where
  "is_refuse d = (case d of RefuseWith _ \<Rightarrow> True | _ \<Rightarrow> False)"

definition decision_notes :: "boot_decision \<Rightarrow> decision_note list" where
  "decision_notes d = (case d of Allow \<Rightarrow> [] | WarnWith n \<Rightarrow> n | RefuseWith n \<Rightarrow> n)"

definition policy_notes :: "class_summary \<Rightarrow> decision_note list" where
  "policy_notes s =
     (if 0 < su_blocked s
        then [\<lparr>dn_severity = Blocked,
               dn_message = nat_str (su_blocked s) @ '' blocked change(s) '' @ em_dash
                 @ '' data loss / lossy coercion''\<rparr>] else [])
     @ (if 0 < su_needs_backfill s
        then [\<lparr>dn_severity = NeedsBackfill,
               dn_message = nat_str (su_needs_backfill s) @ '' change(s) need a data backfill''\<rparr>]
        else [])
     @ (if 0 < su_warn s
        then [\<lparr>dn_severity = Warn,
               dn_message = nat_str (su_warn s) @ '' change(s) worth review''\<rparr>] else [])"

text \<open>\<open>DecisionOptions\<close> has the one field \<open>acknowledge\<close>.\<close>

record decision_options =
  acknowledge :: bool

definition decide :: "environment \<Rightarrow> class_summary \<Rightarrow> decision_options \<Rightarrow> boot_decision" where
  "decide env s opts =
     (case worst s of
        None \<Rightarrow> Allow
      | Some Safe \<Rightarrow> Allow
      | Some Warn \<Rightarrow> WarnWith (policy_notes s)
      | Some _ \<Rightarrow>
          (if is_strict env \<and> \<not> acknowledge opts then RefuseWith (policy_notes s) else WarnWith (policy_notes s)))"

datatype boot_action = Proceed | Converge | Refuse

definition boot_action :: "environment \<Rightarrow> class_summary \<Rightarrow> bool \<Rightarrow> boot_action" where
  "boot_action env non_drop has_drops =
     (if worst non_drop = None \<and> \<not> has_drops then Proceed
      else if is_strict env then Refuse
      else if has_drops then Refuse
      else case worst non_drop of
        None \<Rightarrow> Proceed
      | Some Safe \<Rightarrow> Converge
      | Some Warn \<Rightarrow> Converge
      | Some _ \<Rightarrow> Refuse)"

section \<open>Tallies as a monoid with an order\<close>

definition add_summary :: "class_summary \<Rightarrow> class_summary \<Rightarrow> class_summary" where
  "add_summary s t =
     \<lparr>su_safe = su_safe s + su_safe t, su_warn = su_warn s + su_warn t,
      su_needs_backfill = su_needs_backfill s + su_needs_backfill t,
      su_blocked = su_blocked s + su_blocked t\<rparr>"

definition sum_summaries :: "class_summary list \<Rightarrow> class_summary" where
  "sum_summaries ss = fold (\<lambda>s acc. add_summary acc s) ss summary_default"

definition le_summary :: "class_summary \<Rightarrow> class_summary \<Rightarrow> bool" where
  "le_summary s t = (\<forall>c. count_class s c \<le> count_class t c)"

lemma count_add [simp]: "count_class (add_summary s t) c = count_class s c + count_class t c"
  by (cases c) (simp_all add: add_summary_def)

lemma count_sum_summaries: "count_class (sum_summaries ss) c = sum_list (map (\<lambda>s. count_class s c) ss)"
proof -
  have "count_class (fold (\<lambda>s acc. add_summary acc s) ss a) c
      = count_class a c + sum_list (map (\<lambda>s. count_class s c) ss)" for a
    by (induction ss arbitrary: a) simp_all
  then show ?thesis by (simp add: sum_summaries_def)
qed

lemma le_sum_summaries: "s \<in> set ss \<Longrightarrow> le_summary s (sum_summaries ss)"
  unfolding le_summary_def count_sum_summaries
  by (metis in_set_conv_nth elem_le_sum_list length_map nth_map)

lemma worst_mono:
  assumes "le_summary s t" and "worst s = Some c"
  shows "\<exists>d. worst t = Some d \<and> c \<le> d"
proof -
  have le: "count_class s d \<le> count_class t d" for d using assms(1) by (simp add: le_summary_def)
  show ?thesis
    using assms(2) le [of Safe] le [of Warn] le [of NeedsBackfill] le [of Blocked]
    by (auto simp: worst_def less_eq_field_class_def split: if_splits)
qed

section \<open>The contract of a gate\<close>

locale gate =
  fixes refuses :: "environment \<Rightarrow> class_summary \<Rightarrow> bool"
  assumes refuses_mono: "le_summary s t \<Longrightarrow> refuses env s \<Longrightarrow> refuses env t"
    and refuses_strict: "refuses env s \<Longrightarrow> refuses Prod s"
begin

text \<open>A refusal of one resource is a refusal of the run, and production is the strictest.\<close>

lemma refuses_sum: "s \<in> set ss \<Longrightarrow> refuses env s \<Longrightarrow> refuses env (sum_summaries ss)"
  using le_sum_summaries refuses_mono by blast

lemma refuses_sum_prod: "s \<in> set ss \<Longrightarrow> refuses env s \<Longrightarrow> refuses Prod (sum_summaries ss)"
  using refuses_sum refuses_strict by blast

lemma accepted_parts: "\<not> refuses env (sum_summaries ss) \<Longrightarrow> s \<in> set ss \<Longrightarrow> \<not> refuses env s"
  using refuses_sum by blast

end

lemma is_refuse_decide:
  "is_refuse (decide env s opts) \<longleftrightarrow>
     env = Prod \<and> \<not> acknowledge opts \<and> (\<exists>c. worst s = Some c \<and> NeedsBackfill \<le> c)"
  by (auto simp: decide_def is_refuse_def is_strict_def less_eq_field_class_def
      split: option.splits field_class.splits)

lemma is_allow_decide:
  "is_allow (decide env s opts) \<longleftrightarrow> worst s = None \<or> worst s = Some Safe"
  by (auto simp: decide_def is_allow_def split: option.splits field_class.splits)

lemma boot_refuse_iff:
  "boot_action env s drops = Refuse \<longleftrightarrow>
     drops \<or> (\<exists>c. worst s = Some c \<and> (env = Prod \<or> NeedsBackfill \<le> c))"
  by (auto simp: boot_action_def is_strict_def less_eq_field_class_def
      split: option.splits field_class.splits)

lemma boot_converge_iff:
  "boot_action env s drops = Converge \<longleftrightarrow>
     env \<noteq> Prod \<and> \<not> drops \<and> (worst s = Some Safe \<or> worst s = Some Warn)"
  by (auto simp: boot_action_def is_strict_def split: option.splits field_class.splits)

interpretation apply_gate: gate "\<lambda>env s. is_refuse (decide env s opts)" for opts
proof unfold_locales
  fix s t env
  assume le: "le_summary s t" and "is_refuse (decide env s opts)"
  then obtain c where c: "worst s = Some c" "NeedsBackfill \<le> c" and env: "env = Prod" "\<not> acknowledge opts"
    by (auto simp: is_refuse_decide)
  obtain d where "worst t = Some d" "c \<le> d"
    using worst_mono [OF le c(1)] by blast
  with c env show "is_refuse (decide env t opts)"
    using order_trans by (auto simp: is_refuse_decide)
qed (simp add: is_refuse_decide)

interpretation boot_gate: gate "\<lambda>env s. boot_action env s drops = Refuse" for drops
proof unfold_locales
  fix s t env
  assume le: "le_summary s t" and r: "boot_action env s drops = Refuse"
  show "boot_action env t drops = Refuse"
  proof (cases drops)
    case True
    then show ?thesis by (simp add: boot_refuse_iff)
  next
    case False
    with r obtain c where c: "worst s = Some c" "env = Prod \<or> NeedsBackfill \<le> c"
      by (auto simp: boot_refuse_iff)
    obtain d where "worst t = Some d" "c \<le> d"
      using worst_mono [OF le c(1)] by blast
    with c show ?thesis using order_trans by (auto simp: boot_refuse_iff)
  qed
qed (auto simp: boot_refuse_iff)

text \<open>Boot is at least as strict as apply: what boot converges, apply would not refuse.\<close>

lemma converge_not_refused:
  "boot_action env s drops = Converge \<Longrightarrow> \<not> is_refuse (decide env s opts)"
  by (auto simp: boot_converge_iff is_refuse_decide less_eq_field_class_def)

end
