(* ===== verification/Migrator.thy ===== *)
theory Migrator
  imports Decision Toposort
begin

text \<open>
  \<open>orm/src/lib.rs\<close>: the migration engine. A scope's run loads the recorded history, walks the
  resources in dependency order, diffs each against its last snapshot, passes the destructive and
  the classification gate, and applies the statements with a history row in one transaction. The
  state of the store is threaded through every call that sends a statement; \<open>Inl\<close> is the error
  that aborts the run.
\<close>

section \<open>Options and reports\<close>

definition MIGRATION_TABLE :: string where
  "MIGRATION_TABLE = ''_framework_migration''"

definition LOCK_TABLE :: string where
  "LOCK_TABLE = ''_framework_migration_lock''"

definition LOCK_STALE_SECS :: rat where
  "LOCK_STALE_SECS = 300"

definition PLATFORM_APP :: string where
  "PLATFORM_APP = ''platform''"

record migration_options =
  mo_dry_run :: bool
  mo_allow_destructive :: bool
  mo_environment :: environment
  mo_acknowledge :: bool

definition migration_options_default :: migration_options where
  "migration_options_default =
     \<lparr>mo_dry_run = False, mo_allow_destructive = False, mo_environment = environment_default,
      mo_acknowledge = False\<rparr>"

definition default_for :: "environment \<Rightarrow> migration_options" where
  "default_for env = migration_options_default\<lparr>mo_environment := env\<rparr>"

definition dry_run_for :: "environment \<Rightarrow> migration_options" where
  "dry_run_for env = migration_options_default\<lparr>mo_dry_run := True, mo_environment := env\<rparr>"

record revert_options =
  ro_dry_run :: bool
  ro_allow_destructive :: bool
  ro_to_version :: "int option"
  ro_environment :: environment
  ro_acknowledge :: bool

datatype direction = Up | Down

definition direction_str :: "direction \<Rightarrow> string" where
  "direction_str d = (case d of Up \<Rightarrow> ''up'' | Down \<Rightarrow> ''down'')"

record applied_migration =
  am_name :: string
  am_version :: int
  am_creates :: nat
  am_alters :: nat
  am_drops :: nat
  am_statements :: "string list"
  am_classifications :: field_change_report

definition applied_from_diff ::
  "string \<Rightarrow> int \<Rightarrow> schema_diff \<Rightarrow> schema_snapshot \<Rightarrow> schema_snapshot \<Rightarrow> string list
   \<Rightarrow> applied_migration" where
  "applied_from_diff name version d old new stmts =
     \<lparr>am_name = name, am_version = version, am_creates = length (sd_creates d),
      am_alters = length (sd_alters d), am_drops = length (sd_drops d),
      am_statements = stmts, am_classifications = classify_diff old new\<rparr>"

record planned_migration =
  pm_name :: string
  pm_next_version :: int
  pm_statements :: "string list"
  pm_destructive :: "string list"
  pm_warnings :: "string list"
  pm_classifications :: field_change_report

definition planned_from_diff ::
  "string \<Rightarrow> int \<Rightarrow> schema_diff \<Rightarrow> schema_snapshot \<Rightarrow> schema_snapshot \<Rightarrow> string
   \<Rightarrow> planned_migration" where
  "planned_from_diff name next_version d old new table =
     \<lparr>pm_name = name, pm_next_version = next_version, pm_statements = statements d table,
      pm_destructive = destructive d, pm_warnings = warnings d,
      pm_classifications = classify_diff old new\<rparr>"

record migration_error =
  me_name :: string
  me_message :: string

record migration_report =
  rp_scope :: string
  rp_namespace :: string
  rp_database :: string
  rp_considered :: nat
  rp_skipped :: nat
  rp_applied :: "applied_migration list"
  rp_planned :: "planned_migration list"
  rp_errors :: "migration_error list"

definition report_for :: "string \<Rightarrow> storage_location \<Rightarrow> migration_report" where
  "report_for scope loc =
     \<lparr>rp_scope = scope, rp_namespace = sl_namespace loc, rp_database = sl_database loc,
      rp_considered = 0, rp_skipped = 0, rp_applied = [], rp_planned = [], rp_errors = []\<rparr>"

definition is_ok :: "migration_report \<Rightarrow> bool" where
  "is_ok r = (rp_errors r = [])"

section \<open>Policy over reports\<close>

text \<open>\<open>{environment:?}\<close> prints the variant's name.\<close>

definition env_debug :: "environment \<Rightarrow> string" where
  "env_debug env = (case env of Dev \<Rightarrow> ''Dev'' | Test \<Rightarrow> ''Test'' | Prod \<Rightarrow> ''Prod'')"

definition classification_refusal ::
  "environment \<Rightarrow> bool \<Rightarrow> field_change_report \<Rightarrow> string option" where
  "classification_refusal env ack r =
     (case decide env (non_drop_summary r) \<lparr>acknowledge = ack\<rparr> of
        RefuseWith ns \<Rightarrow>
          Some (env_debug env @ '' policy refuses: '' @ join ''; '' (map dn_message ns)
                @ '' '' @ em_dash @ '' acknowledge to apply'')
      | _ \<Rightarrow> None)"

definition apply_decision_for_report ::
  "migration_report \<Rightarrow> environment \<Rightarrow> decision_options \<Rightarrow> boot_decision" where
  "apply_decision_for_report r env opts =
     decide env
       (sum_summaries (map non_drop_summary
          (map pm_classifications (rp_planned r) @ map am_classifications (rp_applied r)))) opts"

definition boot_action_for_report :: "migration_report \<Rightarrow> environment \<Rightarrow> boot_action" where
  "boot_action_for_report r env =
     boot_action env
       (sum_summaries (map (\<lambda>p. non_drop_summary (pm_classifications p)) (rp_planned r)))
       (list_ex (\<lambda>p. pm_destructive p \<noteq> []) (rp_planned r))"

section \<open>Messages\<close>

definition sq :: string where
  "sq = [CHR 0x27]"

definition nl :: string where
  "nl = [CHR 0x0A]"

section \<open>History\<close>

definition history_table_schema :: string where
  "history_table_schema = ''DEFINE TABLE OVERWRITE '' @ MIGRATION_TABLE @ '' SCHEMALESS;''"

definition history_query :: string where
  "history_query =
     ''SELECT name, version, snapshot, <string> applied_at AS applied_at FROM '' @ MIGRATION_TABLE
     @ '' ORDER BY version DESC;''"

definition history_rows :: "codec \<Rightarrow> 'w conn \<Rightarrow> 'w \<Rightarrow> (string + migration_record list) \<times> 'w" where
  "history_rows cd conn w =
     (case exec cd conn w history_query of
        (Inl e, w') \<Rightarrow> (Inl e, w')
      | (Inr v, w') \<Rightarrow> (cd_history_rows cd v, w'))"

definition decode_snapshot :: "codec \<Rightarrow> migration_record \<Rightarrow> string + schema_snapshot" where
  "decode_snapshot cd row =
     map_err (\<lambda>e. ''corrupt schema snapshot in '' @ MIGRATION_TABLE @ '' for '' @ sq @ mr_name row @ sq
         @ '' v'' @ int_str (mr_version row) @ '': '' @ e @ '' '' @ em_dash
         @ '' refusing to migrate against unknown state; inspect/repair the history row first'')
       (cd_snapshot_from_str cd (mr_snapshot row))"

type_synonym history = "(string \<times> (int \<times> schema_snapshot)) list"
type_synonym full_history = "(string \<times> (int \<times> schema_snapshot) list) list"

fun latest_rows :: "codec \<Rightarrow> migration_record list \<Rightarrow> history \<Rightarrow> string + history" where
  "latest_rows cd [] m = Inr m"
| "latest_rows cd (row # rows) m =
     (if map_of m (mr_name row) \<noteq> None then latest_rows cd rows m
      else case decode_snapshot cd row of
        Inl e \<Rightarrow> Inl e
      | Inr snap \<Rightarrow> latest_rows cd rows (hm_insert (mr_name row) (mr_version row, snap) m))"

definition load_history :: "codec \<Rightarrow> 'w conn \<Rightarrow> 'w \<Rightarrow> (string + history) \<times> 'w" where
  "load_history cd conn w =
     (case history_rows cd conn w of
        (Inl e, w') \<Rightarrow> (Inl (''load migration history: '' @ e), w')
      | (Inr rows, w') \<Rightarrow> (latest_rows cd rows [], w'))"

fun all_rows :: "codec \<Rightarrow> migration_record list \<Rightarrow> full_history \<Rightarrow> string + full_history" where
  "all_rows cd [] m = Inr m"
| "all_rows cd (row # rows) m =
     (case decode_snapshot cd row of
        Inl e \<Rightarrow> Inl e
      | Inr snap \<Rightarrow> all_rows cd rows (hm_push (mr_name row) (mr_version row, snap) m))"

definition load_full_history :: "codec \<Rightarrow> 'w conn \<Rightarrow> 'w \<Rightarrow> (string + full_history) \<times> 'w" where
  "load_full_history cd conn w =
     (case history_rows cd conn w of
        (Inl e, w') \<Rightarrow> (Inl (''load full migration history: '' @ e), w')
      | (Inr rows, w') \<Rightarrow>
          ((case all_rows cd rows [] of
              Inl e \<Rightarrow> Inl e
            | Inr m \<Rightarrow> Inr (map (\<lambda>(n, vs). (n, sort_key (\<lambda>v. - fst v) vs)) m)), w'))"

section \<open>Applying one resource\<close>

definition history_insert :: "string \<Rightarrow> int \<Rightarrow> string \<Rightarrow> direction \<Rightarrow> string" where
  "history_insert name version snapshot_json dir =
     ''CREATE '' @ MIGRATION_TABLE @ '' SET name = '' @ sq @ escape_str name @ sq
     @ '', version = '' @ int_str version @ '', snapshot = '' @ sq @ escape_str snapshot_json @ sq
     @ '', direction = '' @ sq @ direction_str dir @ sq
     @ '', applied_at = <string> time::now();'' @ nl"

definition migration_txn ::
  "string \<Rightarrow> string \<Rightarrow> int \<Rightarrow> string list \<Rightarrow> direction \<Rightarrow> string" where
  "migration_txn name snapshot_json version stmts dir =
     ''BEGIN TRANSACTION;'' @ nl @ concat (map (\<lambda>s. s @ '';'' @ nl) stmts)
     @ history_insert name version snapshot_json dir @ ''COMMIT TRANSACTION;''"

definition apply_resource ::
  "codec \<Rightarrow> 'w conn \<Rightarrow> 'w \<Rightarrow> string \<Rightarrow> schema_snapshot \<Rightarrow> int \<Rightarrow> string list \<Rightarrow> direction
   \<Rightarrow> (string + unit) \<times> 'w" where
  "apply_resource cd conn w name snapshot version stmts dir =
     (case cd_snapshot_to_string cd snapshot of
        Inl e \<Rightarrow> (Inl e, w)
      | Inr snapshot_json \<Rightarrow>
          (case exec cd conn w (migration_txn name snapshot_json version stmts dir) of
             (Inl e, w') \<Rightarrow> (Inl (''migration transaction failed for '' @ name @ '': '' @ e), w')
           | (Inr _, w') \<Rightarrow> (Inr (), w')))"

section \<open>The advisory lock\<close>

definition lock_define_sql :: string where
  "lock_define_sql = ''DEFINE TABLE IF NOT EXISTS '' @ LOCK_TABLE @ '' SCHEMALESS;''"

definition lock_create_sql :: "string \<Rightarrow> string" where
  "lock_create_sql holder =
     ''CREATE '' @ LOCK_TABLE @ '':main SET holder = '' @ sq @ escape_str holder @ sq
     @ '', at = time::now();''"

definition lock_age_sql :: string where
  "lock_age_sql =
     ''SELECT <string> (time::now() - at) AS age FROM '' @ LOCK_TABLE @ '':main WHERE at != NONE;''"

definition lock_steal_sql :: string where
  "lock_steal_sql = ''DELETE '' @ LOCK_TABLE @ '':main;''"

definition lock_release_sql :: "string \<Rightarrow> string" where
  "lock_release_sql holder =
     ''DELETE '' @ LOCK_TABLE @ '':main WHERE holder = '' @ sq @ escape_str holder @ sq @ '';''"

definition lock_try_create :: "'w conn \<Rightarrow> 'w \<Rightarrow> string \<Rightarrow> (string + bool) \<times> 'w" where
  "lock_try_create conn w holder =
     (case conn w (lock_create_sql holder) of
        (Inl e, w') \<Rightarrow> (Inl e, w')
      | (Inr stmts, w') \<Rightarrow> (Inr (list_all sr_ok stmts), w'))"

text \<open>\<open>v.as_array()?.first()?.get("age")?.as_str()\<close>, empty when any step finds nothing.\<close>

definition lock_age :: "json \<Rightarrow> string" where
  "lock_age v =
     (case v of
        JArray (JObject row # _) \<Rightarrow>
          (case map_of row ''age'' of Some (JString s) \<Rightarrow> s | _ \<Rightarrow> [])
      | _ \<Rightarrow> [])"

definition lock_is_stale :: "codec \<Rightarrow> 'w conn \<Rightarrow> 'w \<Rightarrow> (string + bool) \<times> 'w" where
  "lock_is_stale cd conn w =
     (case exec cd conn w lock_age_sql of
        (Inl e, w') \<Rightarrow> (Inl e, w')
      | (Inr v, w') \<Rightarrow>
          (Inr (lock_age v = [] \<or> LOCK_STALE_SECS < duration_secs (lock_age v)), w'))"

definition lock_held_error :: string where
  "lock_held_error = ''another migration run holds '' @ LOCK_TABLE @ '':main''"

definition lock_acquire :: "codec \<Rightarrow> 'w conn \<Rightarrow> 'w \<Rightarrow> string \<Rightarrow> (string + unit) \<times> 'w" where
  "lock_acquire cd conn w holder =
     (case exec cd conn w lock_define_sql of
        (Inl e, w1) \<Rightarrow> (Inl (''define lock table: '' @ e), w1)
      | (Inr _, w1) \<Rightarrow>
          (case lock_try_create conn w1 holder of
             (Inl e, w2) \<Rightarrow> (Inl e, w2)
           | (Inr True, w2) \<Rightarrow> (Inr (), w2)
           | (Inr False, w2) \<Rightarrow>
               (case lock_is_stale cd conn w2 of
                  (Inl e, w3) \<Rightarrow> (Inl e, w3)
                | (Inr False, w3) \<Rightarrow> (Inl lock_held_error, w3)
                | (Inr True, w3) \<Rightarrow>
                    (let w4 = snd (conn w3 lock_steal_sql) in
                     case lock_try_create conn w4 holder of
                       (Inl e, w5) \<Rightarrow> (Inl e, w5)
                     | (Inr True, w5) \<Rightarrow> (Inr (), w5)
                     | (Inr False, w5) \<Rightarrow> (Inl lock_held_error, w5)))))"

definition lock_release :: "'w conn \<Rightarrow> 'w \<Rightarrow> string \<Rightarrow> 'w" where
  "lock_release conn w holder = snd (conn w (lock_release_sql holder))"

end
