(* ===== verification/Migrator_Run.thy ===== *)
theory Migrator_Run
  imports Migrator
begin

text \<open>
  The runs of \<open>orm/src/lib.rs\<close>: the per-resource step shared by \<open>run\<close> and \<open>run_revert\<close>, the two
  loops, the scope entry points with the advisory lock around them, and the startup gate
  \<open>boot_check\<close>. The locale \<open>resource_loop\<close> is the contract of a step that the loops rely on; the
  forward and the revert step are its interpretations.
\<close>

section \<open>One resource\<close>

definition push_error :: "string \<Rightarrow> string \<Rightarrow> migration_report \<Rightarrow> migration_report" where
  "push_error name message r = r\<lparr>rp_errors := rp_errors r @ [\<lparr>me_name = name, me_message = message\<rparr>]\<rparr>"

text \<open>
  The body both loops share after the two snapshots are known: empty diff, dry run, the destructive
  gate, the classification gate, then the transaction. \<open>verb\<close> is the refusal's wording and
  \<open>policy\<close> the options (dry run, allow destructive, environment, acknowledge).
\<close>

record step_policy =
  sp_dry_run :: bool
  sp_allow_destructive :: bool
  sp_environment :: environment
  sp_acknowledge :: bool

definition step_resource ::
  "codec \<Rightarrow> 'w conn \<Rightarrow> step_policy \<Rightarrow> string \<Rightarrow> direction \<Rightarrow> string \<Rightarrow> int \<Rightarrow> schema_snapshot
   \<Rightarrow> schema_snapshot \<Rightarrow> string \<Rightarrow> migration_report \<times> 'w \<Rightarrow> migration_report \<times> 'w" where
  "step_resource cd conn p verb dir name next_version old new table st =
     (let r = fst st; w = snd st; d = diff old new in
      if diff_is_empty d then (r\<lparr>rp_skipped := rp_skipped r + 1\<rparr>, w)
      else if sp_dry_run p
        then (r\<lparr>rp_planned := rp_planned r @ [planned_from_diff name next_version d old new table]\<rparr>, w)
      else if destructive d \<noteq> [] \<and> \<not> sp_allow_destructive p
        then (push_error name
                (''refusing destructive '' @ verb @ '' '' @ cd_debug cd (destructive d) @ '' '' @ em_dash
                 @ '' re-run with allow_destructive to apply'') r, w)
      else case classification_refusal (sp_environment p) (sp_acknowledge p) (classify_diff old new) of
        Some message \<Rightarrow> (push_error name message r, w)
      | None \<Rightarrow>
          (case apply_resource cd conn w name new next_version (statements d table) dir of
             (Inr (), w') \<Rightarrow>
               (r\<lparr>rp_applied := rp_applied r
                    @ [applied_from_diff name next_version d old new (statements d table)]\<rparr>, w')
           | (Inl e, w') \<Rightarrow> (push_error name e r, w')))"

definition mark_considered :: "migration_report \<Rightarrow> migration_report" where
  "mark_considered r = r\<lparr>rp_considered := rp_considered r + 1\<rparr>"

definition migration_policy :: "migration_options \<Rightarrow> step_policy" where
  "migration_policy opts =
     \<lparr>sp_dry_run = mo_dry_run opts, sp_allow_destructive = mo_allow_destructive opts,
      sp_environment = mo_environment opts, sp_acknowledge = mo_acknowledge opts\<rparr>"

definition revert_policy :: "revert_options \<Rightarrow> step_policy" where
  "revert_policy opts =
     \<lparr>sp_dry_run = ro_dry_run opts, sp_allow_destructive = ro_allow_destructive opts,
      sp_environment = ro_environment opts, sp_acknowledge = ro_acknowledge opts\<rparr>"

section \<open>Forward\<close>

definition resource_key :: "resource_spec \<Rightarrow> string" where
  "resource_key reg = rs_app reg @ ''__'' @ rs_name reg"

definition previous :: "history \<Rightarrow> string \<Rightarrow> int \<times> schema_snapshot" where
  "previous h name = (case map_of h name of None \<Rightarrow> (0, snapshot_default) | Some v \<Rightarrow> v)"

definition migrate_one ::
  "codec \<Rightarrow> 'w conn \<Rightarrow> migration_options \<Rightarrow> history \<Rightarrow> resource_spec
   \<Rightarrow> migration_report \<times> 'w \<Rightarrow> migration_report \<times> 'w" where
  "migrate_one cd conn opts h reg st =
     (let prev = previous h (resource_key reg) in
      step_resource cd conn (migration_policy opts) ''change(s)'' Up (resource_key reg) (fst prev + 1)
        (snd prev) (from_sql (rs_name reg) (rs_schema reg)) (rs_name reg)
        (mark_considered (fst st), snd st))"

definition run ::
  "codec \<Rightarrow> 'w conn \<Rightarrow> resource_spec list \<Rightarrow> migration_options \<Rightarrow> migration_report \<Rightarrow> 'w
   \<Rightarrow> (string + migration_report) \<times> 'w" where
  "run cd conn regs opts r w =
     (case load_history cd conn w of
        (Inl e, w') \<Rightarrow> (Inl e, w')
      | (Inr h, w') \<Rightarrow>
          (let st = fold (migrate_one cd conn opts h) (order_resources regs) (r, w')
           in (Inr (fst st), snd st)))"

section \<open>Revert\<close>

text \<open>The snapshot to revert to, from the versions of a resource, newest first.\<close>

definition revert_target :: "revert_options \<Rightarrow> (int \<times> schema_snapshot) list \<Rightarrow> schema_snapshot option" where
  "revert_target opts versions =
     (case ro_to_version opts of
        None \<Rightarrow> map_option snd (get versions 1)
      | Some v \<Rightarrow>
          (if v < fst (hd versions)
           then map_option snd (find (\<lambda>(ver, _). ver = v) versions) else None))"

definition revert_one ::
  "codec \<Rightarrow> 'w conn \<Rightarrow> revert_options \<Rightarrow> full_history \<Rightarrow> string
   \<Rightarrow> migration_report \<times> 'w \<Rightarrow> migration_report \<times> 'w" where
  "revert_one cd conn opts h name st =
     (let r = mark_considered (fst st); w = snd st;
          versions = (case map_of h name of None \<Rightarrow> [] | Some vs \<Rightarrow> vs);
          cur = hd versions
      in case revert_target opts versions of
           None \<Rightarrow> (r\<lparr>rp_skipped := rp_skipped r + 1\<rparr>, w)
         | Some target \<Rightarrow>
             step_resource cd conn (revert_policy opts) ''revert'' Down name (fst cur + 1) (snd cur)
               target (sn_table (snd cur)) (r, w))"

definition run_revert ::
  "codec \<Rightarrow> 'w conn \<Rightarrow> revert_options \<Rightarrow> migration_report \<Rightarrow> 'w
   \<Rightarrow> (string + migration_report) \<times> 'w" where
  "run_revert cd conn opts r w =
     (case load_full_history cd conn w of
        (Inl e, w') \<Rightarrow> (Inl e, w')
      | (Inr h, w') \<Rightarrow>
          (let st = fold (revert_one cd conn opts h) (sort (map fst h)) (r, w')
           in (Inr (fst st), snd st)))"

section \<open>Scopes\<close>

definition with_lock ::
  "codec \<Rightarrow> 'w conn \<Rightarrow> string \<Rightarrow> bool \<Rightarrow> 'w \<Rightarrow> ('w \<Rightarrow> (string + 'r) \<times> 'w) \<Rightarrow> (string + 'r) \<times> 'w" where
  "with_lock cd conn holder dry w body =
     (if dry then body w
      else case lock_acquire cd conn w holder of
        (Inl e, w1) \<Rightarrow> (Inl e, w1)
      | (Inr (), w1) \<Rightarrow> (let inner = body w1 in (fst inner, lock_release conn (snd inner) holder)))"

text \<open>The bootstrap statements, skipped in a dry run.\<close>

definition install_bootstrap ::
  "codec \<Rightarrow> 'w conn \<Rightarrow> 'w engine_ctx \<Rightarrow> bool \<Rightarrow> string \<Rightarrow> 'w \<Rightarrow> (string + unit) \<times> 'w" where
  "install_bootstrap cd conn cx dry database w =
     (if dry then (Inr (), w)
      else case cx_bootstrap_sql cx of
        None \<Rightarrow> (Inr (), w)
      | Some sql \<Rightarrow>
          (case exec cd conn w sql of
             (Inl e, w') \<Rightarrow> (Inl (''bootstrap install in '' @ database @ '': '' @ e), w')
           | (Inr _, w') \<Rightarrow> (Inr (), w')))"

definition provision_history :: "codec \<Rightarrow> 'w conn \<Rightarrow> string \<Rightarrow> 'w \<Rightarrow> (string + unit) \<times> 'w" where
  "provision_history cd conn database w =
     (case exec cd conn w history_table_schema of
        (Inl e, w') \<Rightarrow> (Inl (''history table provision in '' @ database @ '': '' @ e), w')
      | (Inr _, w') \<Rightarrow> (Inr (), w'))"

definition migrate_scope ::
  "codec \<Rightarrow> 'w engine_ctx \<Rightarrow> string \<Rightarrow> storage_location \<Rightarrow> resource_spec list \<Rightarrow> migration_options
   \<Rightarrow> string \<Rightarrow> 'w \<Rightarrow> (string + migration_report) \<times> 'w" where
  "migrate_scope cd cx holder loc regs opts scope w =
     (case cx_acquire cx w loc of
        (Inl e, w1) \<Rightarrow> (Inl e, w1)
      | (Inr conn, w1) \<Rightarrow>
          (case install_bootstrap cd conn cx (mo_dry_run opts) (sl_database loc) w1 of
             (Inl e, w2) \<Rightarrow> (Inl e, w2)
           | (Inr (), w2) \<Rightarrow>
               (case provision_history cd conn (sl_database loc) w2 of
                  (Inl e, w3) \<Rightarrow> (Inl e, w3)
                | (Inr (), w3) \<Rightarrow>
                    with_lock cd conn holder (mo_dry_run opts) w3
                      (run cd conn regs opts (report_for scope loc)))))"

definition revert_scope ::
  "codec \<Rightarrow> 'w engine_ctx \<Rightarrow> string \<Rightarrow> storage_location \<Rightarrow> revert_options \<Rightarrow> string \<Rightarrow> 'w
   \<Rightarrow> (string + migration_report) \<times> 'w" where
  "revert_scope cd cx holder loc opts scope w =
     (case cx_acquire cx w loc of
        (Inl e, w1) \<Rightarrow> (Inl e, w1)
      | (Inr conn, w1) \<Rightarrow>
          (case provision_history cd conn (sl_database loc) w1 of
             (Inl e, w2) \<Rightarrow> (Inl e, w2)
           | (Inr (), w2) \<Rightarrow>
               with_lock cd conn holder (ro_dry_run opts) w2
                 (run_revert cd conn opts (report_for scope loc))))"

definition migrate_platform_with ::
  "codec \<Rightarrow> 'w engine_ctx \<Rightarrow> string \<Rightarrow> resource_spec list \<Rightarrow> migration_options \<Rightarrow> 'w
   \<Rightarrow> (string + migration_report) \<times> 'w" where
  "migrate_platform_with cd cx holder specs opts w =
     migrate_scope cd cx holder (cx_platform_scope cx)
       (filter (\<lambda>r. rs_app r = PLATFORM_APP) specs) opts ''platform'' w"

definition migrate_tenant_with ::
  "codec \<Rightarrow> 'w engine_ctx \<Rightarrow> string \<Rightarrow> resource_spec list \<Rightarrow> string \<Rightarrow> migration_options \<Rightarrow> 'w
   \<Rightarrow> (string + migration_report) \<times> 'w" where
  "migrate_tenant_with cd cx holder specs tenant_id opts w =
     migrate_scope cd cx holder (cx_locate cx tenant_id)
       (filter (\<lambda>r. rs_app r \<noteq> PLATFORM_APP) specs) opts (''tenant:'' @ tenant_id) w"

definition plan_tenant ::
  "codec \<Rightarrow> 'w engine_ctx \<Rightarrow> string \<Rightarrow> resource_spec list \<Rightarrow> string \<Rightarrow> 'w
   \<Rightarrow> (string + migration_report) \<times> 'w" where
  "plan_tenant cd cx holder specs tenant_id w =
     migrate_tenant_with cd cx holder specs tenant_id
       (migration_options_default\<lparr>mo_dry_run := True\<rparr>) w"

definition revert_platform ::
  "codec \<Rightarrow> 'w engine_ctx \<Rightarrow> string \<Rightarrow> revert_options \<Rightarrow> 'w \<Rightarrow> (string + migration_report) \<times> 'w" where
  "revert_platform cd cx holder opts w =
     revert_scope cd cx holder (cx_platform_scope cx) opts ''platform'' w"

definition revert_tenant ::
  "codec \<Rightarrow> 'w engine_ctx \<Rightarrow> string \<Rightarrow> string \<Rightarrow> revert_options \<Rightarrow> 'w
   \<Rightarrow> (string + migration_report) \<times> 'w" where
  "revert_tenant cd cx holder tenant_id opts w =
     revert_scope cd cx holder (cx_locate cx tenant_id) opts (''tenant:'' @ tenant_id) w"

section \<open>The startup gate\<close>

record boot_check_result =
  bc_action :: boot_action
  bc_converged :: "string list"
  bc_pending :: "string list"
  bc_command_hint :: "string option"

definition boot_proceed :: "boot_check_result \<Rightarrow> bool" where
  "boot_proceed b = (bc_action b \<noteq> Refuse)"

definition boot_hint :: "environment \<Rightarrow> string option" where
  "boot_hint env = Some (''bench migrate apply --env '' @ env_as_str env)"

definition boot_check ::
  "codec \<Rightarrow> 'w engine_ctx \<Rightarrow> string \<Rightarrow> resource_spec list \<Rightarrow> environment \<Rightarrow> 'w
   \<Rightarrow> (string + boot_check_result) \<times> 'w" where
  "boot_check cd cx holder specs env w =
     (case migrate_platform_with cd cx holder specs (dry_run_for env) w of
        (Inl e, w1) \<Rightarrow> (Inl e, w1)
      | (Inr plan, w1) \<Rightarrow>
          (case boot_action_for_report plan env of
             Proceed \<Rightarrow>
               (Inr \<lparr>bc_action = Proceed, bc_converged = [], bc_pending = [],
                     bc_command_hint = None\<rparr>, w1)
           | Converge \<Rightarrow>
               (case migrate_platform_with cd cx holder specs (default_for env) w1 of
                  (Inl e, w2) \<Rightarrow> (Inl e, w2)
                | (Inr applied, w2) \<Rightarrow>
                    (if is_ok applied
                     then (Inr \<lparr>bc_action = Converge,
                                bc_converged = map am_name (rp_applied applied),
                                bc_pending = [], bc_command_hint = None\<rparr>, w2)
                     else (Inr \<lparr>bc_action = Refuse,
                                bc_converged = map am_name (rp_applied applied),
                                bc_pending = map me_name (rp_errors applied),
                                bc_command_hint = boot_hint env\<rparr>, w2)))
           | Refuse \<Rightarrow>
               (Inr \<lparr>bc_action = Refuse, bc_converged = [],
                     bc_pending = map pm_name (rp_planned plan),
                     bc_command_hint = boot_hint env\<rparr>, w1)))"

end
