(* ===== verification/Migrator_Proofs.thy ===== *)
theory Migrator_Proofs
  imports Migrator_Run
begin

text \<open>
  What a migration run guarantees, whatever the store answers: every resource is accounted for
  once, a dry run sends nothing but reads, and nothing the policy forbids is applied. The facts
  about a whole run come from the locale \<open>resource_loop\<close>, interpreted for the forward and for the
  revert step.
\<close>

section \<open>The contract of a step\<close>

definition outcomes :: "migration_report \<Rightarrow> nat" where
  "outcomes r = rp_skipped r + length (rp_applied r) + length (rp_planned r) + length (rp_errors r)"

definition accounted :: "migration_report \<Rightarrow> bool" where
  "accounted r = (rp_considered r = outcomes r)"

locale resource_loop =
  fixes step :: "'i \<Rightarrow> migration_report \<times> 'w \<Rightarrow> migration_report \<times> 'w"
    and allowed :: "applied_migration \<Rightarrow> bool"
    and quiet :: bool
  assumes step_considered: "rp_considered (fst (step i st)) = rp_considered (fst st) + 1"
    and step_outcome: "outcomes (fst (step i st)) = outcomes (fst st) + 1"
    and step_applied: "\<exists>as. rp_applied (fst (step i st)) = rp_applied (fst st) @ as \<and> list_all allowed as"
    and step_quiet: "quiet \<Longrightarrow> snd (step i st) = snd st \<and> rp_applied (fst (step i st)) = rp_applied (fst st)"
    and step_loud: "\<not> quiet \<Longrightarrow> rp_planned (fst (step i st)) = rp_planned (fst st)"
begin

lemma loop_considered: "rp_considered (fst (fold step is st)) = rp_considered (fst st) + length is"
  by (induction "is" arbitrary: st) (simp_all add: step_considered)

lemma loop_accounted: "accounted (fst st) \<Longrightarrow> accounted (fst (fold step is st))"
  by (induction "is" arbitrary: st) (simp_all add: accounted_def step_considered step_outcome)

lemma loop_allowed: "list_all allowed (rp_applied (fst st)) \<Longrightarrow> list_all allowed (rp_applied (fst (fold step is st)))"
proof (induction "is" arbitrary: st)
  case (Cons i "is")
  obtain as where "rp_applied (fst (step i st)) = rp_applied (fst st) @ as" "list_all allowed as"
    using step_applied by blast
  with Cons.prems have "list_all allowed (rp_applied (fst (step i st)))" by simp
  with Cons.IH show ?case by simp
qed simp

lemma loop_quiet:
  "quiet \<Longrightarrow> snd (fold step is st) = snd st \<and> rp_applied (fst (fold step is st)) = rp_applied (fst st)"
proof (induction "is" arbitrary: st)
  case (Cons i "is")
  then show ?case using step_quiet [of i st] Cons.IH [of "step i st"] by simp
qed simp

lemma loop_loud: "\<not> quiet \<Longrightarrow> rp_planned (fst (fold step is st)) = rp_planned (fst st)"
  by (induction "is" arbitrary: st) (simp_all add: step_loud)

end

section \<open>What the policy lets through\<close>

definition policy_allows :: "step_policy \<Rightarrow> applied_migration \<Rightarrow> bool" where
  "policy_allows p am =
     ((sp_allow_destructive p \<or> list_all (\<lambda>e. fe_change e \<noteq> Dropped) (fr_entries (am_classifications am)))
      \<and> classification_refusal (sp_environment p) (sp_acknowledge p) (am_classifications am) = None)"

lemma classify_modify_not_dropped: "cl_change (classify_modify a b) \<noteq> Dropped"
  by (auto simp: classify_modify_def Let_def)

lemma classify_added_not_dropped: "cl_change (classify_added t n) \<noteq> Dropped"
  by (auto simp: classify_added_def Let_def split: if_splits)

definition no_drops :: "field_change_report \<Rightarrow> bool" where
  "no_drops r = list_all (\<lambda>e. fe_change e \<noteq> Dropped) (fr_entries r)"

lemma no_drops_push: "no_drops (push f c a b r) \<longleftrightarrow> no_drops r \<and> cl_change c \<noteq> Dropped"
  by (auto simp: no_drops_def push_def)

lemma no_drops_push_conservative [simp]: "no_drops (push_conservative f a b r) = no_drops r"
  by (simp add: no_drops_def push_conservative_def)

lemma no_drops_new: "no_drops (classify_new_object m tn e r) = no_drops r"
  by (auto simp: classify_new_object_def Let_def no_drops_push classify_modify_not_dropped
      classify_added_not_dropped split: option.splits)

lemma no_drops_old:
  "no_drops r \<Longrightarrow> so_kind (snd e) \<noteq> Field \<or> map_of m (fst e) \<noteq> None \<Longrightarrow> no_drops (classify_old_object m e r)"
  by (auto simp: classify_old_object_def Let_def)

text \<open>Without a destructive statement in the diff there is no dropped entry in the report.\<close>

lemma not_destructive_no_drops:
  assumes "destructive (diff old new) = []"
  shows "no_drops (classify_diff old new)"
proof -
  have new: "no_drops (fold (classify_new_object m tn) es report_default)" for m tn es
  proof -
    have "no_drops (fold (classify_new_object m tn) es r) = no_drops r" for r
      by (induction es arbitrary: r) (simp_all add: no_drops_new)
    then show ?thesis by (simp add: no_drops_def report_default_def)
  qed
  have ok: "so_kind (snd e) \<noteq> Field \<or> map_of (sn_objects new) (fst e) \<noteq> None"
    if "e \<in> set (sn_objects old)" for e
  proof (cases e)
    case (Pair k x)
    show ?thesis
    proof (rule ccontr)
      assume "\<not> ?thesis"
      with Pair have "so_kind x = Field" "map_of (sn_objects new) k = None" by simp_all
      with that Pair have "destructive (diff old new) \<noteq> []"
        by (force simp: destructive_def diff_def filter_empty_conv)
      with assms show False by simp
    qed
  qed
  have "no_drops (fold (classify_old_object (sn_objects new)) es r)"
    if "set es \<subseteq> set (sn_objects old)" "no_drops r" for es r
    using that
  proof (induction es arbitrary: r)
    case (Cons e es)
    have "no_drops (classify_old_object (sn_objects new) e r)"
      by (rule no_drops_old) (use Cons.prems ok in auto)
    with Cons show ?case by simp
  qed simp
  then show ?thesis
    using new by (simp add: classify_diff_def Let_def)
qed

section \<open>The two steps satisfy the contract\<close>

text \<open>The four ways a step ends.\<close>

lemma step_resource_cases:
  obtains (skipped)
      "step_resource cd conn p verb dir name v old new table st
        = ((fst st)\<lparr>rp_skipped := rp_skipped (fst st) + 1\<rparr>, snd st)"
      "diff_is_empty (diff old new)"
  | (planned)
      "step_resource cd conn p verb dir name v old new table st
        = ((fst st)\<lparr>rp_planned := rp_planned (fst st)
             @ [planned_from_diff name v (diff old new) old new table]\<rparr>, snd st)"
      "sp_dry_run p"
  | (refused) m w' where
      "step_resource cd conn p verb dir name v old new table st = (push_error name m (fst st), w')"
      "\<not> sp_dry_run p"
  | (applied) w' where
      "step_resource cd conn p verb dir name v old new table st
        = ((fst st)\<lparr>rp_applied := rp_applied (fst st)
             @ [applied_from_diff name v (diff old new) old new (statements (diff old new) table)]\<rparr>, w')"
      "\<not> sp_dry_run p" "destructive (diff old new) = [] \<or> sp_allow_destructive p"
      "classification_refusal (sp_environment p) (sp_acknowledge p) (classify_diff old new) = None"
      "apply_resource cd conn (snd st) name new v (statements (diff old new) table) dir = (Inr (), w')"
proof -
  note unf = step_resource_def Let_def
  consider "diff_is_empty (diff old new)"
    | "\<not> diff_is_empty (diff old new)" "sp_dry_run p"
    | "\<not> diff_is_empty (diff old new)" "\<not> sp_dry_run p"
      "destructive (diff old new) \<noteq> [] \<and> \<not> sp_allow_destructive p"
    | "\<not> diff_is_empty (diff old new)" "\<not> sp_dry_run p"
      "\<not> (destructive (diff old new) \<noteq> [] \<and> \<not> sp_allow_destructive p)"
    by blast
  then show thesis
  proof cases
    case 1
    then show thesis using skipped by (simp add: unf)
  next
    case 2
    then show thesis using planned by (simp add: unf)
  next
    case 3
    then show thesis using refused by (simp only: unf if_False if_True fst_conv snd_conv) simp
  next
    case 4
    show thesis
    proof (cases "classification_refusal (sp_environment p) (sp_acknowledge p) (classify_diff old new)")
      case (Some m)
      with 4 show thesis using refused by (simp only: unf if_False if_True option.case) simp
    next
      case None
      obtain res w' where ap:
        "apply_resource cd conn (snd st) name new v (statements (diff old new) table) dir = (res, w')"
        by (cases "apply_resource cd conn (snd st) name new v (statements (diff old new) table) dir")
      show thesis
      proof (cases res)
        case (Inl e)
        with 4 None ap show thesis using refused by (simp only: unf if_False if_True option.case prod.case sum.case) simp
      next
        case (Inr u)
        have st: "step_resource cd conn p verb dir name v old new table st
          = ((fst st)\<lparr>rp_applied := rp_applied (fst st)
               @ [applied_from_diff name v (diff old new) old new (statements (diff old new) table)]\<rparr>, w')"
          using 4 None ap Inr
          by (simp only: unf if_False if_True option.case prod.case sum.case old.unit.case split: unit.split) simp
        show thesis
          by (rule applied [OF st]) (use 4 None ap Inr in auto)
      qed
    qed
  qed
qed

lemma step_resource_considered:
  "rp_considered (fst (step_resource cd conn p verb dir name v old new table st)) = rp_considered (fst st)"
  by (rule step_resource_cases [of cd conn p verb dir name v old new table st]) (simp_all add: push_error_def)

lemma step_resource_outcome:
  "outcomes (fst (step_resource cd conn p verb dir name v old new table st)) = outcomes (fst st) + 1"
  by (rule step_resource_cases [of cd conn p verb dir name v old new table st])
    (simp_all add: push_error_def outcomes_def)

lemma applied_policy_allows:
  assumes "destructive (diff old new) = [] \<or> sp_allow_destructive p"
    and "classification_refusal (sp_environment p) (sp_acknowledge p) (classify_diff old new) = None"
  shows "policy_allows p (applied_from_diff name v (diff old new) old new stmts)"
  using assms not_destructive_no_drops [of old new]
  by (auto simp: policy_allows_def applied_from_diff_def no_drops_def)

lemma step_resource_applied:
  "\<exists>as. rp_applied (fst (step_resource cd conn p verb dir name v old new table st)) = rp_applied (fst st) @ as
     \<and> list_all (policy_allows p) as"
  by (rule step_resource_cases [of cd conn p verb dir name v old new table st])
    (simp_all add: push_error_def applied_policy_allows)

lemma step_resource_quiet:
  "sp_dry_run p \<Longrightarrow> snd (step_resource cd conn p verb dir name v old new table st) = snd st
     \<and> rp_applied (fst (step_resource cd conn p verb dir name v old new table st)) = rp_applied (fst st)"
  by (rule step_resource_cases [of cd conn p verb dir name v old new table st]) simp_all

lemma step_resource_loud:
  "\<not> sp_dry_run p \<Longrightarrow>
   rp_planned (fst (step_resource cd conn p verb dir name v old new table st)) = rp_planned (fst st)"
  by (rule step_resource_cases [of cd conn p verb dir name v old new table st])
    (simp_all add: push_error_def)

lemmas step_resource_facts =
  step_resource_considered step_resource_outcome step_resource_quiet step_resource_loud

lemma mark_considered_simps [simp]:
  "rp_considered (mark_considered r) = rp_considered r + 1"
  "outcomes (mark_considered r) = outcomes r"
  "rp_applied (mark_considered r) = rp_applied r"
  "rp_planned (mark_considered r) = rp_planned r"
  by (simp_all add: mark_considered_def outcomes_def)

interpretation forward: resource_loop "migrate_one cd conn opts h" "policy_allows (migration_policy opts)"
    "mo_dry_run opts" for cd conn opts h
proof unfold_locales
  fix i :: resource_spec and st :: "migration_report \<times> 'a"
  show "\<exists>as. rp_applied (fst (migrate_one cd conn opts h i st)) = rp_applied (fst st) @ as
      \<and> list_all (policy_allows (migration_policy opts)) as"
    unfolding migrate_one_def Let_def
    using step_resource_applied [where st = "(mark_considered (fst st), snd st)"] by simp
qed (simp_all add: migrate_one_def Let_def step_resource_facts migration_policy_def)

lemma revert_one_step:
  "revert_one cd conn opts h name st =
     (case revert_target opts (case map_of h name of None \<Rightarrow> [] | Some vs \<Rightarrow> vs) of
        None \<Rightarrow> ((mark_considered (fst st))\<lparr>rp_skipped := rp_skipped (mark_considered (fst st)) + 1\<rparr>, snd st)
      | Some target \<Rightarrow>
          (let cur = hd (case map_of h name of None \<Rightarrow> [] | Some vs \<Rightarrow> vs) in
           step_resource cd conn (revert_policy opts) ''revert'' Down name (fst cur + 1) (snd cur)
             target (sn_table (snd cur)) (mark_considered (fst st), snd st)))"
  by (cases "revert_target opts (case map_of h name of None \<Rightarrow> [] | Some vs \<Rightarrow> vs)")
    (simp_all only: revert_one_def Let_def option.case fst_conv snd_conv)

interpretation backward: resource_loop "revert_one cd conn opts h" "policy_allows (revert_policy opts)"
    "ro_dry_run opts" for cd conn opts h
proof unfold_locales
  fix i and st :: "migration_report \<times> 'a"
  show "\<exists>as. rp_applied (fst (revert_one cd conn opts h i st)) = rp_applied (fst st) @ as
      \<and> list_all (policy_allows (revert_policy opts)) as"
  proof (cases "revert_target opts (case map_of h i of None \<Rightarrow> [] | Some vs \<Rightarrow> vs)")
    case None
    then show ?thesis by (simp add: revert_one_step)
  next
    case (Some target)
    then show ?thesis
      unfolding revert_one_step Let_def
      using step_resource_applied [where st = "(mark_considered (fst st), snd st)"] by simp
  qed
next
  fix i and st :: "migration_report \<times> 'a"
  let ?t = "revert_target opts (case map_of h i of None \<Rightarrow> [] | Some vs \<Rightarrow> vs)"
  show "rp_considered (fst (revert_one cd conn opts h i st)) = rp_considered (fst st) + 1"
    by (cases ?t) (simp_all add: revert_one_step Let_def step_resource_considered)
  show "outcomes (fst (revert_one cd conn opts h i st)) = outcomes (fst st) + 1"
    by (cases ?t) (simp_all add: revert_one_step Let_def step_resource_outcome,
      simp add: mark_considered_def outcomes_def)
  show "ro_dry_run opts \<Longrightarrow> snd (revert_one cd conn opts h i st) = snd st
      \<and> rp_applied (fst (revert_one cd conn opts h i st)) = rp_applied (fst st)"
    by (cases ?t) (simp_all add: revert_one_step Let_def step_resource_quiet revert_policy_def)
  show "\<not> ro_dry_run opts \<Longrightarrow>
      rp_planned (fst (revert_one cd conn opts h i st)) = rp_planned (fst st)"
    by (cases ?t) (simp_all add: revert_one_step Let_def step_resource_loud revert_policy_def)
qed

section \<open>Runs\<close>

lemma accounted_report_for [simp]: "accounted (report_for scope loc)"
  by (simp add: accounted_def outcomes_def report_for_def)

lemma applied_report_for [simp]: "rp_applied (report_for scope loc) = []" "rp_planned (report_for scope loc) = []"
  by (simp_all add: report_for_def)

lemma run_Inr:
  assumes "run cd conn regs opts r w = (Inr rep, w')"
  obtains h w1 where "load_history cd conn w = (Inr h, w1)"
    "(rep, w') = fold (migrate_one cd conn opts h) (order_resources regs) (r, w1)"
  using assms by (auto simp: run_def Let_def split: prod.splits sum.splits)

lemma run_revert_Inr:
  assumes "run_revert cd conn opts r w = (Inr rep, w')"
  obtains h w1 where "load_full_history cd conn w = (Inr h, w1)"
    "(rep, w') = fold (revert_one cd conn opts h) (sort (map fst h)) (r, w1)"
  using assms by (auto simp: run_revert_def Let_def split: prod.splits sum.splits)

lemma run_report:
  assumes "run cd conn regs opts r w = (Inr rep, w')" and "accounted r" and "rp_applied r = []"
  shows "accounted rep" and "list_all (policy_allows (migration_policy opts)) (rp_applied rep)"
    and "rp_considered rep = rp_considered r + length (order_resources regs)"
    and "mo_dry_run opts \<Longrightarrow> rp_applied rep = []"
    and "\<not> mo_dry_run opts \<Longrightarrow> rp_planned rep = rp_planned r"
proof -
  obtain h w1 where st: "(rep, w') = fold (migrate_one cd conn opts h) (order_resources regs) (r, w1)"
    using run_Inr [OF assms(1)] by metis
  then have rep: "rep = fst (fold (migrate_one cd conn opts h) (order_resources regs) (r, w1))"
    by (metis fst_conv)
  show "accounted rep" unfolding rep by (rule forward.loop_accounted) (simp add: assms(2))
  show "list_all (policy_allows (migration_policy opts)) (rp_applied rep)"
    unfolding rep by (rule forward.loop_allowed) (simp add: assms(3))
  show "rp_considered rep = rp_considered r + length (order_resources regs)"
    unfolding rep by (simp add: forward.loop_considered)
  show "mo_dry_run opts \<Longrightarrow> rp_applied rep = []"
    unfolding rep using forward.loop_quiet [of opts cd conn h] assms(3) by simp
  show "\<not> mo_dry_run opts \<Longrightarrow> rp_planned rep = rp_planned r"
    unfolding rep by (simp add: forward.loop_loud)
qed

lemma run_revert_report:
  assumes "run_revert cd conn opts r w = (Inr rep, w')" and "accounted r" and "rp_applied r = []"
  shows "accounted rep" and "list_all (policy_allows (revert_policy opts)) (rp_applied rep)"
proof -
  obtain h w1 where st: "(rep, w') = fold (revert_one cd conn opts h) (sort (map fst h)) (r, w1)"
    using run_revert_Inr [OF assms(1)] by metis
  then have rep: "rep = fst (fold (revert_one cd conn opts h) (sort (map fst h)) (r, w1))"
    by (metis fst_conv)
  show "accounted rep" unfolding rep by (rule backward.loop_accounted) (simp add: assms(2))
  show "list_all (policy_allows (revert_policy opts)) (rp_applied rep)"
    unfolding rep by (rule backward.loop_allowed) (simp add: assms(3))
qed

text \<open>A scope's report is the report of its run on a fresh one.\<close>

lemma with_lock_Inr:
  assumes "with_lock cd conn holder dry w body = (Inr x, w')"
  obtains w1 w2 where "body w1 = (Inr x, w2)"
proof (cases dry)
  case True
  with assms that show thesis by (simp add: with_lock_def)
next
  case False
  obtain a w1 where a: "lock_acquire cd conn w holder = (a, w1)" by (cases "lock_acquire cd conn w holder")
  show thesis
  proof (cases a)
    case (Inr u)
    obtain y w2 where "body w1 = (y, w2)" by (cases "body w1")
    with assms False a Inr that show thesis by (simp add: with_lock_def Let_def split: unit.split_asm)
  qed (use assms False a in \<open>simp add: with_lock_def\<close>)
qed

lemma migrate_scope_Inr:
  fixes cx :: "'w engine_ctx"
  assumes "migrate_scope cd cx holder loc regs opts scope w = (Inr rep, w')"
  obtains conn :: "'w conn" and w1 w2 where "run cd conn regs opts (report_for scope loc) w1 = (Inr rep, w2)"
proof -
  obtain conn w3 where
    "with_lock cd conn holder (mo_dry_run opts) w3 (run cd conn regs opts (report_for scope loc)) = (Inr rep, w')"
    using assms unfolding migrate_scope_def by (simp split: prod.split_asm sum.split_asm unit.split_asm)
  then obtain w1 w2 where "run cd conn regs opts (report_for scope loc) w1 = (Inr rep, w2)"
    by (rule with_lock_Inr)
  then show thesis by (rule that)
qed

lemma revert_scope_Inr:
  fixes cx :: "'w engine_ctx"
  assumes "revert_scope cd cx holder loc opts scope w = (Inr rep, w')"
  obtains conn :: "'w conn" and w1 w2 where "run_revert cd conn opts (report_for scope loc) w1 = (Inr rep, w2)"
proof -
  obtain conn w3 where
    "with_lock cd conn holder (ro_dry_run opts) w3 (run_revert cd conn opts (report_for scope loc)) = (Inr rep, w')"
    using assms unfolding revert_scope_def by (simp split: prod.split_asm sum.split_asm unit.split_asm)
  then obtain w1 w2 where "run_revert cd conn opts (report_for scope loc) w1 = (Inr rep, w2)"
    by (rule with_lock_Inr)
  then show thesis by (rule that)
qed

end
