(* ===== verification/Fleet.thy ===== *)
theory Fleet
  imports Migrator_Proofs "HOL-Library.Word"
begin

text \<open>
  \<open>orm/src/fleet.rs\<close>: the resumable fan-out over all tenants. The run id is a hash of the tenant
  resources; a tenant's success is a row of the platform's checkpoint table under that id. A guarded
  rollout has two stages, and the planner decides before the loop touches any tenant.
\<close>

unbundle bit_operations_syntax

section \<open>Options, plans, reports\<close>

definition FLEET_CHECKPOINT_TABLE :: string where
  "FLEET_CHECKPOINT_TABLE = ''_framework_fleet_checkpoint''"

datatype fleet_stage = Canary | Rollout

text \<open>\<open>canary_size\<close> is a \<open>NonZeroUsize\<close>: the options the code can build have a positive size.\<close>

record fleet_rollout_options =
  fo_stage :: fleet_stage
  fo_canary_size :: nat
  fo_migration :: migration_options
  fo_halt_on_failure :: bool

definition canary_options :: "nat \<Rightarrow> migration_options \<Rightarrow> fleet_rollout_options" where
  "canary_options n m =
     \<lparr>fo_stage = Canary, fo_canary_size = n, fo_migration = m, fo_halt_on_failure = True\<rparr>"

definition rollout_options :: "nat \<Rightarrow> migration_options \<Rightarrow> fleet_rollout_options" where
  "rollout_options n m =
     \<lparr>fo_stage = Rollout, fo_canary_size = n, fo_migration = m, fo_halt_on_failure = True\<rparr>"

record fleet_rollout_plan =
  fl_stage :: fleet_stage
  fl_canary_size :: nat
  fl_cohort_id :: string
  fl_active :: "string list"
  fl_targets :: "string list"
  fl_completed :: "string list"
  fl_pending :: "string list"

record fleet_failure =
  ff_tenant :: string
  ff_message :: string

record fleet_report =
  fp_run_id :: string
  fp_total :: nat
  fp_migrated :: "string list"
  fp_already_done :: "string list"
  fp_failed :: "fleet_failure list"
  fp_checkpoint_failed :: "fleet_failure list"
  fp_rollout :: "fleet_rollout_plan option"
  fp_halted :: bool

definition fleet_report_default :: fleet_report where
  "fleet_report_default =
     \<lparr>fp_run_id = [], fp_total = 0, fp_migrated = [], fp_already_done = [], fp_failed = [],
      fp_checkpoint_failed = [], fp_rollout = None, fp_halted = False\<rparr>"

definition fleet_is_ok :: "fleet_report \<Rightarrow> bool" where
  "fleet_is_ok r = (fp_failed r = [])"

definition is_promotable :: "fleet_report \<Rightarrow> bool" where
  "is_promotable r = (fp_failed r = [] \<and> fp_checkpoint_failed r = [] \<and> \<not> fp_halted r)"

section \<open>The run id\<close>

definition fnv_step :: "64 word \<Rightarrow> 64 word \<Rightarrow> 64 word" where
  "fnv_step hash b = (hash XOR b) * 0x100000001b3"

definition fnv_part :: "64 word \<Rightarrow> string \<Rightarrow> 64 word" where
  "fnv_part hash part = fnv_step (fold (\<lambda>c h. fnv_step h (of_char c)) part hash) 0xff"

text \<open>\<open>{hash:016x}\<close>\<close>

definition hex16 :: "64 word \<Rightarrow> string" where
  "hex16 w = map (\<lambda>i. hex_digit (unat (take_bit 4 (drop_bit (60 - 4 * i) w)))) [0..<16]"

definition fnv1a_hex :: "string list \<Rightarrow> string" where
  "fnv1a_hex parts = hex16 (fold (\<lambda>p h. fnv_part h p) parts 0xcbf29ce484222325)"

definition resource_parts :: "resource_spec \<Rightarrow> string list" where
  "resource_parts r = [rs_app r, rs_name r, join [CHR 0x1F] (sort (rs_deps r)), rs_schema r]"

definition fleet_run_id :: "resource_spec list \<Rightarrow> string" where
  "fleet_run_id specs =
     fnv1a_hex (''frust-fleet-v2''
       # concat (map resource_parts
           (sort_key (\<lambda>r. (rs_app r, rs_name r)) (filter (\<lambda>r. rs_app r \<noteq> PLATFORM_APP) specs))))"

section \<open>The planner\<close>

text \<open>\<open>active.windows(2).any(|pair| pair[0] == pair[1])\<close>\<close>

fun adjacent_dup :: "string list \<Rightarrow> bool" where
  "adjacent_dup (a # b # xs) = (a = b \<or> adjacent_dup (b # xs))"
| "adjacent_dup _ = False"

definition plan_rollout ::
  "fleet_stage \<Rightarrow> nat \<Rightarrow> string list \<Rightarrow> string list \<Rightarrow> string list \<Rightarrow> string + fleet_rollout_plan" where
  "plan_rollout stage canary_size active0 completed_set canary_evidence =
     (let active = sort active0; cohort = take canary_size active; cohort_id = fnv1a_hex cohort;
          missing = filter (\<lambda>t. t \<notin> set completed_set) cohort;
          targets = (case stage of Canary \<Rightarrow> cohort | Rollout \<Rightarrow> active)
      in if adjacent_dup active then Inl ''fleet rollout refused: duplicate active tenant id''
         else if length active < canary_size
           then Inl (''fleet rollout refused: canary size '' @ nat_str canary_size @ '' exceeds ''
                     @ nat_str (length active) @ '' active tenants'')
         else if stage = Rollout \<and> cohort_id \<notin> set canary_evidence
           then Inl (''fleet rollout refused: durable canary evidence absent for cohort '' @ cohort_id)
         else if stage = Rollout \<and> missing \<noteq> []
           then Inl (''fleet rollout refused: canary checkpoint incomplete for tenant(s): ''
                     @ join '', '' missing)
         else Inr \<lparr>fl_stage = stage, fl_canary_size = canary_size, fl_cohort_id = cohort_id,
                   fl_active = active, fl_targets = targets,
                   fl_completed = filter (\<lambda>t. t \<in> set completed_set) targets,
                   fl_pending = filter (\<lambda>t. t \<notin> set completed_set) targets\<rparr>)"

section \<open>The checkpoint table\<close>

definition ensure_checkpoint_sql :: string where
  "ensure_checkpoint_sql = ''DEFINE TABLE OVERWRITE '' @ FLEET_CHECKPOINT_TABLE @ '' SCHEMALESS;''"

definition ensure_checkpoint_table :: "codec \<Rightarrow> 'w conn \<Rightarrow> 'w \<Rightarrow> (string + unit) \<times> 'w" where
  "ensure_checkpoint_table cd db w =
     (case exec cd db w ensure_checkpoint_sql of
        (Inl e, w') \<Rightarrow> (Inl (''define fleet checkpoint table: '' @ e), w')
      | (Inr _, w') \<Rightarrow> (Inr (), w'))"

definition select_status_sql :: "string \<Rightarrow> string \<Rightarrow> string" where
  "select_status_sql run_id status =
     ''SELECT tenant FROM '' @ FLEET_CHECKPOINT_TABLE @ '' WHERE run_id = '' @ sq @ escape_str run_id
     @ sq @ '' AND status = '' @ sq @ status @ sq @ '';''"

definition load_rows ::
  "codec \<Rightarrow> 'w conn \<Rightarrow> 'w \<Rightarrow> string \<Rightarrow> string \<Rightarrow> string \<Rightarrow> string \<Rightarrow> (string + string list) \<times> 'w" where
  "load_rows cd db w sql field load_msg decode_msg =
     (case exec cd db w sql of
        (Inl e, w') \<Rightarrow> (Inl (load_msg @ e), w')
      | (Inr v, w') \<Rightarrow> (map_err (\<lambda>e. decode_msg @ e) (cd_string_rows cd field v), w'))"

definition load_done_set :: "codec \<Rightarrow> 'w conn \<Rightarrow> string \<Rightarrow> 'w \<Rightarrow> (string + string list) \<times> 'w" where
  "load_done_set cd db run_id w =
     load_rows cd db w (select_status_sql run_id ''done'') ''tenant''
       ''load fleet checkpoints: '' ''decode fleet checkpoints: ''"

definition load_canary_evidence :: "codec \<Rightarrow> 'w conn \<Rightarrow> string \<Rightarrow> 'w \<Rightarrow> (string + string list) \<times> 'w" where
  "load_canary_evidence cd db run_id w =
     load_rows cd db w (select_status_sql run_id ''canary_done'') ''tenant''
       ''load canary evidence: '' ''decode canary evidence: ''"

definition record_checkpoint_sql :: "string \<Rightarrow> string \<Rightarrow> string \<Rightarrow> string" where
  "record_checkpoint_sql run_id tenant status =
     (let r = escape_str run_id; t = escape_str tenant; s = escape_str status in
      ''DELETE '' @ FLEET_CHECKPOINT_TABLE @ '' WHERE run_id = '' @ sq @ r @ sq @ '' AND tenant = ''
      @ sq @ t @ sq @ '';'' @ nl
      @ ''CREATE '' @ FLEET_CHECKPOINT_TABLE @ '' SET run_id = '' @ sq @ r @ sq @ '', tenant = ''
      @ sq @ t @ sq @ '', status = '' @ sq @ s @ sq @ '', at = time::now();'')"

definition record_checkpoint ::
  "codec \<Rightarrow> 'w conn \<Rightarrow> string \<Rightarrow> string \<Rightarrow> string \<Rightarrow> 'w \<Rightarrow> (string + unit) \<times> 'w" where
  "record_checkpoint cd db run_id tenant status w =
     (case exec cd db w (record_checkpoint_sql run_id tenant status) of
        (Inl e, w') \<Rightarrow> (Inl (''record fleet checkpoint: '' @ e), w')
      | (Inr _, w') \<Rightarrow> (Inr (), w'))"

definition list_tenants_sql :: string where
  "list_tenants_sql =
     ''SELECT short_id FROM tenant WHERE status NOT IN ['' @ sq @ ''suspended'' @ sq @ '', '' @ sq
     @ ''deleting'' @ sq @ '', '' @ sq @ ''deleted'' @ sq @ ''] ORDER BY short_id;''"

definition list_active_tenants :: "codec \<Rightarrow> 'w conn \<Rightarrow> 'w \<Rightarrow> (string + string list) \<times> 'w" where
  "list_active_tenants cd db w =
     load_rows cd db w list_tenants_sql ''short_id'' ''list tenants: '' ''decode tenants: ''"

section \<open>The fan-out\<close>

text \<open>\<open>{:?}\<close> of the migration errors.\<close>

definition debug_errors :: "codec \<Rightarrow> migration_error list \<Rightarrow> string" where
  "debug_errors cd es =
     ''['' @ join '', '' (map (\<lambda>e. ''MigrationError { name: '' @ cd_debug_str cd (me_name e)
       @ '', message: '' @ cd_debug_str cd (me_message e) @ '' }'') es) @ '']''"

text \<open>
  One tenant that is not checkpointed: migrate it and record the outcome. The flag says whether the
  migration failed, which is when the guarded loop stops.
\<close>

definition fleet_tenant ::
  "codec \<Rightarrow> 'w conn \<Rightarrow> string \<Rightarrow> (string \<Rightarrow> 'w \<Rightarrow> (string + migration_report) \<times> 'w) \<Rightarrow> string
   \<Rightarrow> fleet_report \<Rightarrow> 'w \<Rightarrow> bool \<times> fleet_report \<times> 'w" where
  "fleet_tenant cd db run_id migrate tenant r w =
     (case migrate tenant w of
        (Inr m, w1) \<Rightarrow>
          (if is_ok m
           then case record_checkpoint cd db run_id tenant ''done'' w1 of
                  (Inl e, w2) \<Rightarrow>
                    (False, r\<lparr>fp_checkpoint_failed := fp_checkpoint_failed r
                                @ [\<lparr>ff_tenant = tenant, ff_message = e\<rparr>],
                              fp_migrated := fp_migrated r @ [tenant]\<rparr>, w2)
                | (Inr _, w2) \<Rightarrow> (False, r\<lparr>fp_migrated := fp_migrated r @ [tenant]\<rparr>, w2)
           else (True, r\<lparr>fp_failed := fp_failed r @ [\<lparr>ff_tenant = tenant,
                   ff_message = nat_str (length (rp_errors m)) @ '' migration error(s): ''
                     @ debug_errors cd (rp_errors m)\<rparr>]\<rparr>,
                 snd (record_checkpoint cd db run_id tenant ''failed'' w1)))
      | (Inl e, w1) \<Rightarrow>
          (True, r\<lparr>fp_failed := fp_failed r @ [\<lparr>ff_tenant = tenant, ff_message = e\<rparr>]\<rparr>,
           snd (record_checkpoint cd db run_id tenant ''failed'' w1)))"

fun fleet_loop ::
  "codec \<Rightarrow> 'w conn \<Rightarrow> string \<Rightarrow> (string \<Rightarrow> 'w \<Rightarrow> (string + migration_report) \<times> 'w) \<Rightarrow> string list
   \<Rightarrow> bool \<Rightarrow> string list \<Rightarrow> fleet_report \<times> 'w \<Rightarrow> fleet_report \<times> 'w" where
  "fleet_loop cd db run_id migrate completed_set halt [] st = st"
| "fleet_loop cd db run_id migrate completed_set halt (tenant # targets) (r, w) =
     (if tenant \<in> set completed_set
      then fleet_loop cd db run_id migrate completed_set halt targets
             (r\<lparr>fp_already_done := fp_already_done r @ [tenant]\<rparr>, w)
      else case fleet_tenant cd db run_id migrate tenant r w of
        (failed, r', w') \<Rightarrow>
          (if failed \<and> halt then (r'\<lparr>fp_halted := True\<rparr>, w')
           else fleet_loop cd db run_id migrate completed_set halt targets (r', w')))"

text \<open>The canary cohort's own row, written when its stage ended without a failure.\<close>

definition record_canary :: "codec \<Rightarrow> 'w conn \<Rightarrow> string \<Rightarrow> fleet_report \<times> 'w \<Rightarrow> fleet_report \<times> 'w" where
  "record_canary cd db run_id st =
     (let r = fst st; w = snd st in
      case fp_rollout r of
        None \<Rightarrow> st
      | Some plan \<Rightarrow>
          (if fl_stage plan = Canary \<and> is_promotable r
           then case record_checkpoint cd db run_id (fl_cohort_id plan) ''canary_done'' w of
                  (Inl e, w') \<Rightarrow>
                    (r\<lparr>fp_checkpoint_failed := fp_checkpoint_failed r
                         @ [\<lparr>ff_tenant = ''canary-stage'', ff_message = ''record canary cohort: '' @ e\<rparr>]\<rparr>, w')
                | (Inr _, w') \<Rightarrow> (r, w')
           else st))"

text \<open>Planning and fan-out once the three tables are read.\<close>

definition fleet_execute ::
  "codec \<Rightarrow> 'w conn \<Rightarrow> string \<Rightarrow> (string \<Rightarrow> 'w \<Rightarrow> (string + migration_report) \<times> 'w)
   \<Rightarrow> fleet_rollout_options option \<Rightarrow> string list \<Rightarrow> string list \<Rightarrow> string list \<Rightarrow> 'w
   \<Rightarrow> (string + fleet_report) \<times> 'w" where
  "fleet_execute cd db run_id migrate rollout completed_set evidence tenants w =
     (case (case rollout of
              None \<Rightarrow> Inr None
            | Some r \<Rightarrow>
                (case plan_rollout (fo_stage r) (fo_canary_size r) tenants completed_set evidence of
                   Inl e \<Rightarrow> Inl e | Inr p \<Rightarrow> Inr (Some p))) of
        Inl e \<Rightarrow> (Inl e, w)
      | Inr guarded \<Rightarrow>
          (let targets = (case guarded of None \<Rightarrow> tenants | Some p \<Rightarrow> fl_targets p);
               halt = (case rollout of None \<Rightarrow> False | Some r \<Rightarrow> fo_halt_on_failure r);
               r0 = fleet_report_default\<lparr>fp_run_id := run_id, fp_total := length tenants,
                      fp_rollout := guarded\<rparr>;
               st = record_canary cd db run_id
                      (fleet_loop cd db run_id migrate completed_set halt targets (r0, w))
           in (Inr (fst st), snd st)))"

definition migrate_fleet_inner ::
  "codec \<Rightarrow> 'w engine_ctx \<Rightarrow> string \<Rightarrow> resource_spec list \<Rightarrow> migration_options
   \<Rightarrow> fleet_rollout_options option \<Rightarrow> 'w \<Rightarrow> (string + fleet_report) \<times> 'w" where
  "migrate_fleet_inner cd cx holder specs opts rollout w =
     (if rollout \<noteq> None \<and> mo_dry_run opts
        then (Inl ''guarded fleet rollout refused: dry-run cannot produce durable canary evidence'', w)
      else if \<not> cx_requires_deploy cx then (Inr fleet_report_default, w)
      else let run_id = fleet_run_id specs in
        case cx_acquire cx w (cx_platform_scope cx) of
          (Inl e, w1) \<Rightarrow> (Inl e, w1)
        | (Inr db, w1) \<Rightarrow>
        case ensure_checkpoint_table cd db w1 of
          (Inl e, w2) \<Rightarrow> (Inl e, w2)
        | (Inr _, w2) \<Rightarrow>
        case load_done_set cd db run_id w2 of
          (Inl e, w3) \<Rightarrow> (Inl e, w3)
        | (Inr completed_set, w3) \<Rightarrow>
        case load_canary_evidence cd db run_id w3 of
          (Inl e, w4) \<Rightarrow> (Inl e, w4)
        | (Inr evidence, w4) \<Rightarrow>
        case list_active_tenants cd db w4 of
          (Inl e, w5) \<Rightarrow> (Inl e, w5)
        | (Inr tenants, w5) \<Rightarrow>
            fleet_execute cd db run_id
              (\<lambda>tenant w. migrate_tenant_with cd cx holder specs tenant opts w)
              rollout completed_set evidence tenants w5)"

definition migrate_fleet_with ::
  "codec \<Rightarrow> 'w engine_ctx \<Rightarrow> string \<Rightarrow> resource_spec list \<Rightarrow> migration_options \<Rightarrow> 'w
   \<Rightarrow> (string + fleet_report) \<times> 'w" where
  "migrate_fleet_with cd cx holder specs opts w = migrate_fleet_inner cd cx holder specs opts None w"

definition migrate_fleet ::
  "codec \<Rightarrow> 'w engine_ctx \<Rightarrow> string \<Rightarrow> resource_spec list \<Rightarrow> 'w \<Rightarrow> (string + fleet_report) \<times> 'w" where
  "migrate_fleet cd cx holder specs w = migrate_fleet_with cd cx holder specs migration_options_default w"

definition migrate_fleet_rollout ::
  "codec \<Rightarrow> 'w engine_ctx \<Rightarrow> string \<Rightarrow> resource_spec list \<Rightarrow> fleet_rollout_options \<Rightarrow> 'w
   \<Rightarrow> (string + fleet_report) \<times> 'w" where
  "migrate_fleet_rollout cd cx holder specs r w =
     migrate_fleet_inner cd cx holder specs (fo_migration r) (Some r) w"

end
