(* ===== verification/Frame.thy ===== *)
theory Frame
  imports Migrator_Proofs Toposort_Proofs
begin

text \<open>
  What a run can touch: a view of the store that no statement on the acquired connection changes is
  not changed by migrating or reverting the scope. With the view \<open>everything outside this tenant\<close>
  this is tenant isolation; the fleet's proofs use it for the checkpoint table.
\<close>

definition conn_keeps :: "('w \<Rightarrow> 'v) \<Rightarrow> 'w conn \<Rightarrow> bool" where
  "conn_keeps view conn = (\<forall>w sql. view (snd (conn w sql)) = view w)"

lemma conn_keepsD: "conn_keeps view conn \<Longrightarrow> view (snd (conn w sql)) = view w"
  by (simp add: conn_keeps_def)

text \<open>Acquiring a location keeps the view, and so does every connection it can hand out.\<close>

definition location_keeps :: "('w \<Rightarrow> 'v) \<Rightarrow> 'w engine_ctx \<Rightarrow> storage_location \<Rightarrow> bool" where
  "location_keeps view cx loc =
     (\<forall>w. view (snd (cx_acquire cx w loc)) = view w
        \<and> (\<forall>conn. fst (cx_acquire cx w loc) = Inr conn \<longrightarrow> conn_keeps view conn))"

named_theorems keeps

lemma snd_result [simp]:
  "snd (case x of (Inl e, w') \<Rightarrow> (f e, w') | (Inr v, w') \<Rightarrow> (g v, w')) = snd x"
  by (simp split: prod.split sum.split)

lemma exec_keeps [keeps]: "conn_keeps view conn \<Longrightarrow> view (snd (exec cd conn w sql)) = view w"
  by (simp add: exec_state conn_keepsD)

lemma apply_resource_keeps [keeps]:
  assumes "conn_keeps view conn"
  shows "view (snd (apply_resource cd conn w name snap v stmts dir)) = view w"
proof (cases "cd_snapshot_to_string cd snap")
  case (Inr s)
  let ?x = "exec cd conn w (migration_txn name s v stmts dir)"
  have "snd (apply_resource cd conn w name snap v stmts dir) = snd ?x"
    using Inr by (simp add: apply_resource_def)
  then show ?thesis by (simp add: exec_keeps assms)
qed (simp add: apply_resource_def)

lemma step_resource_keeps [keeps]:
  assumes "conn_keeps view conn"
  shows "view (snd (step_resource cd conn p verb dir name v old new table st)) = view (snd st)"
proof -
  have "snd (step_resource cd conn p verb dir name v old new table st)
     \<in> {snd st, snd (apply_resource cd conn (snd st) name new v (statements (diff old new) table) dir)}"
    unfolding step_resource_def Let_def
    by (simp split: option.split prod.split sum.split unit.split)
  then show ?thesis using apply_resource_keeps [OF assms] by auto
qed

lemma fold_keeps:
  assumes "\<And>i st. view (snd (f i st)) = view (snd st)"
  shows "view (snd (fold f is st)) = view (snd st)"
  by (induction "is" arbitrary: st) (simp_all add: assms)

lemma migrate_one_keeps [keeps]:
  "conn_keeps view conn \<Longrightarrow> view (snd (migrate_one cd conn opts h reg st)) = view (snd st)"
  by (simp add: migrate_one_def Let_def step_resource_keeps)

lemma revert_one_keeps [keeps]:
  assumes "conn_keeps view conn"
  shows "view (snd (revert_one cd conn opts h name st)) = view (snd st)"
  by (cases "revert_target opts (case map_of h name of None \<Rightarrow> [] | Some vs \<Rightarrow> vs)")
    (simp_all add: revert_one_step Let_def step_resource_keeps [OF assms])

lemma history_rows_keeps [keeps]: "conn_keeps view conn \<Longrightarrow> view (snd (history_rows cd conn w)) = view w"
  using exec_keeps [of view conn cd w history_query]
  by (simp add: history_rows_def)

lemma load_history_keeps [keeps]: "conn_keeps view conn \<Longrightarrow> view (snd (load_history cd conn w)) = view w"
  using history_rows_keeps [of view conn cd w]
  by (simp add: load_history_def)

lemma load_full_history_keeps [keeps]:
  "conn_keeps view conn \<Longrightarrow> view (snd (load_full_history cd conn w)) = view w"
  using history_rows_keeps [of view conn cd w]
  by (simp add: load_full_history_def)

lemma run_keeps [keeps]:
  assumes "conn_keeps view conn"
  shows "view (snd (run cd conn regs opts r w)) = view w"
proof -
  obtain a w1 where h: "load_history cd conn w = (a, w1)" by (cases "load_history cd conn w")
  have w1: "view w1 = view w" using load_history_keeps [OF assms, of cd w] h by simp
  show ?thesis
  proof (cases a)
    case (Inr m)
    have "view (snd (fold (migrate_one cd conn opts m) (order_resources regs) (r, w1))) = view (snd (r, w1))"
      by (rule fold_keeps) (rule migrate_one_keeps [OF assms])
    with h w1 Inr show ?thesis by (simp add: run_def Let_def)
  qed (use h w1 in \<open>simp add: run_def\<close>)
qed

lemma run_revert_keeps [keeps]:
  assumes "conn_keeps view conn"
  shows "view (snd (run_revert cd conn opts r w)) = view w"
proof -
  obtain a w1 where h: "load_full_history cd conn w = (a, w1)" by (cases "load_full_history cd conn w")
  have w1: "view w1 = view w" using load_full_history_keeps [OF assms, of cd w] h by simp
  show ?thesis
  proof (cases a)
    case (Inr m)
    have "view (snd (fold (revert_one cd conn opts m) (sort (map fst m)) (r, w1))) = view (snd (r, w1))"
      by (rule fold_keeps) (rule revert_one_keeps [OF assms])
    with h w1 Inr show ?thesis by (simp add: run_revert_def Let_def)
  qed (use h w1 in \<open>simp add: run_revert_def\<close>)
qed

section \<open>The lock and the provisioning\<close>

lemma lock_try_create_keeps: "conn_keeps view conn \<Longrightarrow> view (snd (lock_try_create conn w h)) = view w"
  using conn_keepsD [of view conn w "lock_create_sql h"]
  by (simp add: lock_try_create_def)

lemma lock_is_stale_keeps: "conn_keeps view conn \<Longrightarrow> view (snd (lock_is_stale cd conn w)) = view w"
  using exec_keeps [of view conn cd w lock_age_sql]
  by (simp add: lock_is_stale_def)

lemma lock_release_keeps: "conn_keeps view conn \<Longrightarrow> view (lock_release conn w h) = view w"
  by (simp add: lock_release_def conn_keepsD)

lemma lock_acquire_keeps:
  assumes k: "conn_keeps view conn"
  shows "view (snd (lock_acquire cd conn w h)) = view w"
proof -
  have e: "view w2 = view w1" if "exec cd conn w1 sql = (a, w2)" for w1 w2 sql a
    using exec_keeps [OF k, of cd w1 sql] that by simp
  have c: "view w2 = view w1" if "lock_try_create conn w1 h = (a, w2)" for w1 w2 a
    using lock_try_create_keeps [OF k, of w1 h] that by simp
  have s: "view w2 = view w1" if "lock_is_stale cd conn w1 = (a, w2)" for w1 w2 a
    using lock_is_stale_keeps [OF k, of cd w1] that by simp
  have q: "view (snd (conn w1 sql)) = view w1" for w1 sql by (rule conn_keepsD [OF k])
  obtain r1 w1 where 1: "exec cd conn w lock_define_sql = (r1, w1)" by (cases "exec cd conn w lock_define_sql")
  obtain r2 w2 where 2: "lock_try_create conn w1 h = (r2, w2)" by (cases "lock_try_create conn w1 h")
  obtain r3 w3 where 3: "lock_is_stale cd conn w2 = (r3, w3)" by (cases "lock_is_stale cd conn w2")
  obtain r4 w4 where 4: "lock_try_create conn (snd (conn w3 lock_steal_sql)) h = (r4, w4)"
    by (cases "lock_try_create conn (snd (conn w3 lock_steal_sql)) h")
  have "view w1 = view w" "view w2 = view w" "view w3 = view w" "view w4 = view w"
    using e [OF 1] c [OF 2] s [OF 3] c [OF 4] q [of w3] by simp_all
  with 1 2 3 4 show ?thesis
    by (simp add: lock_acquire_def split: sum.split bool.split)
qed

lemma with_lock_keeps:
  assumes "conn_keeps view conn" and body: "\<And>w. view (snd (body w)) = view w"
  shows "view (snd (with_lock cd conn h dry w body)) = view w"
proof (cases dry)
  case False
  obtain a w1 where a: "lock_acquire cd conn w h = (a, w1)" by (cases "lock_acquire cd conn w h")
  have "view w1 = view w" using lock_acquire_keeps [OF assms(1), of cd w h] a by simp
  then show ?thesis using False a body [of w1] lock_release_keeps [OF assms(1)]
    by (simp add: with_lock_def Let_def split: sum.split unit.split)
qed (simp add: with_lock_def body)

lemma install_bootstrap_keeps:
  "conn_keeps view conn \<Longrightarrow> view (snd (install_bootstrap cd conn cx dry db w)) = view w"
  using exec_keeps [of view conn cd w] by (simp add: install_bootstrap_def split: option.split)

lemma provision_history_keeps:
  "conn_keeps view conn \<Longrightarrow> view (snd (provision_history cd conn db w)) = view w"
  using exec_keeps [of view conn cd w history_table_schema] by (simp add: provision_history_def)

section \<open>Scopes\<close>

lemma location_keepsD:
  assumes "location_keeps view cx loc" and "cx_acquire cx w loc = (a, w1)"
  shows "view w1 = view w" and "a = Inr conn \<Longrightarrow> conn_keeps view conn"
  using assms(1) [unfolded location_keeps_def, rule_format, of w] assms(2) by auto

lemma migrate_scope_keeps:
  assumes "location_keeps view cx loc"
  shows "view (snd (migrate_scope cd cx h loc regs opts scope w)) = view w"
proof -
  obtain a w1 where a: "cx_acquire cx w loc = (a, w1)" by (cases "cx_acquire cx w loc")
  note w1 = location_keepsD(1) [OF assms a]
  show ?thesis
  proof (cases a)
    case (Inr conn)
    note k = location_keepsD(2) [OF assms a Inr]
    obtain b w2 where b: "install_bootstrap cd conn cx (mo_dry_run opts) (sl_database loc) w1 = (b, w2)"
      by (cases "install_bootstrap cd conn cx (mo_dry_run opts) (sl_database loc) w1")
    obtain c w3 where c: "provision_history cd conn (sl_database loc) w2 = (c, w3)"
      by (cases "provision_history cd conn (sl_database loc) w2")
    have w2: "view w2 = view w1" using install_bootstrap_keeps [OF k] b by (metis snd_conv)
    have w3: "view w3 = view w2" using provision_history_keeps [OF k] c by (metis snd_conv)
    have "view (snd (with_lock cd conn h (mo_dry_run opts) w3 (run cd conn regs opts (report_for scope loc)))) = view w3"
      by (rule with_lock_keeps [OF k]) (rule run_keeps [OF k])
    then show ?thesis using a Inr b c w1 w2 w3
      by (simp add: migrate_scope_def split: sum.split unit.split)
  qed (use a w1 in \<open>simp add: migrate_scope_def\<close>)
qed

lemma revert_scope_keeps:
  assumes "location_keeps view cx loc"
  shows "view (snd (revert_scope cd cx h loc opts scope w)) = view w"
proof -
  obtain a w1 where a: "cx_acquire cx w loc = (a, w1)" by (cases "cx_acquire cx w loc")
  note w1 = location_keepsD(1) [OF assms a]
  show ?thesis
  proof (cases a)
    case (Inr conn)
    note k = location_keepsD(2) [OF assms a Inr]
    obtain c w3 where c: "provision_history cd conn (sl_database loc) w1 = (c, w3)"
      by (cases "provision_history cd conn (sl_database loc) w1")
    have w3: "view w3 = view w1" using provision_history_keeps [OF k] c by (metis snd_conv)
    have "view (snd (with_lock cd conn h (ro_dry_run opts) w3 (run_revert cd conn opts (report_for scope loc)))) = view w3"
      by (rule with_lock_keeps [OF k]) (rule run_revert_keeps [OF k])
    then show ?thesis using a Inr c w1 w3
      by (simp add: revert_scope_def split: sum.split unit.split)
  qed (use a w1 in \<open>simp add: revert_scope_def\<close>)
qed

lemma migrate_tenant_keeps:
  "location_keeps view cx (cx_locate cx tenant) \<Longrightarrow>
   view (snd (migrate_tenant_with cd cx h specs tenant opts w)) = view w"
  unfolding migrate_tenant_with_def by (rule migrate_scope_keeps)

lemma revert_tenant_keeps:
  "location_keeps view cx (cx_locate cx tenant) \<Longrightarrow>
   view (snd (revert_tenant cd cx h tenant opts w)) = view w"
  unfolding revert_tenant_def by (rule revert_scope_keeps)

text \<open>
  What the recorded history means to a run: the loader keeps the newest snapshot of each resource and
  refuses a corrupt one, a revert goes to a strictly older snapshot, a dry run sends nothing but the
  bookkeeping, and a plan says what the apply would run.
\<close>

section \<open>Loading\<close>

definition first_row :: "string \<Rightarrow> migration_record list \<Rightarrow> migration_record option" where
  "first_row n rows = find (\<lambda>r. mr_name r = n) rows"

lemma latest_rows_lookup:
  assumes "latest_rows cd rows m = Inr h"
  shows "map_of h n = (case map_of m n of Some e \<Rightarrow> Some e
    | None \<Rightarrow> (case first_row n rows of None \<Rightarrow> None
              | Some r \<Rightarrow> Some (mr_version r, projr (decode_snapshot cd r))))"
  using assms
proof (induction rows arbitrary: m)
  case (Cons row rows)
  show ?case
  proof (cases "map_of m (mr_name row) = None")
    case False
    with Cons show ?thesis by (auto simp: first_row_def split: option.split)
  next
    case True
    with Cons.prems obtain s where s: "decode_snapshot cd row = Inr s"
      "latest_rows cd rows (hm_insert (mr_name row) (mr_version row, s) m) = Inr h"
      by (auto split: sum.splits)
    from Cons.IH [OF s(2)] True s(1) show ?thesis
      by (auto simp: first_row_def split: option.split)
  qed
qed (simp add: first_row_def split: option.split)

lemma latest_rows_decoded:
  assumes "latest_rows cd rows m = Inr h" and "map_of m n = None" and "first_row n rows = Some r"
  shows "\<exists>s. decode_snapshot cd r = Inr s"
  using assms
proof (induction rows arbitrary: m)
  case (Cons row rows)
  show ?case
  proof (cases "mr_name row = n")
    case True
    with Cons.prems show ?thesis by (auto simp: first_row_def split: sum.splits)
  next
    case ne: False
    show ?thesis
    proof (cases "map_of m (mr_name row) = None")
      case True
      with Cons.prems(1) obtain s where "latest_rows cd rows (hm_insert (mr_name row) (mr_version row, s) m) = Inr h"
        by (auto split: sum.splits)
      from Cons.IH [OF this] ne Cons.prems show ?thesis by (simp add: first_row_def)
    next
      case False
      with Cons ne show ?thesis by (simp add: first_row_def)
    qed
  qed
qed (simp add: first_row_def)

lemma latest_rows_corrupt:
  assumes "first_row n rows = Some r" and "decode_snapshot cd r = Inl e"
  shows "\<exists>e'. latest_rows cd rows [] = Inl e'"
proof (cases "latest_rows cd rows []")
  case (Inr h)
  from latest_rows_decoded [OF this _ assms(1)] assms(2) show ?thesis by simp
qed simp

text \<open>The rows come newest first.\<close>

definition newest_first :: "migration_record list \<Rightarrow> bool" where
  "newest_first rows = sorted_wrt (\<lambda>a b. mr_version b \<le> mr_version a) rows"

lemma first_row_newest:
  assumes "newest_first rows" and "first_row n rows = Some r"
  shows "r \<in> set rows \<and> mr_name r = n \<and> (\<forall>q\<in>set rows. mr_name q = n \<longrightarrow> mr_version q \<le> mr_version r)"
  using assms
  by (induction rows) (auto simp: newest_first_def first_row_def split: if_splits)

section \<open>The revert target\<close>

lemma revert_target_older:
  assumes "sorted_wrt (\<lambda>a b. fst b < fst a) versions" and "revert_target opts versions = Some s"
  shows "\<exists>v. (v, s) \<in> set versions \<and> v < fst (hd versions)
    \<and> (ro_to_version opts = None \<or> ro_to_version opts = Some v)"
proof (cases "ro_to_version opts")
  case None
  then obtain a b vs where "versions = a # b # vs" "snd b = s"
    using assms(2) by (cases versions; cases "tl versions") (auto simp: revert_target_def get_def split: if_splits)
  with assms(1) None show ?thesis by (intro exI [of _ "fst b"]) auto
next
  case (Some v)
  with assms(2) obtain e where "find (\<lambda>(ver, _). ver = v) versions = Some e" "snd e = s" "v < fst (hd versions)"
    by (auto simp: revert_target_def split: if_splits)
  moreover from this have "e \<in> set versions" "fst e = v"
    by (auto simp: find_Some_iff case_prod_unfold)
  ultimately show ?thesis using Some by (intro exI [of _ v]) auto
qed

section \<open>Dry runs\<close>

lemma run_dry_state:
  assumes "mo_dry_run opts"
  shows "snd (run cd conn regs opts r w) = snd (conn w history_query)"
proof -
  obtain a w1 where h: "load_history cd conn w = (a, w1)" by (cases "load_history cd conn w")
  have "snd (load_history cd conn w) = snd (exec cd conn w history_query)"
    by (simp add: load_history_def history_rows_def)
  then have w1: "w1 = snd (conn w history_query)" using h by (simp add: exec_state)
  show ?thesis
  proof (cases a)
    case (Inr m)
    have "snd (fold (migrate_one cd conn opts m) (order_resources regs) (r, w1)) = w1"
      using forward.loop_quiet [of opts cd conn m "order_resources regs" "(r, w1)"] assms by simp
    with h Inr w1 show ?thesis by (simp add: run_def Let_def)
  qed (use h w1 in \<open>simp add: run_def\<close>)
qed

lemma dry_scope_state:
  assumes "mo_dry_run opts" and "cx_acquire cx w loc = (Inr conn, w1)"
  shows "snd (migrate_scope cd cx holder loc regs opts scope w) =
    (let w2 = snd (conn w1 history_table_schema)
     in if is_ok_res (fst (exec cd conn w1 history_table_schema)) then snd (conn w2 history_query) else w2)"
proof -
  obtain a w2 where e: "exec cd conn w1 history_table_schema = (a, w2)"
    by (cases "exec cd conn w1 history_table_schema")
  then have w2: "w2 = snd (conn w1 history_table_schema)"
    using exec_state [of cd conn w1 history_table_schema] by simp
  show ?thesis
    using assms e run_dry_state [OF assms(1), of cd conn regs "report_for scope loc" w2]
    by (cases a) (simp_all add: migrate_scope_def install_bootstrap_def provision_history_def with_lock_def w2 [symmetric] split: unit.split)
qed

section \<open>Plan and apply agree\<close>

lemma step_resource_plan:
  assumes "sp_dry_run p"
  shows "step_resource cd conn p verb dir name v old new table st =
    (if diff_is_empty (diff old new) then ((fst st)\<lparr>rp_skipped := rp_skipped (fst st) + 1\<rparr>, snd st)
     else ((fst st)\<lparr>rp_planned := rp_planned (fst st)
             @ [planned_from_diff name v (diff old new) old new table]\<rparr>, snd st))"
  using assms by (simp add: step_resource_def Let_def)

lemma step_resource_added:
  assumes "\<not> sp_dry_run p"
    and "rp_applied (fst (step_resource cd conn p verb dir name v old new table st)) = rp_applied (fst st) @ [am]"
  shows "\<not> diff_is_empty (diff old new)
    \<and> am = applied_from_diff name v (diff old new) old new (statements (diff old new) table)"
proof -
  have ne: "diff_is_empty (diff old new) \<Longrightarrow>
      rp_applied (fst (step_resource cd conn p verb dir name v old new table st)) = rp_applied (fst st)"
    by (simp add: step_resource_def Let_def)
  show ?thesis
    by (rule step_resource_cases [of cd conn p verb dir name v old new table st])
      (use assms ne in \<open>auto simp: push_error_def\<close>)
qed

text \<open>What the plan says of one resource is what an apply of it, on the same history, records.\<close>

lemma plan_matches:
  assumes "rp_planned (fst (migrate_one cd conn (opts\<lparr>mo_dry_run := True\<rparr>) h reg st)) = rp_planned (fst st) @ [pm]"
    and "rp_applied (fst (migrate_one cd conn' (opts\<lparr>mo_dry_run := False\<rparr>) h reg st')) = rp_applied (fst st') @ [am]"
  shows "am_name am = pm_name pm \<and> am_version am = pm_next_version pm \<and> am_statements am = pm_statements pm
    \<and> am_classifications am = pm_classifications pm"
proof -
  let ?old = "snd (previous h (resource_key reg))" and ?v = "fst (previous h (resource_key reg)) + 1"
  let ?new = "from_sql (rs_name reg) (rs_schema reg)"
  have "rp_applied (fst (step_resource cd conn' (migration_policy (opts\<lparr>mo_dry_run := False\<rparr>)) ''change(s)'' Up
        (resource_key reg) ?v ?old ?new (rs_name reg) (mark_considered (fst st'), snd st')))
      = rp_applied (fst (mark_considered (fst st'), snd st')) @ [am]"
    using assms(2) by (simp add: migrate_one_def Let_def)
  from step_resource_added [OF _ this]
  have am: "am = applied_from_diff (resource_key reg) ?v (diff ?old ?new) ?old ?new
      (statements (diff ?old ?new) (rs_name reg)) \<and> \<not> diff_is_empty (diff ?old ?new)"
    by (simp add: migration_policy_def)
  then have "pm = planned_from_diff (resource_key reg) ?v (diff ?old ?new) ?old ?new (rs_name reg)"
    using assms(1) by (simp add: migrate_one_def Let_def migration_policy_def step_resource_plan)
  with am show ?thesis by (simp add: applied_from_diff_def planned_from_diff_def)
qed

end
