(* ===== verification/Fleet_Proofs.thy ===== *)
theory Fleet_Proofs
  imports Fleet Frame
begin

text \<open>
  The fan-out's guarantees: the planner's conditions, how a run splits its targets into done, migrated
  and failed tenants, containment after a failure, the identity a run id stands for, and resumption
  against a checkpoint table that behaves like one.
\<close>

section \<open>The planner\<close>

lemma adjacent_dup_sorted: "sorted xs \<Longrightarrow> adjacent_dup xs \<longleftrightarrow> \<not> distinct xs"
proof (induction xs rule: adjacent_dup.induct)
  case (1 a b xs)
  then have "a \<in> set (b # xs) \<longleftrightarrow> a = b" by (auto intro: order.antisym)
  with 1 show ?case by simp
qed auto

lemma plan_rollout_Inr:
  assumes "plan_rollout stage n tenants D E = Inr p"
  shows "fl_active p = sort tenants" and "distinct tenants" and "n \<le> length tenants"
    and "fl_cohort_id p = fnv1a_hex (take n (sort tenants))"
    and "stage = Rollout \<Longrightarrow> fl_cohort_id p \<in> set E \<and> set (take n (sort tenants)) \<subseteq> set D"
    and "fl_targets p = (case stage of Canary \<Rightarrow> take n (sort tenants) | Rollout \<Rightarrow> sort tenants)"
    and "fl_completed p = filter (\<lambda>t. t \<in> set D) (fl_targets p)"
    and "fl_pending p = filter (\<lambda>t. t \<notin> set D) (fl_targets p)"
    and "fl_stage p = stage"
  using assms
  by (auto simp: plan_rollout_def Let_def adjacent_dup_sorted filter_empty_conv split: if_splits)

section \<open>The loop\<close>

lemma fleet_tenant_cases:
  obtains (migrated) cf w' where
      "fleet_tenant cd db run_id migrate t r w
        = (False, r\<lparr>fp_checkpoint_failed := fp_checkpoint_failed r @ cf, fp_migrated := fp_migrated r @ [t]\<rparr>, w')"
      "w' = snd (record_checkpoint cd db run_id t ''done'' (snd (migrate t w)))"
      "if is_ok_res (fst (record_checkpoint cd db run_id t ''done'' (snd (migrate t w))))
       then cf = [] else map ff_tenant cf = [t]"
  | (failed) m where
      "fleet_tenant cd db run_id migrate t r w
        = (True, r\<lparr>fp_failed := fp_failed r @ [\<lparr>ff_tenant = t, ff_message = m\<rparr>]\<rparr>,
           snd (record_checkpoint cd db run_id t ''failed'' (snd (migrate t w))))"
proof -
  obtain a w1 where a: "migrate t w = (a, w1)" by (cases "migrate t w")
  show thesis
  proof (cases a)
    case (Inl e)
    show thesis by (rule failed [of e]) (simp add: fleet_tenant_def a Inl)
  next
    case (Inr m)
    obtain b w2 where b: "record_checkpoint cd db run_id t ''done'' w1 = (b, w2)"
      by (cases "record_checkpoint cd db run_id t ''done'' w1")
    show thesis
    proof (cases "is_ok m")
      case True
      show thesis
      proof (cases b)
        case (Inl e)
        show thesis
          by (rule migrated [of "[\<lparr>ff_tenant = t, ff_message = e\<rparr>]" w2])
            (simp_all add: fleet_tenant_def a b \<open>a = Inr m\<close> True Inl)
      next
        case (Inr u)
        show thesis
          by (rule migrated [of "[]" w2]) (simp_all add: fleet_tenant_def a b \<open>a = Inr m\<close> True Inr)
      qed
    next
      case False
      show thesis by (rule failed) (simp add: fleet_tenant_def a Inr False)
    qed
  qed
qed

text \<open>
  Every run splits its targets into a processed prefix and an untouched rest; the rest is empty
  unless the run halted.
\<close>

definition splits_targets ::
  "string list \<Rightarrow> string list \<Rightarrow> bool \<Rightarrow> fleet_report \<Rightarrow> fleet_report
   \<Rightarrow> string list \<Rightarrow> string list \<Rightarrow> string list \<Rightarrow> string list \<Rightarrow> bool" where
  "splits_targets ts D halt r r' pre suf m f =
     (ts = pre @ suf
      \<and> fp_already_done r' = fp_already_done r @ filter (\<lambda>t. t \<in> set D) pre
      \<and> fp_migrated r' = fp_migrated r @ m
      \<and> map ff_tenant (fp_failed r') = map ff_tenant (fp_failed r) @ f
      \<and> mset (filter (\<lambda>t. t \<notin> set D) pre) = mset m + mset f
      \<and> (if fp_halted r' then halt \<and> pre \<noteq> [] \<and> f = [last pre] else suf = [] \<and> (halt \<longrightarrow> f = [])))"

lemma splits_done:
  "splits_targets ts D halt (r\<lparr>fp_already_done := fp_already_done r @ [t]\<rparr>) r' pre suf m f
   \<Longrightarrow> t \<in> set D \<Longrightarrow> splits_targets (t # ts) D halt r r' (t # pre) suf m f"
  by (simp add: splits_targets_def split: if_splits)

lemma splits_migrated:
  "splits_targets ts D halt (r\<lparr>fp_checkpoint_failed := cf, fp_migrated := fp_migrated r @ [t]\<rparr>) r' pre suf m f
   \<Longrightarrow> t \<notin> set D \<Longrightarrow> splits_targets (t # ts) D halt r r' (t # pre) suf (t # m) f"
  by (simp add: splits_targets_def split: if_splits)

lemma splits_failed:
  "splits_targets ts D False (r\<lparr>fp_failed := fp_failed r @ [\<lparr>ff_tenant = t, ff_message = e\<rparr>]\<rparr>) r' pre suf m f
   \<Longrightarrow> t \<notin> set D \<Longrightarrow> splits_targets (t # ts) D False r r' (t # pre) suf m (t # f)"
  by (simp add: splits_targets_def split: if_splits)

lemma fleet_loop_splits:
  assumes "\<not> fp_halted r"
  shows "\<exists>pre suf m f.
    splits_targets ts D halt r (fst (fleet_loop cd db run_id migrate D halt ts (r, w))) pre suf m f"
  using assms
proof (induction ts arbitrary: r w)
  case Nil
  then show ?case by (auto simp: splits_targets_def)
next
  case (Cons t ts)
  show ?case
  proof (cases "t \<in> set D")
    case True
    let ?r = "r\<lparr>fp_already_done := fp_already_done r @ [t]\<rparr>"
    obtain pre suf m f where
      "splits_targets ts D halt ?r (fst (fleet_loop cd db run_id migrate D halt ts (?r, w))) pre suf m f"
      using Cons.IH [of ?r w] Cons.prems by auto
    from splits_done [OF this True] True show ?thesis by auto
  next
    case False
    show ?thesis
    proof (rule fleet_tenant_cases [of cd db run_id migrate t r w])
      fix cf w'
      let ?r = "r\<lparr>fp_checkpoint_failed := fp_checkpoint_failed r @ cf, fp_migrated := fp_migrated r @ [t]\<rparr>"
      assume f: "fleet_tenant cd db run_id migrate t r w = (False, ?r, w')"
      obtain pre suf m f where
        "splits_targets ts D halt ?r (fst (fleet_loop cd db run_id migrate D halt ts (?r, w'))) pre suf m f"
        using Cons.IH [of ?r w'] Cons.prems by auto
      from splits_migrated [OF this False] False f show ?thesis by auto
    next
      fix e
      let ?r = "r\<lparr>fp_failed := fp_failed r @ [\<lparr>ff_tenant = t, ff_message = e\<rparr>]\<rparr>"
      let ?w = "snd (record_checkpoint cd db run_id t ''failed'' (snd (migrate t w)))"
      assume f: "fleet_tenant cd db run_id migrate t r w = (True, ?r, ?w)"
      show ?thesis
      proof (cases halt)
        case True
        then have "splits_targets (t # ts) D halt r
            (fst (fleet_loop cd db run_id migrate D halt (t # ts) (r, w))) [t] ts [] [t]"
          using False f Cons.prems by (simp add: splits_targets_def)
        then show ?thesis by blast
      next
        case nh: False
        obtain pre suf m f where
          "splits_targets ts D False ?r (fst (fleet_loop cd db run_id migrate D False ts (?r, ?w))) pre suf m f"
          using Cons.IH [of ?r ?w] Cons.prems nh by auto
        from splits_failed [OF this False] False f nh show ?thesis by auto
      qed
    qed
  qed
qed

text \<open>Containment: once a prefix halts the run, the tenants after it do not matter.\<close>

lemma fleet_loop_contained:
  assumes "\<not> fp_halted (fst st)" and "fp_halted (fst (fleet_loop cd db run_id migrate D halt pre st))"
  shows "fleet_loop cd db run_id migrate D halt (pre @ suf) st = fleet_loop cd db run_id migrate D halt pre st"
  using assms
proof (induction pre arbitrary: st)
  case (Cons t pre)
  obtain r w where st: "st = (r, w)" by (cases st)
  obtain fl r' w' where f: "fleet_tenant cd db run_id migrate t r w = (fl, r', w')"
    by (cases "fleet_tenant cd db run_id migrate t r w") auto
  have "fp_halted r' = fp_halted r"
    by (rule fleet_tenant_cases [of cd db run_id migrate t r w]) (use f in auto)
  with Cons st f show ?case by (cases "t \<in> set D") (auto split: if_splits)
qed simp

lemma fleet_loop_all_done:
  assumes "set ts \<subseteq> set D"
  shows "fleet_loop cd db run_id migrate D halt ts (r, w)
           = (r\<lparr>fp_already_done := fp_already_done r @ ts\<rparr>, w)"
  using assms by (induction ts arbitrary: r) simp_all

lemma record_canary_same [simp]:
  "fp_migrated (fst (record_canary cd db run_id st)) = fp_migrated (fst st)"
  "fp_failed (fst (record_canary cd db run_id st)) = fp_failed (fst st)"
  "fp_already_done (fst (record_canary cd db run_id st)) = fp_already_done (fst st)"
  "fp_halted (fst (record_canary cd db run_id st)) = fp_halted (fst st)"
  "fp_rollout (fst (record_canary cd db run_id st)) = fp_rollout (fst st)"
  by (simp_all add: record_canary_def Let_def split: option.split prod.split sum.split)

section \<open>The run id\<close>

text \<open>The bytes that are hashed: every part closed by \<open>0xff\<close>, a byte no UTF-8 string holds.\<close>

definition fnv_stream :: "string list \<Rightarrow> 64 word list" where
  "fnv_stream parts = concat (map (\<lambda>p. map of_char p @ [0xff]) parts)"

lemma fnv1a_hex_stream:
  "fnv1a_hex parts = hex16 (fold (\<lambda>b h. fnv_step h b) (fnv_stream parts) 0xcbf29ce484222325)"
proof -
  have "fold (\<lambda>p h. fnv_part h p) parts h = fold (\<lambda>b h. fnv_step h b) (fnv_stream parts) h" for h
    by (induction parts arbitrary: h) (simp_all add: fnv_stream_def fnv_part_def fold_map comp_def)
  then show ?thesis by (simp add: fnv1a_hex_def)
qed

lemma of_char_word_inject: "(of_char a :: 64 word) = of_char b \<longleftrightarrow> a = b"
proof
  assume "(of_char a :: 64 word) = of_char b"
  then have "(word_of_nat (of_char a) :: 64 word) = word_of_nat (of_char b)"
    by (simp add: of_nat_of_char)
  then have "unat (word_of_nat (of_char a) :: 64 word) = unat (word_of_nat (of_char b) :: 64 word)" by simp
  moreover have "(of_char c :: nat) < 2 ^ 64" for c :: char
    by (rule less_trans [OF nat_of_char_less_256]) simp
  ultimately have "(of_char a :: nat) = of_char b"
    by (simp add: unsigned_of_nat take_bit_nat_eq_self)
  then show "a = b" by simp
qed simp

lemma until_ff:
  "\<lbrakk>f \<notin> set a; f \<notin> set b; a @ f # s = b @ f # t\<rbrakk> \<Longrightarrow> a = b \<and> s = t"
proof (induction a arbitrary: b)
  case Nil
  then show ?case by (cases b) auto
next
  case (Cons x a)
  then show ?case by (cases b) auto
qed

lemma fnv_stream_inject:
  "\<lbrakk>\<forall>p\<in>set ps. CHR 0xFF \<notin> set p; \<forall>p\<in>set qs. CHR 0xFF \<notin> set p; fnv_stream ps = fnv_stream qs\<rbrakk>
   \<Longrightarrow> ps = qs"
proof (induction ps arbitrary: qs)
  case Nil
  then show ?case by (cases qs) (auto simp: fnv_stream_def)
next
  case (Cons p ps)
  then obtain q qs' where qs: "qs = q # qs'" by (cases qs) (auto simp: fnv_stream_def)
  let ?b = "of_char :: char \<Rightarrow> 64 word"
  have ff: "?b CHR 0xFF = 0xff" by (simp add: of_char_def)
  have ns: "(0xff :: 64 word) \<notin> set (map ?b r)" if "CHR 0xFF \<notin> set r" for r
  proof
    assume "0xff \<in> set (map ?b r)"
    then obtain c where c: "c \<in> set r" "?b c = 0xff" by auto
    then have "?b c = ?b CHR 0xFF" by (simp only: ff)
    then have "c = CHR 0xFF" by (simp only: of_char_word_inject)
    with that c show False by simp
  qed
  have "map ?b p @ 0xff # fnv_stream ps = map ?b q @ 0xff # fnv_stream qs'"
    using Cons.prems(3) qs by (simp add: fnv_stream_def)
  then have "map ?b p = map ?b q" "fnv_stream ps = fnv_stream qs'"
    using until_ff [OF ns ns] Cons.prems qs by auto
  moreover have "inj ?b" by (rule injI) (simp only: of_char_word_inject)
  ultimately have "p = q" "ps = qs'"
    using Cons.IH [of qs'] Cons.prems qs by (simp_all only: inj_map_eq_map list.set_intros ball_simps set_simps) simp_all
  then show ?case using qs by simp
qed

definition norm_deps :: "resource_spec \<Rightarrow> resource_spec" where
  "norm_deps r = r\<lparr>rs_deps := sort (rs_deps r)\<rparr>"

lemma norm_deps_simps [simp]:
  "resource_parts (norm_deps r) = resource_parts r"
  "rs_app (norm_deps r) = rs_app r" "rs_name (norm_deps r) = rs_name r"
  by (simp_all add: norm_deps_def resource_parts_def sort_key_id_if_sorted)

lemma map_insort_key: "(\<And>x. k (f x) = k x) \<Longrightarrow> map f (insort_key k x xs) = insort_key k (f x) (map f xs)"
  by (induction xs) auto

lemma map_sort_key: "(\<And>x. k (f x) = k x) \<Longrightarrow> map f (sort_key k xs) = sort_key k (map f xs)"
  by (induction xs) (simp_all add: map_insort_key)

lemma fleet_run_id_norm: "fleet_run_id (map norm_deps specs) = fleet_run_id specs"
proof -
  let ?k = "\<lambda>r. (rs_app r, rs_name r)" and ?p = "\<lambda>r. rs_app r \<noteq> PLATFORM_APP"
  have "sort_key ?k (filter ?p (map norm_deps specs)) = map norm_deps (sort_key ?k (filter ?p specs))"
    by (simp add: map_sort_key filter_map comp_def)
  then show ?thesis by (simp add: fleet_run_id_def comp_def)
qed

lemma fleet_run_id_perm:
  assumes "mset specs = mset specs'" and "inj_on (\<lambda>r. (rs_app r, rs_name r)) (set specs)"
  shows "fleet_run_id specs = fleet_run_id specs'"
proof -
  let ?k = "\<lambda>r. (rs_app r, rs_name r)" and ?p = "\<lambda>r. rs_app r \<noteq> PLATFORM_APP"
  have "sort_key ?k (filter ?p specs) = sort_key ?k (filter ?p specs')"
  proof (rule sort_key_inj_key_eq)
    show "mset (filter ?p specs) = mset (sort_key ?k (filter ?p specs'))" using assms(1) by simp
    show "inj_on ?k (set (filter ?p specs))" using assms(2) by (auto simp: inj_on_def)
  qed simp
  then show ?thesis by (simp add: fleet_run_id_def)
qed

end
