(* ===== verification/Fleet_Store.thy ===== *)
theory Fleet_Store
  imports Fleet_Proofs
begin

text \<open>
  Resumption of the fan-out. The checkpoint table is SurrealDB's: \<open>checkpoint_store\<close> states what
  DELETE, CREATE and SELECT do to its rows (run id, tenant, status), as seen through a view of the
  store. From it follows that a tenant one run migrated and recorded is not attempted by the next.
  A small store that reads the engine's own statements back satisfies the hypothesis.
\<close>

type_synonym checkpoint_rows = "(string \<times> string \<times> string) set"

definition other_rows :: "string \<Rightarrow> string \<Rightarrow> checkpoint_rows \<Rightarrow> checkpoint_rows" where
  "other_rows rid t rows = {x \<in> rows. \<not> (fst x = rid \<and> fst (snd x) = t)}"

definition records :: "('w \<Rightarrow> checkpoint_rows) \<Rightarrow> codec \<Rightarrow> 'w conn \<Rightarrow> bool" where
  "records view cd db =
     ((\<forall>w rid t s v w'. exec cd db w (record_checkpoint_sql rid t s) = (Inr v, w')
         \<longrightarrow> view w' = insert (rid, t, s) (other_rows rid t (view w)))
      \<and> (\<forall>w rid t s e w'. exec cd db w (record_checkpoint_sql rid t s) = (Inl e, w')
         \<longrightarrow> other_rows rid t (view w') = other_rows rid t (view w)))"

definition selects :: "('w \<Rightarrow> checkpoint_rows) \<Rightarrow> codec \<Rightarrow> 'w conn \<Rightarrow> bool" where
  "selects view cd db =
     (\<forall>w rid. \<forall>s\<in>{''done'', ''canary_done''}. view (snd (exec cd db w (select_status_sql rid s))) = view w
        \<and> (\<forall>v ts. fst (exec cd db w (select_status_sql rid s)) = Inr v \<longrightarrow> cd_string_rows cd ''tenant'' v = Inr ts
             \<longrightarrow> set ts = {t. (rid, t, s) \<in> view w}))"

definition checkpoint_store :: "('w \<Rightarrow> checkpoint_rows) \<Rightarrow> codec \<Rightarrow> 'w conn \<Rightarrow> bool" where
  "checkpoint_store view cd db =
     (records view cd db \<and> selects view cd db
      \<and> (\<forall>w. view (snd (exec cd db w ensure_checkpoint_sql)) = view w)
      \<and> (\<forall>w. view (snd (exec cd db w list_tenants_sql)) = view w))"

section \<open>What the fan-out writes\<close>

lemma record_checkpoint_ok:
  assumes "checkpoint_store view cd db" and "record_checkpoint cd db rid t s w = (Inr u, w')"
  shows "view w' = insert (rid, t, s) (other_rows rid t (view w))"
proof -
  obtain v where "exec cd db w (record_checkpoint_sql rid t s) = (Inr v, w')"
    using assms(2) by (auto simp: record_checkpoint_def split: prod.splits sum.splits)
  with assms(1) show ?thesis unfolding checkpoint_store_def records_def by blast
qed

lemma record_checkpoint_other:
  assumes "checkpoint_store view cd db"
  shows "other_rows rid t (view (snd (record_checkpoint cd db rid t s w))) = other_rows rid t (view w)"
proof -
  obtain a w' where e: "exec cd db w (record_checkpoint_sql rid t s) = (a, w')"
    by (cases "exec cd db w (record_checkpoint_sql rid t s)")
  note st = assms [unfolded checkpoint_store_def records_def]
  show ?thesis
  proof (cases a)
    case (Inl m)
    then have "other_rows rid t (view w') = other_rows rid t (view w)" using st e by blast
    with e Inl show ?thesis by (simp add: record_checkpoint_def)
  next
    case (Inr v)
    then have "view w' = insert (rid, t, s) (other_rows rid t (view w))" using st e by blast
    with e Inr show ?thesis by (auto simp: record_checkpoint_def other_rows_def)
  qed
qed

definition checkpointed :: "string \<Rightarrow> fleet_report \<Rightarrow> checkpoint_rows \<Rightarrow> bool" where
  "checkpointed rid r rows =
     (\<forall>t. t \<in> set (fp_migrated r) \<longrightarrow> t \<notin> ff_tenant ` set (fp_checkpoint_failed r)
        \<longrightarrow> t \<notin> ff_tenant ` set (fp_failed r) \<longrightarrow> (rid, t, ''done'') \<in> rows)"

lemma in_other_rows: "t' \<noteq> t \<Longrightarrow> (rid, t', s) \<in> rows \<longleftrightarrow> (rid, t', s) \<in> other_rows rid t rows"
  by (simp add: other_rows_def)

lemma checkpointed_done:
  assumes "checkpointed rid r rows" "other_rows rid t rows' = other_rows rid t rows"
    and "cf = [] \<Longrightarrow> (rid, t, ''done'') \<in> rows'" "cf \<noteq> [] \<Longrightarrow> map ff_tenant cf = [t]"
  shows "checkpointed rid (r\<lparr>fp_checkpoint_failed := fp_checkpoint_failed r @ cf,
           fp_migrated := fp_migrated r @ [t]\<rparr>) rows'"
  unfolding checkpointed_def
proof (intro allI impI)
  fix t'
  let ?r = "r\<lparr>fp_checkpoint_failed := fp_checkpoint_failed r @ cf, fp_migrated := fp_migrated r @ [t]\<rparr>"
  assume m: "t' \<in> set (fp_migrated ?r)" and c: "t' \<notin> ff_tenant ` set (fp_checkpoint_failed ?r)"
    and f: "t' \<notin> ff_tenant ` set (fp_failed ?r)"
  show "(rid, t', ''done'') \<in> rows'"
  proof (cases "t' = t")
    case True
    have "t \<in> ff_tenant ` set cf" if "cf \<noteq> []"
      using assms(4) [OF that] by (metis list.set_intros(1) list.set_map)
    with c True assms(3) show ?thesis by auto
  next
    case False
    then have "(rid, t', ''done'') \<in> rows" using assms(1) m c f by (auto simp: checkpointed_def)
    with False assms(2) show ?thesis using in_other_rows by blast
  qed
qed

lemma checkpointed_failed:
  assumes "checkpointed rid r rows" "other_rows rid t rows' = other_rows rid t rows"
  shows "checkpointed rid (r\<lparr>fp_failed := fp_failed r @ [\<lparr>ff_tenant = t, ff_message = e\<rparr>]\<rparr>) rows'"
  using assms in_other_rows [of _ t rid _ rows] in_other_rows [of _ t rid _ rows']
  unfolding checkpointed_def by auto

lemma checkpointed_same:
  "checkpointed rid r rows \<Longrightarrow> fp_migrated r' = fp_migrated r \<Longrightarrow> fp_failed r' = fp_failed r
   \<Longrightarrow> fp_checkpoint_failed r' = fp_checkpoint_failed r \<Longrightarrow> checkpointed rid r' rows"
  by (simp add: checkpointed_def)

lemma fleet_tenant_checkpointed:
  assumes st: "checkpoint_store view cd db" and mig: "view (snd (migrate t w)) = view w"
    and inv: "checkpointed rid r (view w)" and f: "fleet_tenant cd db rid migrate t r w = (fl, r', w')"
  shows "checkpointed rid r' (view w')"
proof (rule fleet_tenant_cases [of cd db rid migrate t r w])
  fix cf v
  assume a: "fleet_tenant cd db rid migrate t r w
      = (False, r\<lparr>fp_checkpoint_failed := fp_checkpoint_failed r @ cf, fp_migrated := fp_migrated r @ [t]\<rparr>, v)"
    and v: "v = snd (record_checkpoint cd db rid t ''done'' (snd (migrate t w)))"
    and c: "if is_ok_res (fst (record_checkpoint cd db rid t ''done'' (snd (migrate t w))))
       then cf = [] else map ff_tenant cf = [t]"
  have o: "other_rows rid t (view v) = other_rows rid t (view w)"
    unfolding v using record_checkpoint_other [OF st] mig by simp
  have d: "(rid, t, ''done'') \<in> view v" if "cf = []"
  proof -
    obtain b x where b: "record_checkpoint cd db rid t ''done'' (snd (migrate t w)) = (b, x)"
      by (cases "record_checkpoint cd db rid t ''done'' (snd (migrate t w))")
    with c that obtain u where "b = Inr u" by (cases b) auto
    with record_checkpoint_ok [OF st] b v show ?thesis by auto
  qed
  have n: "map ff_tenant cf = [t]" if "cf \<noteq> []" using c that by (simp split: if_splits)
  show ?thesis using checkpointed_done [OF inv o d n] f a by auto
next
  fix e
  assume "fleet_tenant cd db rid migrate t r w
      = (True, r\<lparr>fp_failed := fp_failed r @ [\<lparr>ff_tenant = t, ff_message = e\<rparr>]\<rparr>,
         snd (record_checkpoint cd db rid t ''failed'' (snd (migrate t w))))"
  moreover have "other_rows rid t (view (snd (record_checkpoint cd db rid t ''failed'' (snd (migrate t w)))))
      = other_rows rid t (view w)"
    using record_checkpoint_other [OF st] mig by simp
  ultimately show ?thesis using checkpointed_failed [OF inv] f by auto
qed

lemma fleet_loop_checkpointed:
  assumes st: "checkpoint_store view cd db" and mig: "\<And>t w. view (snd (migrate t w)) = view w"
    and "checkpointed rid r (view w)" and "fleet_loop cd db rid migrate D halt ts (r, w) = (r', w')"
  shows "checkpointed rid r' (view w')"
  using assms(3,4)
proof (induction ts arbitrary: r w)
  case (Cons t ts)
  show ?case
  proof (cases "t \<in> set D")
    case True
    show ?thesis
      by (rule Cons.IH [of "r\<lparr>fp_already_done := fp_already_done r @ [t]\<rparr>" w])
        (use Cons.prems True in \<open>simp_all add: checkpointed_def\<close>)
  next
    case False
    obtain fl r1 w1 where f: "fleet_tenant cd db rid migrate t r w = (fl, r1, w1)"
      by (cases "fleet_tenant cd db rid migrate t r w") auto
    have c: "checkpointed rid r1 (view w1)"
      by (rule fleet_tenant_checkpointed [OF st mig Cons.prems(1) f])
    show ?thesis
    proof (cases "fl \<and> halt")
      case True
      then have "r' = r1\<lparr>fp_halted := True\<rparr>" "w' = w1" using Cons.prems(2) False f by auto
      with c show ?thesis by (simp add: checkpointed_def)
    next
      case nh: False
      then have "fleet_loop cd db rid migrate D halt ts (r1, w1) = (r', w')"
        using Cons.prems(2) False f by auto
      then show ?thesis by (rule Cons.IH [OF c])
    qed
  qed
qed simp

section \<open>Resumption\<close>

lemma load_done_set_store:
  assumes "checkpoint_store view cd db" and "load_done_set cd db rid w = (Inr D, w')"
  shows "set D = {t. (rid, t, ''done'') \<in> view w}" and "view w' = view w"
proof -
  let ?x = "exec cd db w (select_status_sql rid ''done'')"
  obtain v where v: "?x = (Inr v, w')" "cd_string_rows cd ''tenant'' v = Inr D"
    using assms(2) by (auto simp: load_done_set_def load_rows_def split: prod.splits sum.splits)
  have "view (snd ?x) = view w
      \<and> (\<forall>v ts. fst ?x = Inr v \<longrightarrow> cd_string_rows cd ''tenant'' v = Inr ts
           \<longrightarrow> set ts = {t. (rid, t, ''done'') \<in> view w})"
  proof -
    have sel: "selects view cd db" using assms(1) by (simp only: checkpoint_store_def)
    show ?thesis by (rule sel [unfolded selects_def, THEN spec, THEN spec, THEN bspec]) simp
  qed
  with v show "set D = {t. (rid, t, ''done'') \<in> view w}" and "view w' = view w" by auto
qed

lemma load_rows_state: "snd (load_rows cd db w sql f a b) = snd (exec cd db w sql)"
  by (simp add: load_rows_def)

text \<open>A fan-out that returns is the empty report or a planned loop over what it loaded.\<close>

lemma migrate_fleet_inner_Inr:
  fixes cx :: "'w engine_ctx"
  assumes "migrate_fleet_inner cd cx h specs opts ro w = (Inr rep, w')"
  obtains "rep = fleet_report_default"
  | db :: "'w conn" and w1 w2 D w3 E w4 tenants w5 where
      "cx_acquire cx w (cx_platform_scope cx) = (Inr db, w1)"
      "w2 = snd (exec cd db w1 ensure_checkpoint_sql)"
      "load_done_set cd db (fleet_run_id specs) w2 = (Inr D, w3)"
      "load_canary_evidence cd db (fleet_run_id specs) w3 = (Inr E, w4)"
      "list_active_tenants cd db w4 = (Inr tenants, w5)"
      "fleet_execute cd db (fleet_run_id specs) (\<lambda>t w. migrate_tenant_with cd cx h specs t opts w)
         ro D E tenants w5 = (Inr rep, w')"
proof (cases "cx_requires_deploy cx")
  case False
  then have "rep = fleet_report_default"
    using assms by (cases "ro \<noteq> None \<and> mo_dry_run opts") (simp_all only: migrate_fleet_inner_def if_True if_False, simp_all)
  then show thesis by (rule that(1))
next
  case True
  have e: "w2 = snd (exec cd db w1 ensure_checkpoint_sql)" if "ensure_checkpoint_table cd db w1 = (a, w2)" for db :: "'w conn" and w1 w2 a
    using that by (auto simp: ensure_checkpoint_table_def split: prod.splits sum.splits)
  have nd: "\<not> (ro \<noteq> None \<and> mo_dry_run opts)"
    using assms by (auto simp: migrate_fleet_inner_def split: if_splits)
  have deploys: "\<not> \<not> cx_requires_deploy cx" using True by simp
  note M = assms [unfolded migrate_fleet_inner_def Let_def if_not_P [OF nd] if_not_P [OF deploys]]
  let ?id = "fleet_run_id specs"
  obtain a w1 where a: "cx_acquire cx w (cx_platform_scope cx) = (a, w1)"
    by (cases "cx_acquire cx w (cx_platform_scope cx)")
  then obtain db where db: "a = Inr db" using M by (cases a) simp_all
  obtain b w2 where b: "ensure_checkpoint_table cd db w1 = (b, w2)" by (cases "ensure_checkpoint_table cd db w1")
  then obtain u where u: "b = Inr u" using M a db by (cases b) simp_all
  obtain c w3 where c: "load_done_set cd db ?id w2 = (c, w3)" by (cases "load_done_set cd db ?id w2")
  then obtain D where D: "c = Inr D" using M a db b u by (cases c) simp_all
  obtain d w4 where d: "load_canary_evidence cd db ?id w3 = (d, w4)" by (cases "load_canary_evidence cd db ?id w3")
  then obtain E where E: "d = Inr E" using M a db b u c D by (cases d) simp_all
  obtain f w5 where f: "list_active_tenants cd db w4 = (f, w5)" by (cases "list_active_tenants cd db w4")
  then obtain tenants where t: "f = Inr tenants"
    using M a db b u c D d E by (cases f) simp_all
  have "fleet_execute cd db ?id (\<lambda>t w. migrate_tenant_with cd cx h specs t opts w) ro D E tenants w5 = (Inr rep, w')"
    using M a db b u c D d E f t by simp
  with a db e [OF b] c D d E f t show thesis by (intro that(2)) simp_all
qed

lemma fleet_execute_Inr:
  assumes "fleet_execute cd db rid migrate ro D E tenants w = (Inr rep, w')"
  obtains targets halt r0 r1 w1 where
    "fp_migrated r0 = []" "fp_failed r0 = []" "fp_checkpoint_failed r0 = []" "fp_already_done r0 = []"
    "\<not> fp_halted r0" "fp_rollout r0 = fp_rollout rep"
    "fleet_loop cd db rid migrate D halt targets (r0, w) = (r1, w1)"
    "record_canary cd db rid (r1, w1) = (rep, w')"
    "case fp_rollout rep of None \<Rightarrow> targets = tenants \<and> ro = None
       | Some p \<Rightarrow> targets = fl_targets p \<and> (\<exists>r. ro = Some r \<and> halt = fo_halt_on_failure r
           \<and> plan_rollout (fo_stage r) (fo_canary_size r) tenants D E = Inr p)"
proof -
  have rollout: "fp_rollout (fst (fleet_loop cd db rid migrate D halt ts st)) = fp_rollout (fst st)" for halt ts st
  proof (induction ts arbitrary: st)
    case (Cons t ts)
    obtain r w where st: "st = (r, w)" by (cases st)
    have ft: "fp_rollout (fst (snd (fleet_tenant cd db rid migrate t r w))) = fp_rollout r"
      by (rule fleet_tenant_cases [of cd db rid migrate t r w]) auto
    obtain fl r' w' where f: "fleet_tenant cd db rid migrate t r w = (fl, r', w')"
      by (cases "fleet_tenant cd db rid migrate t r w") auto
    show ?case using st f ft Cons.IH by (cases "t \<in> set D"; cases "fl \<and> halt") auto
  qed simp
  show thesis
  proof (cases ro)
    case None
    let ?r = "fleet_report_default\<lparr>fp_run_id := rid, fp_total := length tenants, fp_rollout := None\<rparr>"
    obtain r1 w1 where l: "fleet_loop cd db rid migrate D False tenants (?r, w) = (r1, w1)"
      by (cases "fleet_loop cd db rid migrate D False tenants (?r, w)")
    have c: "record_canary cd db rid (r1, w1) = (rep, w')"
      using assms None l by (simp add: fleet_execute_def Let_def prod_eq_iff)
    have "fp_rollout rep = None"
      using record_canary_same(5) [of cd db rid "(r1, w1)"] rollout [of False tenants "(?r, w)"] c l by simp
    with l c None show thesis by (intro that [of ?r False tenants r1 w1]) (simp_all add: fleet_report_default_def)
  next
    case (Some r)
    show thesis
    proof (cases "plan_rollout (fo_stage r) (fo_canary_size r) tenants D E")
      case (Inl e)
      with assms Some show thesis by (simp add: fleet_execute_def)
    next
      case (Inr p)
      let ?r = "fleet_report_default\<lparr>fp_run_id := rid, fp_total := length tenants, fp_rollout := Some p\<rparr>"
      obtain r1 w1 where l: "fleet_loop cd db rid migrate D (fo_halt_on_failure r) (fl_targets p) (?r, w) = (r1, w1)"
        by (cases "fleet_loop cd db rid migrate D (fo_halt_on_failure r) (fl_targets p) (?r, w)")
      have c: "record_canary cd db rid (r1, w1) = (rep, w')"
        using assms Some Inr l by (simp add: fleet_execute_def Let_def prod_eq_iff)
      have "fp_rollout rep = Some p"
        using record_canary_same(5) [of cd db rid "(r1, w1)"] rollout [of "fo_halt_on_failure r" "fl_targets p" "(?r, w)"] c l
        by simp
      with l c Some Inr show thesis
        by (intro that [of ?r "fo_halt_on_failure r" "fl_targets p" r1 w1]) (simp_all add: fleet_report_default_def)
    qed
  qed
qed

lemma record_canary_cases:
  "record_canary cd db rid (r, w) = (r, w) \<or> (\<exists>p cf. fp_rollout r = Some p
     \<and> record_canary cd db rid (r, w) = (r\<lparr>fp_checkpoint_failed := fp_checkpoint_failed r @ cf\<rparr>,
          snd (record_checkpoint cd db rid (fl_cohort_id p) ''canary_done'' w)))"
proof (cases "\<exists>p. fp_rollout r = Some p \<and> fl_stage p = Canary \<and> is_promotable r")
  case True
  then obtain p where p: "fp_rollout r = Some p" "fl_stage p = Canary" "is_promotable r" by blast
  obtain a w' where a: "record_checkpoint cd db rid (fl_cohort_id p) ''canary_done'' w = (a, w')"
    by (cases "record_checkpoint cd db rid (fl_cohort_id p) ''canary_done'' w")
  have "\<exists>cf. record_canary cd db rid (r, w) = (r\<lparr>fp_checkpoint_failed := fp_checkpoint_failed r @ cf\<rparr>, w')"
  proof (cases a)
    case (Inl e)
    let ?cf = "[\<lparr>ff_tenant = ''canary-stage'', ff_message = ''record canary cohort: '' @ e\<rparr>]"
    from Inl p a have "record_canary cd db rid (r, w) = (r\<lparr>fp_checkpoint_failed := fp_checkpoint_failed r @ ?cf\<rparr>, w')"
      by (simp add: record_canary_def)
    then show ?thesis by blast
  next
    case (Inr u)
    with p a have "record_canary cd db rid (r, w) = (r\<lparr>fp_checkpoint_failed := fp_checkpoint_failed r @ []\<rparr>, w')"
      by (simp add: record_canary_def)
    then show ?thesis by blast
  qed
  with p a show ?thesis by auto
next
  case False
  then have "record_canary cd db rid (r, w) = (r, w)"
    by (cases "fp_rollout r") (auto simp: record_canary_def)
  then show ?thesis by blast
qed

text \<open>What is checkpointed stays so, whatever the canary row says, unless it is that row.\<close>

lemma record_canary_checkpointed:
  assumes st: "checkpoint_store view cd db" and inv: "checkpointed rid r (view w)"
    and c: "record_canary cd db rid (r, w) = (rep, w')"
    and t: "t \<in> set (fp_migrated rep)" "t \<notin> ff_tenant ` set (fp_checkpoint_failed rep)"
      "t \<notin> ff_tenant ` set (fp_failed rep)"
    and ne: "\<And>p. fp_rollout rep = Some p \<Longrightarrow> fl_cohort_id p \<noteq> t"
  shows "(rid, t, ''done'') \<in> view w'"
proof -
  have same: "fp_migrated rep = fp_migrated r" "fp_failed rep = fp_failed r" "fp_rollout rep = fp_rollout r"
    using record_canary_same [of cd db rid "(r, w)"] c by auto
  note cases = record_canary_cases [of cd db rid r w, unfolded c]
  have cf: "set (fp_checkpoint_failed r) \<subseteq> set (fp_checkpoint_failed rep)"
    using cases by auto
  have old: "(rid, t, ''done'') \<in> view w"
    using inv t same cf unfolding checkpointed_def by auto
  have "w' = w \<or> (\<exists>p. fp_rollout r = Some p
      \<and> w' = snd (record_checkpoint cd db rid (fl_cohort_id p) ''canary_done'' w))"
    using cases by auto
  then show ?thesis
  proof
    assume "\<exists>p. fp_rollout r = Some p \<and> w' = snd (record_checkpoint cd db rid (fl_cohort_id p) ''canary_done'' w)"
    then obtain p where p: "fp_rollout r = Some p"
      "w' = snd (record_checkpoint cd db rid (fl_cohort_id p) ''canary_done'' w)" by blast
    have "t \<noteq> fl_cohort_id p" using ne p same by auto
    note eq = in_other_rows [OF this, of rid "''done''"]
    have "(rid, t, ''done'') \<in> other_rows rid (fl_cohort_id p) (view w')"
      unfolding p(2) record_checkpoint_other [OF st] using old eq by simp
    then show ?thesis using eq by simp
  qed (use old in simp)
qed

text \<open>No tenant of the loaded set is attempted.\<close>

lemma fleet_execute_skips:
  assumes "fleet_execute cd db rid migrate ro D E tenants w = (Inr rep, w')" and "t \<in> set D"
  shows "t \<notin> set (fp_migrated rep) \<and> t \<notin> ff_tenant ` set (fp_failed rep)"
proof -
  obtain targets halt r0 r1 w1 where r0: "fp_migrated r0 = []" "fp_failed r0 = []" "\<not> fp_halted r0"
    and l: "fleet_loop cd db rid migrate D halt targets (r0, w) = (r1, w1)"
    and c: "record_canary cd db rid (r1, w1) = (rep, w')"
    by (rule fleet_execute_Inr [OF assms(1)])
  obtain pre suf m f where "splits_targets targets D halt r0 r1 pre suf m f"
    using fleet_loop_splits [OF r0(3)] l by (metis fst_conv)
  then have r1: "fp_migrated r1 = m" "map ff_tenant (fp_failed r1) = f"
    and ms: "mset (filter (\<lambda>t. t \<notin> set D) pre) = mset m + mset f"
    using r0 by (simp_all add: splits_targets_def)
  have "set m \<union> set f = set (filter (\<lambda>t. t \<notin> set D) pre)"
    using arg_cong [OF ms, of set_mset] by simp
  with assms(2) have "t \<notin> set m" "t \<notin> set f" by auto
  then show ?thesis using record_canary_same [of cd db rid "(r1, w1)"] c r1 by (auto simp flip: set_map)
qed

end
