(* ===== verification/Fleet_Demo.thy ===== *)
theory Fleet_Demo
  imports Fleet_Store
begin

text \<open>
  A concrete deployment for the witnesses: a platform connection that reads the engine's checkpoint
  statements back from their text and keeps the rows in a list, tenant connections that accept every
  statement, and a codec for the rows it returns. Its platform connection satisfies
  \<open>checkpoint_store\<close>.
\<close>

section \<open>Reading statements back\<close>

definition quoted :: "string \<Rightarrow> string \<Rightarrow> (string \<times> string) option" where
  "quoted p s = (case strip_prefix (p @ sq) s of None \<Rightarrow> None | Some r \<Rightarrow> unquote_body r)"

lemma quoted_literal: "quoted p (p @ sq @ escape_str v @ sq @ rest) = Some (v, rest)"
proof -
  have "strip_prefix (p @ sq) (p @ sq @ escape_str v @ sq @ rest) = Some (escape_str v @ sq @ rest)"
    by (simp add: strip_prefix_Some)
  then show ?thesis using unquote_escape [of v rest] by (simp add: quoted_def sq_def)
qed

lemma quoted_None: "strip_prefix (p @ sq) s = None \<Longrightarrow> quoted p s = None"
  by (simp add: quoted_def)

definition read_select :: "string \<Rightarrow> (string \<times> string) option" where
  "read_select s =
     Option.bind (quoted (''SELECT tenant FROM '' @ FLEET_CHECKPOINT_TABLE @ '' WHERE run_id = '') s)
       (\<lambda>(rid, r). map_option (\<lambda>(st, _). (rid, st)) (quoted '' AND status = '' r))"

definition read_record :: "string \<Rightarrow> (string \<times> string \<times> string) option" where
  "read_record s =
     Option.bind (quoted (''DELETE '' @ FLEET_CHECKPOINT_TABLE @ '' WHERE run_id = '') s) (\<lambda>(rid, r).
     Option.bind (quoted '' AND tenant = '' r) (\<lambda>(t, r).
     Option.bind (quoted ('';'' @ nl @ ''CREATE '' @ FLEET_CHECKPOINT_TABLE @ '' SET run_id = '') r) (\<lambda>(_, r).
     Option.bind (quoted '', tenant = '' r) (\<lambda>(_, r).
     map_option (\<lambda>(st, _). (rid, t, st)) (quoted '', status = '' r)))))"

lemma read_record_sql: "read_record (record_checkpoint_sql rid t s) = Some (rid, t, s)"
proof -
  have 1: "record_checkpoint_sql rid t s
      = (''DELETE '' @ FLEET_CHECKPOINT_TABLE @ '' WHERE run_id = '') @ sq @ escape_str rid @ sq
        @ '' AND tenant = '' @ sq @ escape_str t @ sq
        @ ('';'' @ nl @ ''CREATE '' @ FLEET_CHECKPOINT_TABLE @ '' SET run_id = '') @ sq @ escape_str rid @ sq
        @ '', tenant = '' @ sq @ escape_str t @ sq @ '', status = '' @ sq @ escape_str s @ sq
        @ '', at = time::now();''"
    by (simp only: record_checkpoint_sql_def Let_def append_assoc)
  show ?thesis
    unfolding read_record_def 1
    by (simp only: quoted_literal Option.bind.bind_lunit prod.case option.map)
qed

lemma escape_done: "escape_str ''done'' = ''done''" "escape_str ''canary_done'' = ''canary_done''"
  by simp_all

lemma read_select_sql:
  assumes "s \<in> {''done'', ''canary_done''}"
  shows "read_select (select_status_sql rid s) = Some (rid, s)"
proof -
  have "s = escape_str s" using assms escape_done by auto
  then have 1: "select_status_sql rid s
      = (''SELECT tenant FROM '' @ FLEET_CHECKPOINT_TABLE @ '' WHERE run_id = '') @ sq @ escape_str rid @ sq
        @ '' AND status = '' @ sq @ escape_str s @ sq @ '';''"
    by (simp only: select_status_sql_def append_assoc)
  show ?thesis
    unfolding read_select_def 1
    by (simp only: quoted_literal Option.bind.bind_lunit prod.case option.map)
qed

section \<open>The store\<close>

type_synonym demo_rows = "(string \<times> string \<times> string) list"

definition ok_stmt :: "json \<Rightarrow> stmt_result" where
  "ok_stmt v = \<lparr>sr_ok = True, sr_result = v\<rparr>"

definition string_rows :: "string \<Rightarrow> string list \<Rightarrow> json" where
  "string_rows field vs = JArray (map (\<lambda>v. JObject [(field, JString v)]) vs)"

definition demo_db :: "string list \<Rightarrow> demo_rows conn" where
  "demo_db tenants w sql =
     (if sql = list_tenants_sql then (Inr [ok_stmt (string_rows ''short_id'' tenants)], w)
      else case read_select sql of
        Some (rid, s) \<Rightarrow>
          (Inr [ok_stmt (string_rows ''tenant''
             (map (\<lambda>x. fst (snd x)) (filter (\<lambda>x. fst x = rid \<and> snd (snd x) = s) w)))], w)
      | None \<Rightarrow>
          (case read_record sql of
             Some (rid, t, s) \<Rightarrow>
               (Inr [ok_stmt JNull, ok_stmt JNull],
                (rid, t, s) # filter (\<lambda>x. \<not> (fst x = rid \<and> fst (snd x) = t)) w)
           | None \<Rightarrow> (Inr [], w)))"

definition read_row :: "string \<Rightarrow> json \<Rightarrow> string + string" where
  "read_row field v =
     (case v of
        JObject row \<Rightarrow> (case map_of row field of Some (JString s) \<Rightarrow> Inr s | _ \<Rightarrow> Inl ''missing field'')
      | _ \<Rightarrow> Inl ''expected an object'')"

definition demo_codec :: codec where
  "demo_codec =
     \<lparr>cd_show = (\<lambda>_. []), cd_debug_str = id, cd_snapshot_to_string = (\<lambda>_. Inr []),
      cd_snapshot_from_str = (\<lambda>_. Inr snapshot_default), cd_history_rows = (\<lambda>_. Inr []),
      cd_string_rows = (\<lambda>field v. case v of JArray vs \<Rightarrow> collect_res (map (read_row field) vs)
                                   | _ \<Rightarrow> Inl ''expected a sequence'')\<rparr>"

definition demo_cx :: "string list \<Rightarrow> demo_rows engine_ctx" where
  "demo_cx tenants =
     \<lparr>cx_acquire = (\<lambda>w loc. (Inr (if sl_database loc = ''platform'' then demo_db tenants
                                   else (\<lambda>w _. (Inr [], w))), w)),
      cx_platform_scope = \<lparr>sl_namespace = ''frust'', sl_database = ''platform''\<rparr>,
      cx_locate = (\<lambda>t. \<lparr>sl_namespace = ''frust'', sl_database = ''t_'' @ t\<rparr>),
      cx_requires_deploy = True, cx_strategy_name = ''db-per-tenant'', cx_bootstrap_sql = None\<rparr>"

lemma string_rows_decode: "cd_string_rows demo_codec field (string_rows field vs) = Inr vs"
proof -
  have "map (read_row field) (map (\<lambda>v. JObject [(field, JString v)]) vs) = map Inr vs"
    by (simp add: read_row_def)
  then show ?thesis by (simp add: demo_codec_def string_rows_def collect_res_Inr_iff del: map_map)
qed

lemma exec_demo_ok:
  "conn w sql = (Inr [ok_stmt a], w') \<Longrightarrow> exec cd conn w sql = (Inr a, w')"
  "conn w sql = (Inr [ok_stmt a, ok_stmt b], w') \<Longrightarrow> exec cd conn w sql = (Inr b, w')"
  "conn w sql = (Inr [], w') \<Longrightarrow> exec cd conn w sql = (Inr JNull, w')"
  by (simp_all add: exec_def ok_stmt_def)

lemma sql_apart:
  "record_checkpoint_sql rid t s \<noteq> list_tenants_sql" "select_status_sql rid s \<noteq> list_tenants_sql"
  "read_select (record_checkpoint_sql rid t s) = None" "ensure_checkpoint_sql \<noteq> list_tenants_sql"
  "read_select ensure_checkpoint_sql = None" "read_record ensure_checkpoint_sql = None"
  by (simp_all add: record_checkpoint_sql_def list_tenants_sql_def select_status_sql_def read_select_def
      read_record_def quoted_def strip_prefix_def ensure_checkpoint_sql_def Let_def FLEET_CHECKPOINT_TABLE_def)

lemma demo_store: "checkpoint_store set demo_codec (demo_db tenants)"
  unfolding checkpoint_store_def
proof (intro conjI allI)
  show "records set demo_codec (demo_db tenants)"
    unfolding records_def
    by (auto simp: exec_demo_ok(2) demo_db_def sql_apart read_record_sql other_rows_def)
  show "selects set demo_codec (demo_db tenants)"
    unfolding selects_def
    by (auto simp: exec_demo_ok(1) demo_db_def sql_apart read_select_sql string_rows_decode image_iff)
  show "set (snd (exec demo_codec (demo_db tenants) w ensure_checkpoint_sql)) = set w" for w
    by (simp add: exec_state demo_db_def sql_apart)
  show "set (snd (exec demo_codec (demo_db tenants) w list_tenants_sql)) = set w" for w
    by (simp add: exec_state demo_db_def)
qed

end
