(* ===== verification/Drift.thy ===== *)
theory Drift
  imports Frame
begin

text \<open>
  \<open>orm/src/drift.rs\<close>: objects added to or removed from a table outside the engine. The live schema is
  rebuilt from the INFO statements' answers and compared with the recorded snapshot, by object key
  only. The history is a \<open>HashMap\<close>, so the resources are visited in an order the model takes as an
  argument (\<open>ord\<close>, some permutation).
\<close>

section \<open>Reports\<close>

record resource_drift =
  rd_name :: string
  rd_table :: string
  rd_unexpected :: "string list"
  rd_missing :: "string list"

record drift_report =
  dr_scope :: string
  dr_namespace :: string
  dr_database :: string
  dr_drifted :: "resource_drift list"

definition is_clean :: "drift_report \<Rightarrow> bool" where
  "is_clean r = (dr_drifted r = [])"

section \<open>The live snapshot\<close>

text \<open>\<open>as_object\<close>, its values\<close>

definition json_values :: "json \<Rightarrow> json list option" where
  "json_values v = (case v of JObject fs \<Rightarrow> Some (map snd fs) | _ \<Rightarrow> None)"

definition push_stmt :: "string \<Rightarrow> string \<Rightarrow> string" where
  "push_stmt buf stmt = buf @ stmt @ '';'' @ nl"

definition table_define :: "json \<Rightarrow> string \<Rightarrow> string list" where
  "table_define v table =
     (case Option.bind (Option.bind (json_get ''tables'' v) (json_get table)) json_str of
        None \<Rightarrow> [] | Some d \<Rightarrow> [d])"

definition section_defines :: "json \<Rightarrow> string \<Rightarrow> string list" where
  "section_defines info section =
     (case Option.bind (json_get section info) json_values of
        None \<Rightarrow> [] | Some vs \<Rightarrow> List.map_filter json_str vs)"

definition live_snapshot ::
  "codec \<Rightarrow> 'w conn \<Rightarrow> string \<Rightarrow> 'w \<Rightarrow> (string + schema_snapshot) \<times> 'w" where
  "live_snapshot cd db table w =
     (case exec cd db w ''INFO FOR DB;'' of
        (Inl e, w1) \<Rightarrow> (Inl (''INFO FOR DB: '' @ e), w1)
      | (Inr dbinfo, w1) \<Rightarrow>
          (case exec cd db w1 (''INFO FOR TABLE '' @ table @ '';'') of
             (Inl e, w2) \<Rightarrow> (Inl (''INFO FOR TABLE '' @ table @ '': '' @ e), w2)
           | (Inr info, w2) \<Rightarrow>
               (let defs = table_define dbinfo table
                      @ concat (map (section_defines info) [''fields'', ''indexes'', ''events''])
                in (Inr (from_sql table (fold (\<lambda>d buf. push_stmt buf d) defs [])), w2))))"

section \<open>Detection\<close>

definition object_keys :: "schema_snapshot \<Rightarrow> string list" where
  "object_keys s = map fst (sn_objects s)"

text \<open>The entry for one resource, when its keys differ.\<close>

definition drift_of :: "string \<Rightarrow> schema_snapshot \<Rightarrow> schema_snapshot \<Rightarrow> resource_drift list" where
  "drift_of name snapshot live =
     (let unexpected = filter (\<lambda>k. k \<notin> set (object_keys snapshot)) (object_keys live);
          missing = filter (\<lambda>k. k \<notin> set (object_keys live)) (object_keys snapshot)
      in if unexpected \<noteq> [] \<or> missing \<noteq> []
         then [\<lparr>rd_name = name, rd_table = sn_table snapshot, rd_unexpected = unexpected,
                rd_missing = missing\<rparr>]
         else [])"

fun drift_loop ::
  "codec \<Rightarrow> 'w conn \<Rightarrow> history \<Rightarrow> resource_drift list \<Rightarrow> 'w
   \<Rightarrow> (string + resource_drift list) \<times> 'w" where
  "drift_loop cd db [] out w = (Inr out, w)"
| "drift_loop cd db ((name, (version, snapshot)) # h) out w =
     (if sn_table snapshot = [] then drift_loop cd db h out w
      else case live_snapshot cd db (sn_table snapshot) w of
        (Inl e, w') \<Rightarrow> (Inl e, w')
      | (Inr live, w') \<Rightarrow> drift_loop cd db h (out @ drift_of name snapshot live) w')"

definition detect_scope_drift ::
  "codec \<Rightarrow> (history \<Rightarrow> history) \<Rightarrow> 'w conn \<Rightarrow> 'w \<Rightarrow> (string + resource_drift list) \<times> 'w" where
  "detect_scope_drift cd ord db w =
     (case load_history cd db w of
        (Inl e, w1) \<Rightarrow> (Inl e, w1)
      | (Inr h, w1) \<Rightarrow>
          (case drift_loop cd db (ord h) [] w1 of
             (Inl e, w2) \<Rightarrow> (Inl e, w2)
           | (Inr out, w2) \<Rightarrow> (Inr (sort_key rd_name out), w2)))"

definition detect_drift_at ::
  "codec \<Rightarrow> (history \<Rightarrow> history) \<Rightarrow> 'w engine_ctx \<Rightarrow> storage_location \<Rightarrow> string \<Rightarrow> 'w
   \<Rightarrow> (string + drift_report) \<times> 'w" where
  "detect_drift_at cd ord cx loc scope w =
     (case cx_acquire cx w loc of
        (Inl e, w1) \<Rightarrow> (Inl e, w1)
      | (Inr conn, w1) \<Rightarrow>
          (case detect_scope_drift cd ord conn w1 of
             (Inl e, w2) \<Rightarrow> (Inl e, w2)
           | (Inr drifted, w2) \<Rightarrow>
               (Inr \<lparr>dr_scope = scope, dr_namespace = sl_namespace loc,
                     dr_database = sl_database loc, dr_drifted = drifted\<rparr>, w2)))"

definition detect_drift_platform ::
  "codec \<Rightarrow> (history \<Rightarrow> history) \<Rightarrow> 'w engine_ctx \<Rightarrow> 'w \<Rightarrow> (string + drift_report) \<times> 'w" where
  "detect_drift_platform cd ord cx w = detect_drift_at cd ord cx (cx_platform_scope cx) ''platform'' w"

definition detect_drift_tenant ::
  "codec \<Rightarrow> (history \<Rightarrow> history) \<Rightarrow> 'w engine_ctx \<Rightarrow> string \<Rightarrow> 'w \<Rightarrow> (string + drift_report) \<times> 'w" where
  "detect_drift_tenant cd ord cx tenant w =
     detect_drift_at cd ord cx (cx_locate cx tenant) (''tenant:'' @ tenant) w"

section \<open>Correctness\<close>

text \<open>The entry lists the symmetric difference of the two key sets.\<close>

lemma drift_of_empty: "drift_of name s live = [] \<longleftrightarrow> set (object_keys s) = set (object_keys live)"
  by (auto simp: drift_of_def Let_def filter_empty_conv)

lemma drift_of_keys:
  assumes "d \<in> set (drift_of name s live)"
  shows "set (rd_unexpected d) = set (object_keys live) - set (object_keys s)"
    and "set (rd_missing d) = set (object_keys s) - set (object_keys live)"
    and "rd_name d = name" and "rd_table d = sn_table s"
    and "set (rd_unexpected d) \<union> set (rd_missing d) \<noteq> {}"
  using assms by (auto simp: drift_of_def Let_def filter_empty_conv split: if_splits)

text \<open>
  On a store whose answers do not change while it is read, the loop's result is the concatenation of
  the entries of its resources.
\<close>

definition reads_stable :: "codec \<Rightarrow> 'w conn \<Rightarrow> 'w \<Rightarrow> bool" where
  "reads_stable cd db w = (\<forall>table. snd (live_snapshot cd db table w) = w)"

definition live_at :: "codec \<Rightarrow> 'w conn \<Rightarrow> 'w \<Rightarrow> string \<Rightarrow> schema_snapshot" where
  "live_at cd db w table = projr (fst (live_snapshot cd db table w))"

lemma drift_loop_stable:
  assumes "reads_stable cd db w" and "drift_loop cd db h out w = (Inr res, w')"
  shows "w' = w \<and> res = out @ concat (map (\<lambda>(name, v, s). drift_of name s (live_at cd db w (sn_table s)))
                            (filter (\<lambda>(name, v, s). sn_table s \<noteq> []) h))"
  using assms(2)
proof (induction h arbitrary: out)
  case (Cons e h)
  obtain name v s where e: "e = (name, v, s)" by (cases e)
  show ?case
  proof (cases "sn_table s = []")
    case True
    with Cons e show ?thesis by simp
  next
    case False
    obtain a w1 where l: "live_snapshot cd db (sn_table s) w = (a, w1)"
      by (cases "live_snapshot cd db (sn_table s) w")
    have w1: "w1 = w" using assms(1) l by (metis reads_stable_def snd_conv)
    show ?thesis
    proof (cases a)
      case (Inl m)
      with Cons.prems e False l show ?thesis by simp
    next
      case (Inr live)
      with Cons.prems e False l w1 have "drift_loop cd db h (out @ drift_of name s live) w = (Inr res, w')" by simp
      from Cons.IH [OF this] show ?thesis using e False l Inr by (simp add: live_at_def)
    qed
  qed
qed simp

lemma set_concat_drifts:
  "set (concat (map (\<lambda>(name, v, s). f name s) (filter (\<lambda>(name, v, s). sn_table s \<noteq> []) h)))
     = (\<Union>(name, v, s)\<in>{e \<in> set h. sn_table (snd (snd e)) \<noteq> []}. set (f name s))"
  by (auto simp: case_prod_unfold)

lemma detect_scope_drift_set:
  assumes "load_history cd db w = (Inr h, w1)" and "reads_stable cd db w1"
    and "set (ord h) = set h" and "detect_scope_drift cd ord db w = (Inr res, w')"
  shows "w' = w1" and "sorted (map rd_name res)"
    and "set res = (\<Union>(name, v, s)\<in>{e \<in> set h. sn_table (snd (snd e)) \<noteq> []}.
           set (drift_of name s (live_at cd db w1 (sn_table s))))"
proof -
  obtain out where l: "drift_loop cd db (ord h) [] w1 = (Inr out, w')" and res: "res = sort_key rd_name out"
    using assms(1,4) by (simp add: detect_scope_drift_def split: prod.split_asm sum.split_asm)
  note st = drift_loop_stable [OF assms(2) l, simplified append_Nil]
  show "w' = w1" using st by simp
  show "sorted (map rd_name res)" unfolding res by simp
  have "set res = set (concat (map (\<lambda>(name, v, s). drift_of name s (live_at cd db w1 (sn_table s)))
      (filter (\<lambda>(name, v, s). sn_table s \<noteq> []) (ord h))))"
    using st res by simp
  also have "\<dots> = (\<Union>(name, v, s)\<in>{e \<in> set h. sn_table (snd (snd e)) \<noteq> []}.
      set (drift_of name s (live_at cd db w1 (sn_table s))))"
    unfolding set_concat_drifts assms(3) ..
  finally show "set res = (\<Union>(name, v, s)\<in>{e \<in> set h. sn_table (snd (snd e)) \<noteq> []}.
      set (drift_of name s (live_at cd db w1 (sn_table s))))" .
qed

lemma detect_scope_drift_clean:
  assumes "load_history cd db w = (Inr h, w1)" and "reads_stable cd db w1"
    and "set (ord h) = set h" and "detect_scope_drift cd ord db w = (Inr res, w')"
  shows "res = [] \<longleftrightarrow> (\<forall>(name, v, s)\<in>set h. sn_table s \<noteq> [] \<longrightarrow>
    set (object_keys s) = set (object_keys (live_at cd db w1 (sn_table s))))"
proof -
  have "res = [] \<longleftrightarrow> set res = {}" by simp
  also have "\<dots> \<longleftrightarrow> (\<forall>(name, v, s)\<in>{e \<in> set h. sn_table (snd (snd e)) \<noteq> []}.
      drift_of name s (live_at cd db w1 (sn_table s)) = [])"
    unfolding detect_scope_drift_set(3) [OF assms] by (auto simp: case_prod_unfold)
  finally show ?thesis by (auto simp: drift_of_empty)
qed

end
