(* ===== verification/Artifacts.thy ===== *)
theory Artifacts
  imports Migrator_Proofs
begin

text \<open>
  \<open>orm/src/artifacts.rs\<close>: one reviewable \<open>.surql\<close> file per migration of a report. The file system is
  the list of files written, in order, with the directory they are in; an I/O error, which ends the
  function, is not modelled. Strings are UTF-8 bytes, so \<open>sanitize\<close>, which maps characters, skips the
  continuation bytes of a character it replaces.
\<close>

section \<open>Rendering\<close>

type_synonym artifact_entry = "int \<times> string \<times> string list \<times> string list \<times> field_change_report"

definition class_label :: "field_class \<Rightarrow> string" where
  "class_label c =
     (case c of Safe \<Rightarrow> ''SAFE'' | Warn \<Rightarrow> ''WARN'' | NeedsBackfill \<Rightarrow> ''NEEDS-BACKFILL''
      | Blocked \<Rightarrow> ''BLOCKED'')"

definition transition :: "field_change_entry \<Rightarrow> string" where
  "transition e =
     (case (fe_from_type e, fe_to_type e) of
        (Some f, Some t) \<Rightarrow> fe_field e @ '': '' @ f @ '' -> '' @ t
      | (None, Some t) \<Rightarrow> fe_field e @ '' added: '' @ t
      | (Some f, None) \<Rightarrow> fe_field e @ '' dropped (was '' @ f @ '')''
      | (None, None) \<Rightarrow> fe_field e)"

definition entry_line :: "field_change_entry \<Rightarrow> string" where
  "entry_line e =
     ''--   ['' @ class_label (fe_class e) @ ''] '' @ transition e @ '' '' @ em_dash @ '' '' @ fe_reason e"

definition summary_line :: "class_summary \<Rightarrow> string" where
  "summary_line c =
     ''-- summary: '' @ nat_str (su_safe c) @ '' safe, '' @ nat_str (su_warn c) @ '' warn, ''
     @ nat_str (su_needs_backfill c) @ '' needs-backfill, '' @ nat_str (su_blocked c) @ '' blocked''"

text \<open>The comment lines of the header, each closed by a newline in the file.\<close>

definition header_lines ::
  "codec \<Rightarrow> migration_report \<Rightarrow> string \<Rightarrow> int \<Rightarrow> string list \<Rightarrow> field_change_report \<Rightarrow> string list" where
  "header_lines cd report name version dstr cls =
     [''-- framework-orm-adapter migration artifact (reviewable; not auto-applied)'',
      ''-- scope:    '' @ rp_scope report,
      ''-- ns/db:    '' @ rp_namespace report @ ''/'' @ rp_database report,
      ''-- resource: '' @ name,
      ''-- version:  '' @ int_str version]
     @ (if dstr \<noteq> [] then [''-- WARNING destructive: '' @ cd_debug cd dstr] else [])
     @ (if \<not> fcr_is_empty cls
        then ''-- classifications (advisory; not enforced):'' # map entry_line (fr_entries cls)
             @ [summary_line (fr_summary cls)]
        else [])"

definition txn_body :: "string list \<Rightarrow> string" where
  "txn_body stmts =
     nl @ ''BEGIN TRANSACTION;'' @ nl @ concat (map (\<lambda>s. s @ '';'' @ nl) stmts)
     @ ''COMMIT TRANSACTION;'' @ nl"

definition render_artifact ::
  "codec \<Rightarrow> migration_report \<Rightarrow> string \<Rightarrow> int \<Rightarrow> string list \<Rightarrow> string list \<Rightarrow> field_change_report
   \<Rightarrow> string" where
  "render_artifact cd report name version stmts dstr cls =
     concat (map (\<lambda>l. l @ nl) (header_lines cd report name version dstr cls)) @ txn_body stmts"

section \<open>Paths\<close>

definition is_continuation :: "char \<Rightarrow> bool" where
  "is_continuation c = (128 \<le> (of_char c :: nat) \<and> (of_char c :: nat) < 192)"

definition sanitize :: "string \<Rightarrow> string" where
  "sanitize s =
     map (\<lambda>c. if is_alnum c \<or> c = CHR ''-'' \<or> c = CHR ''_'' then c else CHR ''_'')
       (filter (\<lambda>c. \<not> is_continuation c) s)"

text \<open>\<open>{version:04}\<close>: padded with zeros after the sign to four characters.\<close>

definition pad4 :: "int \<Rightarrow> string" where
  "pad4 v =
     (let ds = nat_str (nat \<bar>v\<bar>); sign = (if v < 0 then ''-'' else [])
      in sign @ replicate (4 - length sign - length ds) CHR ''0'' @ ds)"

definition artifact_name :: "int \<Rightarrow> string \<Rightarrow> string" where
  "artifact_name version name = ''v'' @ pad4 version @ ''__'' @ sanitize name @ ''.surql''"

section \<open>Writing\<close>

definition artifact_entries :: "migration_report \<Rightarrow> artifact_entry list" where
  "artifact_entries report =
     map (\<lambda>p. (pm_next_version p, pm_name p, pm_statements p, pm_destructive p, pm_classifications p))
       (rp_planned report)
     @ map (\<lambda>a. (am_version a, am_name a, am_statements a, [], am_classifications a))
       (rp_applied report)"

record artifact_output =
  ao_dir :: "string option" \<comment> \<open>the scope directory, when one is created\<close>
  ao_files :: "(string \<times> string) list" \<comment> \<open>file name and contents, in the order written\<close>

definition write_artifacts :: "codec \<Rightarrow> migration_report \<Rightarrow> artifact_output" where
  "write_artifacts cd report =
     (let entries = artifact_entries report in
      if entries = [] then \<lparr>ao_dir = None, ao_files = []\<rparr>
      else \<lparr>ao_dir = Some (sanitize (rp_scope report)),
            ao_files = map (\<lambda>(version, name, stmts, dstr, cls).
                 (artifact_name version name, render_artifact cd report name version stmts dstr cls))
               (sort_key (\<lambda>e. (fst e, fst (snd e))) entries)\<rparr>)"

section \<open>Correctness\<close>

text \<open>A name is one path segment.\<close>

definition path_char :: "char \<Rightarrow> bool" where
  "path_char c = (is_alnum c \<or> c = CHR ''-'' \<or> c = CHR ''_'')"

lemma sanitize_segment: "list_all path_char (sanitize s)"
  by (auto simp: sanitize_def path_char_def list_all_iff)

lemma sanitize_id:
  assumes "list_all path_char s"
  shows "sanitize s = s"
proof -
  have "\<not> is_continuation c" if "path_char c" for c
    using that by (auto simp: path_char_def is_continuation_def is_alnum_def is_digit_def less_eq_char_def)
  then have "filter (\<lambda>c. \<not> is_continuation c) s = s"
    using assms by (auto simp: list_all_iff intro: filter_True)
  moreover have "map (\<lambda>c. if is_alnum c \<or> c = CHR ''-'' \<or> c = CHR ''_'' then c else CHR ''_'') s = s"
    using assms by (auto simp: list_all_iff path_char_def intro: map_idI)
  ultimately show ?thesis by (simp add: sanitize_def)
qed

lemma path_char_not_sep: "path_char c \<Longrightarrow> c \<noteq> CHR ''/'' \<and> c \<noteq> CHR ''.'' \<and> c \<noteq> CHR 0x5C"
  by (auto simp: path_char_def is_alnum_def is_digit_def)

text \<open>Every header line is a comment, when its parts have no line break.\<close>

definition no_nl :: "string \<Rightarrow> bool" where
  "no_nl s = (CHR 0x0A \<notin> set s)"

lemma no_nl_append [simp]: "no_nl (a @ b) \<longleftrightarrow> no_nl a \<and> no_nl b"
  by (auto simp: no_nl_def)

lemma no_nl_literals [simp]: "no_nl []" "no_nl (c # s) \<longleftrightarrow> c \<noteq> CHR 0x0A \<and> no_nl s"
  by (auto simp: no_nl_def)

lemma no_nl_nat_str [simp]: "no_nl (nat_str n)"
proof -
  have "\<not> is_digit CHR 0x0A" by (simp add: is_digit_def)
  then show ?thesis using nat_str_digits [of n] by (auto simp: no_nl_def list_all_iff)
qed

lemma no_nl_int_str [simp]: "no_nl (int_str v)"
  by (simp add: int_str_def)

definition entry_clean :: "field_change_entry \<Rightarrow> bool" where
  "entry_clean e = (no_nl (fe_field e) \<and> no_nl (fe_reason e)
     \<and> (\<forall>f\<in>set_option (fe_from_type e). no_nl f) \<and> (\<forall>f\<in>set_option (fe_to_type e). no_nl f))"

lemma entry_line_comment: "entry_clean e \<Longrightarrow> no_nl (entry_line e)"
  by (auto simp: entry_line_def entry_clean_def transition_def class_label_def em_dash_def
      split: option.splits field_class.splits)

lemma entry_line_prefix [simp]: "take 3 (entry_line e) = ''-- ''"
  by (simp add: entry_line_def)

lemma header_comments:
  assumes "no_nl (rp_scope report)" "no_nl (rp_namespace report)" "no_nl (rp_database report)"
    and "no_nl name" "no_nl (cd_debug cd dstr)" "list_all entry_clean (fr_entries cls)"
    and "l \<in> set (header_lines cd report name version dstr cls)"
  shows "no_nl l \<and> take 3 l = ''-- ''"
  using assms
  by (auto simp: header_lines_def summary_line_def list_all_iff entry_line_comment split: if_splits)

lemma artifact_files_entries:
  "map fst (ao_files (write_artifacts cd report))
     = map (\<lambda>e. artifact_name (fst e) (fst (snd e)))
         (sort_key (\<lambda>e. (fst e, fst (snd e))) (artifact_entries report))"
  by (simp add: write_artifacts_def Let_def case_prod_unfold)

end
