(* ===== verification/Props_Review.thy ===== *)
theory Props_Review
  imports Fleet_Demo Drift Artifacts
begin

text \<open>
  The properties of the two reviewing tools: drift detection against the live schema, and the on-disk
  artifacts.
\<close>

section \<open>Drift\<close>

text \<open>on a store that does not change while it is read, drift detection changes nothing, reports in
  name order, reports nothing exactly when every recorded table has the live object keys of its
  snapshot, and each entry lists exactly the live keys that are not recorded and the recorded keys
  that are not live; the order in which the history is visited does not matter.\<close>

theorem drift_is_key_difference:
  assumes "load_history cd db w = (Inr h, w1)" and "reads_stable cd db w1"
    and "set (ord h) = set h" and "detect_scope_drift cd ord db w = (Inr res, w')"
  shows "w' = w1 \<and> sorted (map rd_name res)
    \<and> (res = [] \<longleftrightarrow> (\<forall>(name, v, s)\<in>set h. sn_table s \<noteq> [] \<longrightarrow>
          set (object_keys s) = set (object_keys (live_at cd db w1 (sn_table s)))))
    \<and> (\<forall>d\<in>set res. \<exists>(name, v, s)\<in>set h. rd_name d = name \<and> rd_table d = sn_table s
          \<and> set (rd_unexpected d) = set (object_keys (live_at cd db w1 (sn_table s))) - set (object_keys s)
          \<and> set (rd_missing d) = set (object_keys s) - set (object_keys (live_at cd db w1 (sn_table s))))"
proof (intro conjI ballI)
  note S = detect_scope_drift_set [OF assms]
  show "w' = w1" "sorted (map rd_name res)" by (rule S(1), rule S(2))
  show "res = [] \<longleftrightarrow> (\<forall>(name, v, s)\<in>set h. sn_table s \<noteq> [] \<longrightarrow>
      set (object_keys s) = set (object_keys (live_at cd db w1 (sn_table s))))"
    by (rule detect_scope_drift_clean [OF assms])
  fix d assume "d \<in> set res"
  then obtain name v s where "(name, v, s) \<in> set h" "d \<in> set (drift_of name s (live_at cd db w1 (sn_table s)))"
    unfolding S(3) by auto
  with drift_of_keys [OF this(2)] show "\<exists>(name, v, s)\<in>set h. rd_name d = name \<and> rd_table d = sn_table s
      \<and> set (rd_unexpected d) = set (object_keys (live_at cd db w1 (sn_table s))) - set (object_keys s)
      \<and> set (rd_missing d) = set (object_keys s) - set (object_keys (live_at cd db w1 (sn_table s)))"
    by (intro bexI [of _ "(name, v, s)"]) simp_all
qed

definition info_db :: "unit conn" where
  "info_db w sql =
     (Inr [ok_stmt
        (if sql = ''INFO FOR DB;''
           then JObject [(''tables'', JObject [(''note'', JString ''DEFINE TABLE note'')])]
         else if sql = ''INFO FOR TABLE note;''
           then JObject [(''fields'', JObject [(''x'', JString ''DEFINE FIELD x ON note TYPE int'')]),
                         (''indexes'', JObject [])]
         else JNull)], w)"

definition info_codec :: codec where
  "info_codec = demo_codec
     \<lparr>cd_history_rows := (\<lambda>_. Inr [\<lparr>mr_name = ''crm__note'', mr_version = 1, mr_snapshot = ''DEFINE TABLE note; DEFINE INDEX i ON note FIELDS x''\<rparr>]),
      cd_snapshot_from_str := (\<lambda>s. Inr (from_sql ''note'' s))\<rparr>"

definition drift_keys :: "string + resource_drift list \<Rightarrow> (string list \<times> string list) list" where
  "drift_keys r = (case r of Inl _ \<Rightarrow> [] | Inr ds \<Rightarrow> map (\<lambda>d. (rd_unexpected d, rd_missing d)) ds)"

theorem drift_is_key_difference_witness:
  "drift_keys (fst (detect_scope_drift info_codec rev info_db ())) = [([''field:x''], [''index:i''])]
   \<and> sorted (map rd_name (projr (fst (detect_scope_drift info_codec rev info_db ()))))"
proof -
  have e: "is_ok_res (fst (load_history info_codec info_db ()))"
    "is_ok_res (fst (detect_scope_drift info_codec rev info_db ()))" by code_simp+
  obtain h where h: "load_history info_codec info_db () = (Inr h, ())"
    using e(1) by (cases "load_history info_codec info_db ()"; cases "fst (load_history info_codec info_db ())") auto
  obtain res where r: "detect_scope_drift info_codec rev info_db () = (Inr res, ())"
    using e(2) by (cases "detect_scope_drift info_codec rev info_db ()"; cases "fst (detect_scope_drift info_codec rev info_db ())") auto
  have "reads_stable info_codec info_db ()" by (simp add: reads_stable_def)
  from drift_is_key_difference [OF h this set_rev r] have "sorted (map rd_name res)" by blast
  moreover have "drift_keys (fst (detect_scope_drift info_codec rev info_db ())) = [([''field:x''], [''index:i''])]"
    by code_simp
  ultimately show ?thesis using r by simp
qed

section \<open>Artifacts\<close>

text \<open>an artifact is a header followed by exactly the transaction of the statements; when no name, type
  or reason holds a line break every header line is a comment, so the classifications never change
  what the file runs.\<close>

theorem artifact_runs_only_statements:
  assumes "no_nl (rp_scope report)" "no_nl (rp_namespace report)" "no_nl (rp_database report)"
    and "no_nl name" "no_nl (cd_debug cd dstr)" "list_all entry_clean (fr_entries cls)"
  shows "\<exists>ls. render_artifact cd report name version stmts dstr cls = concat (map (\<lambda>l. l @ nl) ls) @ txn_body stmts
    \<and> list_all (\<lambda>l. no_nl l \<and> take 3 l = ''-- '') ls"
  using header_comments [OF assms] unfolding render_artifact_def list_all_iff by blast

theorem artifact_runs_only_statements_witness:
  "\<exists>ls. render_artifact demo_codec (report_for ''tenant:a'' \<lparr>sl_namespace = ''f'', sl_database = ''d''\<rparr>) ''crm__note'' 2
      [''REMOVE FIELD IF EXISTS x ON TABLE note''] [''REMOVE FIELD x'']
      (classify_diff (from_sql ''note'' ''DEFINE TABLE note; DEFINE FIELD x ON TABLE note TYPE int'') (from_sql ''note'' ''DEFINE TABLE note''))
     = concat (map (\<lambda>l. l @ nl) ls) @ txn_body [''REMOVE FIELD IF EXISTS x ON TABLE note'']
    \<and> list_all (\<lambda>l. no_nl l \<and> take 3 l = ''-- '') ls"
proof (rule artifact_runs_only_statements)
  show "list_all entry_clean (fr_entries (classify_diff
      (from_sql ''note'' ''DEFINE TABLE note; DEFINE FIELD x ON TABLE note TYPE int'') (from_sql ''note'' ''DEFINE TABLE note'')))"
    by code_simp
qed (simp_all add: report_for_def cd_debug_def demo_codec_def)

text \<open>every file name the artifact writer makes is one path segment with the engine's suffix, whatever
  the resource is called: the sanitised name has only letters, digits, dashes and underscores, and a
  name of such characters is kept.\<close>

theorem artifact_names_are_segments:
  "list_all path_char (sanitize s) \<and> (list_all path_char s \<longrightarrow> sanitize s = s)
   \<and> (\<forall>c\<in>set (sanitize s). c \<noteq> CHR ''/'' \<and> c \<noteq> CHR ''.'' \<and> c \<noteq> CHR 0x5C)"
  using sanitize_segment [of s] sanitize_id [of s] path_char_not_sep by (auto simp: list_all_iff)

theorem artifact_names_are_segments_witness: "sanitize ''crm__note'' = ''crm__note''"
  using artifact_names_are_segments [of "''crm__note''"] by (simp add: path_char_def is_alnum_def is_digit_def)

section \<open>The migration policy\<close>

text \<open>
  The properties of the migration policy: the apply gate over a whole run, the startup gate and where
  it falls short.
\<close>

section \<open>The gates over a run\<close>

lemma refusal_is_refuse:
  "classification_refusal env ack r \<noteq> None \<longleftrightarrow> is_refuse (decide env (non_drop_summary r) \<lparr>acknowledge = ack\<rparr>)"
  by (simp add: classification_refusal_def is_refuse_def split: boot_decision.split)

lemma serious_count:
  "(\<exists>c. worst s = Some c \<and> NeedsBackfill \<le> c) \<longleftrightarrow> 0 < su_needs_backfill s \<or> 0 < su_blocked s"
  by (auto simp: worst_def less_eq_field_class_def)

lemma sum_list_pos_iff: "0 < sum_list xs \<longleftrightarrow> (\<exists>x\<in>set xs. 0 < (x :: nat))"
  by (induction xs) auto

lemma serious_sum:
  "(\<exists>c. worst (sum_summaries ss) = Some c \<and> NeedsBackfill \<le> c)
     \<longleftrightarrow> (\<exists>s\<in>set ss. \<exists>c. worst s = Some c \<and> NeedsBackfill \<le> c)"
proof -
  have "su_needs_backfill (sum_summaries ss) = sum_list (map su_needs_backfill ss)"
    "su_blocked (sum_summaries ss) = sum_list (map su_blocked ss)"
    using count_sum_summaries [of ss NeedsBackfill] count_sum_summaries [of ss Blocked] by simp_all
  then show ?thesis unfolding serious_count by (simp add: sum_list_pos_iff) blast
qed

lemma is_refuse_sum:
  "is_refuse (decide env (sum_summaries ss) opts) \<longleftrightarrow> (\<exists>s\<in>set ss. is_refuse (decide env s opts))"
  unfolding is_refuse_decide serious_sum by auto

text \<open>the verdict on a whole report is a refusal exactly when the per-resource gate, which decides
  what is applied, refuses one of its planned or applied migrations.\<close>

theorem report_verdict_agrees:
  "is_refuse (apply_decision_for_report r env \<lparr>acknowledge = ack\<rparr>) \<longleftrightarrow>
     (\<exists>c\<in>set (map pm_classifications (rp_planned r) @ map am_classifications (rp_applied r)).
        classification_refusal env ack c \<noteq> None)"
  unfolding apply_decision_for_report_def is_refuse_sum refusal_is_refuse by auto

text \<open>at startup, production never migrates by itself; and outside production a converging startup
  has no destructive statement in its plan and nothing the apply gate would refuse.\<close>

theorem boot_converges_only_safely:
  assumes "boot_action_for_report r env = Converge"
  shows "env \<noteq> Prod \<and> (\<forall>p\<in>set (rp_planned r). pm_destructive p = []
    \<and> classification_refusal Prod False (pm_classifications p) = None)"
proof -
  let ?ss = "map (\<lambda>p. non_drop_summary (pm_classifications p)) (rp_planned r)"
  from assms have env: "env \<noteq> Prod" and drops: "\<not> list_ex (\<lambda>p. pm_destructive p \<noteq> []) (rp_planned r)"
    and w: "worst (sum_summaries ?ss) = Some Safe \<or> worst (sum_summaries ?ss) = Some Warn"
    unfolding boot_action_for_report_def boot_converge_iff by blast+
  then have "\<not> is_refuse (decide Prod (sum_summaries ?ss) \<lparr>acknowledge = False\<rparr>)"
    by (auto simp: is_refuse_decide less_eq_field_class_def)
  then have "classification_refusal Prod False (pm_classifications p) = None" if "p \<in> set (rp_planned r)" for p
    using that refusal_is_refuse [of Prod False "pm_classifications p"] unfolding is_refuse_sum by auto
  with env drops show ?thesis by (auto simp: list_ex_iff)
qed

definition add_field_plan :: migration_report where
  "add_field_plan =
     (let old = from_sql ''n'' ''DEFINE TABLE n''; new = from_sql ''n'' ''DEFINE TABLE n; DEFINE FIELD x ON TABLE n TYPE option<int>''
      in (report_for ''platform'' \<lparr>sl_namespace = ''f'', sl_database = ''p''\<rparr>)
           \<lparr>rp_planned := [planned_from_diff ''platform__n'' 2 (diff old new) old new ''n'']\<rparr>)"

theorem boot_converges_only_safely_witness:
  "Dev \<noteq> Prod \<and> list_all (\<lambda>p. pm_destructive p = []
     \<and> classification_refusal Prod False (pm_classifications p) = None) (rp_planned add_field_plan)"
proof -
  have "boot_action_for_report add_field_plan Dev = Converge" by code_simp
  then show ?thesis unfolding list_all_iff by (rule boot_converges_only_safely)
qed

text \<open>the startup gate does not see a pending change that touches no field: a production startup
  whose plan only adds an index proceeds with the index missing, though any pending change should
  refuse the boot.\<close>

theorem boot_proceeds_with_pending_index:
  "let old = from_sql ''n'' ''DEFINE TABLE n; DEFINE FIELD x ON TABLE n TYPE int'';
       new = from_sql ''n'' ''DEFINE TABLE n; DEFINE FIELD x ON TABLE n TYPE int; DEFINE INDEX i ON TABLE n FIELDS x UNIQUE'';
       r = (report_for ''platform'' loc)\<lparr>rp_planned := [planned_from_diff ''platform__n'' 2 (diff old new) old new ''n'']\<rparr>
   in pm_statements (hd (rp_planned r)) = [''DEFINE INDEX i ON TABLE n FIELDS x UNIQUE'']
      \<and> boot_action_for_report r Prod = Proceed"
  by code_simp

end
