(* ===== verification/Props_Run.thy ===== *)
theory Props_Run
  imports Frame Fleet_Demo
begin

text \<open>
  The properties of a migration run: accounting and policy, dry runs, plans, history, isolation and the
  text of the statements. The witnesses run the engine on the deployment of \<open>Fleet_Demo\<close>.
\<close>

definition note_spec :: resource_spec where
  "note_spec =
     \<lparr>rs_app = ''crm'', rs_name = ''note'',
      rs_schema = ''DEFINE TABLE note; DEFINE FIELD body ON TABLE note TYPE string'', rs_deps = []\<rparr>"

definition tenant_loc :: storage_location where
  "tenant_loc = \<lparr>sl_namespace = ''frust'', sl_database = ''t_a''\<rparr>"


lemma ok_result: "is_ok_res (fst x) \<Longrightarrow> x = (Inr (projr (fst x)), snd x)"
  by (cases x; cases "fst x") simp_all

section \<open>What a run does\<close>




text \<open>the same holds for a revert, with the revert options.\<close>

theorem revert_accounts_and_obeys_policy:
  fixes cx :: "'w engine_ctx"
  assumes "revert_scope cd cx holder loc opts scope w = (Inr rep, w')"
  shows "rp_considered rep = rp_skipped rep + length (rp_applied rep) + length (rp_planned rep) + length (rp_errors rep)
    \<and> list_all (policy_allows (revert_policy opts)) (rp_applied rep)"
proof -
  obtain conn :: "'w conn" and w1 w2 where r: "run_revert cd conn opts (report_for scope loc) w1 = (Inr rep, w2)"
    by (rule revert_scope_Inr [OF assms])
  from run_revert_report [OF r accounted_report_for applied_report_for(1)] show ?thesis
    by (simp add: accounted_def outcomes_def)
qed

definition note_codec :: codec where
  "note_codec = demo_codec
     \<lparr>cd_history_rows := (\<lambda>_. Inr
         [\<lparr>mr_name = ''crm__note'', mr_version = 2,
            mr_snapshot = ''DEFINE TABLE note; DEFINE INDEX i ON TABLE note FIELDS body''\<rparr>,
          \<lparr>mr_name = ''crm__note'', mr_version = 1, mr_snapshot = ''DEFINE TABLE note''\<rparr>]),
      cd_snapshot_from_str := (\<lambda>s. Inr (from_sql ''note'' s))\<rparr>"

definition revert_opts :: "bool \<Rightarrow> int option \<Rightarrow> revert_options" where
  "revert_opts dry v =
     \<lparr>ro_dry_run = dry, ro_allow_destructive = False, ro_to_version = v, ro_environment = Dev, ro_acknowledge = False\<rparr>"

definition note_revert :: "(string + migration_report) \<times> demo_rows" where
  "note_revert = revert_scope note_codec (demo_cx []) ''pid'' tenant_loc (revert_opts False None) ''tenant:a'' []"

theorem revert_accounts_and_obeys_policy_witness:
  "map am_statements (rp_applied (projr (fst note_revert))) = [[''REMOVE INDEX IF EXISTS i ON TABLE note'']]
   \<and> rp_considered (projr (fst note_revert)) = rp_skipped (projr (fst note_revert))
       + length (rp_applied (projr (fst note_revert))) + length (rp_planned (projr (fst note_revert)))
       + length (rp_errors (projr (fst note_revert)))
   \<and> list_all (policy_allows (revert_policy (revert_opts False None))) (rp_applied (projr (fst note_revert)))"
proof -
  have "is_ok_res (fst note_revert)" by code_simp
  then have "note_revert = (Inr (projr (fst note_revert)), snd note_revert)" by (rule ok_result)
  from revert_accounts_and_obeys_policy [OF this [unfolded note_revert_def]]
  show ?thesis unfolding note_revert_def [symmetric] by (intro conjI) (code_simp, simp_all)
qed

text \<open>a dry run leaves the store as two statements leave it: the bookkeeping table's definition and
  the SELECT of the history. No lock, no bootstrap, no resource statement is sent.\<close>

theorem dry_run_sends_only_bookkeeping:
  assumes "mo_dry_run opts" and "cx_acquire cx w loc = (Inr conn, w1)"
  shows "snd (migrate_scope cd cx holder loc regs opts scope w) =
    (let w2 = snd (conn w1 history_table_schema)
     in if is_ok_res (fst (exec cd conn w1 history_table_schema)) then snd (conn w2 history_query) else w2)"
  by (rule dry_scope_state [OF assms])

text \<open>A connection that logs what it is sent.\<close>

definition log_cx :: "string list engine_ctx" where
  "log_cx =
     \<lparr>cx_acquire = (\<lambda>w loc. (Inr (\<lambda>w sql. (Inr [], w @ [sql])), w)),
      cx_platform_scope = tenant_loc, cx_locate = (\<lambda>_. tenant_loc), cx_requires_deploy = True,
      cx_strategy_name = [], cx_bootstrap_sql = Some ''DEFINE ANALYZER a''\<rparr>"

theorem dry_run_sends_only_bookkeeping_witness:
  "snd (migrate_scope demo_codec log_cx ''pid'' tenant_loc [note_spec] (dry_run_for Dev) ''t'' [])
     = [history_table_schema, history_query]"
proof -
  have d: "mo_dry_run (dry_run_for Dev)" by code_simp
  have a: "cx_acquire log_cx [] tenant_loc = (Inr (\<lambda>w sql. (Inr [], w @ [sql])), [])"
    by (simp add: log_cx_def)
  show ?thesis unfolding dry_run_sends_only_bookkeeping [OF d a] by (simp add: exec_def Let_def)
qed

text \<open>a dry run's plan for a resource is what an apply on the same history records for it: the same
  name, version, statements and classification.\<close>

theorem plan_is_what_apply_does:
  assumes "rp_planned (fst (migrate_one cd conn (opts\<lparr>mo_dry_run := True\<rparr>) h reg st)) = rp_planned (fst st) @ [pm]"
    and "rp_applied (fst (migrate_one cd conn' (opts\<lparr>mo_dry_run := False\<rparr>) h reg st')) = rp_applied (fst st') @ [am]"
  shows "am_name am = pm_name pm \<and> am_version am = pm_next_version pm \<and> am_statements am = pm_statements pm
    \<and> am_classifications am = pm_classifications pm"
  by (rule plan_matches [OF assms])

definition note_one :: "bool \<Rightarrow> migration_report" where
  "note_one dry = fst (migrate_one demo_codec (demo_db []) ((default_for Dev)\<lparr>mo_dry_run := dry\<rparr>) [] note_spec
     (report_for ''t'' tenant_loc, []))"

theorem plan_is_what_apply_does_witness:
  "am_statements (hd (rp_applied (note_one False))) = pm_statements (hd (rp_planned (note_one True)))
   \<and> length (am_statements (hd (rp_applied (note_one False)))) = 2"
proof -
  have p: "rp_planned (note_one True) = rp_planned (report_for ''t'' tenant_loc) @ [hd (rp_planned (note_one True))]"
    by code_simp
  have a: "rp_applied (note_one False) = rp_applied (report_for ''t'' tenant_loc) @ [hd (rp_applied (note_one False))]"
    by code_simp
  have len: "length (am_statements (hd (rp_applied (note_one False)))) = 2" by code_simp
  from plan_is_what_apply_does [of demo_codec "demo_db []" "default_for Dev" "[]" note_spec
      "(report_for ''t'' tenant_loc, [])" _ "demo_db []" "(report_for ''t'' tenant_loc, [])"] p a len
  show ?thesis unfolding note_one_def fst_conv by blast
qed

section \<open>History\<close>

text \<open>when the rows come newest first, as the query orders them, the snapshot a migration starts
  from is the one of the resource's highest version; and a corrupt newest snapshot of any resource
  stops the run before anything is planned.\<close>

theorem newest_snapshot_or_error:
  assumes "newest_first rows" and "first_row n rows = Some r"
  shows "(\<forall>h. latest_rows cd rows [] = Inr h \<longrightarrow>
            map_of h n = Some (mr_version r, projr (decode_snapshot cd r))
            \<and> (\<forall>q\<in>set rows. mr_name q = n \<longrightarrow> mr_version q \<le> mr_version r))
    \<and> (\<forall>e. decode_snapshot cd r = Inl e \<longrightarrow> (\<exists>e'. latest_rows cd rows [] = Inl e'))"
  using latest_rows_lookup [of cd rows "[]"] first_row_newest [OF assms] latest_rows_corrupt [OF assms(2)]
    assms(2)
  by auto

definition note_rows :: "migration_record list" where
  "note_rows = projr (cd_history_rows note_codec JNull)"

theorem newest_snapshot_or_error_witness:
  "map_option fst (map_of (projr (latest_rows note_codec note_rows [])) ''crm__note'') = Some 2
   \<and> latest_rows (note_codec\<lparr>cd_snapshot_from_str := (\<lambda>_. Inl ''eof'')\<rparr>) note_rows [] \<noteq> Inr []"
proof -
  let ?r = "\<lparr>mr_name = ''crm__note'', mr_version = 2,
      mr_snapshot = ''DEFINE TABLE note; DEFINE INDEX i ON TABLE note FIELDS body''\<rparr>"
  have n: "newest_first note_rows" by (simp add: newest_first_def note_rows_def note_codec_def)
  have f: "first_row ''crm__note'' note_rows = Some ?r" by (simp add: first_row_def note_rows_def note_codec_def)
  have "is_ok_res (latest_rows note_codec note_rows [])" by code_simp
  then obtain h where h: "latest_rows note_codec note_rows [] = Inr h"
    by (cases "latest_rows note_codec note_rows []") simp_all
  note T = newest_snapshot_or_error [OF n f]
  have "map_of h ''crm__note'' = Some (2, projr (decode_snapshot note_codec ?r))" using T h by simp
  moreover obtain e where "latest_rows (note_codec\<lparr>cd_snapshot_from_str := (\<lambda>_. Inl ''eof'')\<rparr>) note_rows [] = Inl e"
    using T [of "note_codec\<lparr>cd_snapshot_from_str := (\<lambda>_. Inl ''eof'')\<rparr>"] by (auto simp: decode_snapshot_def map_err_def)
  ultimately show ?thesis using h by simp
qed

text \<open>a revert goes to a recorded snapshot of a strictly lower version, the requested one if a
  version is requested.\<close>

theorem revert_goes_back:
  assumes "sorted_wrt (\<lambda>a b. fst b < fst a) versions" and "revert_target opts versions = Some s"
  shows "\<exists>v. (v, s) \<in> set versions \<and> v < fst (hd versions)
    \<and> (ro_to_version opts = None \<or> ro_to_version opts = Some v)"
  by (rule revert_target_older [OF assms])

theorem revert_goes_back_witness:
  "\<exists>v. (v, from_sql ''n'' ''DEFINE TABLE n'')
       \<in> set [(3, snapshot_default), (2, snapshot_default), (1, from_sql ''n'' ''DEFINE TABLE n'')]
     \<and> v < fst (hd [(3, snapshot_default), (2, snapshot_default), (1, from_sql ''n'' ''DEFINE TABLE n'')])
     \<and> (ro_to_version (revert_opts False (Some 1)) = None \<or> ro_to_version (revert_opts False (Some 1)) = Some v)"
  by (rule revert_goes_back) (simp, code_simp)

section \<open>Isolation\<close>



section \<open>Statements\<close>

text \<open>whatever quotes and backslashes the values hold, the statements that record a checkpoint read
  back as the run, tenant and status they were given, and the literal of a resource name in the
  history row reads back as that name: no value can end its literal early.\<close>

theorem statements_read_back:
  "read_record (record_checkpoint_sql rid t s) = Some (rid, t, s)
   \<and> (\<exists>rest. quoted (''CREATE '' @ MIGRATION_TABLE @ '' SET name = '') (history_insert name version snap dir) = Some (name, rest))
   \<and> (\<exists>rest. quoted (''CREATE '' @ LOCK_TABLE @ '':main SET holder = '') (lock_create_sql name) = Some (name, rest))
   \<and> quoted (''DELETE '' @ LOCK_TABLE @ '':main WHERE holder = '') (lock_release_sql name) = Some (name, '';'')"
proof -
  have "history_insert name version snap dir = (''CREATE '' @ MIGRATION_TABLE @ '' SET name = '') @ sq @ escape_str name @ sq
      @ ('', version = '' @ int_str version @ '', snapshot = '' @ sq @ escape_str snap @ sq
     @ '', direction = '' @ sq @ direction_str dir @ sq
     @ '', applied_at = <string> time::now();'' @ nl)"
    by (simp only: history_insert_def append_assoc)
  moreover have "lock_create_sql name = (''CREATE '' @ LOCK_TABLE @ '':main SET holder = '') @ sq @ escape_str name @ sq
      @ '', at = time::now();''"
    by (simp only: lock_create_sql_def append_assoc)
  moreover have "lock_release_sql name = (''DELETE '' @ LOCK_TABLE @ '':main WHERE holder = '') @ sq @ escape_str name @ sq @ '';''"
    by (simp only: lock_release_sql_def append_assoc)
  ultimately show ?thesis using read_record_sql by (simp only: quoted_literal) blast
qed

end
