(* ===== verification/Props_Fleet.thy ===== *)
theory Props_Fleet
  imports Fleet_Demo
begin

text \<open>
  The properties of the fleet fan-out. The witnesses run it on the deployment of \<open>Fleet_Demo\<close>.
\<close>

section \<open>The fleet\<close>

definition fleet_specs :: "resource_spec list" where
  "fleet_specs = [\<lparr>rs_app = ''crm'', rs_name = ''note'', rs_schema = ''DEFINE TABLE note'', rs_deps = [''b'', ''a'']\<rparr>,
     \<lparr>rs_app = ''platform'', rs_name = ''user'', rs_schema = ''DEFINE TABLE user'', rs_deps = []\<rparr>]"

definition fleet_run :: "fleet_rollout_options option \<Rightarrow> demo_rows \<Rightarrow> (string + fleet_report) \<times> demo_rows" where
  "fleet_run ro w = migrate_fleet_inner demo_codec (demo_cx [''b'', ''a'']) ''pid''
     [\<lparr>rs_app = ''c'', rs_name = ''n'', rs_schema = [], rs_deps = []\<rparr>] (default_for Dev) ro w"

lemma Inr_result: "is_ok_res (fst x) \<Longrightarrow> x = (Inr (projr (fst x)), snd x)"
  by (cases x; cases "fst x") simp_all

text \<open>C12: a promotion that runs at all was authorised: the tenants are distinct, the exact canary cohort
  (the first tenants in order) has its own evidence row for this run id, every member of it is
  checkpointed as done, and the targets are the whole fleet, split into completed and pending.\<close>

theorem promotion_needs_evidence:
  assumes "plan_rollout Rollout n tenants completed evidence = Inr p"
  shows "distinct tenants \<and> n \<le> length tenants \<and> fl_cohort_id p = fnv1a_hex (take n (sort tenants))
    \<and> fl_cohort_id p \<in> set evidence \<and> set (take n (sort tenants)) \<subseteq> set completed
    \<and> fl_targets p = sort tenants \<and> set (fl_completed p) = set (fl_targets p) \<inter> set completed
    \<and> set (fl_pending p) = set (fl_targets p) - set completed"
  using plan_rollout_Inr [OF assms] by auto

theorem promotion_needs_evidence_witness:
  "fnv1a_hex [''a''] \<in> set [fnv1a_hex [''a'']] \<and> set (take 1 (sort [''b'', ''a''])) \<subseteq> set [''a'']"
proof -
  have "is_ok_res (plan_rollout Rollout 1 [''b'', ''a''] [''a''] [fnv1a_hex [''a'']])" by code_simp
  then obtain p where p: "plan_rollout Rollout 1 [''b'', ''a''] [''a''] [fnv1a_hex [''a'']] = Inr p"
    by (cases "plan_rollout Rollout 1 [''b'', ''a''] [''a''] [fnv1a_hex [''a'']]") simp_all
  have "take 1 (sort [''b'', ''a'']) = [''a'']" by code_simp
  with promotion_needs_evidence [OF p] show ?thesis by simp
qed

text \<open>C36: every fan-out loop splits its targets into a processed prefix and an untouched rest. In the
  prefix each tenant is either already done, migrated or failed; without \<open>halt\<close> the rest is empty,
  and with it the run stops at the first failure, which is the last tenant it touches.\<close>

theorem fan_out_accounts_and_halts:
  assumes "\<not> fp_halted r"
  shows "\<exists>pre suf m f. splits_targets targets completed halt r
    (fst (fleet_loop cd db rid migrate completed halt targets (r, w))) pre suf m f"
  by (rule fleet_loop_splits [OF assms])

theorem fan_out_accounts_and_halts_witness:
  "\<exists>pre suf m f. splits_targets [''a'', ''b'', ''c''] [''a''] True fleet_report_default
    (fst (fleet_loop demo_codec (demo_db []) ''r'' (\<lambda>t w. (Inl ''down'', w)) [''a''] True [''a'', ''b'', ''c'']
       (fleet_report_default, []))) pre suf m f"
  by (rule fan_out_accounts_and_halts) code_simp

text \<open>containment: once a guarded run halts on a prefix of its targets, the tenants after it make no
  difference, neither to the report nor to the store.\<close>

theorem halted_fan_out_is_contained:
  assumes "\<not> fp_halted (fst st)" and "fp_halted (fst (fleet_loop cd db rid migrate completed halt pre st))"
  shows "fleet_loop cd db rid migrate completed halt (pre @ suf) st = fleet_loop cd db rid migrate completed halt pre st"
  by (rule fleet_loop_contained [OF assms])

theorem halted_fan_out_is_contained_witness:
  "fleet_loop demo_codec (demo_db []) ''r'' (\<lambda>t w. (Inl ''down'', w)) [] True ([''a''] @ [''b'', ''c'']) (fleet_report_default, [])
   = fleet_loop demo_codec (demo_db []) ''r'' (\<lambda>t w. (Inl ''down'', w)) [] True [''a''] (fleet_report_default, [])"
  by (rule halted_fan_out_is_contained) code_simp+

text \<open>C7: resumption: on a checkpoint table that records and selects its rows, a tenant that one fan-out
  migrated and checkpointed is not attempted by a later one for the same run id, whatever happened to
  the rest of the store in between and whatever options the later run has.\<close>

theorem resume_skips_migrated:
  fixes cx :: "'w engine_ctx"
  assumes acquire: "\<forall>w. \<exists>w'. cx_acquire cx w (cx_platform_scope cx) = (Inr db, w') \<and> view w' = view w"
    and store: "checkpoint_store view cd db"
    and isolated: "\<forall>t. location_keeps view cx (cx_locate cx t)"
    and first: "migrate_fleet_inner cd cx h specs opts ro w = (Inr rep, w1)"
    and migrated: "t \<in> set (fp_migrated rep)" "t \<notin> ff_tenant ` set (fp_checkpoint_failed rep)"
      "t \<notin> ff_tenant ` set (fp_failed rep)"
    and cohort: "\<forall>p. fp_rollout rep = Some p \<longrightarrow> fl_cohort_id p \<noteq> t"
    and between: "view w2 = view w1"
    and second: "migrate_fleet_inner cd cx h' specs' opts' ro' w2 = (Inr rep', w3)"
    and same: "fleet_run_id specs' = fleet_run_id specs"
  shows "t \<notin> set (fp_migrated rep') \<and> t \<notin> ff_tenant ` set (fp_failed rep')"
proof -
  have mig: "view (snd (migrate_tenant_with cd cx h specs t opts w)) = view w" for t w
    by (rule migrate_tenant_keeps) (use isolated in blast)
  have acq: "db' = db \<and> view v' = view v" if "cx_acquire cx v (cx_platform_scope cx) = (Inr db', v')" for v db' v'
  proof -
    obtain w' where "cx_acquire cx v (cx_platform_scope cx) = (Inr db, w')" "view w' = view v"
      using acquire by blast
    with that show ?thesis by simp
  qed
  note S = store [unfolded checkpoint_store_def]
  have ens: "view (snd (exec cd db v ensure_checkpoint_sql)) = view v" for v using S by blast
  have lst: "view v' = view v" if "list_active_tenants cd db v = (a, v')" for v a v'
    using S that load_rows_state [of cd db v list_tenants_sql] unfolding list_active_tenants_def by (metis snd_conv)
  have evi: "view v' = view v" if "load_canary_evidence cd db rid v = (a, v')" for v a v' rid
  proof -
    have "view (snd (exec cd db v (select_status_sql rid ''canary_done''))) = view v"
      using S unfolding selects_def by auto
    with that load_rows_state [of cd db v "select_status_sql rid ''canary_done''"] show ?thesis
      unfolding load_canary_evidence_def by (metis snd_conv)
  qed
  obtain db1 a1 a2 D1 a3 E1 a4 T1 a5 where f: "cx_acquire cx w (cx_platform_scope cx) = (Inr db1, a1)"
    "a2 = snd (exec cd db1 a1 ensure_checkpoint_sql)" "load_done_set cd db1 (fleet_run_id specs) a2 = (Inr D1, a3)"
    "load_canary_evidence cd db1 (fleet_run_id specs) a3 = (Inr E1, a4)" "list_active_tenants cd db1 a4 = (Inr T1, a5)"
    "fleet_execute cd db1 (fleet_run_id specs) (\<lambda>t w. migrate_tenant_with cd cx h specs t opts w) ro D1 E1 T1 a5 = (Inr rep, w1)"
    by (rule migrate_fleet_inner_Inr [OF first]) (use migrated(1) in \<open>simp add: fleet_report_default_def\<close>)
  have db1: "db1 = db" using acq [OF f(1)] by simp
  obtain targets halt r0 r1 b where l: "fp_migrated r0 = []" 
    "fleet_loop cd db (fleet_run_id specs) (\<lambda>t w. migrate_tenant_with cd cx h specs t opts w) D1 halt targets (r0, a5) = (r1, b)"
    "record_canary cd db (fleet_run_id specs) (r1, b) = (rep, w1)"
    by (rule fleet_execute_Inr [OF f(6) [unfolded db1]])
  have "checkpointed (fleet_run_id specs) r0 (view a5)" using l(1) by (simp add: checkpointed_def)
  from fleet_loop_checkpointed [OF store mig this l(2)]
  have "(fleet_run_id specs, t, ''done'') \<in> view w1"
    by (rule record_canary_checkpointed [OF store _ l(3) migrated]) (use cohort in blast)
  then have row: "(fleet_run_id specs', t, ''done'') \<in> view w2" using between same by simp
  show ?thesis
  proof (rule migrate_fleet_inner_Inr [OF second])
    fix db2 b1 b2 D b3 E b4 T b5
    assume g: "cx_acquire cx w2 (cx_platform_scope cx) = (Inr db2, b1)"
      "b2 = snd (exec cd db2 b1 ensure_checkpoint_sql)" "load_done_set cd db2 (fleet_run_id specs') b2 = (Inr D, b3)"
      "fleet_execute cd db2 (fleet_run_id specs') (\<lambda>t w. migrate_tenant_with cd cx h' specs' t opts' w) ro' D E T b5 = (Inr rep', w3)"
    have db2: "db2 = db" and b1: "view b1 = view w2" using acq [OF g(1)] by simp_all
    have "set D = {t. (fleet_run_id specs', t, ''done'') \<in> view b2}"
      by (rule load_done_set_store(1) [OF store g(3) [unfolded db2]])
    moreover have "view b2 = view w2" using g(2) db2 b1 ens by simp
    ultimately have "t \<in> set D" using row by simp
    then show ?thesis by (rule fleet_execute_skips [OF g(4)])
  qed (simp add: fleet_report_default_def)
qed

lemma demo_reads:
  "is_ok_res (fst (ensure_checkpoint_table demo_codec (demo_db ts) w))"
  "is_ok_res (fst (load_done_set demo_codec (demo_db ts) rid w))"
  "is_ok_res (fst (load_canary_evidence demo_codec (demo_db ts) rid w))"
  "is_ok_res (fst (list_active_tenants demo_codec (demo_db ts) w))"
  by (simp_all add: ensure_checkpoint_table_def load_done_set_def load_canary_evidence_def list_active_tenants_def
      load_rows_def exec_demo_ok(1,3) demo_db_def sql_apart read_select_sql string_rows_decode map_err_def)

lemma unguarded_run_ok: "is_ok_res (fst (fleet_run None w))"
proof -
  have step: "\<exists>a w'. x = (Inr a, w')" if "is_ok_res (fst x)" for x :: "(string + 'r) \<times> demo_rows"
    using that by (cases x; cases "fst x") auto
  let ?db = "demo_db [''b'', ''a'']"
  have acq: "cx_acquire (demo_cx [''b'', ''a'']) w (cx_platform_scope (demo_cx [''b'', ''a''])) = (Inr ?db, w)"
    "cx_requires_deploy (demo_cx [''b'', ''a''])"
    by (simp_all add: demo_cx_def)
  define rid where "rid = fleet_run_id [\<lparr>rs_app = ''c'', rs_name = ''n'', rs_schema = [], rs_deps = []\<rparr>]"
  obtain u w1 where 1: "ensure_checkpoint_table demo_codec ?db w = (Inr u, w1)" using step demo_reads(1) by blast
  obtain D w2 where 2: "load_done_set demo_codec ?db rid w1 = (Inr D, w2)" using step demo_reads(2) by blast
  obtain E w3 where 3: "load_canary_evidence demo_codec ?db rid w2 = (Inr E, w3)" using step demo_reads(3) by blast
  obtain T w4 where 4: "list_active_tenants demo_codec ?db w3 = (Inr T, w4)" using step demo_reads(4) by blast
  show ?thesis
    using 1 2 3 4 by (simp add: fleet_run_def migrate_fleet_inner_def acq Let_def fleet_execute_def flip: rid_def)
qed

definition canary_a_migrated :: "(string + fleet_report) \<times> demo_rows \<Rightarrow> bool" where
  "canary_a_migrated x =
     (is_ok_res (fst x) \<and> fp_migrated (projr (fst x)) = [''a''] \<and> fp_checkpoint_failed (projr (fst x)) = []
      \<and> fp_failed (projr (fst x)) = [] \<and> map_option fl_cohort_id (fp_rollout (projr (fst x))) \<noteq> Some ''a'')"

theorem resume_skips_migrated_witness:
  "''a'' \<in> set (fp_migrated (projr (fst (fleet_run (Some (canary_options 1 (default_for Dev))) []))))
   \<and> ''a'' \<notin> set (fp_migrated (projr (fst (fleet_run None (snd (fleet_run (Some (canary_options 1 (default_for Dev))) []))))))"
proof -
  let ?x = "fleet_run (Some (canary_options 1 (default_for Dev))) []"
  let ?y = "fleet_run None (snd ?x)"
  have "canary_a_migrated ?x" by code_simp
  note x = this [unfolded canary_a_migrated_def]
  have y: "is_ok_res (fst ?y)" by (rule unguarded_run_ok)
  have acq: "\<forall>w. \<exists>w'. cx_acquire (demo_cx [''b'', ''a'']) w (cx_platform_scope (demo_cx [''b'', ''a'']))
      = (Inr (demo_db [''b'', ''a'']), w') \<and> set w' = set w"
    by (simp add: demo_cx_def)
  have iso: "\<forall>t. location_keeps set (demo_cx [''b'', ''a'']) (cx_locate (demo_cx [''b'', ''a'']) t)"
    by (simp add: demo_cx_def location_keeps_def conn_keeps_def)
  note R = resume_skips_migrated [OF acq demo_store iso Inr_result [of ?x, unfolded fleet_run_def] _ _ _ _ refl
      Inr_result [of ?y, unfolded fleet_run_def] refl]
  have "''a'' \<notin> set (fp_migrated (projr (fst ?y))) \<and> ''a'' \<notin> ff_tenant ` set (fp_failed (projr (fst ?y)))"
    by (rule R [unfolded fleet_run_def [symmetric]]) (use x y in auto)
  with x show ?thesis by simp
qed

text \<open>the run id depends on what the tenant resources are and not on how they are listed: permuting
  the resources or the dependencies of one keeps it, when app and name identify a resource.\<close>

theorem run_id_ignores_order:
  assumes "mset (map norm_deps specs) = mset (map norm_deps specs')"
    and "inj_on (\<lambda>r. (rs_app r, rs_name r)) (set (map norm_deps specs))"
  shows "fleet_run_id specs = fleet_run_id specs'"
  using fleet_run_id_perm [OF assms] by (simp add: fleet_run_id_norm)

theorem run_id_ignores_order_witness:
  "fleet_run_id fleet_specs = fleet_run_id (rev (map (\<lambda>r. r\<lparr>rs_deps := rev (rs_deps r)\<rparr>) fleet_specs))"
proof (rule run_id_ignores_order)
  show "mset (map norm_deps fleet_specs) = mset (map norm_deps (rev (map (\<lambda>r. r\<lparr>rs_deps := rev (rs_deps r)\<rparr>) fleet_specs)))"
    by (simp add: fleet_specs_def norm_deps_def)
  show "inj_on (\<lambda>r. (rs_app r, rs_name r)) (set (map norm_deps fleet_specs))"
    by (auto simp: inj_on_def fleet_specs_def norm_deps_def)
qed

text \<open>the bytes hashed for a list of parts determine the parts: the separator byte \<open>0xff\<close> occurs in no
  UTF-8 string, so no two part lists are confused before the hash.\<close>

theorem fingerprint_input_injective:
  "fnv1a_hex parts = hex16 (fold (\<lambda>b h. fnv_step h b) (fnv_stream parts) 0xcbf29ce484222325)
   \<and> ((\<forall>p\<in>set parts \<union> set parts'. CHR 0xFF \<notin> set p) \<longrightarrow> fnv_stream parts = fnv_stream parts' \<longrightarrow> parts = parts')"
  using fnv1a_hex_stream fnv_stream_inject [of parts parts'] by auto

theorem fingerprint_input_injective_witness:
  "fnv_stream [''ab'', ''c''] \<noteq> fnv_stream [''a'', ''bc'']"
  using fingerprint_input_injective [of "[''ab'', ''c'']" "[''a'', ''bc'']"] by auto

end
