(* ===== verification/Lock.thy ===== *)
theory Lock
  imports Migrator
begin

text \<open>
  The advisory lock of \<open>orm/src/lib.rs\<close> as a protocol: each statement of \<open>lock_acquire\<close> and
  \<open>lock_release\<close> is one step of a runner, and runners interleave between statements. The functions of
  \<open>Migrator\<close> refine it on a store whose lock row behaves as \<open>lock_conn\<close> states.
\<close>

section \<open>The protocol\<close>

datatype lock_pc = Outside | Contended | Stealing | Retrying | Holding

text \<open>The row (holder, time of creation), the clock, and where each runner is, by holder id.\<close>

record lock_state =
  ls_row :: "(string \<times> rat) option"
  ls_now :: rat
  ls_pc :: "string \<Rightarrow> lock_pc"

definition row_stale :: "lock_state \<Rightarrow> bool" where
  "row_stale s = (case ls_row s of None \<Rightarrow> True | Some (_, t0) \<Rightarrow> LOCK_STALE_SECS < ls_now s - t0)"

definition move :: "string \<Rightarrow> lock_pc \<Rightarrow> lock_state \<Rightarrow> lock_state" where
  "move h pc s = s\<lparr>ls_pc := (ls_pc s)(h := pc)\<rparr>"

definition put_row :: "string \<Rightarrow> lock_state \<Rightarrow> lock_state" where
  "put_row h s = s\<lparr>ls_row := Some (h, ls_now s)\<rparr>"

definition drop_own :: "string \<Rightarrow> lock_state \<Rightarrow> lock_state" where
  "drop_own h s =
     s\<lparr>ls_row := (case ls_row s of None \<Rightarrow> None | Some (k, t0) \<Rightarrow> if k = h then None else Some (k, t0))\<rparr>"

inductive lock_step :: "lock_state \<Rightarrow> lock_state \<Rightarrow> bool" where
  create: "ls_pc s h = Outside \<Longrightarrow> ls_row s = None \<Longrightarrow> lock_step s (move h Holding (put_row h s))"
| contend: "ls_pc s h = Outside \<Longrightarrow> ls_row s \<noteq> None \<Longrightarrow> lock_step s (move h Contended s)"
| give_up: "ls_pc s h = Contended \<Longrightarrow> \<not> row_stale s \<Longrightarrow> lock_step s (move h Outside s)"
| judge_stale: "ls_pc s h = Contended \<Longrightarrow> row_stale s \<Longrightarrow> lock_step s (move h Stealing s)"
| steal: "ls_pc s h = Stealing \<Longrightarrow> lock_step s (move h Retrying (s\<lparr>ls_row := None\<rparr>))"
| steal_failed: "ls_pc s h = Stealing \<Longrightarrow> lock_step s (move h Retrying s)"
| recreate: "ls_pc s h = Retrying \<Longrightarrow> ls_row s = None \<Longrightarrow> lock_step s (move h Holding (put_row h s))"
| lose: "ls_pc s h = Retrying \<Longrightarrow> ls_row s \<noteq> None \<Longrightarrow> lock_step s (move h Outside s)"
| release: "ls_pc s h = Holding \<Longrightarrow> lock_step s (move h Outside (drop_own h s))"
| release_failed: "ls_pc s h = Holding \<Longrightarrow> lock_step s (move h Outside s)"
| tick: "0 \<le> d \<Longrightarrow> lock_step s (s\<lparr>ls_now := ls_now s + d\<rparr>)"

definition lock_init :: lock_state where
  "lock_init = \<lparr>ls_row = None, ls_now = 0, ls_pc = (\<lambda>_. Outside)\<rparr>"

lemma lock_simps [simp]:
  "ls_pc (move h pc s) = (ls_pc s)(h := pc)" "ls_row (move h pc s) = ls_row s" "ls_now (move h pc s) = ls_now s"
  "ls_pc (put_row h s) = ls_pc s" "ls_row (put_row h s) = Some (h, ls_now s)" "ls_now (put_row h s) = ls_now s"
  "ls_pc (drop_own h s) = ls_pc s" "ls_now (drop_own h s) = ls_now s"
  by (simp_all add: move_def put_row_def drop_own_def)

section \<open>Mutual exclusion\<close>

text \<open>A runner that holds the lock owns the row, as long as nobody steals.\<close>

definition owns_row :: "lock_state \<Rightarrow> bool" where
  "owns_row s = (\<forall>h. ls_pc s h = Holding \<longrightarrow> map_option fst (ls_row s) = Some h)"

definition calm :: "lock_state \<Rightarrow> bool" where
  "calm s = (\<forall>h. ls_pc s h \<noteq> Stealing)"

lemma owns_row_step:
  assumes "lock_step s s'" and "owns_row s" and "calm s"
  shows "owns_row s'"
  using assms
proof (cases rule: lock_step.cases)
  case (release h)
  then show ?thesis using assms(2) by (auto simp: owns_row_def drop_own_def split: option.splits)
qed (auto simp: owns_row_def calm_def)

text \<open>Steps between calm states.\<close>

definition calm_step :: "lock_state \<Rightarrow> lock_state \<Rightarrow> bool" where
  "calm_step s s' = (lock_step s s' \<and> calm s)"

lemma owns_row_reachable: "calm_step\<^sup>*\<^sup>* lock_init s \<Longrightarrow> owns_row s"
proof (induction rule: rtranclp_induct)
  case base
  then show ?case by (simp add: owns_row_def lock_init_def)
next
  case (step s s')
  then show ?case using owns_row_step unfolding calm_step_def by blast
qed

lemma owns_row_unique: "owns_row s \<Longrightarrow> ls_pc s h = Holding \<Longrightarrow> ls_pc s k = Holding \<Longrightarrow> h = k"
  unfolding owns_row_def by (metis option.inject)

text \<open>
  The steal is not safe: the staleness check and the delete are two statements, and a missing row
  counts as stale. One runner's release and new acquisition between the other's two statements
  loses its lock, with no time passing at all.
\<close>

lemma steal_race_steps:
  assumes "a \<noteq> b"
  shows "\<exists>s. lock_step\<^sup>*\<^sup>* lock_init s \<and> ls_pc s a = Holding \<and> ls_pc s b = Holding \<and> ls_now s = 0"
proof -
  let ?s1 = "move b Holding (put_row b lock_init)"
  let ?s2 = "move a Contended ?s1"
  let ?s3 = "move b Outside (drop_own b ?s2)"
  let ?s4 = "move a Stealing ?s3"
  let ?s5 = "move b Holding (put_row b ?s4)"
  let ?s6 = "move a Retrying (?s5\<lparr>ls_row := None\<rparr>)"
  let ?s7 = "move a Holding (put_row a ?s6)"
  note ab = assms assms [symmetric]
  have "lock_step lock_init ?s1" by (rule lock_step.create) (simp_all add: lock_init_def)
  moreover have "lock_step ?s1 ?s2" by (rule lock_step.contend) (simp_all add: lock_init_def ab)
  moreover have "lock_step ?s2 ?s3" by (rule lock_step.release) (simp add: ab)
  moreover have "lock_step ?s3 ?s4"
    by (rule lock_step.judge_stale) (simp_all add: ab row_stale_def drop_own_def)
  moreover have "lock_step ?s4 ?s5" by (rule lock_step.create) (simp_all add: ab drop_own_def)
  moreover have "lock_step ?s5 ?s6" by (rule lock_step.steal) (simp add: ab)
  moreover have "lock_step ?s6 ?s7" by (rule lock_step.recreate) simp_all
  ultimately have "lock_step\<^sup>*\<^sup>* lock_init ?s7"
    by (meson r_into_rtranclp rtranclp_trans)
  moreover have "ls_pc ?s7 a = Holding" "ls_pc ?s7 b = Holding" "ls_now ?s7 = 0"
    by (simp_all add: ab lock_init_def)
  ultimately show ?thesis by blast
qed

section \<open>The functions refine the protocol\<close>

text \<open>
  What the lock row of the store does: a CREATE of the fixed record id succeeds only when there is no
  row, the age query prints the row's age, DELETE removes it. The clock \<open>now\<close> only advances.
\<close>

definition lock_conn :: "('w \<Rightarrow> (string \<times> rat) option) \<Rightarrow> ('w \<Rightarrow> rat) \<Rightarrow> codec \<Rightarrow> 'w conn \<Rightarrow> bool" where
  "lock_conn row now cd conn =
     ((\<forall>w sql. now w \<le> now (snd (conn w sql)))
      \<and> (\<forall>w. row (snd (conn w lock_define_sql)) = row w)
      \<and> (\<forall>w h e w'. conn w (lock_create_sql h) = (Inl e, w') \<longrightarrow> row w' = row w)
      \<and> (\<forall>w h ss w'. conn w (lock_create_sql h) = (Inr ss, w') \<longrightarrow>
           (if row w = None then list_all sr_ok ss \<and> row w' = Some (h, now w)
            else \<not> list_all sr_ok ss \<and> row w' = row w))
      \<and> (\<forall>w. row (snd (conn w lock_age_sql)) = row w)
      \<and> (\<forall>w v w'. exec cd conn w lock_age_sql = (Inr v, w') \<longrightarrow>
           (case row w of None \<Rightarrow> lock_age v = []
            | Some (_, t0) \<Rightarrow> lock_age v \<noteq> [] \<and> duration_secs (lock_age v) = now w - t0))
      \<and> (\<forall>w. row (snd (conn w lock_steal_sql)) = (if is_ok_res (fst (conn w lock_steal_sql)) then None else row w))
      \<and> (\<forall>w h. row (snd (conn w (lock_release_sql h))) =
           (if is_ok_res (fst (conn w (lock_release_sql h)))
            then case row w of None \<Rightarrow> None | Some (k, t0) \<Rightarrow> if k = h then None else Some (k, t0)
            else row w)))"

text \<open>A protocol state that agrees with the store.\<close>

definition agrees :: "('w \<Rightarrow> (string \<times> rat) option) \<Rightarrow> ('w \<Rightarrow> rat) \<Rightarrow> 'w \<Rightarrow> lock_state \<Rightarrow> bool" where
  "agrees row now w s = (ls_row s = row w \<and> ls_now s = now w)"

text \<open>After a statement the runner waits for the store's clock.\<close>

lemma lock_wait:
  assumes "lock_step s s'" and "ls_row s' = row w'" and "ls_now s' \<le> now w'"
  shows "\<exists>s''. lock_step\<^sup>*\<^sup>* s s'' \<and> agrees row now w' s'' \<and> ls_pc s'' = ls_pc s'"
proof -
  let ?s = "s'\<lparr>ls_now := ls_now s' + (now w' - ls_now s')\<rparr>"
  have "lock_step s' ?s" by (rule lock_step.tick) (use assms(3) in simp)
  with assms(1) have "lock_step\<^sup>*\<^sup>* s ?s" by (meson r_into_rtranclp rtranclp_trans)
  then show ?thesis using assms(2) by (intro exI [of _ ?s]) (simp add: agrees_def)
qed

lemma lock_idle:
  assumes "agrees row now w s" and "row w' = row w" and "now w \<le> now w'"
  shows "\<exists>s'. lock_step\<^sup>*\<^sup>* s s' \<and> agrees row now w' s' \<and> ls_pc s' = ls_pc s"
proof -
  let ?s = "s\<lparr>ls_now := ls_now s + (now w' - now w)\<rparr>"
  have "lock_step s ?s" by (rule lock_step.tick) (use assms(3) in simp)
  then have "lock_step\<^sup>*\<^sup>* s ?s" by (rule r_into_rtranclp)
  then show ?thesis using assms(1,2) by (intro exI [of _ ?s]) (simp add: agrees_def)
qed

lemma lock_conn_laws:
  assumes "lock_conn row now cd conn"
  shows "now w \<le> now (snd (conn w sql))" and "row (snd (conn w lock_define_sql)) = row w"
    and "conn w (lock_create_sql h) = (Inl e, w') \<Longrightarrow> row w' = row w"
    and "conn w (lock_create_sql h) = (Inr ss, w') \<Longrightarrow>
           (if row w = None then list_all sr_ok ss \<and> row w' = Some (h, now w)
            else \<not> list_all sr_ok ss \<and> row w' = row w)"
    and "row (snd (conn w lock_age_sql)) = row w"
    and "exec cd conn w lock_age_sql = (Inr v, w') \<Longrightarrow>
           (case row w of None \<Rightarrow> lock_age v = []
            | Some (_, t0) \<Rightarrow> lock_age v \<noteq> [] \<and> duration_secs (lock_age v) = now w - t0)"
    and "row (snd (conn w lock_steal_sql)) = (if is_ok_res (fst (conn w lock_steal_sql)) then None else row w)"
    and "row (snd (conn w (lock_release_sql h))) =
           (if is_ok_res (fst (conn w (lock_release_sql h)))
            then case row w of None \<Rightarrow> None | Some (k, t0) \<Rightarrow> if k = h then None else Some (k, t0)
            else row w)"
proof -
  note L = assms [unfolded lock_conn_def]
  note L2 = L [THEN conjunct2] note L3 = L2 [THEN conjunct2] note L4 = L3 [THEN conjunct2]
  note L5 = L4 [THEN conjunct2] note L6 = L5 [THEN conjunct2] note L7 = L6 [THEN conjunct2]
  show "now w \<le> now (snd (conn w sql))" by (rule L [THEN conjunct1, rule_format])
  show "row (snd (conn w lock_define_sql)) = row w" by (rule L2 [THEN conjunct1, rule_format])
  show "conn w (lock_create_sql h) = (Inl e, w') \<Longrightarrow> row w' = row w"
    by (rule L3 [THEN conjunct1, rule_format])
  show "conn w (lock_create_sql h) = (Inr ss, w') \<Longrightarrow>
      (if row w = None then list_all sr_ok ss \<and> row w' = Some (h, now w)
       else \<not> list_all sr_ok ss \<and> row w' = row w)"
    by (rule L4 [THEN conjunct1, rule_format])
  show "row (snd (conn w lock_age_sql)) = row w" by (rule L5 [THEN conjunct1, rule_format])
  show "exec cd conn w lock_age_sql = (Inr v, w') \<Longrightarrow>
      (case row w of None \<Rightarrow> lock_age v = []
       | Some (_, t0) \<Rightarrow> lock_age v \<noteq> [] \<and> duration_secs (lock_age v) = now w - t0)"
    by (rule L6 [THEN conjunct1, rule_format])
  show "row (snd (conn w lock_steal_sql)) = (if is_ok_res (fst (conn w lock_steal_sql)) then None else row w)"
    by (rule L7 [THEN conjunct1, rule_format])
  show "row (snd (conn w (lock_release_sql h))) =
       (if is_ok_res (fst (conn w (lock_release_sql h)))
        then case row w of None \<Rightarrow> None | Some (k, t0) \<Rightarrow> if k = h then None else Some (k, t0)
        else row w)"
    by (rule L7 [THEN conjunct2, rule_format])
qed

lemma try_create_refines:
  assumes L: "lock_conn row now cd conn" and a: "agrees row now w s"
    and pc: "ls_pc s h = Outside \<or> ls_pc s h = Retrying"
    and c: "lock_try_create conn w h = (res, w')"
  shows "\<exists>s'. lock_step\<^sup>*\<^sup>* s s' \<and> agrees row now w' s'
    \<and> ls_pc s' = (case res of Inl _ \<Rightarrow> ls_pc s
        | Inr b \<Rightarrow> (ls_pc s)(h := if b then Holding else if ls_pc s h = Outside then Contended else Outside))"
proof -
  obtain q v where q: "conn w (lock_create_sql h) = (q, v)" by (cases "conn w (lock_create_sql h)")
  have now: "now w \<le> now v" using lock_conn_laws(1) [OF L, of w "lock_create_sql h"] q by simp
  show ?thesis
  proof (cases q)
    case (Inl e)
    then have "res = Inl e" "w' = v" using c q by (simp_all add: lock_try_create_def)
    with lock_idle [where row = row and now = now and w' = v, OF a _ now] lock_conn_laws(3) [OF L] q Inl show ?thesis by auto
  next
    case (Inr ss)
    then have r: "res = Inr (list_all sr_ok ss)" "w' = v" using c q by (simp_all add: lock_try_create_def)
    note law = lock_conn_laws(4) [OF L q [unfolded Inr]]
    show ?thesis
    proof (cases "row w = None")
      case True
      have st: "lock_step s (move h Holding (put_row h s))"
        using pc a True by (auto simp: agrees_def intro: lock_step.create lock_step.recreate)
      have "ls_row (move h Holding (put_row h s)) = row v" "ls_now (move h Holding (put_row h s)) \<le> now v"
        using a law True now by (simp_all add: agrees_def)
      from lock_wait [where row = row and now = now and w' = v, OF st this] law True r show ?thesis by auto
    next
      case False
      let ?pc = "if ls_pc s h = Outside then Contended else Outside"
      have st: "lock_step s (move h ?pc s)"
        using pc a False by (auto simp: agrees_def intro: lock_step.contend lock_step.lose)
      have "ls_row (move h ?pc s) = row v" "ls_now (move h ?pc s) \<le> now v"
        using a law False now by (simp_all add: agrees_def)
      from lock_wait [where row = row and now = now and w' = v, OF st this] law False r show ?thesis by auto
    qed
  qed
qed

lemma is_stale_refines:
  assumes L: "lock_conn row now cd conn" and a: "agrees row now w s" and pc: "ls_pc s h = Contended"
    and c: "lock_is_stale cd conn w = (res, w')"
  shows "\<exists>s'. lock_step\<^sup>*\<^sup>* s s' \<and> agrees row now w' s'
    \<and> ls_pc s' = (case res of Inl _ \<Rightarrow> ls_pc s | Inr b \<Rightarrow> (ls_pc s)(h := if b then Stealing else Outside))"
proof -
  obtain q v where q: "exec cd conn w lock_age_sql = (q, v)" by (cases "exec cd conn w lock_age_sql")
  have v: "v = snd (conn w lock_age_sql)" using q exec_state [of cd conn w lock_age_sql] by simp
  have now: "now w \<le> now v" unfolding v by (rule lock_conn_laws(1) [OF L])
  have row: "row v = row w" unfolding v by (rule lock_conn_laws(5) [OF L])
  show ?thesis
  proof (cases q)
    case (Inl e)
    then have "res = Inl e" "w' = v" using c q by (simp_all add: lock_is_stale_def)
    with lock_idle [OF a row now] show ?thesis by auto
  next
    case (Inr j)
    then have r: "res = Inr (lock_age j = [] \<or> LOCK_STALE_SECS < duration_secs (lock_age j))" "w' = v"
      using c q by (simp_all add: lock_is_stale_def)
    have "row_stale s \<longleftrightarrow> lock_age j = [] \<or> LOCK_STALE_SECS < duration_secs (lock_age j)"
      using lock_conn_laws(6) [OF L q [unfolded Inr]] a
      by (auto simp: row_stale_def agrees_def split: option.splits)
    with r have res: "res = Inr (row_stale s)" by simp
    let ?pc = "if row_stale s then Stealing else Outside"
    have st: "lock_step s (move h ?pc s)"
      using pc by (auto intro: lock_step.give_up lock_step.judge_stale)
    have "ls_row (move h ?pc s) = row v" "ls_now (move h ?pc s) \<le> now v"
      using a row now by (simp_all add: agrees_def)
    from lock_wait [where row = row and now = now and w' = v, OF st this] res r(2) show ?thesis by auto
  qed
qed

lemma steal_refines:
  assumes L: "lock_conn row now cd conn" and a: "agrees row now w s" and pc: "ls_pc s h = Stealing"
    and w': "w' = snd (conn w lock_steal_sql)"
  shows "\<exists>s'. lock_step\<^sup>*\<^sup>* s s' \<and> agrees row now w' s' \<and> ls_pc s' = (ls_pc s)(h := Retrying)"
proof -
  have now: "now w \<le> now w'" unfolding w' by (rule lock_conn_laws(1) [OF L])
  note law = lock_conn_laws(7) [OF L, of w, folded w']
  show ?thesis
  proof (cases "is_ok_res (fst (conn w lock_steal_sql))")
    case True
    have st: "lock_step s (move h Retrying (s\<lparr>ls_row := None\<rparr>))" by (rule lock_step.steal [OF pc])
    have "ls_row (move h Retrying (s\<lparr>ls_row := None\<rparr>)) = row w'" "ls_now (move h Retrying (s\<lparr>ls_row := None\<rparr>)) \<le> now w'"
      using a law True now by (simp_all add: agrees_def)
    from lock_wait [where row = row and now = now and w' = w', OF st this] show ?thesis by auto
  next
    case False
    have st: "lock_step s (move h Retrying s)" by (rule lock_step.steal_failed [OF pc])
    have "ls_row (move h Retrying s) = row w'" "ls_now (move h Retrying s) \<le> now w'"
      using a law False now by (simp_all add: agrees_def)
    from lock_wait [where row = row and now = now and w' = w', OF st this] show ?thesis by auto
  qed
qed

lemma release_refines:
  assumes L: "lock_conn row now cd conn" and a: "agrees row now w s" and pc: "ls_pc s h = Holding"
  shows "\<exists>s'. lock_step\<^sup>*\<^sup>* s s' \<and> agrees row now (lock_release conn w h) s'
    \<and> ls_pc s' = (ls_pc s)(h := Outside)"
proof -
  let ?w = "lock_release conn w h"
  have now: "now w \<le> now ?w" unfolding lock_release_def by (rule lock_conn_laws(1) [OF L])
  note law = lock_conn_laws(8) [OF L, of w h, folded lock_release_def]
  show ?thesis
  proof (cases "is_ok_res (fst (conn w (lock_release_sql h)))")
    case True
    have st: "lock_step s (move h Outside (drop_own h s))" by (rule lock_step.release [OF pc])
    have "ls_row (move h Outside (drop_own h s)) = row ?w" "ls_now (move h Outside (drop_own h s)) \<le> now ?w"
      using a law True now by (simp_all add: agrees_def drop_own_def)
    from lock_wait [where row = row and now = now and w' = ?w, OF st this] show ?thesis by auto
  next
    case False
    have st: "lock_step s (move h Outside s)" by (rule lock_step.release_failed [OF pc])
    have "ls_row (move h Outside s) = row ?w" "ls_now (move h Outside s) \<le> now ?w"
      using a law False now by (simp_all add: agrees_def)
    from lock_wait [where row = row and now = now and w' = ?w, OF st this] show ?thesis by auto
  qed
qed

text \<open>The whole acquisition: it returns \<open>Ok\<close> exactly when the runner ends up holding.\<close>

lemma acquire_refines:
  assumes L: "lock_conn row now cd conn" and a: "agrees row now w s" and pc: "ls_pc s h = Outside"
    and c: "lock_acquire cd conn w h = (res, w')"
  shows "\<exists>s'. lock_step\<^sup>*\<^sup>* s s' \<and> agrees row now w' s' \<and> (ls_pc s' h = Holding \<longleftrightarrow> is_ok_res res)
    \<and> (\<forall>k. k \<noteq> h \<longrightarrow> ls_pc s' k = ls_pc s k)"
proof -
  obtain r1 w1 where 1: "exec cd conn w lock_define_sql = (r1, w1)" by (cases "exec cd conn w lock_define_sql")
  have w1: "w1 = snd (conn w lock_define_sql)" using 1 exec_state [of cd conn w lock_define_sql] by simp
  obtain s1 where s1: "lock_step\<^sup>*\<^sup>* s s1" "agrees row now w1 s1" "ls_pc s1 = ls_pc s"
    using lock_idle [OF a, of w1] lock_conn_laws(1,2) [OF L] unfolding w1 by blast
  show ?thesis
  proof (cases r1)
    case (Inl e)
    with c 1 have "w' = w1" "\<not> is_ok_res res" by (auto simp: lock_acquire_def)
    with s1 pc show ?thesis by auto
  next
    case (Inr u)
    obtain r2 w2 where 2: "lock_try_create conn w1 h = (r2, w2)" by (cases "lock_try_create conn w1 h")
    obtain s2 where s2: "lock_step\<^sup>*\<^sup>* s1 s2" "agrees row now w2 s2"
      "ls_pc s2 = (case r2 of Inl _ \<Rightarrow> ls_pc s | Inr b \<Rightarrow> (ls_pc s)(h := if b then Holding else Contended))"
      using try_create_refines [OF L s1(2) _ 2] s1(3) pc by (cases r2) auto
    have reach2: "lock_step\<^sup>*\<^sup>* s s2" using s1(1) s2(1) by (rule rtranclp_trans)
    show ?thesis
    proof (cases "r2 = Inr False")
      case False
      with c 1 2 Inr have "w' = w2" "is_ok_res res = (r2 = Inr True)"
        by (auto simp: lock_acquire_def split: sum.splits bool.splits)
      with s2 reach2 pc False show ?thesis by (intro exI [of _ s2]) (auto split: sum.splits)
    next
      case True
      obtain r3 w3 where 3: "lock_is_stale cd conn w2 = (r3, w3)" by (cases "lock_is_stale cd conn w2")
      have pc2: "ls_pc s2 = (ls_pc s)(h := Contended)" using s2(3) True by simp
      obtain s3 where s3: "lock_step\<^sup>*\<^sup>* s2 s3" "agrees row now w3 s3"
        "ls_pc s3 = (case r3 of Inl _ \<Rightarrow> (ls_pc s)(h := Contended)
                     | Inr b \<Rightarrow> (ls_pc s)(h := if b then Stealing else Outside))"
        using is_stale_refines [OF L s2(2) _ 3, of h] pc2 by (cases r3) auto
      have reach3: "lock_step\<^sup>*\<^sup>* s s3" using reach2 s3(1) by (rule rtranclp_trans)
      show ?thesis
      proof (cases "r3 = Inr True")
        case False
        with c 1 2 3 Inr True have "w' = w3" "\<not> is_ok_res res"
          by (auto simp: lock_acquire_def split: sum.splits bool.splits)
        with s3 reach3 False show ?thesis by (intro exI [of _ s3]) (auto split: sum.splits)
      next
        case stale: True
        define w4 where "w4 = snd (conn w3 lock_steal_sql)"
        obtain s4 where s4: "lock_step\<^sup>*\<^sup>* s3 s4" "agrees row now w4 s4" "ls_pc s4 = (ls_pc s)(h := Retrying)"
          using steal_refines [OF L s3(2) _ w4_def, of h] s3(3) stale by auto
        obtain r5 w5 where 5: "lock_try_create conn w4 h = (r5, w5)" by (cases "lock_try_create conn w4 h")
        obtain s5 where s5: "lock_step\<^sup>*\<^sup>* s4 s5" "agrees row now w5 s5"
          "ls_pc s5 = (case r5 of Inl _ \<Rightarrow> (ls_pc s)(h := Retrying)
                       | Inr b \<Rightarrow> (ls_pc s)(h := if b then Holding else Outside))"
          using try_create_refines [OF L s4(2) _ 5] s4(3) by (cases r5) auto
        have reach5: "lock_step\<^sup>*\<^sup>* s s5" using reach3 s4(1) s5(1) by (meson rtranclp_trans)
        have "w' = w5" "is_ok_res res = (r5 = Inr True)"
          using c 1 2 3 5 Inr True stale w4_def
          by (auto simp: lock_acquire_def Let_def split: sum.splits bool.splits)
        with s5 reach5 show ?thesis by (intro exI [of _ s5]) (auto split: sum.splits)
      qed
    qed
  qed
qed

end
