(* ===== verification/Props_Lock.thy ===== *)
theory Props_Lock
  imports Fleet_Demo Lock
begin

text \<open>
  The properties of the advisory lock: the calls follow the lock protocol, the protocol excludes a
  second holder as long as nobody steals, and what the steal can do. The witness is a small store with
  a lock row.
\<close>

section \<open>A store with a lock row\<close>

text \<open>The state is the holder; the clock stands still.\<close>

definition create_prefix :: string where
  "create_prefix = ''CREATE '' @ LOCK_TABLE @ '':main SET holder = ''"

definition release_prefix :: string where
  "release_prefix = ''DELETE '' @ LOCK_TABLE @ '':main WHERE holder = ''"

definition lock_db :: "string option conn" where
  "lock_db w sql =
     (if sql = lock_age_sql
        then (Inr [ok_stmt (if w = None then JArray [] else JArray [JObject [(''age'', JString ''0s'')]])], w)
      else if sql = lock_steal_sql then (Inr [], None)
      else case quoted create_prefix sql of
        Some (h, _) \<Rightarrow>
          (if w = None then (Inr [], Some h) else (Inr [\<lparr>sr_ok = False, sr_result = JNull\<rparr>], w))
      | None \<Rightarrow>
          (case quoted release_prefix sql of
             Some (h, _) \<Rightarrow> (Inr [], if w = Some h then None else w)
           | None \<Rightarrow> (Inr [], w)))"

lemma lock_sql_read:
  "quoted create_prefix (lock_create_sql h) = Some (h, '', at = time::now();'')"
  "quoted release_prefix (lock_release_sql h) = Some (h, '';'')"
proof -
  have 1: "lock_create_sql h = create_prefix @ sq @ escape_str h @ sq @ '', at = time::now();''"
    by (simp only: lock_create_sql_def create_prefix_def append_assoc)
  have 2: "lock_release_sql h = release_prefix @ sq @ escape_str h @ sq @ '';''"
    by (simp only: lock_release_sql_def release_prefix_def append_assoc)
  show "quoted create_prefix (lock_create_sql h) = Some (h, '', at = time::now();'')"
    unfolding 1 by (rule quoted_literal)
  show "quoted release_prefix (lock_release_sql h) = Some (h, '';'')"
    unfolding 2 by (rule quoted_literal)
qed

lemma lock_sql_apart:
  "lock_create_sql h \<noteq> lock_age_sql" "lock_create_sql h \<noteq> lock_steal_sql" "lock_steal_sql \<noteq> lock_age_sql"
  "lock_release_sql h \<noteq> lock_age_sql" "lock_define_sql \<noteq> lock_age_sql" "lock_define_sql \<noteq> lock_steal_sql"
  by (simp_all add: lock_create_sql_def lock_age_sql_def lock_steal_sql_def lock_release_sql_def lock_define_sql_def)

lemma lock_release_not_steal: "lock_release_sql h \<noteq> lock_steal_sql"
  by (simp add: lock_release_sql_def lock_steal_sql_def LOCK_TABLE_def)

lemma lock_prefix_apart:
  "quoted create_prefix (lock_release_sql h) = None" "quoted create_prefix lock_define_sql = None"
  "quoted release_prefix lock_define_sql = None"
  by (rule quoted_None, simp add: strip_prefix_def create_prefix_def release_prefix_def lock_release_sql_def
      lock_define_sql_def)+

lemma lock_db_simps:
  "lock_db w lock_define_sql = (Inr [], w)"
  "lock_db w lock_steal_sql = (Inr [], None)"
  "lock_db w (lock_create_sql h) = (if w = None then (Inr [], Some h) else (Inr [\<lparr>sr_ok = False, sr_result = JNull\<rparr>], w))"
  "lock_db w (lock_release_sql h) = (Inr [], if w = Some h then None else w)"
  "lock_db w lock_age_sql
     = (Inr [ok_stmt (if w = None then JArray [] else JArray [JObject [(''age'', JString ''0s'')]])], w)"
  using lock_sql_apart lock_release_not_steal lock_prefix_apart lock_sql_read
  by (simp_all only: lock_db_def option.case prod.case if_True if_False refl)

lemma lock_db_exec:
  "exec cd lock_db w lock_define_sql = (Inr JNull, w)"
  "exec cd lock_db w lock_age_sql
     = (Inr (if w = None then JArray [] else JArray [JObject [(''age'', JString ''0s'')]]), w)"
  by (simp_all add: exec_def lock_db_simps ok_stmt_def)

definition lock_row :: "string option \<Rightarrow> (string \<times> rat) option" where
  "lock_row w = map_option (\<lambda>h. (h, 0)) w"

lemma lock_db_conn: "lock_conn lock_row (\<lambda>_. 0) demo_codec lock_db"
proof -
  have d: "duration_secs ''0s'' = 0" by code_simp
  show ?thesis
    unfolding lock_conn_def
    by (auto simp: lock_db_simps lock_row_def lock_db_exec lock_age_def d split: option.splits)
qed

section \<open>Properties\<close>

text \<open>C13: on a store whose lock row behaves, acquiring the lock is a run of the lock protocol that ends
  with this runner holding the lock exactly when the call returns \<open>Ok\<close>, and moves no other runner.\<close>

theorem lock_acquire_refines_protocol:
  assumes "lock_conn row now cd conn" and "agrees row now w s" and "ls_pc s h = Outside"
    and "lock_acquire cd conn w h = (res, w')"
  shows "\<exists>s'. lock_step\<^sup>*\<^sup>* s s' \<and> agrees row now w' s' \<and> (ls_pc s' h = Holding \<longleftrightarrow> is_ok_res res)
    \<and> (\<forall>k. k \<noteq> h \<longrightarrow> ls_pc s' k = ls_pc s k)"
  by (rule acquire_refines [OF assms])

theorem lock_acquire_refines_protocol_witness:
  "\<exists>s'. lock_step\<^sup>*\<^sup>* lock_init s' \<and> ls_row s' = Some (''pid-1'', 0) \<and> ls_pc s' ''pid-1'' = Holding"
proof -
  have a: "agrees lock_row (\<lambda>_. 0) None lock_init" by (simp add: agrees_def lock_row_def lock_init_def)
  have p: "ls_pc lock_init ''pid-1'' = Outside" by (simp add: lock_init_def)
  have c: "lock_acquire demo_codec lock_db None ''pid-1'' = (Inr (), Some ''pid-1'')"
    by (simp add: lock_acquire_def lock_try_create_def lock_db_simps lock_db_exec)
  from lock_acquire_refines_protocol [OF lock_db_conn a p c] show ?thesis
    by (auto simp: agrees_def lock_row_def)
qed

text \<open>mutual exclusion: in any run of the protocol in which no runner is ever between its staleness
  check and its steal, at most one runner holds the lock, and the row is its own.\<close>

theorem lock_excludes_without_steal:
  assumes "calm_step\<^sup>*\<^sup>* lock_init s" and "ls_pc s h = Holding"
  shows "map_option fst (ls_row s) = Some h \<and> (\<forall>k. ls_pc s k = Holding \<longrightarrow> k = h)"
proof (intro conjI allI impI)
  note own = owns_row_reachable [OF assms(1)]
  show "map_option fst (ls_row s) = Some h" using own assms(2) by (simp add: owns_row_def)
  show "k = h" if "ls_pc s k = Holding" for k by (rule owns_row_unique [OF own that assms(2)])
qed

theorem lock_excludes_without_steal_witness:
  "map_option fst (ls_row (move ''a'' Holding (put_row ''a'' lock_init))) = Some ''a''"
proof -
  have "lock_step lock_init (move ''a'' Holding (put_row ''a'' lock_init))"
    by (rule lock_step.create) (simp_all add: lock_init_def)
  then have "calm_step\<^sup>*\<^sup>* lock_init (move ''a'' Holding (put_row ''a'' lock_init))"
    by (intro r_into_rtranclp) (simp add: calm_step_def calm_def lock_init_def)
  from lock_excludes_without_steal [OF this, of "''a''"] show ?thesis by simp
qed



end
