(* ===== verification/Decimal.thy ===== *)
theory Decimal
  imports Resource
begin

text \<open>
  \<open>kernel/src/decimal.rs\<close>: exact decimals for money, a mantissa in \<open>i128\<close> and a scale in \<open>u32\<close>. The
  mantissa is an \<open>int\<close> with the type's bounds written out: \<open>checked_*\<close> is \<open>checked_i128\<close>,
  \<open>saturating_*\<close> is \<open>sat_i128\<close>, and the plain operators wrap (\<open>wrap_i128\<close>), as they do in a release
  build. The rounding contract of a mode is the locale \<open>rounding_mode\<close>.
\<close>

section \<open>Machine integers\<close>

definition i128_max :: int where "i128_max = 2 ^ 127 - 1"
definition i128_min :: int where "i128_min = - (2 ^ 127)"
definition u128_max :: nat where "u128_max = 2 ^ 128 - 1"

definition in_i128 :: "int \<Rightarrow> bool" where
  "in_i128 x = (i128_min \<le> x \<and> x \<le> i128_max)"

definition sat_i128 :: "int \<Rightarrow> int" where
  "sat_i128 x = max i128_min (min i128_max x)"

definition wrap_i128 :: "int \<Rightarrow> int" where
  "wrap_i128 x = (x + 2 ^ 127) mod 2 ^ 128 - 2 ^ 127"

definition wrap_u32 :: "nat \<Rightarrow> nat" where
  "wrap_u32 n = n mod 2 ^ 32"

lemma i128_bounds: "i128_max = 170141183460469231731687303715884105727"
  "i128_min = - 170141183460469231731687303715884105728"
  "u128_max = 340282366920938463463374607431768211455"
  by (simp_all add: i128_max_def i128_min_def u128_max_def)

lemma sat_i128_in [simp]: "in_i128 (sat_i128 x)"
  by (simp add: in_i128_def sat_i128_def i128_bounds)

lemma sat_i128_id: "in_i128 x \<Longrightarrow> sat_i128 x = x"
  by (simp add: in_i128_def sat_i128_def)

lemma wrap_i128_id: "in_i128 x \<Longrightarrow> wrap_i128 x = x"
  by (simp add: in_i128_def wrap_i128_def i128_bounds)

lemma wrap_i128_in [simp]: "in_i128 (wrap_i128 x)"
proof -
  have "0 \<le> (x + 2 ^ 127) mod 2 ^ 128" "(x + 2 ^ 127) mod 2 ^ 128 < (2 :: int) ^ 128"
    by (rule pos_mod_sign, simp, rule pos_mod_bound, simp)
  then show ?thesis unfolding in_i128_def wrap_i128_def i128_bounds by simp
qed

section \<open>The type and its operations\<close>

datatype rounding = HalfEven | HalfUp | Down

datatype money_error = Overflow | DivByZero

record decimal =
  de_mantissa :: int
  de_scale :: nat

definition decimal_zero :: decimal where
  "decimal_zero = \<lparr>de_mantissa = 0, de_scale = 0\<rparr>"

definition checked_i128 :: "int \<Rightarrow> money_error + int" where
  "checked_i128 x = (if in_i128 x then Inr x else Inl Overflow)"

definition checked_u128 :: "nat \<Rightarrow> money_error + nat" where
  "checked_u128 n = (if n \<le> u128_max then Inr n else Inl Overflow)"

definition pow10 :: "nat \<Rightarrow> money_error + int" where
  "pow10 n = checked_i128 (10 ^ n)"

text \<open>\<open>digits.parse::<i128>()\<close> of a string of digits.\<close>

definition parse_i128 :: "string \<Rightarrow> int option" where
  "parse_i128 ds = (if ds \<noteq> [] \<and> int (digits_val ds) \<le> i128_max then Some (int (digits_val ds)) else None)"

definition parse_parts :: "bool \<Rightarrow> string \<Rightarrow> string \<Rightarrow> decimal option" where
  "parse_parts neg ip fp =
     (if ip = [] \<or> \<not> list_all is_digit ip then None
      else if fp \<noteq> [] \<and> \<not> list_all is_digit fp then None
      else map_option (\<lambda>m. \<lparr>de_mantissa = (if neg then - m else m), de_scale = wrap_u32 (length fp)\<rparr>)
             (parse_i128 (ip @ fp)))"

definition parse :: "string \<Rightarrow> decimal option" where
  "parse s0 =
     (let s = trim s0 in
      if s = [] then None
      else case (case strip_prefix ''-'' s of Some rest \<Rightarrow> (True, rest) | None \<Rightarrow> (False, s)) of
        (neg, body) \<Rightarrow>
          (case split_char CHR ''.'' body of
             [ip] \<Rightarrow> parse_parts neg ip []
           | [ip, fp] \<Rightarrow> parse_parts neg ip fp
           | _ \<Rightarrow> None))"

definition from_json :: "json option \<Rightarrow> decimal" where
  "from_json v =
     (case v of
        Some (JString s) \<Rightarrow> (case parse s of Some d \<Rightarrow> d | None \<Rightarrow> decimal_zero)
      | Some (JInt n) \<Rightarrow> (case parse (int_str n) of Some d \<Rightarrow> d | None \<Rightarrow> decimal_zero)
      | Some (JFloat s) \<Rightarrow> (case parse s of Some d \<Rightarrow> d | None \<Rightarrow> decimal_zero)
      | _ \<Rightarrow> decimal_zero)"

definition rescaled :: "decimal \<Rightarrow> nat \<Rightarrow> decimal" where
  "rescaled d scale =
     (if scale \<le> de_scale d then d
      else let factor = wrap_i128 (10 ^ (scale - de_scale d))
           in \<lparr>de_mantissa = sat_i128 (de_mantissa d * factor), de_scale = scale\<rparr>)"

definition add :: "decimal \<Rightarrow> decimal \<Rightarrow> decimal" where
  "add a b =
     (let scale = max (de_scale a) (de_scale b)
      in \<lparr>de_mantissa = sat_i128 (de_mantissa (rescaled a scale) + de_mantissa (rescaled b scale)),
          de_scale = scale\<rparr>)"

definition neg :: "decimal \<Rightarrow> decimal" where
  "neg a = \<lparr>de_mantissa = wrap_i128 (- de_mantissa a), de_scale = de_scale a\<rparr>"

definition mul :: "decimal \<Rightarrow> decimal \<Rightarrow> money_error + decimal" where
  "mul a b =
     (case checked_i128 (de_mantissa a * de_mantissa b) of
        Inl e \<Rightarrow> Inl e
      | Inr m \<Rightarrow> Inr \<lparr>de_mantissa = m, de_scale = wrap_u32 (de_scale a + de_scale b)\<rparr>)"

definition apply_rounding :: "nat \<Rightarrow> nat \<Rightarrow> nat \<Rightarrow> rounding \<Rightarrow> money_error + nat" where
  "apply_rounding q r unit mode =
     (if r = 0 then Inr q
      else if mode = Down then Inr q
      else case checked_u128 (r * 2) of
        Inl e \<Rightarrow> Inl e
      | Inr twice \<Rightarrow>
          (let round_up = (if twice < unit then False
                           else if unit < twice then True
                           else case mode of HalfUp \<Rightarrow> True | HalfEven \<Rightarrow> q mod 2 = 1 | Down \<Rightarrow> False)
           in if round_up then checked_u128 (q + 1) else Inr q))"

definition signed_i128 :: "bool \<Rightarrow> int \<Rightarrow> int" where
  "signed_i128 opp m = (if opp then wrap_i128 (- m) else m)"

text \<open>The numerator and denominator of a division at the target scale.\<close>

definition div_operands :: "decimal \<Rightarrow> decimal \<Rightarrow> nat \<Rightarrow> money_error + int \<times> int" where
  "div_operands a divisor scale =
     (let p = int scale + int (de_scale divisor) - int (de_scale a) in
      if 0 \<le> p
      then (case pow10 (wrap_u32 (nat p)) of
              Inl e \<Rightarrow> Inl e
            | Inr factor \<Rightarrow>
                (case checked_i128 (de_mantissa a * factor) of
                   Inl e \<Rightarrow> Inl e | Inr num \<Rightarrow> Inr (num, de_mantissa divisor)))
      else (case pow10 (wrap_u32 (nat (- p))) of
              Inl e \<Rightarrow> Inl e
            | Inr factor \<Rightarrow>
                (case checked_i128 (de_mantissa divisor * factor) of
                   Inl e \<Rightarrow> Inl e | Inr den \<Rightarrow> Inr (de_mantissa a, den))))"

definition div_round :: "decimal \<Rightarrow> decimal \<Rightarrow> nat \<Rightarrow> rounding \<Rightarrow> money_error + decimal" where
  "div_round a divisor scale mode =
     (if de_mantissa divisor = 0 then Inl DivByZero
      else case div_operands a divisor scale of
        Inl e \<Rightarrow> Inl e
      | Inr (num, den) \<Rightarrow>
          (let opp = ((num < 0) \<noteq> (den < 0)); n = nat \<bar>num\<bar>; d = nat \<bar>den\<bar> in
           case apply_rounding (n div d) (n mod d) d mode of
             Inl e \<Rightarrow> Inl e
           | Inr m \<Rightarrow>
               (if int m \<le> i128_max
                then Inr \<lparr>de_mantissa = signed_i128 opp (int m), de_scale = scale\<rparr>
                else Inl Overflow)))"

definition round_to :: "decimal \<Rightarrow> nat \<Rightarrow> rounding \<Rightarrow> decimal" where
  "round_to a target mode =
     (if de_scale a \<le> target then rescaled a target
      else case pow10 (de_scale a - target) of
        Inl _ \<Rightarrow> a
      | Inr factor \<Rightarrow>
          (let n = nat \<bar>de_mantissa a\<bar>; f = nat \<bar>factor\<bar>; q = n div f; r = n mod f;
               m = (case apply_rounding q r f mode of Inr m \<Rightarrow> m | Inl _ \<Rightarrow> q);
               mant = (if int m \<le> i128_max then int m else i128_max)
           in \<lparr>de_mantissa = signed_i128 (de_mantissa a < 0) mant, de_scale = target\<rparr>))"

definition is_zero :: "decimal \<Rightarrow> bool" where
  "is_zero a = (de_mantissa a = 0)"

definition plain_body :: "nat \<Rightarrow> string \<Rightarrow> string" where
  "plain_body s digits =
     (if s = 0 then digits
      else if s < length digits
        then take (length digits - s) digits @ ''.'' @ drop (length digits - s) digits
      else ''0.'' @ replicate (s - length digits) CHR ''0'' @ digits)"

definition to_plain_string :: "decimal \<Rightarrow> string" where
  "to_plain_string a =
     (let body = plain_body (de_scale a) (nat_str (nat \<bar>de_mantissa a\<bar>))
      in if de_mantissa a < 0 then ''-'' @ body else body)"

datatype ordering = Less | Equal | Greater

definition int_cmp :: "int \<Rightarrow> int \<Rightarrow> ordering" where
  "int_cmp x y = (if x < y then Less else if x = y then Equal else Greater)"

definition cmp :: "decimal \<Rightarrow> decimal \<Rightarrow> ordering" where
  "cmp a b =
     (let scale = max (de_scale a) (de_scale b)
      in int_cmp (de_mantissa (rescaled a scale)) (de_mantissa (rescaled b scale)))"

definition partial_cmp :: "decimal \<Rightarrow> decimal \<Rightarrow> ordering option" where
  "partial_cmp a b = Some (cmp a b)"

definition eq :: "decimal \<Rightarrow> decimal \<Rightarrow> bool" where
  "eq a b = (cmp a b = Equal)"

section \<open>Values\<close>

text \<open>A representable decimal, and the number it stands for.\<close>

definition wf_decimal :: "decimal \<Rightarrow> bool" where
  "wf_decimal d = (in_i128 (de_mantissa d) \<and> de_scale d < 2 ^ 32)"

definition val :: "decimal \<Rightarrow> rat" where
  "val d = of_int (de_mantissa d) / 10 ^ de_scale d"

lemma val_simps [simp]: "val \<lparr>de_mantissa = m, de_scale = s\<rparr> = of_int m / 10 ^ s"
  by (simp add: val_def)

text \<open>Widening is exact when the wider mantissa fits; the factor then fits too.\<close>

definition fits_at :: "decimal \<Rightarrow> nat \<Rightarrow> bool" where
  "fits_at d scale = (scale - de_scale d \<le> 38 \<and> in_i128 (de_mantissa d * 10 ^ (scale - de_scale d)))"

lemma pow10_le_38: "k \<le> 38 \<Longrightarrow> in_i128 (10 ^ k)"
proof -
  assume "k \<le> 38"
  then have "(10 :: int) ^ k \<le> 10 ^ 38" by (intro power_increasing) simp_all
  also have "\<dots> \<le> i128_max" by (simp add: i128_bounds)
  finally have "(10 :: int) ^ k \<le> i128_max" .
  moreover have "i128_min \<le> (10 :: int) ^ k" by (rule order_trans [of _ 0]) (simp_all add: i128_bounds)
  ultimately show ?thesis by (simp add: in_i128_def)
qed

lemma pow10_iff: "pow10 k = (if k \<le> 38 then Inr (10 ^ k) else Inl Overflow)"
proof (cases "k \<le> 38")
  case True
  then show ?thesis using pow10_le_38 by (simp add: pow10_def checked_i128_def)
next
  case False
  then have "(10 :: int) ^ 39 \<le> 10 ^ k" by (intro power_increasing) simp_all
  then have "i128_max < (10 :: int) ^ k" by (simp add: i128_bounds)
  with False show ?thesis by (simp add: pow10_def checked_i128_def in_i128_def)
qed

lemma rescaled_fits:
  assumes "fits_at d scale" and "de_scale d \<le> scale"
  shows "rescaled d scale = \<lparr>de_mantissa = de_mantissa d * 10 ^ (scale - de_scale d), de_scale = scale\<rparr>"
proof (cases "scale = de_scale d")
  case True
  then show ?thesis by (simp add: rescaled_def)
next
  case False
  then show ?thesis using assms
    by (simp add: rescaled_def fits_at_def wrap_i128_id [OF pow10_le_38] sat_i128_id)
qed

lemma rescaled_val: "fits_at d scale \<Longrightarrow> de_scale d \<le> scale \<Longrightarrow> val (rescaled d scale) = val d"
  by (simp add: rescaled_fits val_def field_simps flip: power_add)

end
