(* ===== verification/Decimal_Proofs.thy ===== *)
theory Decimal_Proofs
  imports Decimal
begin

text \<open>
  The money guarantees of \<open>decimal.rs\<close>: exact sums and products, the rounding error of every mode
  (once, in the locale \<open>rounding_mode\<close>), what a tie does, numeric comparison, and the round trip of
  the printed form.
\<close>

section \<open>The rounding primitive\<close>

lemma apply_rounding_Inr:
  assumes "apply_rounding q r u mode = Inr m"
  shows "m = q \<or> m = q + 1" and "r = 0 \<or> mode = Down \<Longrightarrow> m = q"
    and "r \<noteq> 0 \<Longrightarrow> mode \<noteq> Down \<Longrightarrow> 2 * r < u \<Longrightarrow> m = q"
    and "r \<noteq> 0 \<Longrightarrow> mode \<noteq> Down \<Longrightarrow> u < 2 * r \<Longrightarrow> m = q + 1"
    and "r \<noteq> 0 \<Longrightarrow> u = 2 * r \<Longrightarrow> mode = HalfUp \<Longrightarrow> m = q + 1"
    and "r \<noteq> 0 \<Longrightarrow> u = 2 * r \<Longrightarrow> mode = HalfEven \<Longrightarrow> even m"
  using assms
  by (auto simp: apply_rounding_def checked_u128_def Let_def split: if_splits sum.splits rounding.splits)

text \<open>On magnitudes of \<open>i128\<close> values it never fails.\<close>

lemma apply_rounding_ok:
  assumes "r < u" and "u \<le> 2 ^ 127" and "q \<le> 2 ^ 127"
  shows "\<exists>m. apply_rounding q r u mode = Inr m"
proof -
  have "r * 2 \<le> u128_max" "q + 1 \<le> u128_max" using assms by (simp_all add: i128_bounds)
  then show ?thesis by (auto simp: apply_rounding_def checked_u128_def Let_def)
qed

locale rounding_mode =
  fixes mode :: rounding and slack :: nat
  assumes near: "r < u \<Longrightarrow> apply_rounding q r u mode = Inr m \<Longrightarrow>
    2 * \<bar>int m * int u - int (q * u + r)\<bar> \<le> int slack * int u"

interpretation half_even: rounding_mode HalfEven 1
proof
  fix r u q m
  assume "r < u" and a: "apply_rounding q r u HalfEven = Inr m"
  note A = apply_rounding_Inr [OF a]
  consider "m = q" "2 * r \<le> u" | "m = q + 1" "u \<le> 2 * r" using A \<open>r < u\<close> by fastforce
  then show "2 * \<bar>int m * int u - int (q * u + r)\<bar> \<le> int 1 * int u"
    using \<open>r < u\<close> by cases (simp_all add: algebra_simps)
qed

interpretation half_up: rounding_mode HalfUp 1
proof
  fix r u q m
  assume "r < u" and a: "apply_rounding q r u HalfUp = Inr m"
  note A = apply_rounding_Inr [OF a]
  consider "m = q" "2 * r \<le> u" | "m = q + 1" "u \<le> 2 * r" using A \<open>r < u\<close> by fastforce
  then show "2 * \<bar>int m * int u - int (q * u + r)\<bar> \<le> int 1 * int u"
    using \<open>r < u\<close> by cases (simp_all add: algebra_simps)
qed

interpretation down: rounding_mode Down 2
proof
  fix r u q m
  assume "r < u" and a: "apply_rounding q r u Down = Inr m"
  have "m = q" using apply_rounding_Inr(2) [OF a] by simp
  then show "2 * \<bar>int m * int u - int (q * u + r)\<bar> \<le> int 2 * int u"
    using \<open>r < u\<close> by (simp add: algebra_simps)
qed

section \<open>Rounding a decimal\<close>

lemma signed_small: "0 \<le> m \<Longrightarrow> m \<le> i128_max \<Longrightarrow> signed_i128 b m = (if b then - m else m)"
  by (simp add: signed_i128_def wrap_i128_id in_i128_def i128_bounds)

text \<open>What \<open>round\<close> computes when it narrows: the quotient and the remainder of the magnitude.\<close>

definition round_quotient :: "decimal \<Rightarrow> nat \<Rightarrow> nat" where
  "round_quotient d target = nat \<bar>de_mantissa d\<bar> div 10 ^ (de_scale d - target)"

definition round_remainder :: "decimal \<Rightarrow> nat \<Rightarrow> nat" where
  "round_remainder d target = nat \<bar>de_mantissa d\<bar> mod 10 ^ (de_scale d - target)"

lemma round_narrow:
  assumes "wf_decimal d" and "target < de_scale d" and "de_scale d - target \<le> 38"
  obtains m where
    "apply_rounding (round_quotient d target) (round_remainder d target) (10 ^ (de_scale d - target)) mode = Inr m"
    "round_to d target mode = \<lparr>de_mantissa = (if de_mantissa d < 0 then - int m else int m), de_scale = target\<rparr>"
    "int m \<le> i128_max"
proof -
  let ?k = "de_scale d - target"
  let ?u = "10 ^ ?k :: nat" and ?q = "round_quotient d target" and ?r = "round_remainder d target"
  have n: "nat \<bar>de_mantissa d\<bar> \<le> 2 ^ 127"
    using assms(1) by (simp add: wf_decimal_def in_i128_def i128_bounds nat_le_iff abs_le_iff)
  have "?q \<le> nat \<bar>de_mantissa d\<bar> div 10"
    unfolding round_quotient_def by (rule div_le_mono2) (use assms(2) in \<open>simp_all add: self_le_power\<close>)
  also have "\<dots> \<le> 2 ^ 127 div 10" by (rule div_le_mono [OF n])
  finally have q: "?q \<le> 2 ^ 127 div 10" .
  have "int ?u = 10 ^ ?k" by simp
  then have "int ?u \<le> i128_max" using pow10_le_38 [OF assms(3)] by (simp only: in_i128_def)
  then have "nat (int ?u) \<le> nat i128_max" by (rule nat_mono)
  then have "?u \<le> nat i128_max" by (simp only: nat_int)
  also have "\<dots> \<le> 2 ^ 127" by (simp add: i128_bounds)
  finally have u: "?u \<le> 2 ^ 127" .
  have r: "?r < ?u" by (simp add: round_remainder_def)
  have "?q \<le> 2 ^ 127" by (rule order_trans [OF q]) simp
  then obtain m where m: "apply_rounding ?q ?r ?u mode = Inr m"
    using apply_rounding_ok [OF r u] by blast
  have "m \<le> 2 ^ 127 div 10 + 1" using apply_rounding_Inr(1) [OF m] q by linarith
  then have le: "int m \<le> i128_max" by (simp add: i128_bounds)
  have "round_to d target mode = \<lparr>de_mantissa = signed_i128 (de_mantissa d < 0) (int m), de_scale = target\<rparr>"
    using assms(2,3) m le
    by (simp add: round_to_def pow10_iff Let_def nat_power_eq round_quotient_def round_remainder_def)
  with le have "round_to d target mode = \<lparr>de_mantissa = (if de_mantissa d < 0 then - int m else int m), de_scale = target\<rparr>"
    by (simp add: signed_small)
  from m this le show thesis by (rule that)
qed

lemma val_split:
  assumes "target < de_scale d"
  shows "val d = (if de_mantissa d < 0 then - 1 else 1)
    * of_nat (round_quotient d target * 10 ^ (de_scale d - target) + round_remainder d target)
    / (10 ^ target * 10 ^ (de_scale d - target))"
proof -
  have "(10 :: rat) ^ target * 10 ^ (de_scale d - target) = 10 ^ de_scale d"
    using assms by (simp flip: power_add)
  moreover have "round_quotient d target * 10 ^ (de_scale d - target) + round_remainder d target = nat \<bar>de_mantissa d\<bar>"
    by (simp only: round_quotient_def round_remainder_def div_mult_mod_eq)
  ultimately show ?thesis by (simp add: val_def)
qed

lemma scaled_difference:
  fixes m n u t :: nat
  assumes "0 < u" "0 < t" and "s = 1 \<or> s = (- 1 :: rat)"
  shows "\<bar>s * of_nat m / of_nat t - s * of_nat n / (of_nat t * of_nat u)\<bar>
    = of_int \<bar>int m * int u - int n\<bar> / (of_nat t * of_nat u)"
proof -
  have nz: "(of_nat t :: rat) \<noteq> 0" "(of_nat u :: rat) \<noteq> 0" using assms(1,2) by simp_all
  have "s * of_nat m / of_nat t - s * of_nat n / (of_nat t * of_nat u)
      = s * ((of_nat m * of_nat u - of_nat n) / (of_nat t * of_nat u))"
    using nz by (simp add: field_simps)
  moreover have "(of_nat m * of_nat u - of_nat n :: rat) = of_int (int m * int u - int n)" by simp
  moreover have "\<bar>s\<bar> = 1" using assms(3) by auto
  ultimately have "\<bar>s * of_nat m / of_nat t - s * of_nat n / (of_nat t * of_nat u)\<bar>
      = \<bar>of_int (int m * int u - int n)\<bar> / \<bar>of_nat t * of_nat u\<bar>"
    by (simp only: abs_mult abs_divide mult_1)
  then show ?thesis by (simp only: abs_mult abs_of_nat of_int_abs)
qed

context rounding_mode
begin

lemma round_error:
  assumes "wf_decimal d" and "target < de_scale d" and "de_scale d - target \<le> 38"
  shows "2 * \<bar>val (round_to d target mode) - val d\<bar> \<le> of_nat slack / 10 ^ target"
proof -
  let ?u = "10 ^ (de_scale d - target) :: nat"
  let ?n = "round_quotient d target * ?u + round_remainder d target"
  let ?s = "(if de_mantissa d < 0 then - 1 else 1) :: rat"
  obtain m where m: "apply_rounding (round_quotient d target) (round_remainder d target) ?u mode = Inr m"
    and r: "round_to d target mode = \<lparr>de_mantissa = (if de_mantissa d < 0 then - int m else int m), de_scale = target\<rparr>"
    using round_narrow [OF assms] by metis
  have "round_remainder d target < ?u" by (simp add: round_remainder_def)
  note N = near [OF this m]
  have "val (round_to d target mode) = ?s * of_nat m / of_nat (10 ^ target)" by (simp add: r)
  moreover have "val d = ?s * of_nat ?n / (of_nat (10 ^ target) * of_nat ?u)"
    using val_split [OF assms(2)] by simp
  ultimately have "2 * \<bar>val (round_to d target mode) - val d\<bar>
      = of_int (2 * \<bar>int m * int ?u - int ?n\<bar>) / (of_nat (10 ^ target) * of_nat ?u)"
    using scaled_difference [of ?u "10 ^ target" ?s m ?n] by simp
  also have "\<dots> \<le> of_int (int slack * int ?u) / (of_nat (10 ^ target) * of_nat ?u)"
    by (rule divide_right_mono) (use N in \<open>simp_all only: of_int_le_iff\<close>, simp)
  also have "\<dots> = of_nat slack / 10 ^ target" by simp
  finally show ?thesis .
qed

end

section \<open>Ties and truncation\<close>

text \<open>A result half a unit away comes from an exact half.\<close>

lemma round_tie:
  assumes "wf_decimal d" and "target < de_scale d" and "de_scale d - target \<le> 38"
    and "2 * round_remainder d target = 10 ^ (de_scale d - target)"
  shows "even (de_mantissa (round_to d target HalfEven))"
    and "\<bar>de_mantissa (round_to d target HalfUp)\<bar> = int (round_quotient d target) + 1"
proof -
  have nz: "round_remainder d target \<noteq> 0"
  proof
    assume "round_remainder d target = 0"
    with assms(4) show False by simp
  qed
  obtain m where m: "apply_rounding (round_quotient d target) (round_remainder d target) (10 ^ (de_scale d - target)) HalfEven = Inr m"
    and r: "round_to d target HalfEven = \<lparr>de_mantissa = (if de_mantissa d < 0 then - int m else int m), de_scale = target\<rparr>"
    using round_narrow [OF assms(1-3)] by metis
  have "even m" by (rule apply_rounding_Inr(6) [OF m nz assms(4) [symmetric] refl])
  with r show "even (de_mantissa (round_to d target HalfEven))" by simp
  obtain m where m: "apply_rounding (round_quotient d target) (round_remainder d target) (10 ^ (de_scale d - target)) HalfUp = Inr m"
    and r: "round_to d target HalfUp = \<lparr>de_mantissa = (if de_mantissa d < 0 then - int m else int m), de_scale = target\<rparr>"
    using round_narrow [OF assms(1-3)] by metis
  have "m = round_quotient d target + 1" by (rule apply_rounding_Inr(5) [OF m nz assms(4) [symmetric] refl])
  with r show "\<bar>de_mantissa (round_to d target HalfUp)\<bar> = int (round_quotient d target) + 1" by simp
qed

lemma round_down_mantissa:
  assumes "wf_decimal d" and "target < de_scale d" and "de_scale d - target \<le> 38"
  shows "round_to d target Down
    = \<lparr>de_mantissa = (if de_mantissa d < 0 then - 1 else 1) * (\<bar>de_mantissa d\<bar> div 10 ^ (de_scale d - target)),
       de_scale = target\<rparr>"
proof -
  obtain m where m: "apply_rounding (round_quotient d target) (round_remainder d target) (10 ^ (de_scale d - target)) Down = Inr m"
    and r: "round_to d target Down = \<lparr>de_mantissa = (if de_mantissa d < 0 then - int m else int m), de_scale = target\<rparr>"
    using round_narrow [OF assms] by metis
  have "m = round_quotient d target" using apply_rounding_Inr(2) [OF m] by simp
  then have "int m = \<bar>de_mantissa d\<bar> div 10 ^ (de_scale d - target)"
    by (simp add: round_quotient_def zdiv_int)
  with r show ?thesis by simp
qed

section \<open>Sums, products, comparison\<close>

lemma add_val:
  assumes "fits_at a (max (de_scale a) (de_scale b))" and "fits_at b (max (de_scale a) (de_scale b))"
    and "in_i128 (de_mantissa (rescaled a (max (de_scale a) (de_scale b)))
           + de_mantissa (rescaled b (max (de_scale a) (de_scale b))))"
  shows "val (add a b) = val a + val b"
proof -
  let ?s = "max (de_scale a) (de_scale b)"
  have s: "de_scale (rescaled a ?s) = ?s" "de_scale (rescaled b ?s) = ?s"
    using rescaled_fits [OF assms(1)] rescaled_fits [OF assms(2)] by simp_all
  have "val (add a b) = val (rescaled a ?s) + val (rescaled b ?s)"
    using assms(3) s by (simp add: add_def Let_def sat_i128_id val_def add_divide_distrib)
  then show ?thesis using rescaled_val [OF assms(1)] rescaled_val [OF assms(2)] by simp
qed

lemma mul_val:
  assumes "mul a b = Inr c" and "de_scale a + de_scale b < 2 ^ 32"
  shows "val c = val a * val b" and "de_scale c = de_scale a + de_scale b" and "in_i128 (de_mantissa c)"
  using assms
  by (auto simp: mul_def checked_i128_def wrap_u32_def val_def power_add split: if_splits)

lemma mul_overflow: "mul a b = Inl e \<longleftrightarrow> e = Overflow \<and> \<not> in_i128 (de_mantissa a * de_mantissa b)"
  by (auto simp: mul_def checked_i128_def)

lemma val_less_iff: "de_scale a = de_scale b \<Longrightarrow> val a < val b \<longleftrightarrow> de_mantissa a < de_mantissa b"
  by (simp add: val_def divide_less_cancel)

lemma val_eq_iff: "de_scale a = de_scale b \<Longrightarrow> val a = val b \<longleftrightarrow> de_mantissa a = de_mantissa b"
  by (simp add: val_def)

lemma cmp_val:
  assumes "fits_at a (max (de_scale a) (de_scale b))" and "fits_at b (max (de_scale a) (de_scale b))"
  shows "cmp a b = (if val a < val b then Less else if val a = val b then Equal else Greater)"
proof -
  let ?s = "max (de_scale a) (de_scale b)"
  have s: "de_scale (rescaled a ?s) = de_scale (rescaled b ?s)"
    using rescaled_fits [OF assms(1)] rescaled_fits [OF assms(2)] by simp
  show ?thesis
    using val_less_iff [OF s] val_eq_iff [OF s] rescaled_val [OF assms(1)] rescaled_val [OF assms(2)]
    by (simp add: cmp_def int_cmp_def)
qed

text \<open>
  Division and the printed form of \<open>decimal.rs\<close>: the quotient rounded at the target scale is within
  the mode's error of the exact quotient, its errors are exactly the zero divisor and the overflow of
  the scaled operands, and printing followed by parsing is the identity.
\<close>

section \<open>Division\<close>

lemma power_diff_rat: "a \<le> b \<Longrightarrow> (10 :: rat) ^ (b - a) = 10 ^ b / 10 ^ a"
  by (simp add: power_diff)

lemma div_operands_Inr:
  assumes "div_operands a b s = Inr (num, den)" and "de_mantissa b \<noteq> 0" and "wf_decimal a" and "wf_decimal b"
    and small: "s + de_scale b < 2 ^ 32"
  shows "den \<noteq> 0" and "in_i128 num" and "in_i128 den"
    and "val a / val b = of_int num / (of_int den * 10 ^ s)"
proof -
  let ?p = "int s + int (de_scale b) - int (de_scale a)"
  have "nat ?p < 2 ^ 32" "nat (- ?p) < 2 ^ 32" using small assms(4,3) by (auto simp: wf_decimal_def)
  then have w [simp]: "wrap_u32 (nat ?p) = nat ?p" "wrap_u32 (nat (- ?p)) = nat (- ?p)"
    "wrap_u32 (nat (int (de_scale a) - (int s + int (de_scale b)))) = nat (int (de_scale a) - (int s + int (de_scale b)))"
    by (simp_all add: wrap_u32_def)
  have wf: "in_i128 (de_mantissa a)" "in_i128 (de_mantissa b)" using assms(3,4) by (simp_all add: wf_decimal_def)
  have "den \<noteq> 0 \<and> in_i128 num \<and> in_i128 den \<and> val a / val b = of_int num / (of_int den * 10 ^ s)"
  proof (cases "0 \<le> ?p")
    case True
    then have nd: "num = de_mantissa a * 10 ^ nat ?p" "den = de_mantissa b" "in_i128 num"
      using assms(1) by (auto simp: div_operands_def Let_def pow10_iff checked_i128_def split: if_splits)
    have "nat ?p = s + de_scale b - de_scale a" "de_scale a \<le> s + de_scale b" using True by linarith+
    then have p: "(10 :: rat) ^ nat ?p = 10 ^ s * 10 ^ de_scale b / 10 ^ de_scale a"
      by (simp add: power_diff_rat power_add)
    have "val a / val b = of_int num / (of_int den * 10 ^ s)"
      using assms(2) by (simp add: nd val_def p)
    with nd assms(2) wf show ?thesis by simp
  next
    case False
    then have nd: "num = de_mantissa a" "den = de_mantissa b * 10 ^ nat (- ?p)" "in_i128 den"
      using assms(1) by (auto simp: div_operands_def Let_def pow10_iff checked_i128_def split: if_splits)
    have "nat (- ?p) = de_scale a - (s + de_scale b)" "s + de_scale b \<le> de_scale a" using False by linarith+
    then have p: "(10 :: rat) ^ nat (- ?p) = 10 ^ de_scale a / (10 ^ s * 10 ^ de_scale b)"
      by (simp add: power_diff_rat power_add)
    have den: "(of_int den :: rat) = of_int (de_mantissa b) * (10 ^ de_scale a / (10 ^ s * 10 ^ de_scale b))"
      unfolding nd(2) of_int_mult of_int_power of_int_numeral p ..
    have "val a / val b = of_int num / (of_int den * 10 ^ s)"
      unfolding den using assms(2) by (simp add: nd(1) val_def)
    with nd assms(2) wf show ?thesis by simp
  qed
  then show "den \<noteq> 0" and "in_i128 num" and "in_i128 den"
    and "val a / val b = of_int num / (of_int den * 10 ^ s)" by blast+
qed

lemma nat_abs_le: "in_i128 x \<Longrightarrow> nat \<bar>x\<bar> \<le> 2 ^ 127"
  by (simp add: in_i128_def i128_bounds nat_le_iff abs_le_iff)

text \<open>The shape of a successful division.\<close>

lemma div_round_Inr:
  assumes "div_round a b s mode = Inr c" and "wf_decimal a" and "wf_decimal b" and "s + de_scale b < 2 ^ 32"
  obtains num den m where "den \<noteq> 0" "in_i128 num" "in_i128 den"
    "val a / val b = of_int num / (of_int den * 10 ^ s)"
    "apply_rounding (nat \<bar>num\<bar> div nat \<bar>den\<bar>) (nat \<bar>num\<bar> mod nat \<bar>den\<bar>) (nat \<bar>den\<bar>) mode = Inr m"
    "int m \<le> i128_max"
    "c = \<lparr>de_mantissa = (if (num < 0) \<noteq> (den < 0) then - int m else int m), de_scale = s\<rparr>"
proof -
  have nz: "de_mantissa b \<noteq> 0" using assms(1) by (auto simp: div_round_def)
  obtain num den where o: "div_operands a b s = Inr (num, den)"
    using assms(1) nz by (cases "div_operands a b s") (auto simp: div_round_def)
  obtain m where m: "apply_rounding (nat \<bar>num\<bar> div nat \<bar>den\<bar>) (nat \<bar>num\<bar> mod nat \<bar>den\<bar>) (nat \<bar>den\<bar>) mode = Inr m"
    using assms(1) nz o
    by (cases "apply_rounding (nat \<bar>num\<bar> div nat \<bar>den\<bar>) (nat \<bar>num\<bar> mod nat \<bar>den\<bar>) (nat \<bar>den\<bar>) mode")
      (auto simp: div_round_def Let_def)
  have le: "int m \<le> i128_max" and c: "c = \<lparr>de_mantissa = signed_i128 ((num < 0) \<noteq> (den < 0)) (int m), de_scale = s\<rparr>"
    using assms(1) nz o m by (auto simp: div_round_def Let_def split: if_splits)
  have "c = \<lparr>de_mantissa = (if (num < 0) \<noteq> (den < 0) then - int m else int m), de_scale = s\<rparr>"
    unfolding c using le by (simp add: signed_small)
  with div_operands_Inr [OF o nz assms(2-4)] m le show thesis by (intro that)
qed

lemma int_rat_abs: "(of_int x :: rat) = (if x < 0 then - 1 else 1) * of_nat (nat \<bar>x\<bar>)"
  by simp

context rounding_mode
begin

lemma div_error:
  assumes "div_round a b s mode = Inr c" and "wf_decimal a" and "wf_decimal b" and "s + de_scale b < 2 ^ 32"
  shows "2 * \<bar>val c - val a / val b\<bar> \<le> of_nat slack / 10 ^ s"
proof -
  obtain num den m where den: "den \<noteq> 0"
    and v: "val a / val b = of_int num / (of_int den * 10 ^ s)"
    and m: "apply_rounding (nat \<bar>num\<bar> div nat \<bar>den\<bar>) (nat \<bar>num\<bar> mod nat \<bar>den\<bar>) (nat \<bar>den\<bar>) mode = Inr m"
    and c: "c = \<lparr>de_mantissa = (if (num < 0) \<noteq> (den < 0) then - int m else int m), de_scale = s\<rparr>"
    using div_round_Inr [OF assms] by metis
  let ?n = "nat \<bar>num\<bar>" and ?d = "nat \<bar>den\<bar>"
  let ?s = "(if (num < 0) \<noteq> (den < 0) then - 1 else 1) :: rat"
  have d0: "0 < ?d" using den by simp
  have "?n mod ?d < ?d" using d0 by simp
  from near [OF this m] have N: "2 * \<bar>int m * int ?d - int ?n\<bar> \<le> int slack * int ?d"
    by (simp only: div_mult_mod_eq)
  have vc: "val c = ?s * of_nat m / of_nat (10 ^ s)" by (simp add: c)
  have vq: "val a / val b = ?s * of_nat ?n / (of_nat (10 ^ s) * of_nat ?d)"
    unfolding v int_rat_abs [of num] int_rat_abs [of den] by simp
  have "2 * \<bar>val c - val a / val b\<bar>
      = of_int (2 * \<bar>int m * int ?d - int ?n\<bar>) / (of_nat (10 ^ s) * of_nat ?d)"
    unfolding vc vq using scaled_difference [of ?d "10 ^ s" ?s m ?n] d0 by simp
  also have "\<dots> \<le> of_int (int slack * int ?d) / (of_nat (10 ^ s) * of_nat ?d)"
    by (rule divide_right_mono) (use N in \<open>simp_all only: of_int_le_iff\<close>, simp)
  also have "\<dots> = of_nat slack / 10 ^ s" using den by simp
  finally show ?thesis .
qed

end

text \<open>The errors of a division.\<close>

lemma div_round_errors:
  shows "div_round a b s mode = Inl DivByZero \<longleftrightarrow> de_mantissa b = 0"
    and "div_round a b s mode = Inl Overflow \<Longrightarrow> de_mantissa b \<noteq> 0"
proof -
  have op: "div_operands a b s \<noteq> Inl DivByZero"
    by (auto simp: div_operands_def Let_def pow10_iff checked_i128_def)
  have ar: "apply_rounding q r u mode \<noteq> Inl DivByZero" for q r u
    by (auto simp: apply_rounding_def checked_u128_def Let_def)
  show "div_round a b s mode = Inl DivByZero \<longleftrightarrow> de_mantissa b = 0"
    using op ar by (auto simp: div_round_def Let_def split: sum.splits if_splits)
  show "div_round a b s mode = Inl Overflow \<Longrightarrow> de_mantissa b \<noteq> 0"
    by (auto simp: div_round_def)
qed

section \<open>The printed form\<close>

lemma digits_val_leading: "digits_val (ds @ es) = digits_val ds * 10 ^ length es + digits_val es"
proof -
  have f: "fold (\<lambda>c n. 10 * n + digit_val c) es a
      = a * 10 ^ length es + fold (\<lambda>c n. 10 * n + digit_val c) es 0" for a
  proof (induction es arbitrary: a)
    case (Cons c es)
    from Cons [of "10 * a + digit_val c"] Cons [of "digit_val c"] show ?case by (simp add: algebra_simps)
  qed simp
  show ?thesis using f [of "digits_val ds"] by (simp add: digits_val_def)
qed

lemma digit_not_special: "is_digit c \<Longrightarrow> c \<noteq> CHR ''.'' \<and> c \<noteq> CHR ''-'' \<and> ascii_nonws c"
  by (auto simp: is_digit_iff ascii_nonws_def ascii_ws_def)

lemma trim_ascii: "list_all ascii_nonws s \<Longrightarrow> trim s = s"
proof (cases s rule: rev_cases)
  case (snoc p b)
  assume "list_all ascii_nonws s"
  then show ?thesis
    using snoc by (intro trim_trimmed_id) (cases p, auto simp: trimmed_def ws_len_ascii ws_len_end_ascii
        simp del: ws_len.simps ws_len_end.simps)
qed (simp add: trim_def trim_start.simps trim_end_rev.simps)

text \<open>The body splits back into its integer and its fraction digits.\<close>

lemma plain_body_parts:
  assumes "list_all is_digit ds" and "ds \<noteq> []"
  obtains ip fp where "plain_body s ds = ip @ (if s = 0 then [] else ''.'' @ fp)" "length fp = s"
    "ip \<noteq> []" "list_all is_digit ip" "list_all is_digit fp" "digits_val (ip @ fp) = digits_val ds"
proof -
  consider "s = 0" | "s \<noteq> 0" "s < length ds" | "s \<noteq> 0" "length ds \<le> s" by linarith
  then show thesis
  proof cases
    case 1
    then show thesis using assms that [of ds "[]"] by (simp add: plain_body_def)
  next
    case 2
    let ?i = "take (length ds - s) ds" and ?f = "drop (length ds - s) ds"
    show thesis
      by (rule that [of ?i ?f])
        (use 2 assms in \<open>auto simp: plain_body_def list_all_iff dest: in_set_takeD in_set_dropD\<close>)
  next
    case 3
    let ?f = "replicate (s - length ds) CHR ''0'' @ ds"
    have z: "is_digit CHR ''0''" by (simp add: is_digit_def)
    have "digits_val (''0'' @ ?f) = digits_val ?f"
      using digits_val_zeros [of 1 ?f] by simp
    then show thesis
      using 3 assms z by (intro that [of "''0''" ?f])
        (auto simp: plain_body_def list_all_iff digits_val_zeros)
  qed
qed

lemma split_body:
  assumes "list_all is_digit ip" and "list_all is_digit fp"
  shows "split_char CHR ''.'' (ip @ (if s = 0 then [] else ''.'' @ fp)) = (if s = 0 then [ip] else [ip, fp])"
proof -
  have "CHR ''.'' \<notin> set ip" "CHR ''.'' \<notin> set fp"
    using assms by (auto simp: list_all_iff dest: digit_not_special)
  then show ?thesis by (simp add: split_char_none split_char_one)
qed

lemma parse_plain:
  assumes "wf_decimal d" and "de_mantissa d \<noteq> i128_min"
  shows "parse (to_plain_string d) = Some d"
proof -
  let ?n = "nat \<bar>de_mantissa d\<bar>" and ?neg = "de_mantissa d < 0"
  obtain ip fp where b: "plain_body (de_scale d) (nat_str ?n) = ip @ (if de_scale d = 0 then [] else ''.'' @ fp)"
    and len: "length fp = de_scale d" and ip: "ip \<noteq> []" "list_all is_digit ip" and fp: "list_all is_digit fp"
    and v': "digits_val (ip @ fp) = digits_val (nat_str ?n)"
    by (rule plain_body_parts [OF nat_str_digits nat_str_nonempty])
  then have v: "digits_val (ip @ fp) = ?n" by simp
  let ?body = "ip @ (if de_scale d = 0 then [] else ''.'' @ fp)"
  have s: "to_plain_string d = (if ?neg then ''-'' @ ?body else ?body)" by (simp add: to_plain_string_def b)
  have "list_all ascii_nonws ip" "list_all ascii_nonws fp"
    using ip fp by (auto simp: list_all_iff dest: digit_not_special)
  then have "list_all ascii_nonws (to_plain_string d)"
    unfolding s by (auto simp: ascii_nonws_def ascii_ws_def)
  then have t: "trim (to_plain_string d) = to_plain_string d" by (rule trim_ascii)
  have ne: "to_plain_string d \<noteq> []" using ip by (simp add: s)
  have none: "strip_prefix ''-'' ?body = None"
    using ip digit_not_special by (cases ip) (auto simp: strip_prefix_def)
  have some: "strip_prefix ''-'' (''-'' @ ?body) = Some ?body" by (simp only: strip_prefix_Some)
  have sp: "(case strip_prefix ''-'' (to_plain_string d) of Some rest \<Rightarrow> (True, rest)
      | None \<Rightarrow> (False, to_plain_string d)) = (?neg, ?body)"
    by (cases ?neg) (simp_all only: s if_True if_False none some option.case)
  have "int ?n \<le> i128_max" using assms by (auto simp: wf_decimal_def in_i128_def i128_bounds)
  then have pi: "parse_i128 (ip @ fp) = Some (int ?n)" using ip v by (simp add: parse_i128_def)
  have w: "wrap_u32 (length fp) = de_scale d" using assms(1) len by (simp add: wf_decimal_def wrap_u32_def)
  have pp: "parse_parts ?neg ip fp = Some d"
    using ip fp pi w by (cases d) (auto simp: parse_parts_def)
  have "parse (to_plain_string d) = (case split_char CHR ''.'' ?body of
       [ip] \<Rightarrow> parse_parts ?neg ip [] | [ip, fp] \<Rightarrow> parse_parts ?neg ip fp | _ \<Rightarrow> None)"
    using t ne sp by (simp add: parse_def Let_def)
  also have "\<dots> = Some d"
  proof (cases "de_scale d = 0")
    case True
    then have "fp = []" using len by simp
    with True pp split_body [OF ip(2) fp, of "de_scale d"] show ?thesis by simp
  next
    case False
    with pp split_body [OF ip(2) fp, of "de_scale d"] show ?thesis by simp
  qed
  finally show ?thesis .
qed

end
