(* ===== verification/Props_Money.thy ===== *)
theory Props_Money
  imports Decimal_Proofs
begin

text \<open>
  The properties of exact money arithmetic.
\<close>

definition dec :: "int \<Rightarrow> nat \<Rightarrow> decimal" where
  "dec m s = \<lparr>de_mantissa = m, de_scale = s\<rparr>"

lemma dec_simps [simp]: "de_mantissa (dec m s) = m" "de_scale (dec m s) = s"
  by (simp_all add: dec_def)

lemma wf_dec [simp]: "\<bar>m\<bar> < 2 ^ 100 \<Longrightarrow> s < 2 ^ 32 \<Longrightarrow> wf_decimal (dec m s)"
  by (simp add: wf_decimal_def in_i128_def i128_bounds abs_less_iff)

text \<open>C20: rounding to fewer digits is correct in every mode: half-even and half-up land within half a unit
  of the last place, truncation within a whole unit and never away from zero; an exact half goes to
  the even neighbour under half-even and away from zero under half-up.\<close>

theorem rounding_is_correct:
  assumes "wf_decimal d" and "target < de_scale d" and "de_scale d - target \<le> 38"
  shows "2 * \<bar>val (round_to d target HalfEven) - val d\<bar> \<le> 1 / 10 ^ target
    \<and> 2 * \<bar>val (round_to d target HalfUp) - val d\<bar> \<le> 1 / 10 ^ target
    \<and> \<bar>val (round_to d target Down) - val d\<bar> \<le> 1 / 10 ^ target
    \<and> \<bar>de_mantissa (round_to d target Down)\<bar> = \<bar>de_mantissa d\<bar> div 10 ^ (de_scale d - target)
    \<and> (2 * round_remainder d target = 10 ^ (de_scale d - target) \<longrightarrow>
         even (de_mantissa (round_to d target HalfEven))
         \<and> \<bar>de_mantissa (round_to d target HalfUp)\<bar> = int (round_quotient d target) + 1)"
proof (intro conjI impI)
  show "2 * \<bar>val (round_to d target HalfEven) - val d\<bar> \<le> 1 / 10 ^ target"
    using half_even.round_error [OF assms] by simp
  show "2 * \<bar>val (round_to d target HalfUp) - val d\<bar> \<le> 1 / 10 ^ target"
    using half_up.round_error [OF assms] by simp
  show "\<bar>val (round_to d target Down) - val d\<bar> \<le> 1 / 10 ^ target"
    using down.round_error [OF assms] by simp
  show "\<bar>de_mantissa (round_to d target Down)\<bar> = \<bar>de_mantissa d\<bar> div 10 ^ (de_scale d - target)"
    unfolding round_down_mantissa [OF assms] by (simp add: abs_mult pos_imp_zdiv_nonneg_iff)
  show "even (de_mantissa (round_to d target HalfEven))"
    if "2 * round_remainder d target = 10 ^ (de_scale d - target)" by (rule round_tie(1) [OF assms that])
  show "\<bar>de_mantissa (round_to d target HalfUp)\<bar> = int (round_quotient d target) + 1"
    if "2 * round_remainder d target = 10 ^ (de_scale d - target)" by (rule round_tie(2) [OF assms that])
qed

theorem rounding_is_correct_witness:
  "even (de_mantissa (round_to (dec 2125 3) 2 HalfEven)) \<and> \<bar>de_mantissa (round_to (dec (-2125) 3) 2 HalfUp)\<bar> = 213"
proof -
  have r: "2 * round_remainder (dec 2125 3) 2 = 10 ^ (de_scale (dec 2125 3) - 2)"
    "2 * round_remainder (dec (-2125) 3) 2 = 10 ^ (de_scale (dec (-2125) 3) - 2)"
    by (simp_all add: round_remainder_def)
  have q: "round_quotient (dec (-2125) 3) 2 = 212" by (simp add: round_quotient_def)
  show ?thesis
    using rounding_is_correct [of "dec 2125 3" 2] rounding_is_correct [of "dec (-2125) 3" 2] r q by simp
qed



text \<open>a product never rounds: it is exact at the sum of the scales, or it is the typed overflow error
  exactly when the mantissa does not fit.\<close>

theorem product_is_exact:
  assumes "de_scale a + de_scale b < 2 ^ 32"
  shows "(\<forall>c. mul a b = Inr c \<longrightarrow> val c = val a * val b \<and> de_scale c = de_scale a + de_scale b \<and> in_i128 (de_mantissa c))
    \<and> (\<forall>e. mul a b = Inl e \<longleftrightarrow> e = Overflow \<and> \<not> in_i128 (de_mantissa a * de_mantissa b))"
  using mul_val [OF _ assms] mul_overflow [of a b] by blast

theorem product_is_exact_witness: "val (dec 15625 4) = val (dec 125 2) * val (dec 125 2)"
proof -
  have m: "mul (dec 125 2) (dec 125 2) = Inr (dec 15625 4)" by code_simp
  have s: "de_scale (dec 125 2) + de_scale (dec 125 2) < 2 ^ 32" by simp
  from product_is_exact [OF s] m show ?thesis by blast
qed

text \<open>comparison and sum are numeric: when both operands fit at the wider scale the comparison is that
  of the numbers, whatever the representations, and a sum that fits is exact.\<close>

theorem comparison_and_sum_are_numeric:
  assumes "fits_at a (max (de_scale a) (de_scale b))" and "fits_at b (max (de_scale a) (de_scale b))"
  shows "cmp a b = (if val a < val b then Less else if val a = val b then Equal else Greater)
    \<and> (in_i128 (de_mantissa (rescaled a (max (de_scale a) (de_scale b))) + de_mantissa (rescaled b (max (de_scale a) (de_scale b))))
       \<longrightarrow> val (add a b) = val a + val b)"
  using cmp_val [OF assms] add_val [OF assms] by blast

theorem comparison_and_sum_are_numeric_witness:
  "eq (dec 150 2) (dec 1500 3) \<and> val (add (dec 150 2) (dec 10 3)) = 151 / 100"
proof -
  have f: "fits_at (dec 150 2) 3" "fits_at (dec 1500 3) 3" "fits_at (dec 10 3) 3"
    by (simp_all add: fits_at_def in_i128_def i128_bounds)
  have "cmp (dec 150 2) (dec 1500 3) = Equal"
    using comparison_and_sum_are_numeric [of "dec 150 2" "dec 1500 3"] f by (simp add: val_def)
  moreover have "in_i128 (de_mantissa (rescaled (dec 150 2) 3) + de_mantissa (rescaled (dec 10 3) 3))" by code_simp
  then have "val (add (dec 150 2) (dec 10 3)) = val (dec 150 2) + val (dec 10 3)"
    using comparison_and_sum_are_numeric [of "dec 150 2" "dec 10 3"] f by simp
  ultimately show ?thesis by (simp add: eq_def val_def)
qed

text \<open>outside that range the sum is silently wrong: the largest decimal plus one is itself, with no
  error raised, and the largest mantissa at scale 0 compares as equal to the same mantissa at scale 1,
  a tenth of it, because widening saturates.\<close>

theorem sums_and_comparisons_saturate:
  "add (dec i128_max 0) (dec 1 0) = dec i128_max 0
   \<and> eq (dec i128_max 0) (dec i128_max 1) \<and> val (dec i128_max 0) = 10 * val (dec i128_max 1)"
proof (intro conjI)
  show "add (dec i128_max 0) (dec 1 0) = dec i128_max 0"
    by (simp add: add_def rescaled_def sat_i128_def i128_bounds)
  have r: "rescaled (dec i128_max 0) 1 = dec i128_max 1"
    using wrap_i128_id [OF pow10_le_38, of 1] by (simp add: rescaled_def sat_i128_def i128_bounds)
  show "eq (dec i128_max 0) (dec i128_max 1)"
    unfolding eq_def cmp_def Let_def dec_simps max_0L r by (simp add: rescaled_def int_cmp_def)
  show "val (dec i128_max 0) = 10 * val (dec i128_max 1)" by (simp add: val_def)
qed

text \<open>printing a decimal and parsing the text gives the same mantissa and scale, for every
  representable decimal but those of the most negative mantissa.\<close>

theorem plain_string_roundtrip:
  assumes "wf_decimal d" and "de_mantissa d \<noteq> i128_min"
  shows "parse (to_plain_string d) = Some d"
  by (rule parse_plain [OF assms])

theorem plain_string_roundtrip_witness:
  "parse ''-0.050'' = Some (dec (-50) 3)"
proof -
  have "to_plain_string (dec (-50) 3) = ''-0.050''" by code_simp
  moreover have "parse (to_plain_string (dec (-50) 3)) = Some (dec (-50) 3)"
    by (rule plain_string_roundtrip) (simp_all add: i128_bounds)
  ultimately show ?thesis by simp
qed

end
