(* ===== verification/Contract.thy ===== *)
theory Contract
  imports Resource
begin

text \<open>
  \<open>kernel/src/contract.rs\<close>: the structured values, paths, filters and typed errors that cross the
  kernel's doors, and the vocabulary of hook classes. A finite \<open>f64\<close> is given by the text the
  standard library prints for it.
\<close>

section \<open>Values, paths and filters\<close>

datatype float_val = NotANumber | Infinity bool | Finite string

datatype cvalue =
    VNull
  | VBool bool
  | VInt int
  | VFloat float_val
  | VDecimal string
  | VText string
  | VDatetime string
  | VDuration string
  | VRecordId string
  | VList "cvalue list"
  | VObject "(string \<times> cvalue) list"

datatype edge_direction = Out | In

datatype path_segment = PField string | LinkHop string | Edge edge_direction string

datatype cmp_op = Eq | Ne | Gt | Gte | Lt | Lte | Inside | Contains

definition is_range :: "cmp_op \<Rightarrow> bool" where
  "is_range op = (op \<in> {Gt, Gte, Lt, Lte})"

datatype filter_expr =
    FAnd "filter_expr list"
  | FOr "filter_expr list"
  | FNot filter_expr
  | FCmp "path_segment list" cmp_op cvalue

datatype sort_dir = Asc | Desc

record read_opts =
  op_order_by :: "(path_segment list \<times> sort_dir) option"
  op_limit :: "nat option"
  op_start :: "nat option"

datatype metric = MCount | MSum | MMin | MMax | MAvg

datatype write_op = Create | Update

section \<open>Hook classes\<close>

datatype hook_class = BeforeInsert | Validate | OnSubmit | OnCancel | OnWrite | Scheduled

definition wire :: "hook_class \<Rightarrow> string" where
  "wire c = (case c of
     BeforeInsert \<Rightarrow> ''before_insert'' | Validate \<Rightarrow> ''validate'' | OnSubmit \<Rightarrow> ''on_submit''
   | OnCancel \<Rightarrow> ''on_cancel'' | OnWrite \<Rightarrow> ''on_write'' | Scheduled \<Rightarrow> ''scheduled'')"

definition SUBSCRIBABLE :: "hook_class list" where
  "SUBSCRIBABLE = [BeforeInsert, Validate, OnSubmit, OnCancel]"

definition from_wire :: "string \<Rightarrow> hook_class option" where
  "from_wire s = find (\<lambda>c. wire c = s) SUBSCRIBABLE"

definition may_mutate :: "hook_class \<Rightarrow> bool" where
  "may_mutate c = (c = BeforeInsert \<or> c = Validate)"

lemma from_wire_wire: "from_wire (wire c) = (if c \<in> set SUBSCRIBABLE then Some c else None)"
  by (cases c) (simp_all add: from_wire_def wire_def SUBSCRIBABLE_def)

lemma wire_from_wire: "from_wire s = Some c \<Longrightarrow> wire c = s \<and> c \<in> set SUBSCRIBABLE"
  by (auto simp: from_wire_def find_Some_iff)

section \<open>Errors\<close>

datatype broker_error =
    UnknownDoctype string
  | FieldNotReadable string
  | PathTooDeep nat
  | InvalidValue string
  | FixtureRefused string string string "string list" string
  | DeleteRefused string string
  | HookCycle string string
  | HookDepthExceeded nat
  | HookRejected string string
  | PermissionDenied string
  | IdentityUnresolved
  | TenantThrottled nat
  | WorkflowDenied string string
  | WriteConflictExhausted nat
  | DbError string

end
