(* ===== verification/Surql.thy ===== *)
theory Surql
  imports Contract
begin

text \<open>
  \<open>kernel/src/surql.rs\<close>: compiling structured values, paths and filters to SurrealQL text, the only
  place where the kernel assembles query text.
\<close>

section \<open>Rendering\<close>

definition MAX_PATH_DEPTH :: nat where
  "MAX_PATH_DEPTH = 3"

definition escape_literal :: "string \<Rightarrow> string" where
  "escape_literal s = replace_char (CHR 0x27) [CHR 0x5C, CHR 0x27] (replace_char (CHR 0x5C) [CHR 0x5C, CHR 0x5C] s)"

definition quote_literal :: "string \<Rightarrow> string" where
  "quote_literal s = CHR 0x27 # escape_literal s @ [CHR 0x27]"

definition is_ident :: "string \<Rightarrow> bool" where
  "is_ident s = (s \<noteq> [] \<and> list_all (\<lambda>c. is_alnum c \<or> c = CHR ''_'') s)"

definition decimal_ok :: "string \<Rightarrow> bool" where
  "decimal_ok s =
     (let t = (case strip_prefix ''-'' s of Some r \<Rightarrow> r | None \<Rightarrow> s); parts = split_char CHR ''.'' t
      in (length parts = 1 \<or> length parts = 2) \<and> list_all (\<lambda>p. p \<noteq> [] \<and> list_all is_digit p) parts)"

definition datetime_ok :: "string \<Rightarrow> bool" where
  "datetime_ok s =
     (20 \<le> length s \<and> s ! 4 = CHR ''-'' \<and> s ! 7 = CHR ''-'' \<and> (s ! 10 = CHR ''T'' \<or> s ! 10 = CHR '' '')
      \<and> list_all (\<lambda>c. is_digit c \<or> c \<in> set ''-T:.Z+ '') s)"

definition duration_ok :: "string \<Rightarrow> bool" where
  "duration_ok s = (s \<noteq> [] \<and> list_all (\<lambda>c. is_digit c \<or> c \<in> set ''nsumhdwy'') s)"

definition invalid :: "string \<Rightarrow> broker_error + 'a" where
  "invalid detail = Inl (InvalidValue detail)"

fun render_value :: "cvalue \<Rightarrow> broker_error + string" where
  "render_value VNull = Inr ''NONE''"
| "render_value (VBool b) = Inr (if b then ''true'' else ''false'')"
| "render_value (VInt i) = Inr (int_str i)"
| "render_value (VFloat x) =
     (case x of Finite s \<Rightarrow> Inr (s @ ''f'') | _ \<Rightarrow> invalid ''non-finite float'')"
| "render_value (VDecimal s) =
     (if decimal_ok s then Inr (s @ ''dec'') else invalid ''decimal must be a plain numeric string'')"
| "render_value (VDatetime s) =
     (if datetime_ok s then Inr (''d'' @ quote_literal s) else invalid ''datetime must be RFC3339'')"
| "render_value (VDuration s) = (if duration_ok s then Inr s else invalid ''bad duration'')"
| "render_value (VRecordId s) =
     (case split_once CHR '':'' s of
        None \<Rightarrow> invalid ''record id needs table:key''
      | Some (tb, k) \<Rightarrow>
          (if \<not> is_ident tb \<or> k = [] then invalid ''bad record id''
           else Inr (''type::record('' @ quote_literal s @ '')'')))"
| "render_value (VText s) = Inr (quote_literal s)"
| "render_value (VList items) =
     (case collect_res (map render_value items) of
        Inl e \<Rightarrow> Inl e | Inr parts \<Rightarrow> Inr (''['' @ join '', '' parts @ '']''))"
| "render_value (VObject entries) =
     (case collect_res (map (\<lambda>e. if \<not> is_ident (fst e) then invalid ''object keys must be identifiers''
                               else case render_value (snd e) of
                                 Inl x \<Rightarrow> Inl x | Inr s \<Rightarrow> Inr (fst e @ '': '' @ s)) entries) of
        Inl e \<Rightarrow> Inl e | Inr parts \<Rightarrow> Inr (''{ '' @ join '', '' parts @ '' }''))"

definition render_segment :: "nat \<Rightarrow> path_segment \<Rightarrow> broker_error + string" where
  "render_segment i seg =
     (let plain = (\<lambda>name. if \<not> is_ident name then invalid (''bad field name: '' @ name)
                        else Inr ((if 0 < i then ''.'' else []) @ name))
      in case seg of
           PField name \<Rightarrow> plain name
         | LinkHop name \<Rightarrow> plain name
         | Edge dir ty \<Rightarrow>
             (if \<not> is_ident ty then invalid ''bad edge type''
              else Inr (case dir of Out \<Rightarrow> ''->'' @ ty @ ''->?'' | In \<Rightarrow> ''<-'' @ ty @ ''<-?'')))"

definition render_path :: "path_segment list \<Rightarrow> broker_error + string" where
  "render_path path =
     (if path = [] \<or> MAX_PATH_DEPTH < length path then Inl (PathTooDeep MAX_PATH_DEPTH)
      else case collect_res (map (\<lambda>(i, seg). render_segment i seg) (enumerate 0 path)) of
        Inl e \<Rightarrow> Inl e | Inr parts \<Rightarrow> Inr (concat parts))"

definition op_text :: "cmp_op \<Rightarrow> string" where
  "op_text op = (case op of Eq \<Rightarrow> ''='' | Ne \<Rightarrow> ''!='' | Gt \<Rightarrow> ''>'' | Gte \<Rightarrow> ''>='' | Lt \<Rightarrow> ''<''
     | Lte \<Rightarrow> ''<='' | Inside \<Rightarrow> ''INSIDE'' | Contains \<Rightarrow> ''CONTAINS'')"

definition render_cmp :: "path_segment list \<Rightarrow> cmp_op \<Rightarrow> cvalue \<Rightarrow> broker_error + string" where
  "render_cmp path op v =
     (case render_path path of
        Inl e \<Rightarrow> Inl e
      | Inr p \<Rightarrow> (case render_value v of
          Inl e \<Rightarrow> Inl e | Inr s \<Rightarrow> Inr (p @ '' '' @ op_text op @ '' '' @ s)))"

fun render_filter :: "filter_expr \<Rightarrow> broker_error + string" where
  "render_filter (FAnd fs) =
     (case collect_res (map render_filter fs) of
        Inl e \<Rightarrow> Inl e | Inr parts \<Rightarrow> Inr (''('' @ join '' AND '' parts @ '')''))"
| "render_filter (FOr fs) =
     (case collect_res (map render_filter fs) of
        Inl e \<Rightarrow> Inl e | Inr parts \<Rightarrow> Inr (''('' @ join '' OR '' parts @ '')''))"
| "render_filter (FNot f) =
     (case render_filter f of Inl e \<Rightarrow> Inl e | Inr s \<Rightarrow> Inr (''(!('' @ s @ ''))''))"
| "render_filter (FCmp path op v) = render_cmp path op v"

definition render_live_select :: "string \<Rightarrow> broker_error + string" where
  "render_live_select tb =
     (if \<not> is_ident tb then invalid (''bad table: '' @ tb)
      else Inr (''LIVE SELECT * FROM '' @ tb @ '';''))"

fun filter_has_range :: "filter_expr \<Rightarrow> bool" where
  "filter_has_range (FAnd fs) = list_ex filter_has_range fs"
| "filter_has_range (FOr fs) = list_ex filter_has_range fs"
| "filter_has_range (FNot f) = filter_has_range f"
| "filter_has_range (FCmp path op v) = is_range op"

end
