(* ===== verification/Surql_Proofs.thy ===== *)
theory Surql_Proofs
  imports Surql
begin

text \<open>
  What the compiled text is to the database's lexer. \<open>outside\<close> removes the quoted literals from a
  text; a text is self-contained when, put in front of any other text, it keeps the lexer outside
  literals, leaves only characters that cannot end a statement or open a comment, and closes every
  bracket it opens.
\<close>

section \<open>The lexer's view\<close>

definition prepend :: "string \<Rightarrow> string option \<Rightarrow> string option" where
  "prepend t x = map_option (\<lambda>u. t @ u) x"

lemma prepend_simps [simp]:
  "prepend [] x = x" "prepend t (prepend u x) = prepend (t @ u) x" "prepend t (Some u) = Some (t @ u)"
  by (cases x; simp add: prepend_def)+

fun outside :: "bool \<Rightarrow> string \<Rightarrow> string option" where
  "outside False [] = Some []"
| "outside True [] = None"
| "outside False (c # cs) = (if c = CHR 0x27 then outside True cs else prepend [c] (outside False cs))"
| "outside True (c # cs) =
     (if c = CHR 0x5C then (case cs of [] \<Rightarrow> None | d # ds \<Rightarrow> outside True ds)
      else outside (c \<noteq> CHR 0x27) cs)"

definition code_char :: "char \<Rightarrow> bool" where
  "code_char c = (is_alnum c \<or> c \<in> set ''_.->?<=!()[]{}:, '')"

fun no_comment :: "string \<Rightarrow> bool" where
  "no_comment (a # b # r) = (\<not> (a = CHR ''-'' \<and> b = CHR ''-'') \<and> no_comment (b # r))"
| "no_comment _ = True"

definition code_text :: "string \<Rightarrow> bool" where
  "code_text t = (list_all code_char t \<and> no_comment t \<and> (t = [] \<or> last t \<noteq> CHR ''-''))"

definition bracket :: "char \<Rightarrow> int" where
  "bracket c = (if c \<in> set ''([{'' then 1 else if c \<in> set '')]}'' then - 1 else 0)"

fun depth :: "nat \<Rightarrow> string \<Rightarrow> nat option" where
  "depth n [] = Some n"
| "depth n (c # cs) = (if int n + bracket c < 0 then None else depth (nat (int n + bracket c)) cs)"

definition self_contained :: "string \<Rightarrow> bool" where
  "self_contained s \<longleftrightarrow>
     (\<exists>t. (\<forall>rest. outside False (s @ rest) = prepend t (outside False rest))
        \<and> code_text t \<and> (\<forall>n r. depth n (t @ r) = depth n r))"

section \<open>Composition\<close>

lemma no_comment_append:
  assumes "no_comment a" "no_comment b" "a = [] \<or> last a \<noteq> CHR ''-''"
  shows "no_comment (a @ b)"
  using assms by (induction a rule: no_comment.induct; cases b; auto)

lemma code_text_append: "code_text a \<Longrightarrow> code_text b \<Longrightarrow> code_text (a @ b)"
  unfolding code_text_def using no_comment_append [of a b] by (cases "b = []") auto

lemma self_contained_Nil [simp]: "self_contained []"
  unfolding self_contained_def by (rule exI [of _ "[]"]) (simp add: code_text_def)

lemma self_contained_append [intro]:
  assumes "self_contained a" and "self_contained b"
  shows "self_contained (a @ b)"
proof -
  obtain t where t: "\<forall>rest. outside False (a @ rest) = prepend t (outside False rest)"
    "code_text t" "\<forall>n r. depth n (t @ r) = depth n r"
    using assms(1) unfolding self_contained_def by blast
  obtain u where u: "\<forall>rest. outside False (b @ rest) = prepend u (outside False rest)"
    "code_text u" "\<forall>n r. depth n (u @ r) = depth n r"
    using assms(2) unfolding self_contained_def by blast
  have "outside False ((a @ b) @ rest) = prepend ((t @ u)) (outside False rest)" for rest
    using t(1) u(1) by simp
  with code_text_append [OF t(2) u(2)] t(3) u(3) show ?thesis
    unfolding self_contained_def by (intro exI [of _ "t @ u"]) simp
qed

lemma outside_plain: "CHR 0x27 \<notin> set s \<Longrightarrow> outside False (s @ rest) = prepend s (outside False rest)"
  by (induction s) auto

text \<open>Text without quotes is self-contained when it is code and closes its brackets.\<close>

lemma self_contained_plain:
  assumes "code_text s" and "\<forall>n r. depth n (s @ r) = depth n r"
  shows "self_contained s"
proof -
  have "CHR 0x27 \<notin> set s" using assms(1) by (auto simp: code_text_def list_all_iff code_char_def is_alnum_def is_digit_def)
  then show ?thesis unfolding self_contained_def using assms outside_plain by blast
qed

lemma depth_flat: "list_all (\<lambda>c. bracket c = 0) s \<Longrightarrow> depth n (s @ r) = depth n r"
  by (induction s) auto

lemma depth_mono: "depth n s = Some k \<Longrightarrow> depth (n + m) s = Some (k + m)"
proof (induction s arbitrary: n)
  case (Cons c s)
  then have "\<not> int n + bracket c < 0" by (auto split: if_splits)
  moreover from this have "nat (int (n + m) + bracket c) = nat (int n + bracket c) + m" by simp
  ultimately show ?case using Cons by simp
qed simp

text \<open>An opening bracket, self-contained text, and a closing bracket.\<close>

lemma self_contained_brackets:
  assumes "self_contained s" and "bracket a = 1" and "bracket b = - 1"
    and "code_char a" and "code_char b" and "a \<noteq> CHR 0x27" "b \<noteq> CHR 0x27"
  shows "self_contained (a # s @ [b])"
proof -
  obtain t where t: "\<forall>rest. outside False (s @ rest) = prepend t (outside False rest)"
    "code_text t" "\<forall>n r. depth n (t @ r) = depth n r"
    using assms(1) unfolding self_contained_def by blast
  have nd: "a \<noteq> CHR ''-''" "b \<noteq> CHR ''-''" using assms(2,3) by (auto simp: bracket_def split: if_splits)
  have "outside False ((a # s @ [b]) @ rest) = prepend ((a # t @ [b])) (outside False rest)" for rest
    using t(1) assms(6,7) by simp
  moreover have "code_text (a # t @ [b])"
  proof -
    have "code_text [a]" "code_text [b]" using assms(4,5) nd by (simp_all add: code_text_def)
    from code_text_append [OF this(1) code_text_append [OF t(2) this(2)]] show ?thesis by simp
  qed
  moreover have "depth n ((a # t @ [b]) @ r) = depth n r" for n r
    using assms(2,3) t(3) by simp
  ultimately show ?thesis unfolding self_contained_def by blast
qed

lemma self_contained_join:
  assumes "self_contained sep" and "list_all self_contained xs"
  shows "self_contained (join sep xs)"
  using assms by (induction sep xs rule: join.induct) auto

section \<open>Literals\<close>

lemma outside_escape: "outside True (escape_literal s @ CHR 0x27 # rest) = outside False rest"
  by (induction s) (simp_all add: escape_literal_def)

lemma self_contained_quote [simp]: "self_contained (quote_literal s)"
proof -
  have "outside False (quote_literal s @ rest) = prepend [] (outside False rest)" for rest
    by (simp add: quote_literal_def outside_escape)
  then show ?thesis unfolding self_contained_def by (intro exI [of _ "[]"]) (simp add: code_text_def)
qed

section \<open>Plain text\<close>

definition flat_char :: "char \<Rightarrow> bool" where
  "flat_char c = (code_char c \<and> c \<noteq> CHR ''-'' \<and> bracket c = 0)"

lemma no_comment_no_dash: "CHR ''-'' \<notin> set s \<Longrightarrow> no_comment s"
  by (induction s rule: no_comment.induct) auto

lemma flat_code: "list_all flat_char s \<Longrightarrow> code_text s"
proof -
  assume f: "list_all flat_char s"
  then have "CHR ''-'' \<notin> set s" by (auto simp: list_all_iff flat_char_def)
  then have "no_comment s" "s = [] \<or> last s \<noteq> CHR ''-''"
    using no_comment_no_dash [of s] last_in_set [of s] by metis+
  moreover have "list_all code_char s" using f by (simp add: list_all_iff flat_char_def)
  ultimately show ?thesis by (simp add: code_text_def)
qed

lemma self_contained_flat: "list_all flat_char s \<Longrightarrow> self_contained s"
  by (rule self_contained_plain [OF flat_code]) (simp_all add: list_all_iff flat_char_def depth_flat)

text \<open>A minus sign in front of flat text, or the arrow of an edge.\<close>

lemma self_contained_minus:
  assumes "list_all flat_char s" and "s \<noteq> []"
  shows "self_contained (CHR ''-'' # s)"
proof (rule self_contained_plain)
  have d: "code_char CHR ''-''" by code_simp
  obtain c r where s: "s = c # r" using assms(2) by (cases s) auto
  then have "c \<noteq> CHR ''-''" using assms(1) by (simp add: flat_char_def)
  with flat_code [OF assms(1)] show "code_text (CHR ''-'' # s)"
    unfolding code_text_def s using d by simp
  have "list_all (\<lambda>c. bracket c = 0) (CHR ''-'' # s)"
    using assms(1) by (simp add: list_all_iff flat_char_def) (simp add: bracket_def)
  then show "\<forall>n r. depth n ((CHR ''-'' # s) @ r) = depth n r" using depth_flat by blast
qed

lemma is_alnum_flat: "is_alnum c \<Longrightarrow> flat_char c"
  by (rule all_chars [of "\<lambda>c. is_alnum c \<longrightarrow> flat_char c", THEN mp]) code_simp

lemma is_digit_flat: "is_digit c \<Longrightarrow> flat_char c"
  by (rule is_alnum_flat) (simp add: is_alnum_def)

lemma flat_underscore: "flat_char CHR ''_''"
  by code_simp

lemma is_ident_flat: "is_ident s \<Longrightarrow> list_all flat_char s"
  unfolding is_ident_def by (elim conjE list.pred_mono_strong) (metis is_alnum_flat flat_underscore)

lemma self_contained_ident: "is_ident s \<Longrightarrow> self_contained s"
  by (rule self_contained_flat) (rule is_ident_flat)

lemma self_contained_int: "self_contained (int_str i)"
proof -
  have "list_all flat_char (nat_str n)" for n
    using nat_str_digits [of n] is_digit_flat by (auto simp: list_all_iff)
  then show ?thesis using self_contained_flat self_contained_minus by (simp add: int_str_def)
qed

lemma split_char_flat:
  "list_all (list_all flat_char) (split_char CHR ''.'' s) \<Longrightarrow> list_all flat_char s"
proof (induction s)
  case (Cons x xs)
  then show ?case
    by (cases "x = CHR ''.''"; cases "split_char CHR ''.'' xs")
      (auto simp: flat_char_def code_char_def bracket_def)
qed simp

lemma self_contained_decimal:
  assumes "decimal_ok s"
  shows "self_contained (s @ ''dec'')"
proof -
  define u where "u = (case strip_prefix ''-'' s of Some r \<Rightarrow> r | None \<Rightarrow> s)"
  have "list_all (\<lambda>p. p \<noteq> [] \<and> list_all is_digit p) (split_char CHR ''.'' u)"
    using assms by (simp add: decimal_ok_def Let_def u_def)
  then have "list_all (list_all flat_char) (split_char CHR ''.'' u)"
    using is_digit_flat by (auto simp: list_all_iff)
  then have "list_all flat_char (u @ ''dec'')"
    using split_char_flat [of u] by (simp add: flat_char_def code_char_def bracket_def is_alnum_def)
  moreover have "s = u \<or> s = CHR ''-'' # u"
  proof (cases "strip_prefix ''-'' s")
    case (Some r)
    then have "s = ''-'' @ r" by (simp only: strip_prefix_Some)
    with Some show ?thesis by (simp add: u_def)
  qed (simp add: u_def)
  ultimately show ?thesis using self_contained_flat [of "u @ ''dec''"] self_contained_minus [of "u @ ''dec''"] by auto
qed

lemma self_contained_duration: "duration_ok s \<Longrightarrow> self_contained s"
proof (rule self_contained_flat)
  assume d: "duration_ok s"
  have "flat_char c" if "is_digit c \<or> c \<in> set ''nsumhdwy''" for c
    using that
    by (rule all_chars [of "\<lambda>c. is_digit c \<or> c \<in> set ''nsumhdwy'' \<longrightarrow> flat_char c", THEN mp, rotated]) code_simp
  with d show "list_all flat_char s" unfolding duration_ok_def by (elim conjE list.pred_mono_strong)
qed

section \<open>Values, paths and filters\<close>

lemma collect_res_list_all:
  assumes "collect_res (map f xs) = Inr ys" and "\<And>x y. x \<in> set xs \<Longrightarrow> f x = Inr y \<Longrightarrow> P y"
  shows "list_all P ys"
proof -
  have e: "Inr ` set ys = f ` set xs"
    using assms(1) unfolding collect_res_Inr_iff by (metis set_map)
  have "P y" if "y \<in> set ys" for y
  proof -
    have "Inr y \<in> f ` set xs" unfolding e [symmetric] using that by (rule imageI)
    then obtain x where "x \<in> set xs" "f x = Inr y" by (metis imageE)
    then show ?thesis by (rule assms(2))
  qed
  then show ?thesis by (simp only: list_all_iff) blast
qed

text \<open>
  The text of a finite \<open>f64\<close> is a sign, digits and a point; this is what the standard library's
  \<open>Display\<close> prints.
\<close>

definition float_text :: "string \<Rightarrow> bool" where
  "float_text s = list_all flat_char (case s of [] \<Rightarrow> [] | c # r \<Rightarrow> if c = CHR ''-'' then r else s)"

fun floats_plain :: "cvalue \<Rightarrow> bool" where
  "floats_plain (VFloat (Finite s)) = float_text s"
| "floats_plain (VList vs) = list_all floats_plain vs"
| "floats_plain (VObject es) = list_all (\<lambda>e. floats_plain (snd e)) es"
| "floats_plain v = True"

fun filter_floats :: "filter_expr \<Rightarrow> bool" where
  "filter_floats (FAnd fs) = list_all filter_floats fs"
| "filter_floats (FOr fs) = list_all filter_floats fs"
| "filter_floats (FNot f) = filter_floats f"
| "filter_floats (FCmp path op v) = floats_plain v"

lemma self_contained_float:
  assumes "float_text s"
  shows "self_contained (s @ ''f'')"
proof -
  have f: "flat_char CHR ''f''" by code_simp
  show ?thesis
  proof (cases "\<exists>r. s = CHR ''-'' # r")
    case True
    then obtain r where s: "s = CHR ''-'' # r" by blast
    with assms f have "list_all flat_char (r @ ''f'')" by (simp add: float_text_def)
    from self_contained_minus [OF this] show ?thesis by (simp add: s)
  next
    case False
    then have "list_all flat_char s" using assms by (cases s) (simp_all add: float_text_def)
    with f show ?thesis by (intro self_contained_flat) simp
  qed
qed

lemmas bracket_chars =
  self_contained_brackets [of _ "CHR ''(''" "CHR '')''"]
  self_contained_brackets [of _ "CHR ''[''" "CHR '']''"]
  self_contained_brackets [of _ "CHR ''{''" "CHR ''}''"]

lemma self_contained_paren: "self_contained s \<Longrightarrow> self_contained (''('' @ s @ '')'')"
  using bracket_chars(1) [of s] by (simp add: bracket_def code_char_def)

lemma self_contained_square: "self_contained s \<Longrightarrow> self_contained (''['' @ s @ '']'')"
  using bracket_chars(2) [of s] by (simp add: bracket_def code_char_def)

lemma self_contained_curly: "self_contained s \<Longrightarrow> self_contained (''{ '' @ s @ '' }'')"
proof -
  assume s: "self_contained s"
  have sp: "self_contained '' ''" by (rule self_contained_flat) code_simp
  from bracket_chars(3) [of "'' '' @ s @ '' ''"] self_contained_append [OF sp self_contained_append [OF s sp]]
  show ?thesis by (simp add: bracket_def code_char_def)
qed

lemma self_contained_words:
  "list_all self_contained ['', '', '': '', '' '', '' AND '', '' OR '', ''NONE'', ''true'', ''false'', ''type::record'', ''d'', ''!'', ''.'']"
  by (simp only: list.pred_inject) (intro conjI self_contained_flat TrueI; code_simp)

lemma self_contained_value:
  "render_value v = Inr s \<Longrightarrow> floats_plain v \<Longrightarrow> self_contained s"
proof (induction v arbitrary: s rule: render_value.induct)
  case (4 x)
  then show ?case by (cases x) (auto simp: invalid_def self_contained_float)
next
  case (5 t)
  then show ?case using self_contained_decimal by (auto simp: invalid_def split: if_splits)
next
  case (6 t)
  have "self_contained (''d'' @ quote_literal t)" using self_contained_words by (intro self_contained_append) simp_all
  with 6 show ?case by (auto simp: invalid_def split: if_splits)
next
  case (7 t)
  then show ?case using self_contained_duration by (auto simp: invalid_def split: if_splits)
next
  case (8 t)
  have "self_contained (''type::record'' @ ''('' @ quote_literal t @ '')'')"
    using self_contained_words by (intro self_contained_append self_contained_paren) simp_all
  with 8 show ?case by (auto simp: invalid_def split: if_splits option.splits)
next
  case (10 items)
  then obtain parts where p: "collect_res (map render_value items) = Inr parts"
    and s: "s = ''['' @ join '', '' parts @ '']''"
    by (auto split: sum.splits)
  have "list_all self_contained parts"
    by (rule collect_res_list_all [OF p]) (use 10 in \<open>auto simp: list_all_iff\<close>)
  then show ?case unfolding s using self_contained_words
    by (intro self_contained_square self_contained_join) simp_all
next
  case (11 entries)
  then obtain parts where p: "collect_res (map (\<lambda>e. if \<not> is_ident (fst e) then invalid ''object keys must be identifiers''
        else case render_value (snd e) of Inl x \<Rightarrow> Inl x | Inr s \<Rightarrow> Inr (fst e @ '': '' @ s)) entries) = Inr parts"
    and s: "s = ''{ '' @ join '', '' parts @ '' }''"
    by (auto split: sum.splits)
  have "list_all self_contained parts"
  proof (rule collect_res_list_all [OF p])
    fix e y
    assume e: "e \<in> set entries" and y: "(if \<not> is_ident (fst e) then invalid ''object keys must be identifiers''
      else case render_value (snd e) of Inl x \<Rightarrow> Inl x | Inr s \<Rightarrow> Inr (fst e @ '': '' @ s)) = Inr y"
    then obtain u where u: "is_ident (fst e)" "render_value (snd e) = Inr u" "y = fst e @ '': '' @ u"
      by (auto simp: invalid_def split: if_splits sum.splits)
    have "floats_plain (snd e)" using 11 e by (auto simp: list_all_iff)
    with 11 e u have "self_contained u" by blast
    then show "self_contained y" unfolding u(3) using self_contained_ident [OF u(1)] self_contained_words
      by (intro self_contained_append) simp_all
  qed
  then show ?case unfolding s using self_contained_words
    by (intro self_contained_curly self_contained_join) simp_all
qed (use self_contained_words in \<open>auto simp: self_contained_int split: if_splits\<close>)

lemma self_contained_segment:
  assumes "render_segment i seg = Inr s"
  shows "self_contained s"
proof -
  have arrow: "self_contained (''->'' @ ty @ ''->?'')" "self_contained (''<-'' @ ty @ ''<-?'')" if "is_ident ty" for ty
  proof -
    have g: "list_all flat_char ''>''" "list_all flat_char ''>?''" "list_all flat_char ''<''" "list_all flat_char ''?''"
      by code_simp+
    have m: "list_all flat_char (ty @ ''<'')" "ty @ ''<'' \<noteq> []" using is_ident_flat [OF that] g(3) by simp_all
    have "self_contained ((CHR ''-'' # ''>'') @ ty @ (CHR ''-'' # ''>?''))"
      using g by (intro self_contained_append self_contained_minus self_contained_ident that) simp_all
    then show "self_contained (''->'' @ ty @ ''->?'')" by simp
    have "self_contained (''<'' @ (CHR ''-'' # ty @ ''<'') @ (CHR ''-'' # ''?''))"
      using g m by (intro self_contained_append self_contained_minus self_contained_flat [of "''<''"]) simp_all
    then show "self_contained (''<-'' @ ty @ ''<-?'')" by simp
  qed
  have dot: "self_contained ((if 0 < i then ''.'' else []) @ name)" if "is_ident name" for name
    using self_contained_words self_contained_ident [OF that] self_contained_append [of "''.''" name] by simp
  show ?thesis using assms arrow dot
    by (cases seg) (auto simp: render_segment_def invalid_def Let_def split: if_splits edge_direction.splits)
qed

lemma self_contained_path:
  assumes "render_path p = Inr s"
  shows "self_contained s \<and> p \<noteq> [] \<and> length p \<le> MAX_PATH_DEPTH"
proof -
  obtain parts where c: "collect_res (map (\<lambda>(i, seg). render_segment i seg) (enumerate 0 p)) = Inr parts"
    and s: "s = concat parts" and len: "p \<noteq> []" "length p \<le> MAX_PATH_DEPTH"
    using assms by (auto simp: render_path_def split: if_splits sum.splits)
  have "list_all self_contained parts"
    by (rule collect_res_list_all [OF c]) (auto dest: self_contained_segment)
  then have "self_contained (concat parts)" by (induction parts) (auto intro: self_contained_append)
  with s len show ?thesis by simp
qed

lemma self_contained_op: "self_contained (op_text op)"
  by (cases op; rule self_contained_flat; simp only: op_text_def cmp_op.case; code_simp)

lemma self_contained_filter:
  "render_filter f = Inr s \<Longrightarrow> filter_floats f \<Longrightarrow> self_contained s"
proof (induction f arbitrary: s rule: render_filter.induct)
  case (1 fs)
  then obtain parts where p: "collect_res (map render_filter fs) = Inr parts" and s: "s = ''('' @ join '' AND '' parts @ '')''"
    by (auto split: sum.splits)
  have "list_all self_contained parts"
    by (rule collect_res_list_all [OF p]) (use 1 in \<open>auto simp: list_all_iff\<close>)
  then show ?case unfolding s using self_contained_words
    by (intro self_contained_paren self_contained_join) simp_all
next
  case (2 fs)
  then obtain parts where p: "collect_res (map render_filter fs) = Inr parts" and s: "s = ''('' @ join '' OR '' parts @ '')''"
    by (auto split: sum.splits)
  have "list_all self_contained parts"
    by (rule collect_res_list_all [OF p]) (use 2 in \<open>auto simp: list_all_iff\<close>)
  then show ?case unfolding s using self_contained_words
    by (intro self_contained_paren self_contained_join) simp_all
next
  case (3 f)
  then obtain u where u: "render_filter f = Inr u" "s = ''(!('' @ u @ ''))''" by (auto split: sum.splits)
  with 3 have "self_contained u" by simp
  then have "self_contained (''('' @ (''!'' @ ''('' @ u @ '')'') @ '')'')"
    using self_contained_words by (intro self_contained_paren self_contained_append) simp_all
  then show ?case by (simp add: u)
next
  case (4 path op v)
  then obtain p u where u: "render_path path = Inr p" "render_value v = Inr u" "s = p @ '' '' @ op_text op @ '' '' @ u"
    by (auto simp: render_cmp_def split: sum.splits)
  show ?case unfolding u(3) using self_contained_path [OF u(1)] self_contained_value [OF u(2)] 4(2) self_contained_words
    by (intro self_contained_append self_contained_op) simp_all
qed

end
