(* ===== verification/Workflow.thy ===== *)
theory Workflow
  imports Contract
begin

text \<open>
  \<open>kernel/src/workflow.rs\<close>: the judge of workflow transitions. A transition is judged from the
  document's stored state before anything is written; the same data gives the buttons a role sees
  and the field rules a state imposes.
\<close>

section \<open>Definitions\<close>

definition STATE_FIELD :: string where
  "STATE_FIELD = ''workflow_state''"

record state_def =
  ws_name :: string
  ws_docstatus :: int

record transition_def =
  tr_from :: string
  tr_to :: string
  tr_role :: string
  tr_action :: string

record state_rule =
  rl_state :: string
  rl_field :: string
  rl_read_only :: bool
  rl_required :: bool

record workflow_def =
  wf_name :: string
  wf_doctype :: string
  wf_states :: "state_def list"
  wf_transitions :: "transition_def list"
  wf_state_rules :: "state_rule list"

record judged =
  jd_from :: string
  jd_to :: string
  jd_action :: string
  jd_docstatus :: int

definition initial_state :: "workflow_def \<Rightarrow> string" where
  "initial_state flow = (case wf_states flow of [] \<Rightarrow> ''Draft'' | s # _ \<Rightarrow> ws_name s)"

definition state_named :: "workflow_def \<Rightarrow> string \<Rightarrow> state_def option" where
  "state_named flow name = find (\<lambda>s. ws_name s = name) (wf_states flow)"

definition state_or_initial :: "workflow_def \<Rightarrow> string option \<Rightarrow> string" where
  "state_or_initial flow stored =
     (case stored of Some s \<Rightarrow> (if s \<noteq> [] then s else initial_state flow) | None \<Rightarrow> initial_state flow)"

definition available :: "workflow_def \<Rightarrow> string \<Rightarrow> string \<Rightarrow> transition_def list" where
  "available flow state role = filter (\<lambda>t. tr_from t = state \<and> tr_role t = role) (wf_transitions flow)"

definition denied :: "string \<Rightarrow> string \<Rightarrow> broker_error + 'a" where
  "denied code detail = Inl (WorkflowDenied (''FRUST:E_WORKFLOW:'' @ code) detail)"

definition sq1 :: "string \<Rightarrow> string" where
  "sq1 s = CHR 0x27 # s @ [CHR 0x27]"

definition judge :: "workflow_def \<Rightarrow> string \<Rightarrow> string \<Rightarrow> string \<Rightarrow> broker_error + judged" where
  "judge flow current action role =
     (if state_named flow current = None
        then denied ''UNKNOWN_STATE'' (sq1 current @ '' is not a state of workflow '' @ sq1 (wf_name flow))
      else let by_action = filter (\<lambda>t. tr_action t = action) (wf_transitions flow) in
      if by_action = []
        then denied ''UNKNOWN_ACTION'' (''workflow '' @ sq1 (wf_name flow) @ '' has no action '' @ sq1 action)
      else let from_here = filter (\<lambda>t. tr_from t = current) by_action in
      if from_here = []
        then denied ''WRONG_STATE'' (sq1 action @ '' is not available from '' @ sq1 current)
      else case find (\<lambda>t. tr_role t = role) from_here of
        None \<Rightarrow> denied ''ROLE_DENIED''
          (sq1 action @ '' from '' @ sq1 current @ '' requires role ''
           @ join '' or '' (map tr_role from_here) @ ''; you are '' @ sq1 role)
      | Some t \<Rightarrow> (case state_named flow (tr_to t) of
          None \<Rightarrow> denied ''UNKNOWN_STATE''
            (''transition '' @ sq1 action @ '' targets undeclared state '' @ sq1 (tr_to t))
        | Some to_state \<Rightarrow>
            Inr \<lparr>jd_from = current, jd_to = tr_to t, jd_action = action, jd_docstatus = ws_docstatus to_state\<rparr>))"

definition rule_json :: "state_rule \<Rightarrow> json" where
  "rule_json r = JObject [(''field'', JString STATE_FIELD), (''op'', JString ''eq''),
     (''value'', JString (rl_state r)), (''message'', JString (''Not editable while '' @ rl_state r))]"

definition rule_entries :: "state_rule \<Rightarrow> (string \<times> json) list" where
  "rule_entries r =
     (if rl_read_only r then [(rl_field r, JObject [(''read_only_when'', rule_json r)])] else [])
     @ (if rl_required r then [(rl_field r, JObject [(''required_when'', rule_json r)])] else [])"

definition field_rules :: "workflow_def \<Rightarrow> string option \<Rightarrow> (string \<times> json) list" where
  "field_rules flow state_of_interest =
     concat (map rule_entries (filter (\<lambda>r. case state_of_interest of None \<Rightarrow> True | Some s \<Rightarrow> rl_state r = s)
       (wf_state_rules flow)))"

section \<open>The judgement\<close>

text \<open>A workflow whose transitions go between declared states.\<close>

definition closed_workflow :: "workflow_def \<Rightarrow> bool" where
  "closed_workflow flow = list_all (\<lambda>t. tr_to t \<in> ws_name ` set (wf_states flow)) (wf_transitions flow)"

lemma state_named_None: "state_named flow n = None \<longleftrightarrow> n \<notin> ws_name ` set (wf_states flow)"
  by (auto simp: state_named_def find_None_iff)

lemma state_named_Some: "state_named flow n = Some s \<Longrightarrow> s \<in> set (wf_states flow) \<and> ws_name s = n"
  by (auto simp: state_named_def find_Some_iff)

lemma judge_Inr:
  assumes "judge flow current action role = Inr j"
  obtains t s where "t \<in> set (available flow current role)" "tr_action t = action"
    "state_named flow (tr_to t) = Some s" "state_named flow current \<noteq> None"
    "j = \<lparr>jd_from = current, jd_to = tr_to t, jd_action = action, jd_docstatus = ws_docstatus s\<rparr>"
proof -
  obtain t where st: "state_named flow current \<noteq> None"
    and f: "find (\<lambda>t. tr_role t = role) (filter (\<lambda>t. tr_from t = current) (filter (\<lambda>t. tr_action t = action) (wf_transitions flow))) = Some t"
    using assms by (auto simp: judge_def denied_def Let_def split: if_splits option.splits)
  obtain s where s: "state_named flow (tr_to t) = Some s"
    "j = \<lparr>jd_from = current, jd_to = tr_to t, jd_action = action, jd_docstatus = ws_docstatus s\<rparr>"
    using assms f by (auto simp: judge_def denied_def Let_def split: if_splits option.splits)
  have "t \<in> set (filter (\<lambda>t. tr_from t = current) (filter (\<lambda>t. tr_action t = action) (wf_transitions flow)))" "tr_role t = role"
    using f by (auto simp: find_Some_iff simp del: set_filter)
  then show thesis using that [of t s] st s by (simp add: available_def)
qed

text \<open>A declared transition of the role from the current state is never refused.\<close>

lemma judge_accepts:
  assumes "closed_workflow flow" and "state_named flow current \<noteq> None"
    and "t \<in> set (available flow current role)" and "tr_action t = action"
  shows "\<exists>j. judge flow current action role = Inr j"
proof -
  let ?here = "filter (\<lambda>t. tr_from t = current) (filter (\<lambda>t. tr_action t = action) (wf_transitions flow))"
  have t: "t \<in> set ?here" "tr_role t = role" using assms(3,4) by (auto simp: available_def)
  then obtain u where u: "find (\<lambda>t. tr_role t = role) ?here = Some u"
    by (cases "find (\<lambda>t. tr_role t = role) ?here") (auto simp: find_None_iff)
  then have "u \<in> set ?here" by (auto simp: find_Some_iff simp del: set_filter)
  then have "tr_to u \<in> ws_name ` set (wf_states flow)"
    using assms(1) by (simp add: closed_workflow_def list_all_iff)
  then obtain s where s: "state_named flow (tr_to u) = Some s"
    using state_named_None [of flow "tr_to u"] by (cases "state_named flow (tr_to u)") auto
  have ne: "?here \<noteq> []" "filter (\<lambda>t. tr_action t = action) (wf_transitions flow) \<noteq> []"
    using t by (auto simp: filter_empty_conv)
  obtain c where "state_named flow current = Some c" using assms(2) by blast
  then show ?thesis using ne u s by (simp add: judge_def Let_def)
qed

text \<open>The refusals, each with its cause.\<close>

lemma judge_refusals:
  shows "state_named flow current = None \<Longrightarrow>
      \<exists>d. judge flow current action role = Inl (WorkflowDenied ''FRUST:E_WORKFLOW:UNKNOWN_STATE'' d)"
    and "state_named flow current \<noteq> None \<Longrightarrow> action \<notin> tr_action ` set (wf_transitions flow) \<Longrightarrow>
      \<exists>d. judge flow current action role = Inl (WorkflowDenied ''FRUST:E_WORKFLOW:UNKNOWN_ACTION'' d)"
    and "state_named flow current \<noteq> None \<Longrightarrow> action \<in> tr_action ` set (wf_transitions flow) \<Longrightarrow>
      \<forall>t\<in>set (wf_transitions flow). tr_action t = action \<longrightarrow> tr_from t \<noteq> current \<Longrightarrow>
      \<exists>d. judge flow current action role = Inl (WorkflowDenied ''FRUST:E_WORKFLOW:WRONG_STATE'' d)"
    and "state_named flow current \<noteq> None \<Longrightarrow> t \<in> set (wf_transitions flow) \<Longrightarrow> tr_action t = action \<Longrightarrow>
      tr_from t = current \<Longrightarrow> \<forall>u\<in>set (available flow current role). tr_action u \<noteq> action \<Longrightarrow>
      \<exists>d. judge flow current action role = Inl (WorkflowDenied ''FRUST:E_WORKFLOW:ROLE_DENIED'' d)"
proof -
  show "state_named flow current = None \<Longrightarrow>
      \<exists>d. judge flow current action role = Inl (WorkflowDenied ''FRUST:E_WORKFLOW:UNKNOWN_STATE'' d)"
    by (simp add: judge_def denied_def)
  show "state_named flow current \<noteq> None \<Longrightarrow> action \<notin> tr_action ` set (wf_transitions flow) \<Longrightarrow>
      \<exists>d. judge flow current action role = Inl (WorkflowDenied ''FRUST:E_WORKFLOW:UNKNOWN_ACTION'' d)"
    by (auto simp: judge_def denied_def Let_def filter_empty_conv)
  show "state_named flow current \<noteq> None \<Longrightarrow> action \<in> tr_action ` set (wf_transitions flow) \<Longrightarrow>
      \<forall>t\<in>set (wf_transitions flow). tr_action t = action \<longrightarrow> tr_from t \<noteq> current \<Longrightarrow>
      \<exists>d. judge flow current action role = Inl (WorkflowDenied ''FRUST:E_WORKFLOW:WRONG_STATE'' d)"
    by (auto simp: judge_def denied_def Let_def filter_empty_conv)
next
  assume a: "state_named flow current \<noteq> None" "t \<in> set (wf_transitions flow)" "tr_action t = action"
    "tr_from t = current" "\<forall>u\<in>set (available flow current role). tr_action u \<noteq> action"
  let ?here = "filter (\<lambda>t. tr_from t = current) (filter (\<lambda>t. tr_action t = action) (wf_transitions flow))"
  have "find (\<lambda>t. tr_role t = role) ?here = None"
    using a(5) by (auto simp: find_None_iff available_def)
  moreover have "?here \<noteq> []" "filter (\<lambda>t. tr_action t = action) (wf_transitions flow) \<noteq> []"
    using a(2-4) by (auto simp: filter_empty_conv)
  ultimately show "\<exists>d. judge flow current action role = Inl (WorkflowDenied ''FRUST:E_WORKFLOW:ROLE_DENIED'' d)"
    using a(1) by (simp add: judge_def denied_def Let_def)
qed

end
