(* ===== verification/Fairness.thy ===== *)
theory Fairness
  imports Contract Field
begin

text \<open>
  \<open>kernel/src/fairness.rs\<close>: token buckets at the broker's door and the fair order of a claim round at
  the worker's door. The process-wide \<open>State\<close> and the \<open>ROUND\<close> counter are passed explicitly, and so
  is the clock; an \<open>f64\<close> is a rational or infinite. Metrics are left out.
\<close>

section \<open>Policies and buckets\<close>

datatype quantity = Infinite | Fin rat

definition q_min :: "quantity \<Rightarrow> quantity \<Rightarrow> quantity" where
  "q_min a b = (case a of Infinite \<Rightarrow> b | Fin x \<Rightarrow> (case b of Infinite \<Rightarrow> a | Fin y \<Rightarrow> Fin (min x y)))"

definition q_add :: "quantity \<Rightarrow> rat \<Rightarrow> quantity" where
  "q_add a d = (case a of Infinite \<Rightarrow> Infinite | Fin x \<Rightarrow> Fin (x + d))"

record fair_policy =
  py_verbs_per_sec :: quantity
  py_verb_burst :: quantity
  py_jobs_per_round :: nat

definition usize_max :: nat where
  "usize_max = 2 ^ 64 - 1"

definition policy_default :: fair_policy where
  "policy_default = \<lparr>py_verbs_per_sec = Infinite, py_verb_burst = Infinite, py_jobs_per_round = usize_max\<rparr>"

record bucket =
  bu_tokens :: quantity
  bu_last :: rat
  bu_policy :: fair_policy

definition bucket_new :: "fair_policy \<Rightarrow> rat \<Rightarrow> bucket" where
  "bucket_new p now = \<lparr>bu_tokens = py_verb_burst p, bu_last = now, bu_policy = p\<rparr>"

text \<open>
  Refill by the elapsed time, then spend a token or say how long to wait. A wait divided by a zero
  rate is infinite.
\<close>

definition bucket_take :: "rat \<Rightarrow> bucket \<Rightarrow> (quantity + unit) \<times> bucket" where
  "bucket_take now b =
     (case py_verbs_per_sec (bu_policy b) of
        Infinite \<Rightarrow> (Inr (), b)
      | Fin rate \<Rightarrow>
          (let elapsed = max 0 (now - bu_last b);
               tokens = q_min (q_add (bu_tokens b) (elapsed * rate)) (py_verb_burst (bu_policy b));
               b' = b\<lparr>bu_last := now, bu_tokens := tokens\<rparr>
           in case tokens of
                Infinite \<Rightarrow> (Inr (), b')
              | Fin t \<Rightarrow>
                  (if 1 \<le> t then (Inr (), b'\<lparr>bu_tokens := Fin (t - 1)\<rparr>)
                   else (Inl (if rate = 0 then Infinite else Fin ((1 - t) / rate)), b'))))"

record fair_state =
  fs_buckets :: "string \<rightharpoonup> bucket"
  fs_policies :: "string \<rightharpoonup> fair_policy"

definition fair_state_default :: fair_state where
  "fair_state_default = \<lparr>fs_buckets = Map.empty, fs_policies = Map.empty\<rparr>"

definition set_policy :: "rat \<Rightarrow> string \<Rightarrow> fair_policy \<Rightarrow> fair_state \<Rightarrow> fair_state" where
  "set_policy now tenant p s =
     s\<lparr>fs_policies := (fs_policies s)(tenant \<mapsto> p),
       fs_buckets := (fs_buckets s)(tenant \<mapsto> bucket_new p now)\<rparr>"

definition fair_policy_for :: "string \<Rightarrow> fair_state \<Rightarrow> fair_policy" where
  "fair_policy_for tenant s = (case fs_policies s tenant of None \<Rightarrow> policy_default | Some p \<Rightarrow> p)"

definition fair_clear :: "fair_state \<Rightarrow> fair_state" where
  "fair_clear s = s\<lparr>fs_buckets := Map.empty, fs_policies := Map.empty\<rparr>"

text \<open>\<open>(retry_after * 1000.0).ceil() as u64\<close>, a saturating conversion.\<close>

definition u64_max :: nat where
  "u64_max = 2 ^ 64 - 1"

definition retry_ms :: "quantity \<Rightarrow> nat" where
  "retry_ms q = (case q of Infinite \<Rightarrow> u64_max | Fin x \<Rightarrow> min u64_max (nat \<lceil>x * 1000\<rceil>))"

definition admit_verb :: "rat \<Rightarrow> string \<Rightarrow> fair_state \<Rightarrow> (broker_error + unit) \<times> fair_state" where
  "admit_verb now tenant s =
     (let b = (case fs_buckets s tenant of Some b \<Rightarrow> b | None \<Rightarrow> bucket_new (fair_policy_for tenant s) now);
          r = bucket_take now b;
          s' = s\<lparr>fs_buckets := (fs_buckets s)(tenant \<mapsto> snd r)\<rparr>
      in case fst r of
           Inr u \<Rightarrow> (Inr u, s')
         | Inl wait \<Rightarrow> (Inl (TenantThrottled (retry_ms wait)), s'))"

section \<open>The claim round\<close>

text \<open>The queue grouped by tenant, in the order of each tenant's first job.\<close>

fun group_push :: "string \<Rightarrow> string \<Rightarrow> (string \<times> string list) list \<Rightarrow> (string \<times> string list) list" where
  "group_push job tenant [] = [(tenant, [job])]"
| "group_push job tenant ((t, jobs) # gs) =
     (if t = tenant then (t, jobs @ [job]) # gs else (t, jobs) # group_push job tenant gs)"

definition group_jobs :: "(string \<times> string) list \<Rightarrow> (string \<times> string list) list" where
  "group_jobs queued = fold (\<lambda>(job, tenant). group_push job tenant) queued []"

text \<open>One pass over the tenants: cap, jobs and how many are taken.\<close>

fun fair_pass :: "(nat \<times> string list \<times> nat) list \<Rightarrow> string list \<times> (nat \<times> string list \<times> nat) list" where
  "fair_pass [] = ([], [])"
| "fair_pass ((cap, jobs, taken) # gs) =
     (case fair_pass gs of (out, gs') \<Rightarrow>
        (if taken \<ge> cap then (out, (cap, jobs, taken) # gs')
         else case get jobs taken of
                None \<Rightarrow> (out, (cap, jobs, taken) # gs')
              | Some job \<Rightarrow> (job # out, (cap, jobs, taken + 1) # gs')))"

definition jobs_left :: "(nat \<times> string list \<times> nat) list \<Rightarrow> nat" where
  "jobs_left gs = sum_list (map (\<lambda>(cap, jobs, taken). length jobs - taken) gs)"

lemma fair_pass_decreases:
  "jobs_left (snd (fair_pass gs)) + length (fst (fair_pass gs)) = jobs_left gs"
proof (induction gs rule: fair_pass.induct)
  case (2 cap jobs taken gs)
  then show ?case
    by (auto simp: jobs_left_def get_def split: prod.splits option.splits if_splits)
qed (simp add: jobs_left_def)

text \<open>Passes are made as long as one takes a job.\<close>

function fair_loop :: "(nat \<times> string list \<times> nat) list \<Rightarrow> string list" where
  "fair_loop gs =
     (if fst (fair_pass gs) = [] then []
      else fst (fair_pass gs) @ fair_loop (snd (fair_pass gs)))"
  by auto

termination
proof (relation "measure jobs_left")
  fix gs
  assume "fst (fair_pass gs) \<noteq> []"
  then have "0 < length (fst (fair_pass gs))" by simp
  then have "jobs_left (snd (fair_pass gs)) < jobs_left gs"
    using fair_pass_decreases [of gs] by linarith
  then show "(snd (fair_pass gs), gs) \<in> measure jobs_left" by simp
qed simp

declare fair_loop.simps [simp del]

definition rotate_groups :: "nat \<Rightarrow> (string \<times> string list) list \<Rightarrow> (string \<times> string list) list \<times> nat" where
  "rotate_groups round_no groups =
     (if 1 < length groups
      then (let start = round_no mod length groups
            in (drop start groups @ take start groups, (round_no + 1) mod 2 ^ 64))
      else (groups, round_no))"

definition fair_round :: "fair_state \<Rightarrow> nat \<Rightarrow> (string \<times> string) list \<Rightarrow> string list \<times> nat" where
  "fair_round s round_no queued =
     (let r = rotate_groups round_no (group_jobs queued)
      in (fair_loop (map (\<lambda>(t, jobs). (py_jobs_per_round (fair_policy_for t s), jobs, 0)) (fst r)), snd r))"

end
