(* ===== verification/Fairness_Proofs.thy ===== *)
theory Fairness_Proofs
  imports Fairness "HOL-Library.Multiset"
begin

text \<open>
  The token bucket admits at most the burst plus the rate times the time, and its wait hint is
  honest; the claim round is the round-robin arrangement of the queue.
\<close>

section \<open>Buckets\<close>

text \<open>Every bucket carries the policy in force for its tenant.\<close>

definition fair_inv :: "fair_state \<Rightarrow> bool" where
  "fair_inv s \<longleftrightarrow> (\<forall>t b. fs_buckets s t = Some b \<longrightarrow> bu_policy b = fair_policy_for t s)"

lemma bucket_take_policy [simp]: "bu_policy (snd (bucket_take now b)) = bu_policy b"
  by (auto simp: bucket_take_def Let_def split: quantity.splits)

lemma fair_inv_default: "fair_inv fair_state_default"
  by (simp add: fair_inv_def fair_state_default_def)

lemma fair_inv_set_policy: "fair_inv s \<Longrightarrow> fair_inv (set_policy now tenant p s)"
  by (simp add: fair_inv_def set_policy_def bucket_new_def fair_policy_for_def)

lemma fair_inv_clear: "fair_inv (fair_clear s)"
  by (simp add: fair_inv_def fair_clear_def)

lemma admit_verb_state:
  "snd (admit_verb now tenant s) =
     s\<lparr>fs_buckets := (fs_buckets s)(tenant \<mapsto> snd (bucket_take now
        (case fs_buckets s tenant of Some b \<Rightarrow> b | None \<Rightarrow> bucket_new (fair_policy_for tenant s) now)))\<rparr>"
  by (auto simp: admit_verb_def Let_def split: sum.splits)

lemma admit_verb_policy [simp]: "fair_policy_for t (snd (admit_verb now u s)) = fair_policy_for t s"
  by (simp add: admit_verb_state fair_policy_for_def)

lemma fair_inv_admit: "fair_inv s \<Longrightarrow> fair_inv (snd (admit_verb now tenant s))"
  unfolding fair_inv_def admit_verb_policy
  by (auto simp: admit_verb_state bucket_new_def split: option.splits)

lemma admit_verb_ok:
  "is_ok_res (fst (admit_verb now tenant s)) =
     is_ok_res (fst (bucket_take now (case fs_buckets s tenant of Some b \<Rightarrow> b
        | None \<Rightarrow> bucket_new (fair_policy_for tenant s) now)))"
  by (auto simp: admit_verb_def Let_def split: sum.splits)

text \<open>What one call does to a finite bucket.\<close>

lemma bucket_take_finite:
  assumes "py_verbs_per_sec (bu_policy b) = Fin r" and "py_verb_burst (bu_policy b) = Fin burst"
    and "bu_tokens b = Fin x" and "bu_last b \<le> now" and "0 \<le> r" and "0 \<le> x" and "0 \<le> burst"
  obtains y where "bu_tokens (snd (bucket_take now b)) = Fin y" "bu_last (snd (bucket_take now b)) = now"
    "0 \<le> y" "y + (if is_ok_res (fst (bucket_take now b)) then 1 else 0) \<le> min (x + r * (now - bu_last b)) burst"
proof -
  define t where "t = min (x + (now - bu_last b) * r) burst"
  have t0: "0 \<le> t" using assms(4-7) by (simp add: t_def)
  have e: "max 0 (now - bu_last b) = now - bu_last b" using assms(4) by simp
  show thesis
  proof (cases "1 \<le> t")
    case True
    then have "bucket_take now b = (Inr (), b\<lparr>bu_last := now, bu_tokens := Fin (t - 1)\<rparr>)"
      using assms(1-3) by (simp add: bucket_take_def q_min_def q_add_def e t_def)
    then show thesis using that [of "t - 1"] True by (simp add: t_def mult.commute)
  next
    case False
    then have "bucket_take now b =
        (Inl (if r = 0 then Infinite else Fin ((1 - t) / r)), b\<lparr>bu_last := now, bu_tokens := Fin t\<rparr>)"
      using assms(1-3) by (simp add: bucket_take_def q_min_def q_add_def e t_def Let_def)
    then show thesis using that [of t] t0 by (simp add: t_def mult.commute)
  qed
qed

section \<open>The admission bound\<close>

text \<open>How many of a sequence of timed requests of a tenant are admitted.\<close>

fun admitted :: "string \<Rightarrow> (rat \<times> string) list \<Rightarrow> fair_state \<Rightarrow> nat" where
  "admitted t [] s = 0"
| "admitted t ((now, u) # es) s =
     (if u = t \<and> is_ok_res (fst (admit_verb now u s)) then 1 else 0) + admitted t es (snd (admit_verb now u s))"

lemma admit_other: "u \<noteq> t \<Longrightarrow> fs_buckets (snd (admit_verb now u s)) t = fs_buckets s t"
  by (simp add: admit_verb_state)

lemma admitted_from:
  assumes "py_verbs_per_sec (fair_policy_for t s) = Fin r" and "py_verb_burst (fair_policy_for t s) = Fin burst"
    and "0 \<le> r" and "0 \<le> burst" and "fair_inv s" and "fs_buckets s t = Some b" and "bu_tokens b = Fin x" and "0 \<le> x"
    and "sorted (bu_last b # map fst es)" and "\<forall>e\<in>set es. fst e \<le> stop" and "bu_last b \<le> stop"
  shows "of_nat (admitted t es s) \<le> x + r * (stop - bu_last b)"
  using assms
proof (induction es arbitrary: s b x)
  case Nil
  then show ?case by simp
next
  case (Cons e es)
  obtain now u where e: "e = (now, u)" by (cases e)
  let ?s = "snd (admit_verb now u s)"
  have inv: "fair_inv ?s" using Cons.prems(5) by (rule fair_inv_admit)
  show ?case
  proof (cases "u = t")
    case False
    have b: "fs_buckets ?s t = Some b" using admit_other [OF False] Cons.prems(6) by simp
    have so: "sorted (bu_last b # map fst es)" using Cons.prems(9) by (simp add: e)
    show ?thesis using Cons.IH [OF _ _ Cons.prems(3,4) inv b Cons.prems(7,8) so _ Cons.prems(11)] Cons.prems(1,2,10) False
      by (simp add: e)
  next
    case True
    have pol: "bu_policy b = fair_policy_for t s" using Cons.prems(5,6) by (simp add: fair_inv_def)
    have now: "bu_last b \<le> now" "now \<le> stop" using Cons.prems(9,10) by (simp_all add: e)
    obtain y where y: "bu_tokens (snd (bucket_take now b)) = Fin y" "bu_last (snd (bucket_take now b)) = now" "0 \<le> y"
      "y + (if is_ok_res (fst (bucket_take now b)) then 1 else 0) \<le> min (x + r * (now - bu_last b)) burst"
      using bucket_take_finite [of b r burst x now] pol Cons.prems(1-4,7,8) now(1) by auto
    have b: "fs_buckets ?s t = Some (snd (bucket_take now b))"
      using Cons.prems(6) True by (simp add: admit_verb_state)
    have ok: "is_ok_res (fst (admit_verb now u s)) = is_ok_res (fst (bucket_take now b))"
      using Cons.prems(6) True by (simp add: admit_verb_ok)
    have so: "sorted (bu_last (snd (bucket_take now b)) # map fst es)"
      using Cons.prems(9) by (simp add: e y(2))
    have IH: "of_nat (admitted t es ?s) \<le> y + r * (stop - now)"
      using Cons.IH [OF _ _ Cons.prems(3,4) inv b y(1,3) so] Cons.prems(1,2,10) now(2) by (simp add: y(2))
    have "r * (now - bu_last b) + r * (stop - now) = r * (stop - bu_last b)" by (simp add: algebra_simps)
    with IH y(4) True show ?thesis by (simp add: e ok [unfolded True] split: if_splits)
  qed
qed

lemma admission_bound:
  assumes "py_verbs_per_sec (fair_policy_for t s) = Fin r" and "py_verb_burst (fair_policy_for t s) = Fin burst"
    and "0 \<le> r" and "0 \<le> burst" and "fair_inv s"
    and "\<forall>b. fs_buckets s t = Some b \<longrightarrow> (\<exists>x. bu_tokens b = Fin x \<and> 0 \<le> x) \<and> bu_last b \<le> start"
    and "sorted (map fst es)" and "\<forall>e\<in>set es. start \<le> fst e \<and> fst e \<le> stop" and "start \<le> stop"
  shows "of_nat (admitted t es s) \<le> burst + r * (stop - start)"
  using assms
proof (induction es arbitrary: s)
  case Nil
  then show ?case by simp
next
  case (Cons e es)
  obtain now u where e: "e = (now, u)" by (cases e)
  let ?s = "snd (admit_verb now u s)"
  have inv: "fair_inv ?s" using Cons.prems(5) by (rule fair_inv_admit)
  show ?case
  proof (cases "u = t")
    case False
    have b: "\<forall>b. fs_buckets ?s t = Some b \<longrightarrow> (\<exists>x. bu_tokens b = Fin x \<and> 0 \<le> x) \<and> bu_last b \<le> start"
      using admit_other [OF False] Cons.prems(6) by simp
    show ?thesis using Cons.IH [OF _ _ Cons.prems(3,4) inv b] Cons.prems(1,2,7,8,9) False by (simp add: e)
  next
    case True
    define b where "b = (case fs_buckets s t of Some b \<Rightarrow> b | None \<Rightarrow> bucket_new (fair_policy_for t s) now)"
    have now: "start \<le> now" "now \<le> stop" using Cons.prems(8) by (simp_all add: e)
    have pol: "bu_policy b = fair_policy_for t s"
      using Cons.prems(5) by (auto simp: b_def fair_inv_def bucket_new_def split: option.splits)
    obtain x where x: "bu_tokens b = Fin x" "0 \<le> x" "bu_last b \<le> now"
      using Cons.prems(2,4,6) now(1) by (cases "fs_buckets s t") (auto simp: b_def bucket_new_def intro: order_trans)
    obtain y where y: "bu_tokens (snd (bucket_take now b)) = Fin y" "bu_last (snd (bucket_take now b)) = now" "0 \<le> y"
      "y + (if is_ok_res (fst (bucket_take now b)) then 1 else 0) \<le> min (x + r * (now - bu_last b)) burst"
      using bucket_take_finite [of b r burst x now] pol Cons.prems(1-4) x by auto
    have s: "fs_buckets ?s t = Some (snd (bucket_take now b))" using True by (simp add: admit_verb_state b_def)
    have ok: "is_ok_res (fst (admit_verb now u s)) = is_ok_res (fst (bucket_take now b))"
      using True by (simp add: admit_verb_ok b_def)
    have so: "sorted (bu_last (snd (bucket_take now b)) # map fst es)" using Cons.prems(7) by (simp add: e y(2))
    have "of_nat (admitted t es ?s) \<le> y + r * (stop - now)"
      using admitted_from [OF _ _ Cons.prems(3,4) inv s y(1,3) so, of stop] Cons.prems(1,2,8) now(2) by (simp add: y(2))
    moreover have "r * (stop - now) \<le> r * (stop - start)" using Cons.prems(3) now(1) by (intro mult_left_mono) simp_all
    ultimately show ?thesis using y(4) True by (simp add: e ok [unfolded True] split: if_splits)
  qed
qed

section \<open>The wait hint\<close>

lemma retry_ms_honest:
  assumes "retry_ms (Fin w) < u64_max"
  shows "w \<le> of_nat (retry_ms (Fin w)) / 1000"
proof -
  have "retry_ms (Fin w) = nat \<lceil>w * 1000\<rceil>" using assms by (simp add: retry_ms_def min_def split: if_splits)
  moreover have "w * 1000 \<le> of_int \<lceil>w * 1000\<rceil>" by (rule le_of_int_ceiling)
  moreover have "(of_int \<lceil>w * 1000\<rceil> :: rat) \<le> of_nat (nat \<lceil>w * 1000\<rceil>)" by simp
  ultimately have "w * 1000 \<le> of_nat (retry_ms (Fin w))" by linarith
  then show ?thesis by simp
qed

text \<open>A refused tenant that comes back when it was told to is admitted.\<close>

lemma throttled_then_admitted:
  assumes "admit_verb now t s = (Inl (TenantThrottled ms), s')" and "ms < u64_max" and "fair_inv s"
    and "py_verbs_per_sec (fair_policy_for t s) = Fin r" and "0 < r"
    and "\<forall>b. py_verb_burst (fair_policy_for t s) = Fin b \<longrightarrow> 1 \<le> b"
    and "now + of_nat ms / 1000 \<le> later"
  shows "is_ok_res (fst (admit_verb later t s'))"
proof -
  define b where "b = (case fs_buckets s t of Some b \<Rightarrow> b | None \<Rightarrow> bucket_new (fair_policy_for t s) now)"
  have pol: "bu_policy b = fair_policy_for t s"
    using assms(3) by (auto simp: b_def fair_inv_def bucket_new_def split: option.splits)
  obtain wait where w: "fst (bucket_take now b) = Inl wait" "ms = retry_ms wait"
    using assms(1) by (auto simp: admit_verb_def Let_def b_def split: sum.splits)
  obtain x where x: "bucket_take now b = (Inl (Fin ((1 - x) / r)), b\<lparr>bu_last := now, bu_tokens := Fin x\<rparr>)"
    using w(1) assms(4,5) pol
    by (auto simp: bucket_take_def Let_def split: quantity.splits if_splits)
  have b': "fs_buckets s' t = Some (b\<lparr>bu_last := now, bu_tokens := Fin x\<rparr>)"
    using assms(1) x admit_verb_state [of now t s] by (simp add: b_def)
  have "(1 - x) / r \<le> of_nat ms / 1000"
    using retry_ms_honest [of "(1 - x) / r"] w assms(2) x by simp
  then have "(1 - x) / r \<le> later - now" using assms(7) by linarith
  then have "1 - x \<le> (later - now) * r" using pos_divide_le_eq [OF assms(5), of "1 - x" "later - now"] by blast
  then have "1 \<le> x + (later - now) * r" by linarith
  moreover have "0 \<le> (of_nat ms / 1000 :: rat)" by simp
  then have "0 \<le> later - now" using assms(7) by linarith
  then have "max 0 (later - now) = later - now" by (rule max_absorb2)
  ultimately show ?thesis using b' assms(4,6) pol
    by (auto simp: admit_verb_ok bucket_take_def q_add_def q_min_def Let_def split: quantity.splits)
qed

section \<open>The round-robin arrangement\<close>

text \<open>Row \<open>k\<close>: each tenant's \<open>k\<close>-th job, for the tenants that still have one under their cap.\<close>

definition job_row :: "(nat \<times> string list) list \<Rightarrow> nat \<Rightarrow> string list" where
  "job_row gs k = concat (map (\<lambda>(cap, jobs). if k < cap \<and> k < length jobs then [jobs ! k] else []) gs)"

definition advanced :: "nat \<Rightarrow> (nat \<times> string list) list \<Rightarrow> (nat \<times> string list \<times> nat) list" where
  "advanced k gs = map (\<lambda>(cap, jobs). (cap, jobs, min k (min cap (length jobs)))) gs"

lemma fair_pass_row: "fair_pass (advanced k gs) = (job_row gs k, advanced (Suc k) gs)"
proof (induction gs)
  case (Cons g gs)
  obtain cap jobs where g: "g = (cap, jobs)" by (cases g)
  have IH: "fair_pass (advanced k gs) = (job_row gs k, advanced (Suc k) gs)" by (rule Cons)
  show ?case
  proof (cases "k < cap \<and> k < length jobs")
    case True
    then have "min k (min cap (length jobs)) = k" "min (Suc k) (min cap (length jobs)) = Suc k" by auto
    then show ?thesis using IH True by (simp add: advanced_def job_row_def g get_def)
  next
    case False
    then have m: "min k (min cap (length jobs)) = min cap (length jobs)"
      "min (Suc k) (min cap (length jobs)) = min cap (length jobs)" by auto
    have "cap \<le> min cap (length jobs) \<or> get jobs (min cap (length jobs)) = None" by (auto simp: get_def min_def)
    then show ?thesis using IH False m by (auto simp: advanced_def job_row_def g)
  qed
qed (simp add: advanced_def job_row_def)

lemma job_row_Nil_mono: "job_row gs k = [] \<Longrightarrow> k \<le> j \<Longrightarrow> job_row gs j = []"
  by (fastforce simp: job_row_def split: if_splits)

definition longest :: "(nat \<times> string list) list \<Rightarrow> nat" where
  "longest gs = Max (insert 0 (set (map (\<lambda>(cap, jobs). min cap (length jobs)) gs)))"

lemma job_row_Nil_iff: "job_row gs k = [] \<longleftrightarrow> longest gs \<le> k"
proof -
  have "job_row gs k = [] \<longleftrightarrow> (\<forall>(cap, jobs)\<in>set gs. min cap (length jobs) \<le> k)"
    by (fastforce simp: job_row_def split: if_splits)
  also have "\<dots> \<longleftrightarrow> longest gs \<le> k" by (auto simp: longest_def)
  finally show ?thesis .
qed

lemma fair_loop_rows:
  "fair_loop (advanced k gs) = concat (map (job_row gs) [k..<longest gs])"
proof (induction "longest gs - k" arbitrary: k)
  case 0
  then have "job_row gs k = []" by (simp add: job_row_Nil_iff)
  with 0 show ?case by (subst fair_loop.simps) (simp add: fair_pass_row)
next
  case (Suc n)
  then have "k < longest gs" by simp
  then have "job_row gs k \<noteq> []" "[k..<longest gs] = k # [Suc k..<longest gs]"
    by (simp_all add: job_row_Nil_iff upt_conv_Cons)
  with Suc show ?case by (subst fair_loop.simps) (simp add: fair_pass_row)
qed

lemma fair_loop_round_robin:
  "fair_loop (map (\<lambda>(cap, jobs). (cap, jobs, 0)) gs) = concat (map (job_row gs) [0..<longest gs])"
  using fair_loop_rows [of 0 gs] by (simp add: advanced_def)

text \<open>The \<open>k\<close>-th job of a tenant is in the first \<open>k + 1\<close> rows.\<close>

lemma job_row_length: "length (job_row gs k) \<le> length gs"
proof (induction gs)
  case (Cons g gs)
  then show ?case by (cases g) (simp add: job_row_def)
qed (simp add: job_row_def)

lemma rows_length: "length (concat (map (job_row gs) [0..<k])) \<le> k * length gs"
proof (induction k)
  case (Suc k)
  have "length (concat (map (job_row gs) [0..<Suc k])) =
      length (concat (map (job_row gs) [0..<k])) + length (job_row gs k)" by simp
  with Suc job_row_length [of gs k] show ?case by simp
qed simp

lemma kth_job_early:
  assumes "(cap, jobs) \<in> set gs" and "k < cap" and "k < length jobs"
  shows "jobs ! k \<in> set (take (Suc k * length gs) (concat (map (job_row gs) [0..<longest gs])))"
proof -
  have row: "jobs ! k \<in> set (job_row gs k)" using assms by (force simp: job_row_def)
  then have "k < longest gs" using job_row_Nil_iff [of gs k] by fastforce
  then have split: "[0..<longest gs] = [0..<Suc k] @ [Suc k..<longest gs]"
    using upt_add_eq_append [of 0 "Suc k" "longest gs - Suc k"] by simp
  let ?pre = "concat (map (job_row gs) [0..<Suc k])"
  have "jobs ! k \<in> set ?pre" using row by simp
  moreover have "take (Suc k * length gs) (concat (map (job_row gs) [0..<longest gs]))
      = ?pre @ take (Suc k * length gs - length ?pre) (concat (map (job_row gs) [Suc k..<longest gs]))"
    unfolding split map_append concat_append take_append using rows_length [of gs "Suc k"] by simp
  ultimately show ?thesis by (metis UnI1 set_append)
qed

text \<open>Nothing is lost or invented: each tenant contributes its jobs up to its cap.\<close>

lemma mset_rows:
  "mset (concat (map (job_row gs) [0..<n])) = sum_list (map (\<lambda>(cap, jobs). mset (take (min n cap) jobs)) gs)"
proof (induction n)
  case (Suc n)
  have step: "mset (take (min (Suc n) cap) jobs) =
      mset (take (min n cap) jobs) + mset (if n < cap \<and> n < length jobs then [jobs ! n] else [])" for cap and jobs :: "string list"
  proof (cases "n < cap")
    case True
    then have "min (Suc n) cap = Suc n" "min n cap = n" by simp_all
    then show ?thesis using True by (cases "n < length jobs") (simp_all add: take_Suc_conv_app_nth)
  qed simp
  have "sum_list (map (\<lambda>(cap, jobs). mset (take (min (Suc n) cap) jobs)) gs)
      = sum_list (map (\<lambda>(cap, jobs). mset (take (min n cap) jobs)) gs) + mset (job_row gs n)"
    by (induction gs) (auto simp only: step job_row_def list.map sum_list.Cons sum_list.Nil split: prod.splits; simp)+
  with Suc show ?case by simp
qed (induction gs; auto)

section \<open>The round\<close>

definition jobs_of :: "string \<Rightarrow> (string \<times> string) list \<Rightarrow> string list" where
  "jobs_of t queued = map fst (filter (\<lambda>q. snd q = t) queued)"

definition grouped :: "(string \<times> string) list \<Rightarrow> (string \<times> string list) list \<Rightarrow> bool" where
  "grouped queued gs \<longleftrightarrow> distinct (map fst gs) \<and> set (map fst gs) = snd ` set queued
     \<and> (\<forall>(t, jobs)\<in>set gs. jobs = jobs_of t queued)"

lemma group_push_keys:
  "set (map fst (group_push j t gs)) = insert t (set (map fst gs))"
  "distinct (map fst gs) \<Longrightarrow> distinct (map fst (group_push j t gs))"
  by (induction j t gs rule: group_push.induct) auto

lemma group_push_alt:
  "distinct (map fst gs) \<Longrightarrow> group_push j t gs =
     (if t \<in> fst ` set gs then map (\<lambda>(u, ks). (u, if u = t then ks @ [j] else ks)) gs else gs @ [(t, [j])])"
proof (induction j t gs rule: group_push.induct)
  case (2 j t u ks gs)
  have "map (\<lambda>(v, ks). (v, if v = t then ks @ [j] else ks)) gs = gs" if "t \<notin> fst ` set gs"
    using that by (induction gs) auto
  with 2 show ?case by auto
qed simp

lemma group_push_entries:
  assumes "distinct (map fst gs)" and "(u, js) \<in> set (group_push j t gs)"
  shows "u = t \<and> t \<notin> fst ` set gs \<and> js = [j] \<or> u = t \<and> (\<exists>ks. (t, ks) \<in> set gs \<and> js = ks @ [j])
    \<or> u \<noteq> t \<and> (u, js) \<in> set gs"
proof (cases "t \<in> fst ` set gs")
  case True
  then show ?thesis using assms(2) unfolding group_push_alt [OF assms(1)] by (auto split: if_splits)
next
  case False
  then have "(u, js) \<in> set gs \<Longrightarrow> u \<noteq> t" by force
  then show ?thesis using assms(2) False unfolding group_push_alt [OF assms(1)] by auto
qed

lemma group_jobs_grouped: "grouped queued (group_jobs queued)"
proof (induction queued rule: rev_induct)
  case Nil
  then show ?case by (simp add: group_jobs_def grouped_def)
next
  case (snoc q queued)
  obtain j t where q: "q = (j, t)" by (cases q)
  let ?gs = "group_jobs queued"
  have step: "group_jobs (queued @ [q]) = group_push j t ?gs" by (simp add: group_jobs_def q)
  have d: "distinct (map fst ?gs)" and s: "set (map fst ?gs) = snd ` set queued"
    and e: "\<And>u js. (u, js) \<in> set ?gs \<Longrightarrow> js = jobs_of u queued"
    using snoc by (auto simp: grouped_def)
  have new: "jobs_of t (queued @ [q]) = jobs_of t queued @ [j]" "u \<noteq> t \<Longrightarrow> jobs_of u (queued @ [q]) = jobs_of u queued" for u
    by (simp_all add: jobs_of_def q)
  have "js = jobs_of u (queued @ [q])" if "(u, js) \<in> set (group_push j t ?gs)" for u js
    using group_push_entries [OF d that]
  proof (elim disjE conjE exE)
    assume "u = t" "t \<notin> fst ` set ?gs" "js = [j]"
    moreover from this have "t \<notin> snd ` set queued" using s by (metis set_map)
    then have "jobs_of t queued = []" by (force simp: jobs_of_def filter_empty_conv)
    ultimately show ?thesis by (simp add: new)
  qed (use new e in auto)
  then show ?case unfolding grouped_def step
    using group_push_keys(2) [OF d] group_push_keys(1) [of j t ?gs] s by (auto simp: q)
qed

lemma grouped_rotate: "grouped queued gs \<Longrightarrow> grouped queued (fst (rotate_groups n gs))"
proof -
  assume g: "grouped queued gs"
  have "set (drop k gs @ take k gs) = set gs" "distinct (map fst (drop k gs @ take k gs)) = distinct (map fst gs)" for k
  proof -
    have "mset (drop k gs @ take k gs) = mset (take k gs @ drop k gs)" by (simp only: mset_append add.commute)
    then have m: "mset (drop k gs @ take k gs) = mset gs" by simp
    then show "set (drop k gs @ take k gs) = set gs" by (rule mset_eq_setD)
    show "distinct (map fst (drop k gs @ take k gs)) = distinct (map fst gs)"
      using m by (metis mset_eq_imp_distinct_iff mset_map)
  qed
  then show ?thesis using g unfolding grouped_def rotate_groups_def Let_def set_map by simp
qed

abbreviation round_cap :: "fair_state \<Rightarrow> string \<Rightarrow> nat" where
  "round_cap s t \<equiv> py_jobs_per_round (fair_policy_for t s)"

lemma fair_round_rows:
  assumes "fair_round s n queued = (out, n')"
  obtains gs where "grouped queued gs"
    "out = concat (map (job_row (map (\<lambda>(t, jobs). (round_cap s t, jobs)) gs))
             [0..<longest (map (\<lambda>(t, jobs). (round_cap s t, jobs)) gs)])"
proof -
  define gs where "gs = fst (rotate_groups n (group_jobs queued))"
  have g: "grouped queued gs" unfolding gs_def by (rule grouped_rotate [OF group_jobs_grouped])
  have "map (\<lambda>(t, jobs). (round_cap s t, jobs, 0)) gs
      = map (\<lambda>(cap, jobs). (cap, jobs, 0)) (map (\<lambda>(t, jobs). (round_cap s t, jobs)) gs)"
    by (induction gs) auto
  moreover have "out = fair_loop (map (\<lambda>(t, jobs). (round_cap s t, jobs, 0)) gs)"
    using assms by (simp add: fair_round_def Let_def gs_def)
  ultimately show thesis using that [OF g] fair_loop_round_robin by metis
qed

lemma take_longest:
  assumes "(cap, jobs) \<in> set gs"
  shows "take (min (longest gs) cap) jobs = take cap jobs"
proof -
  have "min cap (length jobs) \<le> longest gs" using assms by (force simp: longest_def intro: Max_ge)
  then show ?thesis by (cases "cap \<le> length jobs") (auto simp: min_def)
qed

lemma fair_round_content:
  assumes "fair_round s n queued = (out, n')"
  shows "mset out = (\<Sum>t\<in>snd ` set queued. mset (take (round_cap s t) (jobs_of t queued)))"
proof -
  obtain gs where g: "grouped queued gs"
    and out: "out = concat (map (job_row (map (\<lambda>(t, jobs). (round_cap s t, jobs)) gs))
      [0..<longest (map (\<lambda>(t, jobs). (round_cap s t, jobs)) gs)])" (is "_ = concat (map (job_row ?gs) _)")
    by (rule fair_round_rows [OF assms])
  define hs where "hs = ?gs"
  have "mset out = sum_list (map (\<lambda>(cap, jobs). mset (take (min (longest hs) cap) jobs)) hs)"
    unfolding out mset_rows hs_def ..
  also have "\<dots> = sum_list (map (\<lambda>(cap, jobs). mset (take cap jobs)) hs)"
    by (intro arg_cong [where f = sum_list] map_cong) (auto simp: take_longest)
  finally have "mset out = sum_list (map (\<lambda>(cap, jobs). mset (take cap jobs)) ?gs)" unfolding hs_def .
  also have "\<dots> = sum_list (map (\<lambda>t. mset (take (round_cap s t) (jobs_of t queued))) (map fst gs))"
    unfolding map_map using g
    by (intro arg_cong [where f = sum_list] map_cong) (auto simp: grouped_def)
  also have "\<dots> = (\<Sum>t\<in>set (map fst gs). mset (take (round_cap s t) (jobs_of t queued)))"
    using g by (intro sum_list_distinct_conv_sum_set) (simp add: grouped_def)
  finally show ?thesis using g by (simp only: grouped_def)
qed

lemma fair_round_early:
  assumes "fair_round s n queued = (out, n')" and "t \<in> snd ` set queued"
    and "k < round_cap s t" and "k < length (jobs_of t queued)"
  shows "jobs_of t queued ! k \<in> set (take (Suc k * card (snd ` set queued)) out)"
proof -
  obtain gs where g: "grouped queued gs"
    and out: "out = concat (map (job_row (map (\<lambda>(t, jobs). (round_cap s t, jobs)) gs))
      [0..<longest (map (\<lambda>(t, jobs). (round_cap s t, jobs)) gs)])" (is "_ = concat (map (job_row ?gs) _)")
    by (rule fair_round_rows [OF assms(1)])
  have "t \<in> fst ` set gs" using g assms(2) by (simp add: grouped_def)
  then have "(t, jobs_of t queued) \<in> set gs" using g by (force simp: grouped_def)
  then have i: "(round_cap s t, jobs_of t queued) \<in> set ?gs" by force
  have "card (snd ` set queued) = length ?gs"
    using g distinct_card [of "map fst gs"] by (simp only: grouped_def length_map)
  with kth_job_early [OF i assms(3,4)] show ?thesis unfolding out by simp
qed

end
