(* ===== verification/Props_Kernel.thy ===== *)
theory Props_Kernel
  imports Surql_Proofs Workflow Fairness_Proofs
begin

text \<open>Properties of the kernel's pure parts: the filter compiler, the workflow judge, fairness.\<close>

section \<open>The filter compiler\<close>

text \<open>C22: a compiled filter is one self-contained expression, whatever its values hold: followed by any
  text, the database's lexer is outside literals after it, and the text outside its literals can end
  no statement, opens no comment and closes every bracket it opens.\<close>

theorem compiled_filter_is_self_contained:
  assumes "render_filter f = Inr s" and "filter_floats f"
  shows "\<exists>t. (\<forall>rest. outside False (s @ rest) = prepend t (outside False rest))
    \<and> list_all code_char t \<and> no_comment t \<and> (\<forall>n r. depth n (t @ r) = depth n r)"
  using self_contained_filter [OF assms] unfolding self_contained_def code_text_def by blast

definition hostile_filter :: filter_expr where
  "hostile_filter = FAnd [FCmp [PField ''name''] Eq (VText (''x'' @ [CHR 0x27] @ ''; DELETE user; --'' @ [CHR 0x5C])),
     FNot (FCmp [PField ''total''] Gte (VDecimal ''-12.50''))]"

theorem compiled_filter_is_self_contained_witness:
  "\<exists>t. (\<forall>rest. outside False (projr (render_filter hostile_filter) @ rest) = prepend t (outside False rest))
    \<and> list_all code_char t \<and> no_comment t \<and> (\<forall>n r. depth n (t @ r) = depth n r)"
proof (rule compiled_filter_is_self_contained)
  have "is_ok_res (render_filter hostile_filter)" by code_simp
  then show "render_filter hostile_filter = Inr (projr (render_filter hostile_filter))"
    by (cases "render_filter hostile_filter") simp_all
  show "filter_floats hostile_filter" by code_simp
qed

section \<open>The workflow judge\<close>

text \<open>C23: buttons and judgement agree: in a workflow whose transitions go between declared states, an
  action is accepted from a declared state exactly when it is one the role is offered there, and an
  accepted action goes to the declared target of an offered transition with that target's docstatus.\<close>

theorem judge_accepts_what_is_offered:
  assumes "closed_workflow flow" and "state_named flow current \<noteq> None"
  shows "((\<exists>j. judge flow current action role = Inr j) \<longleftrightarrow> action \<in> tr_action ` set (available flow current role))
    \<and> (\<forall>j. judge flow current action role = Inr j \<longrightarrow>
         (\<exists>t s. t \<in> set (available flow current role) \<and> tr_action t = action \<and> state_named flow (tr_to t) = Some s
            \<and> j = \<lparr>jd_from = current, jd_to = tr_to t, jd_action = action, jd_docstatus = ws_docstatus s\<rparr>))"
proof (intro conjI iffI allI impI)
  show "\<exists>j. judge flow current action role = Inr j" if "action \<in> tr_action ` set (available flow current role)"
    using that judge_accepts [OF assms] by blast
qed (blast elim: judge_Inr)+

definition leave_flow :: workflow_def where
  "leave_flow = \<lparr>wf_name = ''leave'', wf_doctype = ''leave_request'',
     wf_states = [\<lparr>ws_name = ''Draft'', ws_docstatus = 0\<rparr>, \<lparr>ws_name = ''Approved'', ws_docstatus = 1\<rparr>],
     wf_transitions = [\<lparr>tr_from = ''Draft'', tr_to = ''Approved'', tr_role = ''manager'', tr_action = ''Approve''\<rparr>],
     wf_state_rules = []\<rparr>"

theorem judge_accepts_what_is_offered_witness:
  "\<exists>j. judge leave_flow ''Draft'' ''Approve'' ''manager'' = Inr j"
proof -
  have "closed_workflow leave_flow" "state_named leave_flow ''Draft'' \<noteq> None"
    "''Approve'' \<in> tr_action ` set (available leave_flow ''Draft'' ''manager'')"
    by code_simp+
  then show ?thesis using judge_accepts_what_is_offered by blast
qed

section \<open>Fairness\<close>






text \<open>C29: a claim round serves each tenant its oldest jobs up to its cap and nothing else, and no backlog
  starves another tenant: a tenant's \<open>k\<close>-th job (from 0) is among the first \<open>k + 1\<close> times the number of
  tenants.\<close>

theorem claim_round_is_fair:
  assumes "fair_round s n queued = (out, n')"
  shows "mset out = (\<Sum>t\<in>snd ` set queued. mset (take (round_cap s t) (jobs_of t queued)))
    \<and> (\<forall>t\<in>snd ` set queued. \<forall>k. k < round_cap s t \<and> k < length (jobs_of t queued) \<longrightarrow>
         jobs_of t queued ! k \<in> set (take (Suc k * card (snd ` set queued)) out))"
  using fair_round_content [OF assms] fair_round_early [OF assms] by blast

theorem claim_round_is_fair_witness:
  "''j4'' \<in> set (take 2 (fst (fair_round fair_state_default 0
     [(''j1'', ''a''), (''j2'', ''a''), (''j3'', ''a''), (''j4'', ''b'')])))"
proof -
  let ?q = "[(''j1'', ''a''), (''j2'', ''a''), (''j3'', ''a''), (''j4'', ''b'')]"
  have "0 < round_cap fair_state_default ''b'' \<and> 0 < length (jobs_of ''b'' ?q)" "jobs_of ''b'' ?q ! 0 = ''j4''"
    by (simp_all add: fair_policy_for_def fair_state_default_def policy_default_def usize_max_def jobs_of_def)
  moreover have "''b'' \<in> snd ` set ?q" "card (snd ` set ?q) = 2" by simp_all
  ultimately show ?thesis
    using claim_round_is_fair [OF prod.collapse [symmetric], of fair_state_default 0 ?q] by fastforce
qed

end
