(* ===== verification/Effects.thy ===== *)
theory Effects
  imports Resource Contract
begin

text \<open>
  The kernel's effects: a fallible step takes the world and returns a result and the next world.
  \<open>and_then\<close> is the \<open>?\<close> operator on such steps, \<open>lift_res\<close> a pure result. A database session
  (\<open>Db::sql_root\<close>, \<open>Db::sql_as\<close>) is a step for each query text.
\<close>

definition and_then ::
  "('e + 'a) \<times> 'w \<Rightarrow> ('a \<Rightarrow> 'w \<Rightarrow> ('e + 'b) \<times> 'w) \<Rightarrow> ('e + 'b) \<times> 'w" where
  "and_then x f = (case x of (Inl e, w) \<Rightarrow> (Inl e, w) | (Inr a, w) \<Rightarrow> f a w)"

definition lift_res :: "'e + 'a \<Rightarrow> 'w \<Rightarrow> ('e + 'a) \<times> 'w" where
  "lift_res r w = (r, w)"

type_synonym 'w sql = "string \<Rightarrow> 'w \<Rightarrow> (broker_error + json) \<times> 'w"

lemma and_then_simps [simp]:
  "and_then (Inl e, w) f = (Inl e, w)" "and_then (Inr a, w) f = f a w"
  by (simp_all add: and_then_def)

lemma and_then_Inr:
  "and_then x f = (Inr b, w') \<longleftrightarrow> (\<exists>a w. x = (Inr a, w) \<and> f a w = (Inr b, w'))"
  by (auto simp: and_then_def split: prod.split sum.split)

lemma and_then_Inl:
  "and_then x f = (Inl e, w') \<longleftrightarrow> x = (Inl e, w') \<or> (\<exists>a w. x = (Inr a, w) \<and> f a w = (Inl e, w'))"
  by (auto simp: and_then_def split: prod.split sum.split)

lemma lift_res_simps [simp]:
  "lift_res r w = (Inr a, w') \<longleftrightarrow> r = Inr a \<and> w' = w"
  "lift_res r w = (Inl e, w') \<longleftrightarrow> r = Inl e \<and> w' = w"
  "and_then (lift_res (Inr a) w) f = f a w"
  "and_then (lift_res (Inl e) w) f = (Inl e, w)"
  by (auto simp: lift_res_def)

text \<open>A view of the world that the first step keeps and every continuation keeps is kept.\<close>

lemma and_then_view:
  assumes "view (snd x) = v" and "\<And>a w. x = (Inr a, w) \<Longrightarrow> view (snd (f a w)) = v"
  shows "view (snd (and_then x f)) = v"
proof (cases x)
  case (Pair r w)
  with assms show ?thesis by (cases r) auto
qed

text \<open>Reads of a JSON value that fall back on a default.\<close>

definition json_rows :: "json \<Rightarrow> json list" where
  "json_rows v = (case json_array v of Some rows \<Rightarrow> rows | None \<Rightarrow> [])"

definition json_str_at :: "string \<Rightarrow> json \<Rightarrow> string option" where
  "json_str_at k v = Option.bind (json_get k v) json_str"

text \<open>\<open>as_u64\<close>, and a text field or the empty text.\<close>

definition json_u64 :: "json \<Rightarrow> nat option" where
  "json_u64 v = (case v of JInt i \<Rightarrow> (if 0 \<le> i \<and> i < 2 ^ 64 then Some (nat i) else None) | _ \<Rightarrow> None)"

definition str_or_empty :: "string \<Rightarrow> json \<Rightarrow> string" where
  "str_or_empty n row = (case json_str_at n row of Some s \<Rightarrow> s | None \<Rightarrow> [])"

end
