(* ===== verification/Doctype.thy ===== *)
theory Doctype
  imports Contract
begin

text \<open>
  The first half of \<open>kernel/src/sync.rs\<close>: DocType metadata and the DDL it compiles to. The
  statements carry the permission clauses, the identity guard, the docstatus lattice, the Single
  guards and the counter events; they are what the migration engine diffs and applies.
\<close>

section \<open>Metadata\<close>

record client_rule =
  ru_field :: string
  ru_op :: string
  ru_value :: "string option"
  ru_message :: "string option"

record fetch_from =
  ft_source :: string
  ft_doctype :: string
  ft_field :: string

record field_def =
  fd_fieldname :: string
  fd_fieldtype :: string
  fd_label :: string
  fd_required :: bool
  fd_options :: "string list"
  fd_child_storage :: "string option"
  fd_depends_on :: "client_rule option"
  fd_read_only_when :: "client_rule option"
  fd_required_when :: "client_rule option"
  fd_invalid_when :: "client_rule option"
  fd_fetch_from :: "fetch_from option"

record metric_spec =
  mt_name :: string
  mt_field :: string

record aggregate_def =
  ag_kind :: string
  ag_rollup :: string
  ag_key :: string
  ag_metrics :: "metric_spec list"
  ag_handler :: "string option"

record doctype_def =
  dt_name :: string
  dt_app :: "string option"
  dt_issingle :: bool
  dt_submittable :: bool
  dt_fields :: "field_def list"
  dt_aggregates :: "aggregate_def list"

section \<open>Events\<close>

definition DOCSTATUS_DELETE_REFUSAL :: string where
  "DOCSTATUS_DELETE_REFUSAL = ''FRUST:E_DOCSTATUS:DELETE_REQUIRES_DRAFT''"

definition SINGLE_DELETE_REFUSAL :: string where
  "SINGLE_DELETE_REFUSAL = ''FRUST:E_SINGLE_NO_DELETE''"

definition lattice_event :: "string \<Rightarrow> string" where
  "lattice_event table =
     ''DEFINE EVENT OVERWRITE docstatus_lattice ON TABLE '' @ table
     @ '' WHEN $event = 'UPDATE' OR $event = 'DELETE' THEN { IF $event = 'DELETE' AND $before.docstatus != 0 { THROW ''
     @ [CHR 0x27] @ DOCSTATUS_DELETE_REFUSAL
     @ [CHR 0x27] @ ''; }; IF $event = 'UPDATE' AND $before.docstatus = 2 { THROW 'FRUST:E_DOCSTATUS:RESURRECTION'; }; ''
     @ ''IF $event = 'UPDATE' AND $before.docstatus = 1 AND $after.docstatus = 0 { THROW 'FRUST:E_DOCSTATUS:ILLEGAL_TRANSITION_1_0'; }; ''
     @ ''IF $event = 'UPDATE' AND $before.docstatus = 0 AND $after.docstatus = 2 { THROW 'FRUST:E_DOCSTATUS:ILLEGAL_TRANSITION_0_2'; }; }''"

definition ident_ok :: "string \<Rightarrow> bool" where
  "ident_ok s = (s \<noteq> [] \<and> list_all (\<lambda>c. is_alnum c \<or> c = CHR ''_'') s)"

definition single_record_id :: "string \<Rightarrow> string" where
  "single_record_id doctype = doctype @ '':'' @ doctype"

definition required_check :: "field_def \<Rightarrow> string" where
  "required_check f =
     (let name = fd_fieldname f;
          empty = (if fd_fieldtype f \<in> set [''Currency'', ''Link'', ''Table'']
                   then ''$after.'' @ name @ '' = NONE''
                   else ''$after.'' @ name @ '' = NONE OR string::len(<string>$after.'' @ name @ '') = 0'')
      in ''IF '' @ empty @ '' { THROW 'FRUST:E_SINGLE_REQUIRED:'' @ name @ [CHR 0x27] @ ''; }'')"

definition single_required_guard :: "doctype_def \<Rightarrow> string option" where
  "single_required_guard dt =
     (let checks = map required_check (filter fd_required (dt_fields dt)) in
      if checks = [] then None
      else Some (''DEFINE EVENT OVERWRITE single_required_guard ON TABLE '' @ dt_name dt
                 @ '' WHEN $event = 'UPDATE' THEN { '' @ join ''; '' checks @ '' }''))"

definition single_identity_guard :: "doctype_def \<Rightarrow> string" where
  "single_identity_guard dt =
     (let rid = single_record_id (dt_name dt) in
      ''DEFINE EVENT OVERWRITE single_identity_guard ON TABLE '' @ dt_name dt
      @ '' WHEN $event = 'CREATE' OR $event = 'DELETE' THEN { IF $event = 'CREATE' AND $after.id != type::record(''
      @ [CHR 0x27] @ rid @ [CHR 0x27] @ '') { THROW 'FRUST:E_SINGLE_RECORD'; }; IF $event = 'DELETE' AND $before.id = type::record(''
      @ [CHR 0x27] @ rid @ [CHR 0x27] @ '') { THROW '' @ [CHR 0x27] @ SINGLE_DELETE_REFUSAL @ [CHR 0x27] @ ''; }; }'')"

definition identity_guard :: "string \<Rightarrow> string" where
  "identity_guard t =
     ''DEFINE EVENT OVERWRITE identity_guard ON TABLE '' @ t
     @ '' WHEN $event = 'CREATE' THEN { IF $auth != NONE AND $after.owner = NONE { THROW 'FRUST:E_IDENTITY_UNRESOLVED'; }; }''"

definition validate_agg :: "aggregate_def \<Rightarrow> broker_error + unit" where
  "validate_agg agg =
     (if \<not> ident_ok (ag_rollup agg) then Inl (InvalidValue (''bad rollup name: '' @ ag_rollup agg))
      else if ag_kind agg = ''counter'' \<and> \<not> ident_ok (ag_key agg)
        then Inl (InvalidValue (''counter on '' @ ag_rollup agg @ '' needs a valid key field''))
      else case find (\<lambda>m. \<not> ident_ok (mt_name m) \<or> \<not> ident_ok (mt_field m) \<or> mt_name m \<in> set [''k'', ''n'', ''id'']) (ag_metrics agg) of
        Some m \<Rightarrow> Inl (InvalidValue (''bad metric '' @ mt_name m @ '':'' @ mt_field m))
      | None \<Rightarrow> Inr ())"

definition counts_clause :: "doctype_def \<Rightarrow> string \<Rightarrow> string" where
  "counts_clause dt side =
     (if dt_submittable dt then ''$'' @ side @ ''.docstatus = 1'' else ''$'' @ side @ ''.id != NONE'')"

text \<open>The assignments that take a document's contribution out of its rollup row, or put it in.\<close>

definition counter_sets :: "string \<Rightarrow> string \<Rightarrow> aggregate_def \<Rightarrow> string" where
  "counter_sets op side agg =
     join '', '' ((''n = (n ?? 0) '' @ op @ '' 1'')
       # map (\<lambda>m. mt_name m @ '' = ('' @ mt_name m @ '' ?? 0) '' @ op @ '' ($'' @ side @ ''.'' @ mt_field m @ '' ?? 0)'')
           (ag_metrics agg))"

definition counter_event_ddl :: "doctype_def \<Rightarrow> aggregate_def \<Rightarrow> broker_error + string" where
  "counter_event_ddl dt agg =
     (case validate_agg agg of
        Inl e \<Rightarrow> Inl e
      | Inr _ \<Rightarrow>
          (let t = dt_name dt; r = ag_rollup agg; k = ag_key agg in
           Inr (''DEFINE EVENT OVERWRITE agg_'' @ r @ '' ON TABLE '' @ t @ '' WHEN $event != 'SELECT' THEN { LET $bk = IF ''
             @ counts_clause dt ''before'' @ '' { $before.'' @ k @ '' } ELSE { NONE }; LET $ak = IF ''
             @ counts_clause dt ''after'' @ '' { $after.'' @ k @ '' } ELSE { NONE }; IF $bk != NONE { UPSERT type::record(''
             @ [CHR 0x27] @ r @ [CHR 0x27] @ '', <string>$bk) SET k = <string>$bk, '' @ counter_sets ''-'' ''before'' agg
             @ ''; }; IF $ak != NONE { UPSERT type::record(''
             @ [CHR 0x27] @ r @ [CHR 0x27] @ '', <string>$ak) SET k = <string>$ak, '' @ counter_sets ''+'' ''after'' agg
             @ ''; }; }'')))"

section \<open>Permissions\<close>

datatype select_access_kind = Owned | Shared | Manager

definition select_access :: "string \<Rightarrow> string list \<Rightarrow> select_access_kind" where
  "select_access doctype rollup_targets =
     (if doctype \<in> set rollup_targets then Manager else if doctype = ''workspace'' then Shared else Owned)"

definition rollup_targets_of :: "doctype_def list \<Rightarrow> string list" where
  "rollup_targets_of doctypes = concat (map (\<lambda>dt. map ag_rollup (dt_aggregates dt)) doctypes)"

definition role_can_select :: "string \<Rightarrow> string \<Rightarrow> doctype_def list \<Rightarrow> bool" where
  "role_can_select doctype role doctypes =
     (if \<not> list_ex (\<lambda>dt. dt_name dt = doctype) doctypes then False
      else case select_access doctype (rollup_targets_of doctypes) of
        Owned \<Rightarrow> True | Shared \<Rightarrow> True | Manager \<Rightarrow> role = ''manager'')"

definition owner_clause :: string where
  "owner_clause = ''(owner != NONE AND owner = $auth.id) OR $auth.role = 'manager' ''"

definition update_clause :: "doctype_def \<Rightarrow> string" where
  "update_clause dt =
     (if dt_submittable dt
      then ''(owner != NONE AND owner = $auth.id AND docstatus = 0) OR $auth.role = 'manager' ''
      else owner_clause)"

definition select_clause :: "select_access_kind \<Rightarrow> string" where
  "select_clause a = (if a = Shared then ''$auth.id != NONE '' else owner_clause)"

definition table_ddl :: "doctype_def \<Rightarrow> string list \<Rightarrow> string" where
  "table_ddl dt rollup_targets =
     ''DEFINE TABLE OVERWRITE '' @ dt_name dt @ '' SCHEMAFULL PERMISSIONS FOR select WHERE ''
     @ select_clause (select_access (dt_name dt) rollup_targets)
     @ ''FOR create WHERE $auth.id != NONE FOR update WHERE '' @ update_clause dt
     @ ''FOR delete WHERE $auth.role = 'manager' ''
     @ (if list_ex (\<lambda>a. ag_kind a = ''worker'') (dt_aggregates dt)
        then ''CHANGEFEED 7d INCLUDE ORIGINAL'' else ''CHANGEFEED 7d'')"

definition rollup_ddl :: "string \<Rightarrow> string" where
  "rollup_ddl t =
     ''DEFINE TABLE OVERWRITE '' @ t @ '' SCHEMALESS PERMISSIONS FOR select WHERE $auth.role = 'manager' ''
     @ ''FOR create, update, delete NONE CHANGEFEED 7d''"

section \<open>The DDL of a DocType\<close>

definition quoted_options :: "string list \<Rightarrow> string" where
  "quoted_options opts = join '', '' (map (\<lambda>o'. CHR 0x27 # o' @ [CHR 0x27]) opts)"

definition field_type_ddl :: "bool \<Rightarrow> field_def \<Rightarrow> broker_error + string" where
  "field_type_ddl db_required f =
     (if fd_fieldtype f = ''Link''
      then (let target = (case fd_options f of [] \<Rightarrow> [] | x # _ \<Rightarrow> x) in
            if \<not> ident_ok target
            then Inl (InvalidValue (''field '' @ fd_fieldname f @ '': Link needs a valid target doctype''))
            else Inr (''TYPE option<record<'' @ target @ ''>>''))
      else if fd_fieldtype f = ''Currency''
      then Inr (if db_required then ''TYPE decimal ASSERT $value >= 0dec''
                else ''TYPE option<decimal> ASSERT $value = NONE OR $value >= 0dec'')
      else if fd_fieldtype f = ''Select'' \<and> fd_options f \<noteq> []
      then Inr (if db_required then ''TYPE string ASSERT $value INSIDE ['' @ quoted_options (fd_options f) @ '']''
                else ''TYPE option<string> ASSERT $value = NONE OR $value INSIDE ['' @ quoted_options (fd_options f) @ '']'')
      else Inr (if db_required then ''TYPE string ASSERT string::len($value) > 0'' else ''TYPE option<string>''))"

definition define_field :: "string \<Rightarrow> string \<Rightarrow> string \<Rightarrow> string" where
  "define_field name t def = ''DEFINE FIELD OVERWRITE '' @ name @ '' ON '' @ t @ '' '' @ def"

definition field_ddl :: "doctype_def \<Rightarrow> field_def \<Rightarrow> broker_error + string list" where
  "field_ddl dt f =
     (let name = fd_fieldname f; t = dt_name dt in
      if \<not> ident_ok name then Inl (InvalidValue (''bad field name: '' @ name))
      else if fd_fieldtype f = ''Table''
      then (case fd_child_storage f of
              None \<Rightarrow> Inr [define_field name t ''TYPE option<array<object>>'',
                          define_field (name @ ''.*'') t ''TYPE object FLEXIBLE'']
            | Some s \<Rightarrow>
                (if s = ''embedded''
                 then Inr [define_field name t ''TYPE option<array<object>>'',
                           define_field (name @ ''.*'') t ''TYPE object FLEXIBLE'']
                 else if s = ''related''
                 then Inl (InvalidValue (''field '' @ name @ '': child_storage 'related' requires promotion tooling ''
                        @ ''(the flag is immutable, embedded-only in v0)''))
                 else Inl (InvalidValue (''field '' @ name @ '': unknown child_storage '' @ [CHR 0x27] @ s @ [CHR 0x27]))))
      else (case field_type_ddl (fd_required f \<and> \<not> dt_issingle dt) f of
              Inl e \<Rightarrow> Inl e | Inr def \<Rightarrow> Inr [define_field name t def]))"

definition aggregate_ddl :: "doctype_def \<Rightarrow> aggregate_def \<Rightarrow> broker_error + string list" where
  "aggregate_ddl dt agg =
     (if ag_kind agg = ''counter''
      then (case counter_event_ddl dt agg of Inl e \<Rightarrow> Inl e | Inr s \<Rightarrow> Inr [s])
      else if ag_kind agg = ''worker''
      then (case validate_agg agg of Inl e \<Rightarrow> Inl e | Inr _ \<Rightarrow> Inr [])
      else Inl (InvalidValue (''unknown aggregate kind '' @ [CHR 0x27] @ ag_kind agg @ [CHR 0x27] @ '' on '' @ dt_name dt)))"

definition engine_stmts :: "doctype_def \<Rightarrow> string list \<Rightarrow> string list" where
  "engine_stmts dt rollup_targets =
     (let t = dt_name dt in
      [table_ddl dt rollup_targets,
       define_field ''owner'' t ''TYPE option<record<app_user>> DEFAULT $auth.id READONLY'',
       define_field ''status'' t (''TYPE string DEFAULT '' @ [CHR 0x27] @ ''Draft'' @ [CHR 0x27]),
       identity_guard t]
      @ (if dt_submittable dt then [define_field ''docstatus'' t ''TYPE int DEFAULT 0'', lattice_event t] else [])
      @ (if dt_issingle dt
         then single_identity_guard dt # (case single_required_guard dt of None \<Rightarrow> [] | Some g \<Rightarrow> [g]) else []))"

definition doctype_stmts :: "doctype_def \<Rightarrow> string list \<Rightarrow> broker_error + string list" where
  "doctype_stmts dt rollup_targets =
     (if \<not> ident_ok (dt_name dt) then Inl (InvalidValue (''bad doctype name: '' @ dt_name dt))
      else if select_access (dt_name dt) rollup_targets = Manager then Inr [rollup_ddl (dt_name dt)]
      else case collect_res (map (field_ddl dt) (dt_fields dt)) of
        Inl e \<Rightarrow> Inl e
      | Inr fds \<Rightarrow> (case collect_res (map (aggregate_ddl dt) (dt_aggregates dt)) of
          Inl e \<Rightarrow> Inl e
        | Inr aggs \<Rightarrow> Inr (engine_stmts dt rollup_targets @ concat fds @ concat aggs)))"

definition doctype_ddl_in :: "doctype_def \<Rightarrow> string list \<Rightarrow> broker_error + string" where
  "doctype_ddl_in dt rollup_targets =
     (case doctype_stmts dt rollup_targets of Inl e \<Rightarrow> Inl e | Inr stmts \<Rightarrow> Inr (join ('';'' @ [CHR 0x0A]) stmts))"

definition doctype_ddl :: "doctype_def \<Rightarrow> broker_error + string" where
  "doctype_ddl dt = doctype_ddl_in dt []"

text \<open>The resource the migration engine is given; links and rollups are its dependencies.\<close>

definition doctype_deps :: "doctype_def \<Rightarrow> string list" where
  "doctype_deps dt =
     List.map_filter (\<lambda>f. case fd_options f of [] \<Rightarrow> None | x # _ \<Rightarrow> Some x)
       (filter (\<lambda>f. fd_fieldtype f = ''Link'') (dt_fields dt))
     @ map ag_rollup (dt_aggregates dt)"

definition doctype_spec_in :: "doctype_def \<Rightarrow> string list \<Rightarrow> broker_error + resource_spec" where
  "doctype_spec_in dt rollup_targets =
     (case doctype_ddl_in dt rollup_targets of
        Inl e \<Rightarrow> Inl e
      | Inr sql \<Rightarrow> Inr \<lparr>rs_app = (case dt_app dt of None \<Rightarrow> ''app'' | Some a \<Rightarrow> a), rs_name = dt_name dt,
          rs_schema = sql, rs_deps = doctype_deps dt\<rparr>)"

end
