(* ===== verification/Mail.thy ===== *)
theory Mail
  imports Doctype Decimal Field
begin

text \<open>
  \<open>kernel/src/mail.rs\<close>: notification rules, the conditions and events that select them, templates,
  recipients and the message a matched rule renders to. The transports (files, SMTP) are not
  modelled. The look-up of a role's addresses reads the database, so \<open>render_mail\<close> passes the world
  through it. The printing of JSON and \<open>{:?}\<close> of strings are those of \<open>codec\<close>.
\<close>

section \<open>Data\<close>

definition OUTBOX_TABLE :: string where
  "OUTBOX_TABLE = ''_frust_mail''"

definition NOTIFICATION_TABLE :: string where
  "NOTIFICATION_TABLE = ''notification''"

definition EVENTS :: "string list" where
  "EVENTS = [''after_insert'', ''on_update'', ''on_transition'', ''on_submit'', ''on_cancel'']"

datatype failure = Transient string | Permanent string

definition failure_reason :: "failure \<Rightarrow> string" where
  "failure_reason f = (case f of Transient m \<Rightarrow> m | Permanent m \<Rightarrow> m)"

definition failure_kind :: "failure \<Rightarrow> string" where
  "failure_kind f = (case f of Transient _ \<Rightarrow> ''transient'' | Permanent _ \<Rightarrow> ''permanent'')"

record outbound =
  ob_to :: "string list"
  ob_subject :: string
  ob_body :: string

record notification_def =
  nd_name :: string
  nd_doctype :: string
  nd_event :: string
  nd_action :: "string option"
  nd_condition :: "client_rule option"
  nd_recipients :: "string list"
  nd_subject :: string
  nd_body :: string
  nd_enabled :: bool

datatype trigger = AfterInsert | OnUpdate | Transition string string | Submit | Cancel

definition trigger_event :: "trigger \<Rightarrow> string" where
  "trigger_event t = (case t of
     AfterInsert \<Rightarrow> ''after_insert'' | OnUpdate \<Rightarrow> ''on_update'' | Transition _ _ \<Rightarrow> ''on_transition''
   | Submit \<Rightarrow> ''on_submit'' | Cancel \<Rightarrow> ''on_cancel'')"

section \<open>Conditions\<close>

definition RULE_OPS :: "string list" where
  "RULE_OPS = [''eq'', ''ne'', ''gt'', ''lt'', ''ge'', ''le'', ''empty'', ''not_empty'']"

fun render_field :: "codec \<Rightarrow> json \<Rightarrow> string" where
  "render_field cd (JString s) = s"
| "render_field cd JNull = []"
| "render_field cd (JBool b) = (if b then ''true'' else ''false'')"
| "render_field cd (JInt i) = int_str i"
| "render_field cd (JFloat s) = s"
| "render_field cd v = cd_show cd v"

definition str_cmp :: "string \<Rightarrow> string \<Rightarrow> ordering" where
  "str_cmp a b = (if a < b then Less else if a = b then Equal else Greater)"

text \<open>Two decimals are compared as numbers, any other two texts byte by byte.\<close>

definition rule_ord :: "string \<Rightarrow> string \<Rightarrow> ordering" where
  "rule_ord text want =
     (case (Decimal.parse text, Decimal.parse want) of
        (Some a, Some b) \<Rightarrow> Decimal.cmp a b
      | _ \<Rightarrow> str_cmp text want)"

definition op_holds :: "string \<Rightarrow> ordering \<Rightarrow> bool" where
  "op_holds op ord =
     (if op = ''eq'' then ord = Equal
      else if op = ''ne'' then ord \<noteq> Equal
      else if op = ''gt'' then ord = Greater
      else if op = ''lt'' then ord = Less
      else if op = ''ge'' then ord \<noteq> Less
      else if op = ''le'' then ord \<noteq> Greater
      else False)"

definition rule_holds :: "codec \<Rightarrow> client_rule \<Rightarrow> json \<Rightarrow> bool" where
  "rule_holds cd rule doc =
     (let text = (case json_get (ru_field rule) doc of Some v \<Rightarrow> render_field cd v | None \<Rightarrow> []);
          want = (case ru_value rule of Some v \<Rightarrow> v | None \<Rightarrow> [])
      in if ru_op rule = ''empty'' then text = []
         else if ru_op rule = ''not_empty'' then text \<noteq> []
         else op_holds (ru_op rule) (rule_ord text want))"

definition notification_matches :: "codec \<Rightarrow> notification_def \<Rightarrow> trigger \<Rightarrow> json \<Rightarrow> bool" where
  "notification_matches cd rule trg doc =
     (if \<not> nd_enabled rule \<or> nd_event rule \<noteq> trigger_event trg then False
      else if (case trg of Transition action _ \<Rightarrow>
                 (case nd_action rule of Some want \<Rightarrow> want \<noteq> action | None \<Rightarrow> False)
               | _ \<Rightarrow> False)
           then False
      else (case nd_condition rule of None \<Rightarrow> True | Some c \<Rightarrow> rule_holds cd c doc))"

section \<open>Recipients\<close>

datatype recipient = RRole string | RField string | RLiteral string

text \<open>Some white-space character begins at some byte.\<close>

definition has_ws :: "string \<Rightarrow> bool" where
  "has_ws s = list_ex (\<lambda>i. ws_len (drop i s) \<noteq> 0) [0..<length s]"

definition looks_like_address :: "string \<Rightarrow> bool" where
  "looks_like_address s =
     (case split_once CHR ''@'' s of
        Some (local, domain) \<Rightarrow>
          local \<noteq> [] \<and> CHR ''.'' \<in> set domain \<and> hd domain \<noteq> CHR ''.'' \<and> last domain \<noteq> CHR ''.'' \<and> \<not> has_ws s
      | None \<Rightarrow> False)"

definition parse_recipient :: "codec \<Rightarrow> string \<Rightarrow> string + recipient" where
  "parse_recipient cd spec0 =
     (let spec = trim spec0 in
      case strip_prefix ''role:'' spec of
        Some role \<Rightarrow>
          (if ident_ok role then Inr (RRole role)
           else Inl (''recipient role '' @ cd_debug_str cd role @ '' must be a plain identifier''))
      | None \<Rightarrow>
          (case strip_prefix ''field:'' spec of
             Some f \<Rightarrow>
               (if ident_ok f then Inr (RField f)
                else Inl (''recipient field '' @ cd_debug_str cd f @ '' must be a plain identifier''))
           | None \<Rightarrow>
               (if looks_like_address spec then Inr (RLiteral spec)
                else Inl (''recipient '' @ cd_debug_str cd spec
                  @ '' is neither 'role:<role>', 'field:<fieldname>', nor an address''))))"

definition validate_notification :: "codec \<Rightarrow> notification_def \<Rightarrow> string list" where
  "validate_notification cd rule =
     (if ident_ok (nd_name rule) then []
      else [''name '' @ cd_debug_str cd (nd_name rule) @ '' must be a plain identifier''])
     @ (if ident_ok (nd_doctype rule) then []
        else [''doctype '' @ cd_debug_str cd (nd_doctype rule) @ '' must be a plain identifier''])
     @ (if nd_event rule \<in> set EVENTS then []
        else [''event '' @ cd_debug_str cd (nd_event rule) @ '' is not one of '' @ cd_debug cd EVENTS])
     @ (if nd_action rule \<noteq> None \<and> nd_event rule \<noteq> ''on_transition''
        then [[CHR 0x27] @ ''action'' @ [CHR 0x27] @ '' only applies to on_transition, not '' @ cd_debug_str cd (nd_event rule)]
        else [])
     @ (if nd_recipients rule = []
        then [''recipients is empty '' @ em_dash @ '' a notification with nobody to send to never sends''] else [])
     @ concat (map (\<lambda>r. case parse_recipient cd r of Inl e \<Rightarrow> [e] | Inr _ \<Rightarrow> []) (nd_recipients rule))
     @ (if trim (nd_subject rule) = [] then [''subject is empty''] else [])
     @ (case nd_condition rule of
          Some c \<Rightarrow> (if ru_op c \<in> set RULE_OPS then []
                     else [''condition op '' @ cd_debug_str cd (ru_op c) @ '' is not one of '' @ cd_debug cd RULE_OPS])
        | None \<Rightarrow> [])"

section \<open>Templates\<close>

text \<open>The byte position in the message counts from the last substitution.\<close>

function interpolate_from :: "codec \<Rightarrow> json \<Rightarrow> string \<Rightarrow> string \<Rightarrow> string + string" where
  "interpolate_from cd doc out rest =
     (case split_str ''{{'' rest of
        None \<Rightarrow> Inr (out @ rest)
      | Some (prior, after) \<Rightarrow>
          (case split_str ''}}'' after of
             None \<Rightarrow> Inl (''unclosed '' @ [CHR 0x27] @ ''{{'' @ [CHR 0x27] @ '' in template at byte '' @ nat_str (length prior))
           | Some (inner, rest') \<Rightarrow>
               (let key = trim inner in
                case json_get key doc of
                  None \<Rightarrow> Inl (''template refers to unknown field '' @ [CHR 0x27] @ key @ [CHR 0x27])
                | Some v \<Rightarrow> interpolate_from cd doc (out @ prior @ render_field cd v) rest')))"
  by pat_completeness auto
termination
  by (relation "measure (\<lambda>(_, _, _, rest). length rest)") (auto dest!: split_str_Some)

declare interpolate_from.simps [simp del]

definition interpolate :: "codec \<Rightarrow> string \<Rightarrow> json \<Rightarrow> string + string" where
  "interpolate cd template doc = interpolate_from cd doc [] template"

section \<open>Rendering a matched rule\<close>

datatype unroutable = NoRecipients | Template string

definition unroutable_text :: "unroutable \<Rightarrow> string" where
  "unroutable_text u = (case u of
     NoRecipients \<Rightarrow> ''E_MAIL_NO_RECIPIENTS: the rule matched but resolved to zero addresses''
   | Template d \<Rightarrow> ''E_MAIL_TEMPLATE: '' @ d)"

definition reason_label :: "unroutable \<Rightarrow> string" where
  "reason_label u = (case u of NoRecipients \<Rightarrow> ''no_recipients'' | Template _ \<Rightarrow> ''template'')"

text \<open>The addresses the recipients resolve to, in order; a spec that does not parse is skipped.\<close>

fun collect_to ::
  "codec \<Rightarrow> json \<Rightarrow> (string \<Rightarrow> 's \<Rightarrow> string list \<times> 's) \<Rightarrow> string list \<Rightarrow> 's \<Rightarrow> string list \<times> 's" where
  "collect_to cd doc role_addresses [] s = ([], s)"
| "collect_to cd doc role_addresses (spec # specs) s =
     (case parse_recipient cd spec of
        Inl _ \<Rightarrow> collect_to cd doc role_addresses specs s
      | Inr (RLiteral a) \<Rightarrow>
          (case collect_to cd doc role_addresses specs s of (rest, s') \<Rightarrow> (a # rest, s'))
      | Inr (RRole role) \<Rightarrow>
          (case role_addresses role s of
             (found, s') \<Rightarrow>
               (case collect_to cd doc role_addresses specs s' of (rest, s'') \<Rightarrow> (found @ rest, s'')))
      | Inr (RField f) \<Rightarrow>
          (case collect_to cd doc role_addresses specs s of
             (rest, s') \<Rightarrow>
               ((case json_get f doc of
                   Some v \<Rightarrow> (if looks_like_address (render_field cd v) then [render_field cd v] else [])
                 | None \<Rightarrow> []) @ rest, s')))"

definition render_mail ::
  "codec \<Rightarrow> notification_def \<Rightarrow> json \<Rightarrow> (string \<Rightarrow> 's \<Rightarrow> string list \<times> 's) \<Rightarrow> 's \<Rightarrow> (unroutable + outbound) \<times> 's" where
  "render_mail cd rule doc role_addresses s =
     (case collect_to cd doc role_addresses (nd_recipients rule) s of
        (found, s') \<Rightarrow>
          (let to = remdups_adj (sort found) in
           (if to = [] then Inl NoRecipients
            else case map_err Template (interpolate cd (nd_subject rule) doc) of
              Inl e \<Rightarrow> Inl e
            | Inr subject \<Rightarrow>
                (case map_err Template (interpolate cd (nd_body rule) doc) of
                   Inl e \<Rightarrow> Inl e
                 | Inr body \<Rightarrow> Inr \<lparr>ob_to = to, ob_subject = subject, ob_body = body\<rparr>),
            s')))"

section \<open>Templates and addresses\<close>

text \<open>Templates against their pieces, and what a rendered message is addressed to.\<close>

datatype piece = Lit string | Ref string

definition piece_text :: "piece \<Rightarrow> string" where
  "piece_text p = (case p of Lit l \<Rightarrow> l | Ref n \<Rightarrow> ''{{'' @ n @ ''}}'')"

definition piece_ok :: "piece \<Rightarrow> bool" where
  "piece_ok p = (case p of Lit l \<Rightarrow> CHR ''{'' \<notin> set l | Ref n \<Rightarrow> CHR ''}'' \<notin> set n \<and> trim n = n)"

definition template_text :: "piece list \<Rightarrow> string" where
  "template_text ps = concat (map piece_text ps)"

text \<open>What the pieces should render to: the literals and the fields' own text, or the first unknown field.\<close>

fun pieces_value :: "codec \<Rightarrow> json \<Rightarrow> piece list \<Rightarrow> string + string" where
  "pieces_value cd doc [] = Inr []"
| "pieces_value cd doc (Lit l # ps) = map_sum id (\<lambda>s. l @ s) (pieces_value cd doc ps)"
| "pieces_value cd doc (Ref n # ps) =
     (case json_get n doc of
        None \<Rightarrow> Inl (''template refers to unknown field '' @ [CHR 0x27] @ n @ [CHR 0x27])
      | Some v \<Rightarrow> map_sum id (\<lambda>s. render_field cd v @ s) (pieces_value cd doc ps))"

lemma template_text_simps [simp]:
  "template_text [] = []" "template_text (Lit l # ps) = l @ template_text ps"
  "template_text (Ref n # ps) = ''{{'' @ n @ ''}}'' @ template_text ps"
  by (simp_all add: template_text_def piece_text_def)

lemma interpolate_pieces:
  assumes "list_all piece_ok ps" and "CHR ''{'' \<notin> set l"
  shows "interpolate_from cd doc out (l @ template_text ps) = map_sum id (\<lambda>s. out @ l @ s) (pieces_value cd doc ps)"
  using assms
proof (induction ps arbitrary: out l)
  case Nil
  then have "split_str ''{{'' l = None" by (simp add: split_str_none)
  then show ?case by (subst interpolate_from.simps) simp
next
  case (Cons p ps)
  show ?case
  proof (cases p)
    case (Lit m)
    then have "CHR ''{'' \<notin> set (l @ m)" using Cons.prems by (simp add: piece_ok_def)
    with Cons Lit show ?thesis
      using Cons.IH [of "l @ m" out] by (cases "pieces_value cd doc ps") simp_all
  next
    case (Ref n)
    define rest where "rest = template_text ps"
    have n: "CHR ''}'' \<notin> set n" "trim n = n" using Cons.prems Ref by (simp_all add: piece_ok_def)
    have s1: "split_str ''{{'' (l @ ''{{'' @ n @ ''}}'' @ rest) = Some (l, n @ ''}}'' @ rest)"
      using split_str_here [of "''{{''" "n @ ''}}'' @ rest"] Cons.prems(2) by (subst split_str_skip) simp_all
    have s2: "split_str ''}}'' (n @ ''}}'' @ rest) = Some (n, rest)"
      using split_str_here [of "''}}''" rest] n(1) by (subst split_str_skip) simp_all
    have "interpolate_from cd doc out (l @ ''{{'' @ n @ ''}}'' @ rest) =
      (case json_get n doc of
         None \<Rightarrow> Inl (''template refers to unknown field '' @ [CHR 0x27] @ n @ [CHR 0x27])
       | Some v \<Rightarrow> interpolate_from cd doc (out @ l @ render_field cd v) rest)"
      by (subst interpolate_from.simps) (simp only: s1 s2 option.case prod.case Let_def n(2))
    moreover have "interpolate_from cd doc out' rest = map_sum id (\<lambda>s. out' @ s) (pieces_value cd doc ps)" for out'
      using Cons.IH [of "[]" out'] Cons.prems(1) 
      by (simp add: rest_def id_def)
    ultimately show ?thesis
      by (cases "pieces_value cd doc ps") (simp_all add: Ref rest_def [symmetric] split: option.split)
  qed
qed

lemma interpolate_template:
  "list_all piece_ok ps \<Longrightarrow> interpolate cd (template_text ps) doc = pieces_value cd doc ps"
  using interpolate_pieces [of ps "[]" cd doc "[]"] by (cases "pieces_value cd doc ps") (simp_all add: interpolate_def)

lemma distinct_remdups_adj: "sorted xs \<Longrightarrow> distinct (remdups_adj xs)"
  by (induction xs rule: remdups_adj.induct) (auto simp: order.antisym)

lemma render_mail_to:
  assumes "render_mail cd rule doc roles s = (Inr out, s')"
  shows "ob_to out \<noteq> []" and "sorted (ob_to out)" and "distinct (ob_to out)"
    and "set (ob_to out) = set (fst (collect_to cd doc roles (nd_recipients rule) s))"
proof -
  let ?to = "remdups_adj (sort (fst (collect_to cd doc roles (nd_recipients rule) s)))"
  have "ob_to out = ?to \<and> ?to \<noteq> []"
    using assms by (auto simp: render_mail_def Let_def map_err_def split: prod.splits sum.splits if_splits)
  then show "ob_to out \<noteq> []" "sorted (ob_to out)" "distinct (ob_to out)"
    "set (ob_to out) = set (fst (collect_to cd doc roles (nd_recipients rule) s))"
    by (simp_all add: sorted_remdups_adj distinct_remdups_adj)
qed

end
