(* ===== verification/Sync_Load.thy ===== *)
theory Sync_Load
  imports Effects Mail Workflow Surql
begin

text \<open>
  \<open>kernel/src/sync.rs\<close>: the loaders of metadata, each one query under the root session and its
  decoding. The derived deserialisation of a stored record is a field of \<open>meta_codec\<close>.
\<close>

record doctype_field_meta =
  fm_fieldname :: string
  fm_fieldtype :: string
  fm_perm_role :: "string option"

record doctype_meta =
  dm_name :: string
  dm_label :: string
  dm_fields :: "doctype_field_meta list"

record meta_codec =
  mc_workflow :: "json \<Rightarrow> string + workflow_def"
  mc_notifications :: "json \<Rightarrow> string + notification_def list"
  mc_doctype_meta :: "json \<Rightarrow> string + doctype_meta"
  mc_doctypes :: "json \<Rightarrow> string + doctype_def list"

definition db_error :: "string \<Rightarrow> string \<Rightarrow> broker_error" where
  "db_error ctxt e = DbError (ctxt @ '': '' @ e)"

definition load_workflow ::
  "meta_codec \<Rightarrow> 'w sql \<Rightarrow> string \<Rightarrow> 'w \<Rightarrow> (broker_error + workflow_def option) \<times> 'w" where
  "load_workflow mc sql_root doctype w =
     and_then (sql_root (''SELECT * FROM workflow WHERE doctype = '' @ quote_literal doctype @ '' LIMIT 1;'') w)
       (\<lambda>rows w1. case json_first rows of
          None \<Rightarrow> (Inr None, w1)
        | Some r \<Rightarrow>
            (case mc_workflow mc r of
               Inl e \<Rightarrow> (Inl (db_error ''bad workflow metadata'' e), w1)
             | Inr flow \<Rightarrow> (Inr (Some flow), w1)))"

section \<open>Server scripts\<close>

record script_entry =
  sc_app :: "string option"
  sc_script :: string
  sc_hook :: hook_class
  sc_is_owner :: bool

record hook_plan =
  hp_entries :: "script_entry list"
  hp_declared :: "string list"

definition hook_plan_default :: hook_plan where
  "hook_plan_default = \<lparr>hp_entries = [], hp_declared = []\<rparr>"

text \<open>One item of the stored list; an item without a script, with a blank one or with an unknown hook is left out.\<close>

definition stored_script :: "string option \<Rightarrow> json \<Rightarrow> script_entry option" where
  "stored_script owner it =
     (case json_str_at ''script'' it of
        None \<Rightarrow> None
      | Some script \<Rightarrow>
          (if trim script = [] then None
           else case (case json_str_at ''hook'' it of None \<Rightarrow> Some Validate | Some h \<Rightarrow> from_wire h) of
                  None \<Rightarrow> None
                | Some hook \<Rightarrow>
                    Some \<lparr>sc_app = json_str_at ''app'' it, sc_script = script, sc_hook = hook,
                          sc_is_owner = (json_str_at ''app'' it = owner)\<rparr>))"

definition stored_scripts :: "string option \<Rightarrow> json option \<Rightarrow> script_entry list" where
  "stored_scripts owner raw =
     (case raw of
        Some (JArray items) \<Rightarrow> List.map_filter (stored_script owner) items
      | Some (JString s) \<Rightarrow>
          (if trim s = [] then []
           else [\<lparr>sc_app = owner, sc_script = s, sc_hook = Validate, sc_is_owner = True\<rparr>])
      | _ \<Rightarrow> [])"

definition plan_of_row :: "json \<Rightarrow> hook_plan" where
  "plan_of_row row =
     (let owner = json_str_at ''app'' row in
      \<lparr>hp_entries = sort_key (\<lambda>e. \<not> sc_is_owner e) (stored_scripts owner (json_get ''server_script'' row)),
       hp_declared = (case Option.bind (json_get ''fields'' row) json_array of
                        None \<Rightarrow> [] | Some fs \<Rightarrow> List.map_filter (json_str_at ''fieldname'') fs)\<rparr>)"

definition load_server_scripts :: "'w sql \<Rightarrow> string \<Rightarrow> 'w \<Rightarrow> (broker_error + hook_plan) \<times> 'w" where
  "load_server_scripts sql_root doctype w =
     and_then (sql_root (''SELECT app, server_script, fields FROM doctype WHERE name = ''
                 @ quote_literal doctype @ '' LIMIT 1;'') w)
       (\<lambda>rows w1. (Inr (case json_first rows of None \<Rightarrow> hook_plan_default | Some row \<Rightarrow> plan_of_row row), w1))"

section \<open>Notifications and addresses\<close>

text \<open>A database without the notification table has no rules; every other error is returned.\<close>

definition load_notifications ::
  "meta_codec \<Rightarrow> 'w sql \<Rightarrow> string \<Rightarrow> 'w \<Rightarrow> (broker_error + notification_def list) \<times> 'w" where
  "load_notifications mc sql_root doctype w =
     (case sql_root (''SELECT * FROM '' @ NOTIFICATION_TABLE @ '' WHERE doctype = ''
             @ quote_literal doctype @ '' ORDER BY name;'') w of
        (Inr rows, w1) \<Rightarrow> (map_err (db_error ''bad notification metadata'') (mc_notifications mc rows), w1)
      | (Inl (DbError detail), w1) \<Rightarrow>
          (if contains_str (''The table '' @ [CHR 0x27] @ NOTIFICATION_TABLE @ [CHR 0x27] @ '' does not exist'') detail
           then (Inr [], w1) else (Inl (DbError detail), w1))
      | (Inl e, w1) \<Rightarrow> (Inl e, w1))"

definition role_addresses :: "'w sql \<Rightarrow> string \<Rightarrow> 'w \<Rightarrow> (broker_error + string list) \<times> 'w" where
  "role_addresses sql_root role w =
     and_then (sql_root (''SELECT email FROM app_user WHERE role = '' @ quote_literal role
                 @ '' AND (status = NONE OR status = 'active') AND email != NONE ORDER BY email;'') w)
       (\<lambda>rows w1. (Inr (filter looks_like_address
          (case json_array rows of None \<Rightarrow> [] | Some a \<Rightarrow> List.map_filter (json_str_at ''email'') a)), w1))"

definition load_doctypes :: "meta_codec \<Rightarrow> 'w sql \<Rightarrow> 'w \<Rightarrow> (broker_error + doctype_def list) \<times> 'w" where
  "load_doctypes mc sql_root w =
     and_then (sql_root ''SELECT * FROM doctype ORDER BY name;'' w)
       (\<lambda>v w1. (map_err (db_error ''bad doctype metadata'') (mc_doctypes mc v), w1))"

section \<open>Owner first\<close>

text \<open>
  The scripts that run are the stored ones, the owner's before every extension's, each group in
  stored order.
\<close>

lemma sort_key_bool: "sort_key (\<lambda>e. \<not> P e) xs = filter P xs @ filter (\<lambda>e. \<not> P e) xs"
proof (induction xs)
  case (Cons x xs)
  have first: "insort_key (\<lambda>e. \<not> P e) x ys = x # ys" if "P x" for ys
    using that by (cases ys) simp_all
  have "insort_key (\<lambda>e. \<not> P e) x (as @ filter (\<lambda>e. \<not> P e) xs) = as @ x # filter (\<lambda>e. \<not> P e) xs"
    if "\<not> P x" and "list_all P as" for as
    using that(2)
  proof (induction as)
    case Nil
    have "\<not> P (hd (filter (\<lambda>e. \<not> P e) xs))" if "filter (\<lambda>e. \<not> P e) xs \<noteq> []"
      using hd_in_set [OF that] by simp
    then show ?case using \<open>\<not> P x\<close> by (cases "filter (\<lambda>e. \<not> P e) xs") simp_all
  qed (use \<open>\<not> P x\<close> in simp)
  then show ?case by (simp add: Cons.IH first list_all_iff)
qed simp

lemma plan_owner_first:
  "hp_entries (plan_of_row row) = (let es = stored_scripts (json_str_at ''app'' row) (json_get ''server_script'' row)
     in filter sc_is_owner es @ filter (\<lambda>e. \<not> sc_is_owner e) es)"
  by (simp add: plan_of_row_def sort_key_bool Let_def)

end
