(* ===== verification/Tenancy.thy ===== *)
theory Tenancy
  imports Effects Field
begin

text \<open>
  \<open>kernel/src/tenancy.rs\<close>: names, the registry, the four topologies and where each puts a tenant. The
  connection's endpoint and credentials (\<open>ConnConfig\<close>) are a type parameter \<open>'c\<close>; the registry, a
  hash map, is an association list in the order of the configured roster.
\<close>

section \<open>Names\<close>

definition MAX_NAME :: nat where
  "MAX_NAME = 64"

definition is_alpha :: "char \<Rightarrow> bool" where
  "is_alpha c = (is_alnum c \<and> \<not> is_digit c)"

definition valid_name :: "string \<Rightarrow> bool" where
  "valid_name s =
     (s \<noteq> [] \<and> length s \<le> MAX_NAME \<and> (is_alpha (hd s) \<or> hd s = CHR ''_'')
      \<and> list_all (\<lambda>c. is_alnum c \<or> c = CHR ''_'') s)"

definition parse_name :: "codec \<Rightarrow> string \<Rightarrow> string \<Rightarrow> broker_error + string" where
  "parse_name cd ty raw =
     (if valid_name raw then Inr raw
      else Inl (InvalidValue (ty @ '': not a valid name: '' @ cd_debug_str cd raw)))"

section \<open>Environments and plans\<close>

datatype deployment_environment = Production | Sandbox | Test

definition parse_environment :: "string \<Rightarrow> broker_error + deployment_environment" where
  "parse_environment raw =
     (if raw = ''production'' then Inr Production
      else if raw = ''sandbox'' then Inr Sandbox
      else if raw = ''test'' then Inr Test
      else Inl (InvalidValue (''FRUST_ENVIRONMENT='' @ raw
        @ '': not a deployment environment (production | sandbox | test)'')))"

definition environment_str :: "deployment_environment \<Rightarrow> string" where
  "environment_str e = (case e of Production \<Rightarrow> ''production'' | Sandbox \<Rightarrow> ''sandbox'' | Test \<Rightarrow> ''test'')"

datatype access_placement = OnDatabase | OnNamespace

record backup_plan =
  bp_namespace :: string
  bp_database :: "string option"
  bp_tenant_isolated :: bool

datatype provisioning_step =
    CreateNamespace string
  | CreateDatabase string string
  | DefineAccess access_placement

section \<open>Topologies\<close>

record placement =
  pl_namespace :: string
  pl_database :: string
  pl_environment :: "string option"

datatype strategy =
    DatabasePerTenant string
  | SingleTenant string string
  | NamespacePerTenant string
  | NamespacePerTenantEnvironment deployment_environment

definition strategy_name :: "strategy \<Rightarrow> string" where
  "strategy_name s = (case s of
     DatabasePerTenant _ \<Rightarrow> ''database-per-tenant''
   | SingleTenant _ _ \<Rightarrow> ''single''
   | NamespacePerTenant _ \<Rightarrow> ''namespace-per-tenant''
   | NamespacePerTenantEnvironment _ \<Rightarrow> ''namespace-per-tenant-env'')"

definition resolve_database_per_tenant :: "codec \<Rightarrow> string \<Rightarrow> string \<Rightarrow> broker_error + placement" where
  "resolve_database_per_tenant cd ns tid =
     (case parse_name cd ''DatabaseName'' tid of
        Inl e \<Rightarrow> Inl e
      | Inr db \<Rightarrow> Inr \<lparr>pl_namespace = ns, pl_database = db, pl_environment = None\<rparr>)"

definition resolve_single :: "string \<Rightarrow> string \<Rightarrow> string \<Rightarrow> broker_error + placement" where
  "resolve_single ns db tid = Inr \<lparr>pl_namespace = ns, pl_database = db, pl_environment = None\<rparr>"

definition resolve_namespace_per_tenant :: "codec \<Rightarrow> string \<Rightarrow> string \<Rightarrow> broker_error + placement" where
  "resolve_namespace_per_tenant cd db tid =
     (case parse_name cd ''NamespaceName'' tid of
        Inl e \<Rightarrow> Inl e
      | Inr ns \<Rightarrow> Inr \<lparr>pl_namespace = ns, pl_database = db, pl_environment = None\<rparr>)"

definition resolve_namespace_per_tenant_env ::
  "codec \<Rightarrow> deployment_environment \<Rightarrow> string \<Rightarrow> broker_error + placement" where
  "resolve_namespace_per_tenant_env cd env tid =
     (case parse_name cd ''NamespaceName'' tid of
        Inl e \<Rightarrow> Inl e
      | Inr ns \<Rightarrow> Inr \<lparr>pl_namespace = ns, pl_database = environment_str env,
                        pl_environment = Some (environment_str env)\<rparr>)"

definition strategy_resolve :: "codec \<Rightarrow> strategy \<Rightarrow> string \<Rightarrow> broker_error + placement" where
  "strategy_resolve cd s tid = (case s of
     DatabasePerTenant ns \<Rightarrow> resolve_database_per_tenant cd ns tid
   | SingleTenant ns db \<Rightarrow> resolve_single ns db tid
   | NamespacePerTenant db \<Rightarrow> resolve_namespace_per_tenant cd db tid
   | NamespacePerTenantEnvironment env \<Rightarrow> resolve_namespace_per_tenant_env cd env tid)"

lemmas strategy_resolve_defs = strategy_resolve_def resolve_database_per_tenant_def resolve_single_def
  resolve_namespace_per_tenant_def resolve_namespace_per_tenant_env_def

definition strategy_access_placement :: "strategy \<Rightarrow> access_placement" where
  "strategy_access_placement s = OnDatabase"

definition per_tenant_schema :: "strategy \<Rightarrow> bool" where
  "per_tenant_schema s = (case s of SingleTenant _ _ \<Rightarrow> False | _ \<Rightarrow> True)"

record 'c resolved_tenant =
  rt_tenant_id :: string
  rt_namespace :: string
  rt_database :: string
  rt_environment :: "string option"
  rt_conn :: 'c
  rt_strategy :: strategy

definition database_backup :: "'c resolved_tenant \<Rightarrow> bool \<Rightarrow> backup_plan" where
  "database_backup t isolated =
     \<lparr>bp_namespace = rt_namespace t, bp_database = Some (rt_database t), bp_tenant_isolated = isolated\<rparr>"

definition strategy_backup_plan :: "strategy \<Rightarrow> 'c resolved_tenant \<Rightarrow> backup_plan" where
  "strategy_backup_plan s t = (case s of
     DatabasePerTenant _ \<Rightarrow> database_backup t True
   | SingleTenant _ _ \<Rightarrow> database_backup t False
   | NamespacePerTenant _ \<Rightarrow> database_backup t True
   | NamespacePerTenantEnvironment _ \<Rightarrow> database_backup t True)"

definition database_steps :: "strategy \<Rightarrow> 'c resolved_tenant \<Rightarrow> provisioning_step list" where
  "database_steps s t =
     [CreateDatabase (rt_namespace t) (rt_database t), DefineAccess (strategy_access_placement s)]"

definition namespace_steps :: "strategy \<Rightarrow> 'c resolved_tenant \<Rightarrow> provisioning_step list" where
  "namespace_steps s t = CreateNamespace (rt_namespace t) #
     [CreateDatabase (rt_namespace t) (rt_database t), DefineAccess (strategy_access_placement s)]"

definition strategy_provisioning_plan :: "strategy \<Rightarrow> 'c resolved_tenant \<Rightarrow> provisioning_step list" where
  "strategy_provisioning_plan s t = (case s of
     DatabasePerTenant _ \<Rightarrow> database_steps s t
   | SingleTenant _ _ \<Rightarrow> database_steps s t
   | NamespacePerTenant _ \<Rightarrow> namespace_steps s t
   | NamespacePerTenantEnvironment _ \<Rightarrow> namespace_steps s t)"

section \<open>The registry\<close>

record tenancy_config =
  tc_strategy :: string
  tc_namespace :: "string option"
  tc_database :: "string option"
  tc_environment :: "string option"
  tc_tenants :: "string list"

record 'c tenancy =
  ty_strategy :: strategy
  ty_conn :: 'c
  ty_registry :: "(string \<times> string) list"

definition DEFAULT_NAMESPACE :: string where
  "DEFAULT_NAMESPACE = ''frust''"

definition DEFAULT_TENANT :: string where
  "DEFAULT_TENANT = ''skeleton''"

fun build_registry :: "codec \<Rightarrow> string list \<Rightarrow> (string \<times> string) list \<Rightarrow> broker_error + (string \<times> string) list" where
  "build_registry cd [] reg = Inr reg"
| "build_registry cd (slug # slugs) reg =
     (case parse_name cd ''TenantId'' slug of
        Inl e \<Rightarrow> Inl e
      | Inr tid \<Rightarrow>
          (if map_of reg slug \<noteq> None
           then Inl (InvalidValue (''tenant '' @ cd_debug_str cd slug
             @ '' is listed twice; a duplicate is a typo, and silently de-duplicating it would hide the mistake''))
           else build_registry cd slugs (reg @ [(slug, tid)])))"

definition reject_setting ::
  "codec \<Rightarrow> tenancy_config \<Rightarrow> string \<Rightarrow> string option \<Rightarrow> string \<Rightarrow> broker_error + unit" where
  "reject_setting cd cfg name v why =
     (case v of
        None \<Rightarrow> Inr ()
      | Some x \<Rightarrow> Inl (InvalidValue (tc_strategy cfg @ '' does not take '' @ name @ '' (got '' @ cd_debug_str cd x
          @ ''): '' @ why @ '' '' @ em_dash @ '' this config contradicts itself'')))"

definition shared_namespace :: "codec \<Rightarrow> tenancy_config \<Rightarrow> broker_error + string" where
  "shared_namespace cd cfg =
     parse_name cd ''NamespaceName'' (case tc_namespace cfg of Some n \<Rightarrow> n | None \<Rightarrow> DEFAULT_NAMESPACE)"

text \<open>The topology a configuration asks for; a setting the topology does not use is refused.\<close>

definition no_environment :: "codec \<Rightarrow> tenancy_config \<Rightarrow> broker_error + unit" where
  "no_environment cd cfg =
     reject_setting cd cfg ''an environment'' (tc_environment cfg) ''this topology has no environment axis''"

definition no_namespace :: "codec \<Rightarrow> tenancy_config \<Rightarrow> broker_error + unit" where
  "no_namespace cd cfg =
     reject_setting cd cfg ''a namespace'' (tc_namespace cfg) ''the namespace IS the tenant''"

definition try_res :: "'e + 'a \<Rightarrow> ('a \<Rightarrow> 'e + 'b) \<Rightarrow> 'e + 'b" where
  "try_res r f = (case r of Inl e \<Rightarrow> Inl e | Inr a \<Rightarrow> f a)"

definition choose_strategy :: "codec \<Rightarrow> tenancy_config \<Rightarrow> broker_error + strategy" where
  "choose_strategy cd cfg =
     (if tc_strategy cfg = ''database-per-tenant'' then
        try_res (reject_setting cd cfg ''a shared database'' (tc_database cfg) ''each tenant's database is its own'') (\<lambda>_.
        try_res (no_environment cd cfg) (\<lambda>_.
        try_res (shared_namespace cd cfg) (\<lambda>ns. Inr (DatabasePerTenant ns))))
      else if tc_strategy cfg = ''single'' then
        try_res (no_environment cd cfg) (\<lambda>_.
          (case tc_database cfg of
             None \<Rightarrow> Inl (InvalidValue (''single: a shared-database topology with no database named is incomplete ''
                       @ ''(set FRUST_DATABASE)''))
           | Some db \<Rightarrow>
               try_res (shared_namespace cd cfg) (\<lambda>ns.
               try_res (parse_name cd ''DatabaseName'' db) (\<lambda>d. Inr (SingleTenant ns d)))))
      else if tc_strategy cfg = ''namespace-per-tenant'' then
        try_res (no_namespace cd cfg) (\<lambda>_.
        try_res (no_environment cd cfg) (\<lambda>_.
          (case tc_database cfg of
             None \<Rightarrow> Inl (InvalidValue (''namespace-per-tenant: no database named for the one database inside each ''
                       @ ''tenant's namespace (set FRUST_DATABASE)''))
           | Some db \<Rightarrow>
               try_res (parse_name cd ''DatabaseName'' db) (\<lambda>d. Inr (NamespacePerTenant d)))))
      else if tc_strategy cfg = ''namespace-per-tenant-env'' then
        try_res (no_namespace cd cfg) (\<lambda>_.
        try_res (reject_setting cd cfg ''a database'' (tc_database cfg) ''the database IS the environment'') (\<lambda>_.
          (case tc_environment cfg of
             None \<Rightarrow> Inl (InvalidValue (''namespace-per-tenant-env: no environment named, so this process does not ''
                       @ ''know whether it is production (set FRUST_ENVIRONMENT)''))
           | Some env \<Rightarrow>
               try_res (parse_environment env) (\<lambda>e. Inr (NamespacePerTenantEnvironment e)))))
      else Inl (InvalidValue (''FRUST_TENANCY='' @ tc_strategy cfg @ '': unknown tenancy topology'')))"

definition from_config :: "codec \<Rightarrow> 'c \<Rightarrow> tenancy_config \<Rightarrow> broker_error + 'c tenancy" where
  "from_config cd conn cfg =
     try_res (build_registry cd (tc_tenants cfg) []) (\<lambda>reg.
       if reg = [] then Inl (InvalidValue (tc_strategy cfg @ '': no tenants configured''))
       else try_res (choose_strategy cd cfg) (\<lambda>s.
         Inr \<lparr>ty_strategy = s, ty_conn = conn, ty_registry = reg\<rparr>))"

definition target_of :: "codec \<Rightarrow> 'c tenancy \<Rightarrow> string \<Rightarrow> broker_error + 'c resolved_tenant" where
  "target_of cd t tid =
     try_res (strategy_resolve cd (ty_strategy t) tid) (\<lambda>p.
       Inr \<lparr>rt_tenant_id = tid, rt_namespace = pl_namespace p, rt_database = pl_database p,
            rt_environment = pl_environment p, rt_conn = ty_conn t, rt_strategy = ty_strategy t\<rparr>)"

definition tenancy_resolve :: "codec \<Rightarrow> 'c tenancy \<Rightarrow> string \<Rightarrow> broker_error + 'c resolved_tenant" where
  "tenancy_resolve cd t slug =
     (case map_of (ty_registry t) slug of
        None \<Rightarrow> Inl (PermissionDenied ''E_UNKNOWN_TENANT'')
      | Some tid \<Rightarrow> target_of cd t tid)"

definition tenancy_sole :: "codec \<Rightarrow> 'c tenancy \<Rightarrow> broker_error + 'c resolved_tenant" where
  "tenancy_sole cd t =
     (case ty_registry t of
        [(slug, tid)] \<Rightarrow> target_of cd t tid
      | reg \<Rightarrow> Inl (InvalidValue (''sole(): '' @ nat_str (length reg) @ '' tenants registered, expected exactly 1'')))"

definition resolve_all :: "codec \<Rightarrow> 'c tenancy \<Rightarrow> broker_error + 'c resolved_tenant list" where
  "resolve_all cd t = collect_res (map (\<lambda>(slug, tid). target_of cd t tid) (ty_registry t))"

definition single_tenant :: "codec \<Rightarrow> 'c \<Rightarrow> string \<Rightarrow> broker_error + 'c resolved_tenant" where
  "single_tenant cd conn slug =
     try_res (from_config cd conn \<lparr>tc_strategy = ''database-per-tenant'', tc_namespace = Some DEFAULT_NAMESPACE,
         tc_database = None, tc_environment = None, tc_tenants = [slug]\<rparr>)
       (tenancy_sole cd)"

section \<open>The migration engine's view\<close>

text \<open>\<open>sync.rs\<close>: the engine's connections and tenancy, derived from one resolved tenant.\<close>

definition scope_of :: "'c resolved_tenant \<Rightarrow> storage_location" where
  "scope_of t = \<lparr>sl_namespace = rt_namespace t, sl_database = rt_database t\<rparr>"

definition kernel_acquire ::
  "('c resolved_tenant \<Rightarrow> 'w conn) \<Rightarrow> 'c resolved_tenant \<Rightarrow> 'w \<Rightarrow> storage_location \<Rightarrow> (string + 'w conn) \<times> 'w" where
  "kernel_acquire scoped_db base w loc =
     (let want = scope_of base in
      if loc \<noteq> want
      then (Inl (''tenancy seam: migrator asked for '' @ sl_namespace loc @ ''/'' @ sl_database loc
             @ '', this connection is scoped to '' @ sl_namespace want @ ''/'' @ sl_database want), w)
      else (Inr (scoped_db base), w))"

definition kernel_ctx :: "('c resolved_tenant \<Rightarrow> 'w conn) \<Rightarrow> 'c resolved_tenant \<Rightarrow> 'w engine_ctx" where
  "kernel_ctx scoped_db base =
     \<lparr>cx_acquire = kernel_acquire scoped_db base, cx_platform_scope = scope_of base,
      cx_locate = (\<lambda>_. scope_of base), cx_requires_deploy = per_tenant_schema (rt_strategy base),
      cx_strategy_name = strategy_name (rt_strategy base), cx_bootstrap_sql = None\<rparr>"

section \<open>Facts\<close>

lemma try_res_Inr: "try_res r f = Inr b \<longleftrightarrow> (\<exists>a. r = Inr a \<and> f a = Inr b)"
  by (cases r) (simp_all add: try_res_def)

lemma parse_name_Inr: "parse_name cd ty raw = Inr s \<longleftrightarrow> valid_name raw \<and> s = raw"
  by (auto simp: parse_name_def)

text \<open>A registry that was built maps each distinct valid slug to itself.\<close>

definition registry_ok :: "(string \<times> string) list \<Rightarrow> bool" where
  "registry_ok reg = (distinct (map fst reg) \<and> list_all (\<lambda>(slug, tid). tid = slug \<and> valid_name slug) reg)"

lemma build_registry_ok:
  "build_registry cd slugs reg = Inr reg' \<Longrightarrow> registry_ok reg \<Longrightarrow> registry_ok reg' \<and> map fst reg' = map fst reg @ slugs"
proof (induction slugs arbitrary: reg)
  case (Cons slug slugs)
  then have slug: "valid_name slug" "map_of reg slug = None"
    "build_registry cd slugs (reg @ [(slug, slug)]) = Inr reg'"
    by (auto simp: parse_name_def split: if_splits)
  then have "registry_ok (reg @ [(slug, slug)])"
    using Cons.prems(2) by (auto simp: registry_ok_def map_of_eq_None_iff)
  with Cons.IH [OF slug(3)] show ?case by simp
qed simp

lemma from_config_Inr:
  assumes "from_config cd conn cfg = Inr t"
  shows "registry_ok (ty_registry t)" "ty_registry t \<noteq> []" "map fst (ty_registry t) = tc_tenants cfg"
    "choose_strategy cd cfg = Inr (ty_strategy t)" "ty_conn t = conn"
proof -
  obtain reg s where reg: "build_registry cd (tc_tenants cfg) [] = Inr reg" "reg \<noteq> []"
    and s: "choose_strategy cd cfg = Inr s" and t: "t = \<lparr>ty_strategy = s, ty_conn = conn, ty_registry = reg\<rparr>"
    using assms by (auto simp: from_config_def try_res_Inr split: if_splits)
  have "registry_ok []" by (simp add: registry_ok_def)
  from build_registry_ok [OF reg(1) this] have ok: "registry_ok reg" "map fst reg = tc_tenants cfg"
    by simp_all
  from ok reg(2) s t show "registry_ok (ty_registry t)" "ty_registry t \<noteq> []" "map fst (ty_registry t) = tc_tenants cfg"
    "choose_strategy cd cfg = Inr (ty_strategy t)" "ty_conn t = conn"
    by simp_all
qed

text \<open>Where a registered tenant is: the strategy's place for its own name.\<close>

definition place_of :: "strategy \<Rightarrow> string \<Rightarrow> string \<times> string" where
  "place_of s slug = (case s of
     DatabasePerTenant ns \<Rightarrow> (ns, slug)
   | SingleTenant ns db \<Rightarrow> (ns, db)
   | NamespacePerTenant db \<Rightarrow> (slug, db)
   | NamespacePerTenantEnvironment env \<Rightarrow> (slug, environment_str env))"

lemma target_of_valid:
  assumes "valid_name tid"
  obtains r where "target_of cd t tid = Inr r" "rt_tenant_id r = tid" "rt_strategy r = ty_strategy t"
    "(rt_namespace r, rt_database r) = place_of (ty_strategy t) tid"
  using assms
  by (cases "ty_strategy t")
    (auto simp: target_of_def strategy_resolve_defs try_res_def parse_name_def place_of_def)

lemma tenancy_resolve_cases:
  assumes "from_config cd conn cfg = Inr t"
  shows "slug \<notin> set (tc_tenants cfg) \<Longrightarrow> tenancy_resolve cd t slug = Inl (PermissionDenied ''E_UNKNOWN_TENANT'')"
    and "slug \<in> set (tc_tenants cfg) \<Longrightarrow> \<exists>r. tenancy_resolve cd t slug = Inr r \<and> rt_tenant_id r = slug
      \<and> rt_strategy r = ty_strategy t \<and> (rt_namespace r, rt_database r) = place_of (ty_strategy t) slug"
proof -
  note cfg = from_config_Inr [OF assms]
  show "tenancy_resolve cd t slug = Inl (PermissionDenied ''E_UNKNOWN_TENANT'')" if "slug \<notin> set (tc_tenants cfg)"
    using that cfg(3) [symmetric] map_of_eq_None_iff [of "ty_registry t" slug]
    by (simp add: tenancy_resolve_def)
  show "\<exists>r. tenancy_resolve cd t slug = Inr r \<and> rt_tenant_id r = slug
      \<and> rt_strategy r = ty_strategy t \<and> (rt_namespace r, rt_database r) = place_of (ty_strategy t) slug"
    if "slug \<in> set (tc_tenants cfg)"
  proof -
    have "slug \<in> fst ` set (ty_registry t)" using that cfg(3) [symmetric] by simp
    then obtain tid where tid: "map_of (ty_registry t) slug = Some tid"
      by (metis map_of_eq_None_iff not_None_eq)
    then have "(slug, tid) \<in> set (ty_registry t)" by (rule map_of_SomeD)
    with cfg(1) have "tid = slug" "valid_name slug" by (auto simp: registry_ok_def list_all_iff)
    moreover from target_of_valid [OF this(2)] obtain r where "target_of cd t slug = Inr r" "rt_tenant_id r = slug"
      "rt_strategy r = ty_strategy t" "(rt_namespace r, rt_database r) = place_of (ty_strategy t) slug" by metis
    ultimately show ?thesis using tid by (simp add: tenancy_resolve_def)
  qed
qed

lemma place_of_inject: "per_tenant_schema s \<Longrightarrow> place_of s a = place_of s b \<longleftrightarrow> a = b"
  by (cases s) (simp_all add: per_tenant_schema_def place_of_def)

end
