(* ===== verification/Tenant_Gen.thy ===== *)
theory Tenant_Gen
  imports Prelude
begin

text \<open>
  \<open>kernel/src/tenant_gen.rs\<close>: the registry of cache generations, one counter per tenant and kind. The
  shared counters are cells of an explicit registry; a handle is its key.
\<close>

datatype gen_kind = SessionGen | MetaGen

type_synonym gen_registry = "gen_kind \<times> string \<rightharpoonup> nat"

record tenant_generations =
  tg_session :: "gen_kind \<times> string"
  tg_meta :: "gen_kind \<times> string"

text \<open>\<open>entry(..).or_insert(0)\<close>\<close>

definition gen_handle :: "gen_kind \<Rightarrow> string \<Rightarrow> gen_registry \<Rightarrow> gen_registry" where
  "gen_handle kind tenant reg = (case reg (kind, tenant) of None \<Rightarrow> reg((kind, tenant) \<mapsto> 0) | Some _ \<Rightarrow> reg)"

definition for_tenant :: "string \<Rightarrow> gen_registry \<Rightarrow> tenant_generations \<times> gen_registry" where
  "for_tenant tenant reg =
     (\<lparr>tg_session = (SessionGen, tenant), tg_meta = (MetaGen, tenant)\<rparr>,
      gen_handle MetaGen tenant (gen_handle SessionGen tenant reg))"

text \<open>\<open>load\<close> and the wrapping \<open>fetch_add(1)\<close>\<close>

definition gen_load :: "gen_kind \<times> string \<Rightarrow> gen_registry \<Rightarrow> nat" where
  "gen_load key reg = (case reg key of None \<Rightarrow> 0 | Some n \<Rightarrow> n)"

definition gen_bump :: "gen_kind \<Rightarrow> string \<Rightarrow> gen_registry \<Rightarrow> gen_registry" where
  "gen_bump kind tenant reg =
     (let reg' = gen_handle kind tenant reg
      in reg'((kind, tenant) \<mapsto> (gen_load (kind, tenant) reg' + 1) mod 2 ^ 64))"

definition invalidate_sessions :: "string \<Rightarrow> gen_registry \<Rightarrow> gen_registry" where
  "invalidate_sessions tenant reg = gen_bump SessionGen tenant reg"

definition invalidate_meta :: "string \<Rightarrow> gen_registry \<Rightarrow> gen_registry" where
  "invalidate_meta tenant reg = gen_bump MetaGen tenant reg"

lemma gen_load_handle [simp]: "gen_load k (gen_handle kind tenant reg) = gen_load k reg"
  by (auto simp: gen_load_def gen_handle_def split: option.splits)

text \<open>A bump moves exactly one counter: that tenant's, of that kind.\<close>

lemma gen_bump_load:
  "gen_load k (gen_bump kind tenant reg) =
     (if k = (kind, tenant) then (gen_load k reg + 1) mod 2 ^ 64 else gen_load k reg)"
proof -
  have "gen_load k (gen_bump kind tenant reg) =
      (if k = (kind, tenant) then (gen_load (kind, tenant) (gen_handle kind tenant reg) + 1) mod 2 ^ 64
       else gen_load k (gen_handle kind tenant reg))"
    by (simp add: gen_bump_def Let_def gen_load_def)
  then show ?thesis by simp
qed

end
