(* ===== verification/Sync_Run.thy ===== *)
theory Sync_Run
  imports Sync_Load Tenancy Migrator_Run Fleet Tenant_Gen
begin

text \<open>
  \<open>kernel/src/sync.rs\<close>: the metadata sync. Every DocType becomes a resource, columns that the history
  holds and no DocType declares are carried along, the engine migrates the tenant, single documents
  get their row, and refusals to drop a column are reported as orphans. The world has the tenant's
  cache generations as a part, read and written by \<open>genw\<close>.
\<close>

section \<open>Single documents\<close>

fun seed_rows :: "'w sql \<Rightarrow> doctype_def list \<Rightarrow> nat \<Rightarrow> 'w \<Rightarrow> (broker_error + nat) \<times> 'w" where
  "seed_rows sql_root [] n w = (Inr n, w)"
| "seed_rows sql_root (dt # dts) n w =
     (if \<not> ident_ok (dt_name dt) then (Inl (InvalidValue (''bad doctype name: '' @ dt_name dt)), w)
      else and_then (sql_root (''SELECT id FROM ONLY '' @ single_record_id (dt_name dt) @ '';'') w) (\<lambda>existing w1.
        if existing \<noteq> JNull then seed_rows sql_root dts n w1
        else and_then (sql_root (''CREATE '' @ single_record_id (dt_name dt) @ '' SET status = 'Draft';'') w1)
               (\<lambda>_ w2. seed_rows sql_root dts (n + 1) w2)))"

definition seed_single_rows :: "'w sql \<Rightarrow> doctype_def list \<Rightarrow> 'w \<Rightarrow> (broker_error + nat) \<times> 'w" where
  "seed_single_rows sql_root doctypes w = seed_rows sql_root (filter dt_issingle doctypes) 0 w"

section \<open>Orphans\<close>

record sync_outcome =
  so_applied :: nat
  so_orphans :: "string list"

type_synonym field_history = "string \<rightharpoonup> (string, string) btree"

definition snapshot_fields :: "schema_snapshot \<Rightarrow> (string, string) btree" where
  "snapshot_fields snap =
     fold (\<lambda>ob m. bt_insert (so_name ob) (so_define_sql ob) m)
       (filter (\<lambda>ob. so_kind ob = Field) (map snd (sn_objects snap))) []"

text \<open>Rows come with the highest version first; the first with a snapshot counts.\<close>

fun history_rows :: "codec \<Rightarrow> json list \<Rightarrow> field_history \<Rightarrow> broker_error + field_history" where
  "history_rows cd [] out = Inr out"
| "history_rows cd (row # rows) out =
     (case json_str_at ''name'' row of
        None \<Rightarrow> history_rows cd rows out
      | Some name \<Rightarrow>
          (if out name \<noteq> None then history_rows cd rows out
           else case json_str_at ''snapshot'' row of
                  None \<Rightarrow> history_rows cd rows out
                | Some raw \<Rightarrow>
                    (case cd_snapshot_from_str cd raw of
                       Inl e \<Rightarrow> Inl (DbError (''corrupt schema snapshot for '' @ [CHR 0x27] @ name @ [CHR 0x27] @ '': '' @ e
                         @ '' '' @ em_dash @ '' refusing to guess what the schema used to be''))
                     | Inr snap \<Rightarrow> history_rows cd rows (out(name \<mapsto> snapshot_fields snap)))))"

definition history_fields ::
  "codec \<Rightarrow> (broker_error \<Rightarrow> string) \<Rightarrow> 'w sql \<Rightarrow> 'w \<Rightarrow> (broker_error + field_history) \<times> 'w" where
  "history_fields cd debug sql_root w =
     (case sql_root ''SELECT name, version, snapshot FROM _framework_migration ORDER BY version DESC;'' w of
        (Inl e, w1) \<Rightarrow>
          (if contains_str ([CHR 0x27] @ ''_framework_migration'' @ [CHR 0x27] @ '' does not exist'') (debug e)
           then (Inr (\<lambda>_. None), w1) else (Inl e, w1))
      | (Inr rows, w1) \<Rightarrow> (history_rows cd (json_rows rows) (\<lambda>_. None), w1))"

definition field_base :: "string \<Rightarrow> string" where
  "field_base field = hd (split_char CHR ''.'' field)"

text \<open>Is a recorded field appended to the desired schema?\<close>

definition is_carried :: "schema_snapshot \<Rightarrow> string option \<Rightarrow> string \<Rightarrow> bool" where
  "is_carried declared reclaiming field =
     (map_of (sn_objects declared) (''field:'' @ field_base field) = None \<and> reclaiming \<noteq> Some (field_base field))"

definition terminated :: "string \<Rightarrow> string" where
  "terminated schema =
     (let t = rev (trim_end_rev (rev schema)) in
      if t \<noteq> [] \<and> last t = CHR '';'' then schema else schema @ '';'')"

definition carry_orphans ::
  "resource_spec \<Rightarrow> field_history \<Rightarrow> string option \<Rightarrow> resource_spec \<times> string list" where
  "carry_orphans spec history reclaiming =
     (case history (rs_app spec @ ''__'' @ rs_name spec) of
        None \<Rightarrow> (spec, [])
      | Some fs \<Rightarrow>
          (let declared = from_sql (rs_name spec) (rs_schema spec);
               carried = filter (\<lambda>(field, _). is_carried declared reclaiming field) fs
           in (spec\<lparr>rs_schema := terminated (rs_schema spec) @ concat (map (\<lambda>(_, sql). sql @ '';'') carried)\<rparr>,
               filter (\<lambda>field. field_base field = field) (map fst carried))))"

definition is_orphan_refusal :: "string \<Rightarrow> bool" where
  "is_orphan_refusal message =
     (let m = map ascii_lower message in contains_str ''refusing destructive'' m \<and> contains_str ''remove field'' m)"

text \<open>The field names after each \<open>REMOVE FIELD\<close> of a message, in whatever case it is written.\<close>

function orphan_fields :: "string \<Rightarrow> string list" where
  "orphan_fields rest =
     (case split_str ''REMOVE FIELD '' (map ascii_upper rest) of
        None \<Rightarrow> []
      | Some (prior, _) \<Rightarrow>
          (let after = drop (length prior + 13) rest;
               name = takeWhile (\<lambda>c. is_alnum c \<or> c = CHR ''_'') after
           in (if name = [] then [] else [name]) @ orphan_fields (drop (length name) after)))"
  by pat_completeness auto
termination
proof (relation "measure length")
  fix rest x a b and after name :: string
  assume h: "split_str ''REMOVE FIELD '' (map ascii_upper rest) = Some x" "(a, b) = x"
    "after = drop (length a + 13) rest"
  then have "map ascii_upper rest = a @ ''REMOVE FIELD '' @ b" by (auto dest: split_str_Some)
  from arg_cong [OF this, of length] have "length rest = length a + 13 + length b" by simp
  with h(3) show "(drop (length name) after, rest) \<in> measure length" by simp
qed simp

declare orphan_fields.simps [simp del]

text \<open>The text after the last double underscore.\<close>

definition resource_doctype :: "string \<Rightarrow> string" where
  "resource_doctype name =
     (case split_str ''__'' (rev name) of None \<Rightarrow> name | Some (after, _) \<Rightarrow> rev after)"

section \<open>The sync\<close>

fun sync_specs ::
  "field_history \<Rightarrow> string list \<Rightarrow> (string \<times> string) option \<Rightarrow> doctype_def list
   \<Rightarrow> broker_error + resource_spec list \<times> string list" where
  "sync_specs history rollup_targets reclaim [] = Inr ([], [])"
| "sync_specs history rollup_targets reclaim (dt # dts) =
     (if (case reclaim of Some (target, _) \<Rightarrow> dt_name dt \<noteq> target | None \<Rightarrow> False)
      then sync_specs history rollup_targets reclaim dts
      else case doctype_spec_in dt rollup_targets of
        Inl e \<Rightarrow> Inl e
      | Inr spec0 \<Rightarrow>
          (let reclaiming = (case reclaim of Some (target, c) \<Rightarrow> (if dt_name dt = target then Some c else None)
                             | None \<Rightarrow> None) in
           case carry_orphans spec0 history reclaiming of
             (spec, found) \<Rightarrow>
               (case sync_specs history rollup_targets reclaim dts of
                  Inl e \<Rightarrow> Inl e
                | Inr (specs, orphans) \<Rightarrow>
                    Inr (spec # specs, map (\<lambda>f. dt_name dt @ ''.'' @ f) found @ orphans))))"

definition sync_options :: "(string \<times> string) option \<Rightarrow> migration_options" where
  "sync_options reclaim = (default_for Dev)\<lparr>mo_allow_destructive := (reclaim \<noteq> None)\<rparr>"

definition drift_orphans :: "migration_error list \<Rightarrow> string list" where
  "drift_orphans errors =
     concat (map (\<lambda>e. map (\<lambda>f. resource_doctype (me_name e) @ ''.'' @ f) (orphan_fields (me_message e)))
       (filter (\<lambda>e. is_orphan_refusal (me_message e)) errors))"

record ('c, 'w) sync_env =
  sy_codec :: codec
  sy_meta :: meta_codec
  sy_debug :: "broker_error \<Rightarrow> string"
  sy_base :: "'c resolved_tenant"
  sy_scoped_db :: "'c resolved_tenant \<Rightarrow> 'w conn"
  sy_sql_root :: "'w sql"
  sy_holder :: string
  sy_bump_meta :: "string \<Rightarrow> 'w \<Rightarrow> 'w"

definition sync_inner ::
  "('c, 'w) sync_env \<Rightarrow> (string \<times> string) option \<Rightarrow> 'w \<Rightarrow> (broker_error + sync_outcome) \<times> 'w" where
  "sync_inner ev reclaim w =
     (let sql_root = sy_sql_root ev; w0 = sy_bump_meta ev (rt_tenant_id (sy_base ev)) w in
      and_then (load_doctypes (sy_meta ev) sql_root w0) (\<lambda>doctypes w1.
      and_then (history_fields (sy_codec ev) (sy_debug ev) sql_root w1) (\<lambda>history w2.
      and_then (lift_res (sync_specs history (rollup_targets_of doctypes) reclaim doctypes) w2) (\<lambda>(specs, orphans) w3.
        case (if specs = [] then reclaim else None) of
          Some (target, _) \<Rightarrow> (Inl (InvalidValue (''unknown doctype '' @ [CHR 0x27] @ target @ [CHR 0x27])), w3)
        | None \<Rightarrow>
            (case migrate_tenant_with (sy_codec ev) (kernel_ctx (sy_scoped_db ev) (sy_base ev)) (sy_holder ev)
                    specs ''default'' (sync_options reclaim) w3 of
               (Inl e, w4) \<Rightarrow> (Inl (DbError (''metadata sync: '' @ e)), w4)
             | (Inr report, w4) \<Rightarrow>
                 and_then (seed_single_rows sql_root doctypes w4) (\<lambda>_ w5.
                   let fatal = filter (\<lambda>e. \<not> is_orphan_refusal (me_message e)) (rp_errors report) in
                   if fatal \<noteq> []
                   then (Inl (DbError (''metadata sync errors: '' @ debug_errors (sy_codec ev) fatal)), w5)
                   else (Inr \<lparr>so_applied = length (rp_applied report),
                              so_orphans = remdups_adj (sort (orphans @ drift_orphans (rp_errors report)))\<rparr>, w5)))))))"

definition sync :: "('c, 'w) sync_env \<Rightarrow> 'w \<Rightarrow> (broker_error + sync_outcome) \<times> 'w" where
  "sync ev w = sync_inner ev None w"

definition reclaim_column ::
  "('c, 'w) sync_env \<Rightarrow> string \<Rightarrow> string \<Rightarrow> 'w \<Rightarrow> (broker_error + unit) \<times> 'w" where
  "reclaim_column ev doctype column w =
     and_then (sync_inner ev (Some (doctype, column)) w) (\<lambda>out w1.
       if so_applied out = 0
       then (Inl (DbError (''reclaim of '' @ [CHR 0x27] @ doctype @ ''.'' @ column @ [CHR 0x27] @ '' applied nothing ''
              @ em_dash @ '' the column is not in this DocType's applied schema'')), w1)
       else (Inr (), w1))"

end
