(* ===== verification/Statements.thy ===== *)
theory Statements
  imports Schema_Exec
begin

text \<open>
  How texts of statements come apart when they are put together: the state of the engine's splitter
  after a text, statements it keeps whole, and what a snapshot makes of appended statements.
\<close>

section \<open>The state after a text\<close>

fun end_state :: "nat \<Rightarrow> bool \<Rightarrow> string \<Rightarrow> (nat \<times> bool) option" where
  "end_state d b [] = Some (d, b)"
| "end_state d b (c # s) =
     (if c = CHR 0x5C \<and> b then (case s of [] \<Rightarrow> None | e # s' \<Rightarrow> end_state d b s')
      else if c = CHR 0x27 then end_state d (\<not> b) s
      else if c = CHR ''{'' \<and> \<not> b then end_state (d + 1) b s
      else if c = CHR ''}'' \<and> \<not> b then end_state (d - 1) b s
      else end_state d b s)"

text \<open>Every string and every brace of the text is closed.\<close>

definition whole_text :: "string \<Rightarrow> bool" where
  "whole_text s = (end_state 0 False s = Some (0, False))"

lemma split_from_end:
  "end_state d b s = Some (0, False) \<Longrightarrow>
   split_from d b seg (s @ CHR '';'' # rest) = split_from d b seg (s @ '';'') @ split_from 0 False [] rest"
proof (induction d b s arbitrary: seg rule: end_state.induct)
  case (2 d b c s)
  consider (esc) "c = CHR 0x5C" "b" | (quote) "c = CHR 0x27" | (str) "b" "c \<noteq> CHR 0x5C" "c \<noteq> CHR 0x27"
    | (op) "\<not> b" "c = CHR ''{''" | (cl) "\<not> b" "c = CHR ''}''" | (semi) "\<not> b" "c = CHR '';''" "d = 0"
    | (other) "\<not> b" "c \<noteq> CHR 0x27" "c \<noteq> CHR ''{''" "c \<noteq> CHR ''}''" "c \<noteq> CHR '';'' \<or> d \<noteq> 0"
    by blast
  then show ?case
  proof cases
    case esc
    with 2 show ?thesis by (cases s) simp_all
  next
    case other
    with 2 show ?thesis by auto
  qed (use 2 in simp_all)
qed simp

lemma end_state_semicolon:
  "end_state d b (s @ '';'') = Some (0, False) \<Longrightarrow> end_state d b s = Some (0, False)"
proof (induction d b s rule: end_state.induct)
  case (2 d b c s)
  consider (esc) "c = CHR 0x5C" "b" | (quote) "c = CHR 0x27" | (str) "b" "c \<noteq> CHR 0x5C" "c \<noteq> CHR 0x27"
    | (op) "\<not> b" "c = CHR ''{''" | (cl) "\<not> b" "c = CHR ''}''" | (semi) "\<not> b" "c = CHR '';''" "d = 0"
    | (other) "\<not> b" "c \<noteq> CHR 0x27" "c \<noteq> CHR ''{''" "c \<noteq> CHR ''}''" "c \<noteq> CHR '';'' \<or> d \<noteq> 0"
    by blast
  then show ?case
  proof cases
    case esc
    with 2 show ?thesis by (cases s) simp_all
  next
    case other
    with 2 show ?thesis by auto
  qed (use 2 in simp_all)
qed simp

lemma trim_Nil [simp]: "trim [] = []"
  by (simp add: trim_def trim_start.simps trim_end_rev.simps)

lemma add_statement_Nil [simp]: "add_statement [] m = m"
  by (simp add: add_statement_def)

lemma fold_split_semicolon:
  "end_state d b s = Some (0, False) \<Longrightarrow>
   fold add_statement (split_from d b seg (s @ '';'')) m = fold add_statement (split_from d b seg s) m"
proof (induction d b seg s arbitrary: m rule: split_from.induct)
  case (1 d b seg)
  then show ?case by (simp add: add_statement_Nil)
next
  case (2 d b seg c s)
  consider (esc) "c = CHR 0x5C" "b" | (quote) "c = CHR 0x27" | (str) "b" "c \<noteq> CHR 0x5C" "c \<noteq> CHR 0x27"
    | (op) "\<not> b" "c = CHR ''{''" | (cl) "\<not> b" "c = CHR ''}''" | (semi) "\<not> b" "c = CHR '';''" "d = 0"
    | (other) "\<not> b" "c \<noteq> CHR 0x27" "c \<noteq> CHR ''{''" "c \<noteq> CHR ''}''" "c \<noteq> CHR '';'' \<or> d \<noteq> 0"
    by blast
  then show ?case
  proof cases
    case esc
    with 2 show ?thesis by (cases s) simp_all
  next
    case other
    with 2 show ?thesis by auto
  qed (use 2 in simp_all)
qed

section \<open>Statements that the splitter keeps whole\<close>

text \<open>
  The splitter's state across a text that holds no statement end at depth 0 and no backslash in a
  string.
\<close>

fun scan :: "nat \<times> bool \<Rightarrow> string \<Rightarrow> (nat \<times> bool) option" where
  "scan st [] = Some st"
| "scan (d, True) (c # s) = (if c = CHR 0x5C then None else scan (d, c \<noteq> CHR 0x27) s)"
| "scan (d, False) (c # s) =
     (if c = CHR 0x27 then scan (d, True) s
      else if c = CHR ''{'' then scan (d + 1, False) s
      else if c = CHR ''}'' then scan (d - 1, False) s
      else if c = CHR '';'' \<and> d = 0 then None
      else scan (d, False) s)"

definition plain_char :: "char \<Rightarrow> bool" where
  "plain_char c = (c \<noteq> CHR 0x27 \<and> c \<noteq> CHR 0x5C \<and> c \<noteq> CHR ''{'' \<and> c \<noteq> CHR ''}'' \<and> c \<noteq> CHR '';'')"

lemma split_from_scan:
  "scan (d, b) s = Some (d', b') \<Longrightarrow> split_from d b seg (s @ rest) = split_from d' b' (seg @ s) rest"
proof (induction "(d, b)" s arbitrary: d b seg rule: scan.induct)
  case (2 d c s)
  then show ?case by (auto split: if_splits)
next
  case (3 d c s)
  then show ?case by (auto split: if_splits)
qed simp

lemma scan_append: "scan st (a @ b) = Option.bind (scan st a) (\<lambda>st. scan st b)"
  by (induction st a rule: scan.induct) auto

lemma scan_plain: "list_all plain_char s \<Longrightarrow> scan st s = Some st"
  by (induction st s rule: scan.induct) (auto simp: plain_char_def)

definition closed_stmt :: "string \<Rightarrow> bool" where
  "closed_stmt s = (scan (0, False) s = Some (0, False))"

lemma split_closed:
  "list_all closed_stmt sqls \<Longrightarrow> split_from 0 False [] (concat (map (\<lambda>s. s @ '';'') sqls)) = sqls"
proof (induction sqls)
  case (Cons s sqls)
  then have "split_from 0 False [] (s @ CHR '';'' # concat (map (\<lambda>s. s @ '';'') sqls))
      = split_from 0 False ([] @ s) (CHR '';'' # concat (map (\<lambda>s. s @ '';'') sqls))"
    by (intro split_from_scan) (simp add: closed_stmt_def)
  with Cons show ?case by simp
qed simp

text \<open>A snapshot of a whole text with closed statements after it.\<close>

lemma from_sql_appended:
  assumes "whole_text s" and "list_all closed_stmt sqls"
  shows "sn_objects (from_sql t (s @ '';'' @ concat (map (\<lambda>s. s @ '';'') sqls)))
       = fold add_statement sqls (sn_objects (from_sql t s))"
proof -
  define added where "added = concat (map (\<lambda>s. s @ '';'') sqls)"
  have "split_from 0 False [] added = sqls"
    unfolding added_def by (rule split_closed [OF assms(2)])
  moreover have "split_from 0 False [] (s @ CHR '';'' # added)
      = split_from 0 False [] (s @ '';'') @ split_from 0 False [] added"
    by (rule split_from_end) (rule assms(1) [unfolded whole_text_def])
  ultimately have "split_from 0 False [] (s @ CHR '';'' # added) = split_from 0 False [] (s @ '';'') @ sqls"
    by simp
  moreover have "fold add_statement (split_from 0 False [] (s @ '';'')) [] = fold add_statement (split_from 0 False [] s) []"
    by (rule fold_split_semicolon) (rule assms(1) [unfolded whole_text_def])
  ultimately show ?thesis
    by (simp add: from_sql_def split_statements_def added_def [symmetric])
qed

text \<open>Adding recorded objects.\<close>

lemma add_recorded:
  assumes "parse_define sql = Some ob" and "trim sql = sql"
  shows "add_statement sql m = bt_insert (key ob) ob m"
proof -
  have "parse_define [] = None"
    by (simp add: parse_define_def define_head_def split_ws_def split_ws_from.simps)
  with assms(1) have "sql \<noteq> []" by (intro notI) simp
  with assms show ?thesis by (simp add: add_statement_def)
qed

lemma fold_recorded:
  assumes "list_all (\<lambda>ob. parse_define (so_define_sql ob) = Some ob \<and> trim (so_define_sql ob) = so_define_sql ob) obs"
  shows "fold add_statement (map so_define_sql obs) m = fold (\<lambda>ob. bt_insert (key ob) ob) obs m"
  using assms
proof (induction obs arbitrary: m)
  case (Cons ob obs)
  then have "add_statement (so_define_sql ob) m = bt_insert (key ob) ob m" for m
    by (intro add_recorded) simp_all
  with Cons show ?case by simp
qed simp

lemma fold_insert_lookup:
  assumes "bt_invar m" and "distinct (map f xs)"
  shows "bt_invar (fold (\<lambda>x. bt_insert (f x) (g x)) xs m)"
    and "map_of (fold (\<lambda>x. bt_insert (f x) (g x)) xs m) k
       = (case find (\<lambda>x. f x = k) xs of Some x \<Rightarrow> Some (g x) | None \<Rightarrow> map_of m k)"
proof -
  have "bt_invar (fold (\<lambda>x. bt_insert (f x) (g x)) xs m)
    \<and> map_of (fold (\<lambda>x. bt_insert (f x) (g x)) xs m) k
       = (case find (\<lambda>x. f x = k) xs of Some x \<Rightarrow> Some (g x) | None \<Rightarrow> map_of m k)"
    using assms
  proof (induction xs arbitrary: m)
    case (Cons x xs)
    have "find (\<lambda>x. f x = k) xs = None" if "f x = k"
      using that Cons.prems(2) by (auto simp: find_None_iff image_iff)
    with Cons show ?case by (auto simp: bt_simps split: option.split)
  qed simp
  then show "bt_invar (fold (\<lambda>x. bt_insert (f x) (g x)) xs m)"
    and "map_of (fold (\<lambda>x. bt_insert (f x) (g x)) xs m) k
       = (case find (\<lambda>x. f x = k) xs of Some x \<Rightarrow> Some (g x) | None \<Rightarrow> map_of m k)" by auto
qed

lemma find_distinct:
  assumes "distinct (map f xs)" and "x \<in> set xs" and "f x = k"
  shows "find (\<lambda>x. f x = k) xs = Some x"
  using assms by (induction xs) (auto simp: image_iff)

end
