(* ===== verification/Sync_Proofs.thy ===== *)
theory Sync_Proofs
  imports Sync_Run Statements Doctype Classify
begin

text \<open>What carrying recorded columns does to the desired schema and to the difference the engine sees.\<close>

section \<open>The recorded fields\<close>

lemma snapshot_fields_lookup:
  assumes "wf_snapshot old"
  shows "bt_invar (snapshot_fields old)"
    and "map_of (snapshot_fields old) n = map_option so_define_sql (map_of (sn_objects old) (okey Field n))"
proof -
  let ?obs = "filter (\<lambda>ob. so_kind ob = Field) (map snd (sn_objects old))"
  have mem: "(k, ob) \<in> set (sn_objects old) \<longleftrightarrow> map_of (sn_objects old) k = Some ob" for k ob
    using wf_mem [OF assms] .
  have keys: "map fst (sn_objects old) = map key (map snd (sn_objects old))"
    using assms by (auto simp: wf_objects_def)
  have "distinct (map fst (sn_objects old))"
    using assms by (simp add: wf_objects_def bt_invar_def)
  then have dk: "distinct (map key ?obs)"
    unfolding keys by (simp add: distinct_map_filter)
  then have dn: "distinct (map so_name ?obs)"
    by (auto simp: distinct_map inj_on_def key_def)
  have inv: "bt_invar []" by (simp add: bt_invar_def)
  show "bt_invar (snapshot_fields old)"
    unfolding snapshot_fields_def by (rule fold_insert_lookup(1) [OF inv dn])
  have "map_of (snapshot_fields old) n
      = (case find (\<lambda>ob. so_name ob = n) ?obs of Some ob \<Rightarrow> Some (so_define_sql ob) | None \<Rightarrow> None)"
    unfolding snapshot_fields_def using fold_insert_lookup(2) [OF inv dn, of so_define_sql n]
    by (simp only: map_of.simps)
  also have "\<dots> = map_option so_define_sql (map_of (sn_objects old) (okey Field n))"
  proof (cases "map_of (sn_objects old) (okey Field n)")
    case None
    have "find (\<lambda>ob. so_name ob = n) ?obs = None"
      unfolding find_None_iff
    proof (clarsimp)
      fix k ob
      assume "(k, ob) \<in> set (sn_objects old)" "so_kind ob = Field" "n = so_name ob"
      with None show False using wf_lookup [OF assms, of k ob] by (simp add: mem key_def)
    qed
    with None show ?thesis by simp
  next
    case (Some ob)
    then have "okey Field n = key ob" using wf_lookup [OF assms] by blast
    then have ob: "so_kind ob = Field" "so_name ob = n" by (auto simp: key_def okey_inject)
    have "ob \<in> set ?obs" using Some ob mem by force
    from find_distinct [OF dn this] ob Some show ?thesis by simp
  qed
  finally show "map_of (snapshot_fields old) n = map_option so_define_sql (map_of (sn_objects old) (okey Field n))" .
qed

text \<open>Recorded field statements that can be appended: closed texts without outer white space.\<close>

definition appendable :: "schema_snapshot \<Rightarrow> bool" where
  "appendable old =
     list_all (\<lambda>(_, ob). so_kind ob = Field \<longrightarrow> closed_stmt (so_define_sql ob) \<and> trim (so_define_sql ob) = so_define_sql ob)
       (sn_objects old)"

lemma recorded_field:
  assumes "wf_snapshot old" and "appendable old" and "(n, sql) \<in> set (snapshot_fields old)"
  shows "map_of (sn_objects old) (okey Field n) = Some \<lparr>so_kind = Field, so_name = n, so_define_sql = sql\<rparr>"
    and "parse_define sql = Some \<lparr>so_kind = Field, so_name = n, so_define_sql = sql\<rparr>"
    and "closed_stmt sql" and "trim sql = sql"
proof -
  from assms(3) have "map_of (snapshot_fields old) n = Some sql"
    using bt.in_entries_iff [OF snapshot_fields_lookup(1) [OF assms(1)]] by simp
  then obtain ob where ob: "map_of (sn_objects old) (okey Field n) = Some ob" "so_define_sql ob = sql"
    using snapshot_fields_lookup(2) [OF assms(1)] by auto
  from wf_lookup [OF assms(1) ob(1)] ob(2) have p: "okey Field n = key ob" "parse_define sql = Some ob"
    by simp_all
  then have eq: "ob = \<lparr>so_kind = Field, so_name = n, so_define_sql = sql\<rparr>"
    using ob(2) by (cases ob) (auto simp: key_def okey_inject)
  from ob(1) eq show "map_of (sn_objects old) (okey Field n) = Some \<lparr>so_kind = Field, so_name = n, so_define_sql = sql\<rparr>"
    by simp
  from p(2) eq show "parse_define sql = Some \<lparr>so_kind = Field, so_name = n, so_define_sql = sql\<rparr>" by simp
  have "(okey Field n, ob) \<in> set (sn_objects old)" using ob(1) by (rule map_of_SomeD)
  with assms(2) eq show "closed_stmt sql" "trim sql = sql"
    by (fastforce simp: appendable_def list_all_iff)+
qed

section \<open>The carried schema\<close>

lemma terminated_ends:
  assumes "s \<noteq> []" and "ascii_nonws (last s)" and "whole_text s"
  obtains s' where "terminated s = s' @ '';''" "whole_text s'"
    "\<And>t. sn_objects (from_sql t s') = sn_objects (from_sql t s)"
proof (cases "last s = CHR '';''")
  case True
  then obtain s' where s: "s = s' @ '';''" using assms(1) by (metis append_butlast_last_id)
  have w: "end_state 0 False s' = Some (0, False)"
    using assms(3) end_state_semicolon [of 0 False s'] by (simp only: s whole_text_def)
  have "rev (trim_end_rev (rev s)) = s"
    using assms(1,2) by (subst trim_end_rev.simps) (cases "rev s", auto simp: ws_len_end_ascii last_rev hd_rev [symmetric])
  then have "terminated s = s" using True assms(1) by (simp add: terminated_def)
  moreover have "sn_objects (from_sql t s') = sn_objects (from_sql t s)" for t
    unfolding s using fold_split_semicolon [OF w, of "[]" "[]"] by (simp add: from_sql_def split_statements_def)
  ultimately show thesis using that [of s'] w s by (simp add: whole_text_def)
next
  case False
  have "rev (trim_end_rev (rev s)) = s"
    using assms(1,2) by (subst trim_end_rev.simps) (cases "rev s", auto simp: ws_len_end_ascii last_rev hd_rev [symmetric])
  then have "terminated s = s @ '';''" using False by (simp add: terminated_def)
  then show thesis using that [of s] assms(3) by simp
qed

theorem carried_schema:
  assumes "wf_snapshot old" and "appendable old"
    and "history (rs_app spec @ ''__'' @ rs_name spec) = Some (snapshot_fields old)"
    and "rs_schema spec \<noteq> []" and "ascii_nonws (last (rs_schema spec))" and "whole_text (rs_schema spec)"
    and "declared = from_sql (rs_name spec) (rs_schema spec)"
    and "carry_orphans spec history reclaiming = (spec', orphans)"
  shows "map_of (sn_objects (from_sql (rs_name spec') (rs_schema spec'))) k =
    (if \<exists>n. k = okey Field n \<and> n \<in> fst ` set (snapshot_fields old) \<and> is_carried declared reclaiming n
     then map_of (sn_objects old) k else map_of (sn_objects declared) k)"
proof -
  let ?fs = "snapshot_fields old"
  define carried where "carried = filter (\<lambda>(n, _). is_carried declared reclaiming n) ?fs"
  define obs where "obs = map (\<lambda>(n, sql). \<lparr>so_kind = Field, so_name = n, so_define_sql = sql\<rparr>) carried"
  have spec': "rs_name spec' = rs_name spec"
    "rs_schema spec' = terminated (rs_schema spec) @ concat (map (\<lambda>s. s @ '';'') (map so_define_sql obs))"
    using assms(3,7,8) by (auto simp: carry_orphans_def carried_def obs_def case_prod_unfold o_def Let_def)
  obtain s' where s': "terminated (rs_schema spec) = s' @ '';''" "whole_text s'"
    "\<And>t. sn_objects (from_sql t s') = sn_objects (from_sql t (rs_schema spec))"
    using terminated_ends [OF assms(4-6)] by metis
  have rec: "parse_define (so_define_sql ob) = Some ob" "closed_stmt (so_define_sql ob)"
    "trim (so_define_sql ob) = so_define_sql ob" "map_of (sn_objects old) (key ob) = Some ob"
    "so_name ob \<in> fst ` set ?fs" "is_carried declared reclaiming (so_name ob)" "key ob = okey Field (so_name ob)"
    if "ob \<in> set obs" for ob
    using that recorded_field [OF assms(1,2)] by (force simp: obs_def carried_def key_def)+
  have "sn_objects (from_sql (rs_name spec') (rs_schema spec')) = fold add_statement (map so_define_sql obs) (sn_objects declared)"
    using from_sql_appended [OF s'(2), of "map so_define_sql obs" "rs_name spec"] rec(2) s'(3) [of "rs_name spec"]
    by (simp add: spec' s'(1) assms(7) list_all_iff)
  also have "\<dots> = fold (\<lambda>ob. bt_insert (key ob) ob) obs (sn_objects declared)"
    using rec by (intro fold_recorded) (simp add: list_all_iff)
  finally have objs: "sn_objects (from_sql (rs_name spec') (rs_schema spec')) = \<dots>" .
  have "distinct (map fst ?fs)" using snapshot_fields_lookup(1) [OF assms(1)] by (simp add: bt_invar_def)
  then have "distinct (map fst carried)" by (simp add: carried_def distinct_map_filter)
  then have dist: "distinct (map key obs)"
    unfolding obs_def by (fastforce simp: distinct_map inj_on_def key_def okey_inject)
  have inv: "bt_invar (sn_objects declared)"
    using from_sql_wf [of "rs_name spec" "rs_schema spec"] by (simp add: assms(7) wf_objects_def)
  have look: "map_of (sn_objects (from_sql (rs_name spec') (rs_schema spec'))) k =
      (case find (\<lambda>ob. key ob = k) obs of Some ob \<Rightarrow> Some ob | None \<Rightarrow> map_of (sn_objects declared) k)"
    unfolding objs using fold_insert_lookup(2) [OF inv dist, of "\<lambda>ob. ob" k] by simp
  show ?thesis
  proof (cases "\<exists>n. k = okey Field n \<and> n \<in> fst ` set ?fs \<and> is_carried declared reclaiming n")
    case True
    then obtain n sql where n: "k = okey Field n" "(n, sql) \<in> set ?fs" "is_carried declared reclaiming n" by auto
    then have mem: "\<lparr>so_kind = Field, so_name = n, so_define_sql = sql\<rparr> \<in> set obs"
      by (auto simp: obs_def carried_def)
    have "find (\<lambda>ob. key ob = k) obs = Some \<lparr>so_kind = Field, so_name = n, so_define_sql = sql\<rparr>"
      by (rule find_distinct [OF dist mem]) (simp add: n(1) key_def)
    with True look recorded_field(1) [OF assms(1,2) n(2)] n(1) show ?thesis by simp
  next
    case False
    have "find (\<lambda>ob. key ob = k) obs = None"
      unfolding find_None_iff using False rec(5-7) by blast
    then show ?thesis unfolding if_not_P [OF False] look by simp
  qed
qed

text \<open>What the engine then wants to drop.\<close>

lemma carried_drops:
  assumes "wf_snapshot old" and "appendable old"
    and "history (rs_app spec @ ''__'' @ rs_name spec) = Some (snapshot_fields old)"
    and "rs_schema spec \<noteq> []" and "ascii_nonws (last (rs_schema spec))" and "whole_text (rs_schema spec)"
    and "declared = from_sql (rs_name spec) (rs_schema spec)"
    and "carry_orphans spec history reclaiming = (spec', orphans)"
    and "new = from_sql (rs_name spec') (rs_schema spec')"
  shows "''REMOVE FIELD '' @ n \<in> set (destructive (diff old new)) \<longleftrightarrow>
     map_of (sn_objects old) (okey Field n) \<noteq> None \<and> map_of (sn_objects declared) (okey Field n) = None
     \<and> \<not> is_carried declared reclaiming n"
proof -
  have rec: "n \<in> fst ` set (snapshot_fields old) \<longleftrightarrow> map_of (sn_objects old) (okey Field n) \<noteq> None"
    using map_of_eq_None_iff [of "snapshot_fields old" n] snapshot_fields_lookup(2) [OF assms(1), of n] by auto
  have new: "map_of (sn_objects new) (okey Field n) =
    (if n \<in> fst ` set (snapshot_fields old) \<and> is_carried declared reclaiming n
     then map_of (sn_objects old) (okey Field n) else map_of (sn_objects declared) (okey Field n))"
    unfolding assms(9) using carried_schema [OF assms(1-8), of "okey Field n"] by (simp add: okey_inject)
  have "''REMOVE FIELD '' @ n \<in> set (destructive (diff old new)) \<longleftrightarrow>
      \<lparr>do_kind = Field, do_name = n\<rparr> \<in> set (sd_drops (diff old new))"
    by (auto simp: destructive_def image_iff) (metis dropped_object.surjective old.unit.exhaust)
  also have "\<dots> \<longleftrightarrow> map_of (sn_objects old) (okey Field n) \<noteq> None \<and> map_of (sn_objects new) (okey Field n) = None"
    using drops_iff [OF assms(1), of "\<lparr>do_kind = Field, do_name = n\<rparr>" new] wf_lookup [OF assms(1), of "okey Field n"]
    by (auto simp: key_def okey_inject)
  finally show ?thesis using new rec by auto
qed

text \<open>
  What the migration engine makes of the field statements the kernel compiles: they name their table
  as \<open>ON t\<close>, which the engine's field parser does not read, so every change of such a field is
  classified without being understood.
\<close>

section \<open>The tokens of a field statement\<close>

lemma words_tokens:
  "is_token ''DEFINE''" "is_token ''FIELD''" "is_token ''OVERWRITE''" "is_token ''ON''"
  by (rule is_token_ascii; code_simp)+

lemma split_ws_define:
  assumes "is_token n" and "is_token t"
  shows "split_ws (define_field n t d) = [''DEFINE'', ''FIELD'', ''OVERWRITE'', n, ''ON'', t] @ split_ws d"
proof -
  have step: "split_ws (x @ CHR '' '' # s) = x # split_ws s" if "is_token x" for x s
    using that split_ws_token [of x s] by (simp add: is_token_def)
  have "define_field n t d = ''DEFINE'' @ CHR '' '' # (''FIELD'' @ CHR '' '' # (''OVERWRITE'' @ CHR '' ''
      # (n @ CHR '' '' # (''ON'' @ CHR '' '' # (t @ CHR '' '' # d)))))"
    by (simp add: define_field_def)
  then have "split_ws (define_field n t d) = ''DEFINE'' # ''FIELD'' # ''OVERWRITE'' # n # ''ON'' # t # split_ws d"
    by (simp only: step [OF words_tokens(1)] step [OF words_tokens(2)] step [OF words_tokens(3)]
      step [OF words_tokens(4)] step [OF assms(1)] step [OF assms(2)])
  then show ?thesis by simp
qed

lemma ident_token:
  assumes "ident_ok n"
  shows "is_token n" and "is_token (n @ ''.*'')"
proof -
  have "ascii_nonws c" if "is_alnum c \<or> c = CHR ''_''" for c
    using that
    by (rule all_chars [of "\<lambda>c. is_alnum c \<or> c = CHR ''_'' \<longrightarrow> ascii_nonws c", THEN mp, rotated]) code_simp
  then have "list_all ascii_nonws n"
    using assms unfolding ident_ok_def by (elim conjE list.pred_mono_strong)
  moreover have "list_all ascii_nonws ''.*''" by code_simp
  ultimately have "list_all ascii_nonws n" "list_all ascii_nonws (n @ ''.*'')"
    by (simp_all only: list_all_append)
  then show "is_token n" "is_token (n @ ''.*'')"
    using assms unfolding ident_ok_def by (blast intro: is_token_ascii)+
qed

section \<open>The engine does not parse it\<close>

definition plain_end :: "string \<Rightarrow> bool" where
  "plain_end d = (d \<noteq> [] \<and> ascii_nonws (last d) \<and> last d \<noteq> CHR '';'')"

lemma define_field_unparsed:
  assumes "is_token n" and "is_token t" and "\<not> eq_ignore_case t ''TABLE''" and "plain_end d"
  shows "field_parse (define_field n t d) = None"
proof -
  let ?s = "define_field n t d"
  have last: "?s \<noteq> []" "last ?s = last d"
    using assms(4) by (auto simp: define_field_def plain_end_def)
  have s: "?s = CHR ''D'' # (butlast (tl ?s)) @ [last d]"
  proof -
    have "?s = CHR ''D'' # tl ?s" "tl ?s \<noteq> []" by (simp_all add: define_field_def)
    moreover have "last (tl ?s) = last d" using last calculation by (metis last_ConsR)
    ultimately show ?thesis by (metis append_butlast_last_id)
  qed
  have "ascii_nonws CHR ''D''" by code_simp
  then have "trimmed ?s" using assms(4) by (subst s) (rule trimmed_ascii, simp_all add: plain_end_def)
  then have trim: "trim ?s = ?s" by (rule trim_trimmed_id)
  have "rev ?s = last d # rev (butlast ?s)"
    using last by (metis append_butlast_last_id rev_eq_Cons_iff rev_rev_ident rev.simps(2))
  then have "trim_end_semis ?s = rev (last d # rev (butlast ?s))"
    using assms(4) by (simp only: trim_end_semis_def dropWhile.simps plain_end_def if_False)
  also have "\<dots> = ?s" using append_butlast_last_id [OF last(1)] last(2) by simp
  finally have "trim_end_semis ?s = ?s" .
  then have "field_parse ?s = parse_tokens ([''DEFINE'', ''FIELD'', ''OVERWRITE'', n, ''ON'', t] @ split_ws d)"
    using trim by (simp only: field_parse_def split_ws_define [OF assms(1,2)])
  moreover have "eq_ignore_case ''DEFINE'' ''DEFINE''" "eq_ignore_case ''FIELD'' ''FIELD''"
    "eq_ignore_case ''OVERWRITE'' ''OVERWRITE''" "eq_ignore_case ''ON'' ''ON''"
    by (simp_all add: eq_ignore_case_def)
  ultimately show ?thesis
    using assms(3) by (simp add: parse_tokens_def get_def)
qed

lemma field_type_end:
  assumes "field_type_ddl req f = Inr d"
  shows "plain_end d"
proof -
  have "ascii_nonws CHR ''>''" "ascii_nonws CHR ''c''" "ascii_nonws CHR '']''" "ascii_nonws CHR ''0''"
    by code_simp+
  then show ?thesis
    using assms by (auto simp: field_type_ddl_def plain_end_def Let_def split: if_splits list.splits)
qed

lemma field_ddl_unparsed:
  assumes "field_ddl dt f = Inr ss" and "ident_ok (dt_name dt)" and "\<not> eq_ignore_case (dt_name dt) ''TABLE''"
  shows "list_all (\<lambda>s. field_parse s = None) ss"
proof -
  let ?n = "fd_fieldname f"
  have n: "ident_ok ?n" using assms(1) by (auto simp: field_ddl_def Let_def split: if_splits)
  have ends: "plain_end ''TYPE option<array<object>>''" "plain_end ''TYPE object FLEXIBLE''"
    by code_simp+
  have "ss = [define_field ?n (dt_name dt) ''TYPE option<array<object>>'',
              define_field (?n @ ''.*'') (dt_name dt) ''TYPE object FLEXIBLE'']
      \<or> (\<exists>d. plain_end d \<and> ss = [define_field ?n (dt_name dt) d])"
    using assms(1) field_type_end
    by (auto simp: field_ddl_def Let_def split: if_splits option.splits sum.splits)
  then show ?thesis
    using define_field_unparsed ident_token [OF n] ident_token [OF assms(2)] assms(3) ends by auto
qed

section \<open>Changes that are not understood\<close>

definition not_understood :: "schema_snapshot \<Rightarrow> bool" where
  "not_understood s = list_all (\<lambda>(_, ob). so_kind ob = Field \<longrightarrow> parse_field ob = None) (sn_objects s)"

lemma unparsed_changes_blocked:
  assumes "not_understood old" and "not_understood new"
  shows "list_all (\<lambda>e. fe_change e = Conservative \<and> fe_class e = Blocked) (fr_entries (classify_diff old new))"
proof -
  let ?ok = "\<lambda>r. list_all (\<lambda>e. fe_change e = Conservative \<and> fe_class e = Blocked) (fr_entries r)"
  have fold_ok: "?ok (fold f es r)" if "\<And>e r. e \<in> set es \<Longrightarrow> ?ok r \<Longrightarrow> ?ok (f e r)" "?ok r"
    for f :: "string \<times> schema_object \<Rightarrow> field_change_report \<Rightarrow> field_change_report" and es r
    using that by (induction es arbitrary: r) auto
  have new: "?ok (classify_new_object m tn e r)" if "e \<in> set (sn_objects new)" "?ok r" for m tn e r
    using that assms(2)
    by (auto simp: classify_new_object_def push_conservative_def not_understood_def list_all_iff Let_def
        split: option.splits)
  have old: "?ok (classify_old_object m e r)" if "e \<in> set (sn_objects old)" "?ok r" for m e r
    using that assms(1)
    by (auto simp: classify_old_object_def push_conservative_def not_understood_def list_all_iff Let_def
        split: option.splits)
  have "?ok report_default" by (simp add: report_default_def)
  then show ?thesis
    unfolding classify_diff_def Let_def by (intro fold_ok new old)
qed

end
