(* ===== verification/Props_Sync.thy ===== *)
theory Props_Sync
  imports Sync_Proofs Fleet_Demo
begin

text \<open>Properties of the metadata sync and of the tenancy it runs in.\<close>

section \<open>Carried columns\<close>

text \<open>C4: the sync never wants to drop a column because no DocType declares it any more: of the columns the
  history records, the difference the engine sees drops exactly those that the compiled schema lacks and
  that are being reclaimed or are children of a field it still declares.\<close>

theorem sync_carries_orphans:
  assumes "wf_snapshot old" and "appendable old"
    and "history (rs_app spec @ ''__'' @ rs_name spec) = Some (snapshot_fields old)"
    and "rs_schema spec \<noteq> []" and "ascii_nonws (last (rs_schema spec))" and "whole_text (rs_schema spec)"
    and "declared = from_sql (rs_name spec) (rs_schema spec)"
    and "carry_orphans spec history reclaiming = (spec', orphans)"
    and "new = from_sql (rs_name spec') (rs_schema spec')"
  shows "''REMOVE FIELD '' @ n \<in> set (destructive (diff old new)) \<longleftrightarrow>
     map_of (sn_objects old) (okey Field n) \<noteq> None \<and> map_of (sn_objects declared) (okey Field n) = None
     \<and> (reclaiming = Some (field_base n) \<or> map_of (sn_objects declared) (okey Field (field_base n)) \<noteq> None)"
  using carried_drops [OF assms] by (auto simp: is_carried_def okey_def keyword_def)

definition old_lines :: schema_snapshot where
  "old_lines = from_sql ''inv'' (''DEFINE FIELD OVERWRITE lines ON inv TYPE option<array<object>>;''
     @ ''DEFINE FIELD OVERWRITE lines.* ON inv TYPE object FLEXIBLE;DEFINE FIELD OVERWRITE note ON inv TYPE string'')"

definition retyped :: resource_spec where
  "retyped = \<lparr>rs_app = ''app'', rs_name = ''inv'',
     rs_schema = ''DEFINE TABLE OVERWRITE inv;DEFINE FIELD OVERWRITE lines ON inv TYPE option<string>'', rs_deps = []\<rparr>"

text \<open>A child table field that became a text field: the sync drops its children, and nothing else.\<close>

theorem sync_carries_orphans_witness:
  "''REMOVE FIELD '' @ ''lines.*'' \<in> set (destructive (diff old_lines (from_sql ''inv''
      (rs_schema (fst (carry_orphans retyped (\<lambda>_. Some (snapshot_fields old_lines)) None))))))
   \<and> ''REMOVE FIELD '' @ ''note'' \<notin> set (destructive (diff old_lines (from_sql ''inv''
      (rs_schema (fst (carry_orphans retyped (\<lambda>_. Some (snapshot_fields old_lines)) None))))))"
proof -
  have w: "appendable old_lines" "rs_schema retyped \<noteq> []" "ascii_nonws (last (rs_schema retyped))"
    "whole_text (rs_schema retyped)"
    by code_simp+
  have o: "map_of (sn_objects old_lines) (okey Field ''lines.*'') \<noteq> None"
    "map_of (sn_objects (from_sql ''inv'' (rs_schema retyped))) (okey Field ''lines.*'') = None"
    "map_of (sn_objects (from_sql ''inv'' (rs_schema retyped))) (okey Field (field_base ''lines.*'')) \<noteq> None"
    "map_of (sn_objects (from_sql ''inv'' (rs_schema retyped))) (okey Field (field_base ''note'')) = None"
    by code_simp+
  have name: "rs_name retyped = ''inv''" by (simp add: retyped_def)
  have name': "rs_name (fst (carry_orphans retyped h r)) = ''inv''" for h r
    by (simp add: carry_orphans_def name case_prod_unfold Let_def split: option.split)
  have wf: "wf_snapshot old_lines" unfolding old_lines_def by (rule from_sql_wf)
  note inst = sync_carries_orphans [OF wf w(1), of "\<lambda>_. Some (snapshot_fields old_lines)" retyped, OF refl w(2-4) refl
      prod.collapse [symmetric] refl, unfolded name name']
  from inst [of "''lines.*''" None] inst [of "''note''" None] o show ?thesis by simp
qed

section \<open>The classification gate\<close>

text \<open>C38: the engine understands no field statement the kernel compiles: for a DocType whose name is not
  the word TABLE, every field statement is rejected by the engine's field parser, and a difference between two
  snapshots of such statements is reported as nothing but blocked changes that need manual review.\<close>

theorem kernel_fields_not_understood:
  assumes "field_ddl dt f = Inr ss" and "ident_ok (dt_name dt)" and "\<not> eq_ignore_case (dt_name dt) ''TABLE''"
    and "not_understood old" and "not_understood new"
  shows "list_all (\<lambda>s. field_parse s = None) ss
    \<and> list_all (\<lambda>e. fe_change e = Conservative \<and> fe_class e = Blocked) (fr_entries (classify_diff old new))"
  using field_ddl_unparsed [OF assms(1-3)] unparsed_changes_blocked [OF assms(4,5)] by blast

definition note_field :: field_def where
  "note_field = \<lparr>fd_fieldname = ''note'', fd_fieldtype = ''Data'', fd_label = ''Note'', fd_required = False,
     fd_options = [], fd_child_storage = None, fd_depends_on = None, fd_read_only_when = None,
     fd_required_when = None, fd_invalid_when = None, fd_fetch_from = None\<rparr>"

definition note_doctype :: doctype_def where
  "note_doctype = \<lparr>dt_name = ''memo'', dt_app = None, dt_issingle = False, dt_submittable = False,
     dt_fields = [note_field], dt_aggregates = []\<rparr>"

definition memo_before :: schema_snapshot where
  "memo_before = from_sql ''memo'' ''DEFINE TABLE OVERWRITE memo SCHEMAFULL''"

definition memo_after :: schema_snapshot where
  "memo_after = from_sql ''memo'' (''DEFINE TABLE OVERWRITE memo SCHEMAFULL;''
     @ define_field ''note'' ''memo'' ''TYPE option<string>'')"

text \<open>Adding an optional text field.\<close>

theorem kernel_fields_not_understood_witness:
  "list_all (\<lambda>s. field_parse s = None) [define_field ''note'' ''memo'' ''TYPE option<string>'']
   \<and> list_all (\<lambda>e. fe_change e = Conservative \<and> fe_class e = Blocked) (fr_entries (classify_diff memo_before memo_after))
   \<and> length (fr_entries (classify_diff memo_before memo_after)) = 1"
proof -
  have h: "field_ddl note_doctype note_field = Inr [define_field ''note'' ''memo'' ''TYPE option<string>'']"
    "ident_ok (dt_name note_doctype)" "\<not> eq_ignore_case (dt_name note_doctype) ''TABLE''"
    "not_understood memo_before" "not_understood memo_after"
    by code_simp+
  have "length (fr_entries (classify_diff memo_before memo_after)) = 1" by code_simp
  with kernel_fields_not_understood [OF h] show ?thesis by simp
qed

section \<open>Tenancy\<close>

text \<open>C10: a tenancy that starts serves exactly its roster: an unknown name gets one fixed refusal, every
  configured tenant resolves, to itself, and under a topology whose backup plan claims isolation no other
  tenant of the process is in the same database.\<close>

theorem tenants_are_apart:
  assumes "from_config cd conn cfg = Inr t"
  shows "(slug \<notin> set (tc_tenants cfg) \<longrightarrow> tenancy_resolve cd t slug = Inl (PermissionDenied ''E_UNKNOWN_TENANT''))
    \<and> (slug \<in> set (tc_tenants cfg) \<longrightarrow> (\<exists>r. tenancy_resolve cd t slug = Inr r \<and> rt_tenant_id r = slug
         \<and> (\<forall>other r'. tenancy_resolve cd t other = Inr r' \<longrightarrow> scope_of r' = scope_of r
              \<longrightarrow> bp_tenant_isolated (strategy_backup_plan (rt_strategy r) r) \<longrightarrow> other = slug)))"
proof (intro conjI impI)
  show "tenancy_resolve cd t slug = Inl (PermissionDenied ''E_UNKNOWN_TENANT'')" if "slug \<notin> set (tc_tenants cfg)"
    using tenancy_resolve_cases(1) [OF assms that] .
  assume "slug \<in> set (tc_tenants cfg)"
  then obtain r where r: "tenancy_resolve cd t slug = Inr r" "rt_tenant_id r = slug"
    "rt_strategy r = ty_strategy t" "(rt_namespace r, rt_database r) = place_of (ty_strategy t) slug"
    using tenancy_resolve_cases(2) [OF assms] by metis
  have "other = slug" if "tenancy_resolve cd t other = Inr r'" "scope_of r' = scope_of r"
    "bp_tenant_isolated (strategy_backup_plan (rt_strategy r) r)" for other r'
  proof -
    have "other \<in> set (tc_tenants cfg)" using that(1) tenancy_resolve_cases(1) [OF assms, of other] by fastforce
    from tenancy_resolve_cases(2) [OF assms this] that(1)
    have "(rt_namespace r', rt_database r') = place_of (ty_strategy t) other" by auto
    with that(2) r(4) have "place_of (ty_strategy t) other = place_of (ty_strategy t) slug"
      by (simp add: scope_of_def)
    moreover have "per_tenant_schema (ty_strategy t)"
      using that(3) r(3) by (simp add: strategy_backup_plan_def database_backup_def per_tenant_schema_def split: strategy.splits)
    ultimately show ?thesis using place_of_inject by blast
  qed
  with r(1,2) show "\<exists>r. tenancy_resolve cd t slug = Inr r \<and> rt_tenant_id r = slug
      \<and> (\<forall>other r'. tenancy_resolve cd t other = Inr r' \<longrightarrow> scope_of r' = scope_of r
           \<longrightarrow> bp_tenant_isolated (strategy_backup_plan (rt_strategy r) r) \<longrightarrow> other = slug)"
    by blast
qed

definition two_tenants :: tenancy_config where
  "two_tenants = \<lparr>tc_strategy = ''namespace-per-tenant'', tc_namespace = None, tc_database = Some ''main'',
     tc_environment = None, tc_tenants = [''acme'', ''globex'']\<rparr>"

theorem tenants_are_apart_witness:
  "case from_config demo_codec () two_tenants of
     Inl _ \<Rightarrow> False
   | Inr t \<Rightarrow> tenancy_resolve demo_codec t ''initech'' = Inl (PermissionDenied ''E_UNKNOWN_TENANT'')
       \<and> is_ok_res (tenancy_resolve demo_codec t ''globex'')"
proof -
  have "is_ok_res (from_config demo_codec () two_tenants)" by code_simp
  then obtain t where t: "from_config demo_codec () two_tenants = Inr t"
    by (cases "from_config demo_codec () two_tenants") simp_all
  have m: "''initech'' \<notin> set (tc_tenants two_tenants)" "''globex'' \<in> set (tc_tenants two_tenants)"
    by code_simp+
  from tenants_are_apart [OF t, of "''initech''"] tenants_are_apart [OF t, of "''globex''"] m t
  show ?thesis by auto
qed

end
