(* ===== verification/Broker.thy ===== *)
theory Broker
  imports Sync_Load Fairness Tenant_Gen
begin

text \<open>
  \<open>kernel/src/broker.rs\<close>: the verbs on documents. The database, the hook dispatcher, the clock and the
  other threads are the world \<open>'w\<close>: sessions and hooks are steps on it, and the tenant's metadata
  generation and the time are read from it, so both may change during any step. The kernel's own
  state beside it is the admission buckets, the two caches and the notification failures it counts.
\<close>

section \<open>Callers, hook chains and metadata\<close>

record caller =
  ca_user :: string
  ca_pass :: string
  ca_role :: string

type_synonym document = "(string \<times> cvalue) list"

type_synonym hook_chain = "(string \<times> hook_class) list"

definition MAX_HOOK_DEPTH :: nat where
  "MAX_HOOK_DEPTH = 8"

definition hook_debug :: "hook_class \<Rightarrow> string" where
  "hook_debug c = (case c of
     BeforeInsert \<Rightarrow> ''BeforeInsert'' | Validate \<Rightarrow> ''Validate'' | OnSubmit \<Rightarrow> ''OnSubmit''
   | OnCancel \<Rightarrow> ''OnCancel'' | OnWrite \<Rightarrow> ''OnWrite'' | Scheduled \<Rightarrow> ''Scheduled'')"

definition chain_push :: "hook_chain \<Rightarrow> string \<Rightarrow> hook_class \<Rightarrow> broker_error + hook_chain" where
  "chain_push chain r c =
     (if list_ex (\<lambda>(r', c'). r' = r \<and> c' = c) chain then Inl (HookCycle r (hook_debug c))
      else if MAX_HOOK_DEPTH \<le> length chain then Inl (HookDepthExceeded MAX_HOOK_DEPTH)
      else Inr (chain @ [(r, c)]))"

definition ENGINE_FIELDS :: "string list" where
  "ENGINE_FIELDS = [''id'', ''status'', ''owner'', ''docstatus'']"

definition readable_fields :: "doctype_meta \<Rightarrow> string \<Rightarrow> string list" where
  "readable_fields meta role =
     ENGINE_FIELDS
     @ map fm_fieldname (filter (\<lambda>f. fm_perm_role f = None \<or> fm_perm_role f = Some role) (dm_fields meta))"

definition docstatus_of :: "document \<Rightarrow> int option" where
  "docstatus_of doc = (case map_of doc ''docstatus'' of Some (VInt i) \<Rightarrow> Some i | _ \<Rightarrow> None)"

section \<open>Values\<close>

text \<open>\<open>as_f64\<close> of a number that is no \<open>i64\<close> is a parameter.\<close>

fun json_to_value :: "(json \<Rightarrow> float_val) \<Rightarrow> json \<Rightarrow> cvalue" where
  "json_to_value f64 JNull = VNull"
| "json_to_value f64 (JBool b) = VBool b"
| "json_to_value f64 (JInt i) = (case json_i64 (JInt i) of Some n \<Rightarrow> VInt n | None \<Rightarrow> VFloat (f64 (JInt i)))"
| "json_to_value f64 (JFloat s) = VFloat (f64 (JFloat s))"
| "json_to_value f64 (JString s) = VText s"
| "json_to_value f64 (JArray a) = VList (map (json_to_value f64) a)"
| "json_to_value f64 (JObject fs) = VObject (map (\<lambda>e. (fst e, json_to_value f64 (snd e))) fs)"

text \<open>Equality of floats: no \<open>NaN\<close> equals anything, the two zeros are equal.\<close>

fun float_eq :: "float_val \<Rightarrow> float_val \<Rightarrow> bool" where
  "float_eq (Infinity a) (Infinity b) = (a = b)"
| "float_eq (Finite a) (Finite b) = (a = b \<or> {a, b} = {''0'', ''-0''})"
| "float_eq _ _ = False"

fun value_eq :: "cvalue \<Rightarrow> cvalue \<Rightarrow> bool" where
  "value_eq (VFloat a) (VFloat b) = float_eq a b"
| "value_eq (VList as) (VList bs) = list_all2 value_eq as bs"
| "value_eq (VObject as) (VObject bs) = list_all2 (\<lambda>e e'. fst e = fst e' \<and> value_eq (snd e) (snd e')) as bs"
| "value_eq a b = (a = b)"

definition as_num :: "cvalue \<Rightarrow> decimal option" where
  "as_num v = (case v of
     VDecimal s \<Rightarrow> Decimal.parse s
   | VText s \<Rightarrow> Decimal.parse s
   | VInt i \<Rightarrow> Decimal.parse (int_str i)
   | VFloat (Finite s) \<Rightarrow> Decimal.parse s
   | VFloat NotANumber \<Rightarrow> Decimal.parse ''NaN''
   | VFloat (Infinity low) \<Rightarrow> Decimal.parse (if low then ''-inf'' else ''inf'')
   | _ \<Rightarrow> None)"

definition same_value :: "cvalue \<Rightarrow> cvalue \<Rightarrow> bool" where
  "same_value a b =
     (case (as_num a, as_num b) of (Some x, Some y) \<Rightarrow> Decimal.eq x y | _ \<Rightarrow> value_eq a b)"

section \<open>The kernel's state\<close>

record 'w broker_env =
  be_tenant :: string
  be_timeout :: string
  be_sql_as :: "string \<Rightarrow> string \<Rightarrow> 'w sql"
  be_sql_root :: "'w sql"
  be_validate :: "string \<Rightarrow> document \<Rightarrow> 'w \<Rightarrow> (broker_error + document) \<times> 'w"
  be_fire :: "hook_class \<Rightarrow> string \<Rightarrow> document \<Rightarrow> 'w \<Rightarrow> (broker_error + document) \<times> 'w"
  be_meta_gen :: "'w \<Rightarrow> nat"
  be_now :: "'w \<Rightarrow> rat"
  be_trace :: "'w \<Rightarrow> string"
  be_f64 :: "json \<Rightarrow> float_val"
  be_codec :: codec
  be_meta :: meta_codec

record 'w kernel =
  kn_world :: 'w
  kn_fair :: fair_state
  kn_meta_cache :: "string \<rightharpoonup> nat \<times> doctype_meta"
  kn_notif_cache :: "string \<rightharpoonup> nat \<times> notification_def list"
  kn_mail_errors :: "(string \<times> string) list"

definition on_world :: "('w \<Rightarrow> 'a \<times> 'w) \<Rightarrow> 'w kernel \<Rightarrow> 'a \<times> 'w kernel" where
  "on_world f k = (case f (kn_world k) of (r, w) \<Rightarrow> (r, k\<lparr>kn_world := w\<rparr>))"

definition sql_as :: "'w broker_env \<Rightarrow> caller \<Rightarrow> string \<Rightarrow> 'w kernel \<Rightarrow> (broker_error + json) \<times> 'w kernel" where
  "sql_as ev ca q = on_world (be_sql_as ev (ca_user ca) (ca_pass ca) q)"

definition sql_root :: "'w broker_env \<Rightarrow> string \<Rightarrow> 'w kernel \<Rightarrow> (broker_error + json) \<times> 'w kernel" where
  "sql_root ev q = on_world (be_sql_root ev q)"

section \<open>The metadata cache\<close>

definition load_doctype_uncached ::
  "'w broker_env \<Rightarrow> string \<Rightarrow> 'w kernel \<Rightarrow> (broker_error + doctype_meta) \<times> 'w kernel" where
  "load_doctype_uncached ev name k =
     (if name = [] \<or> \<not> list_all (\<lambda>c. is_alnum c \<or> c = CHR ''_'') name then (Inl (UnknownDoctype name), k)
      else and_then (sql_root ev (''SELECT * FROM doctype WHERE name = '' @ [CHR 0x27] @ name @ [CHR 0x27] @ '' LIMIT 1;'') k)
        (\<lambda>v k1. case json_first v of
           None \<Rightarrow> (Inl (UnknownDoctype name), k1)
         | Some r \<Rightarrow> (map_err (db_error ''bad doctype meta'') (mc_doctype_meta (be_meta ev) r), k1)))"

definition load_doctype ::
  "'w broker_env \<Rightarrow> string \<Rightarrow> 'w kernel \<Rightarrow> (broker_error + doctype_meta) \<times> 'w kernel" where
  "load_doctype ev name k =
     (let gen = be_meta_gen ev (kn_world k);
          miss = and_then (load_doctype_uncached ev name k)
            (\<lambda>meta k1. (Inr meta, k1\<lparr>kn_meta_cache := (kn_meta_cache k1)(name \<mapsto> (gen, meta))\<rparr>))
      in case kn_meta_cache k name of
           Some (cached_gen, meta) \<Rightarrow> (if cached_gen = gen then (Inr meta, k) else miss)
         | None \<Rightarrow> miss)"

text \<open>Every verb is admitted before it runs.\<close>

definition instrument ::
  "'w broker_env \<Rightarrow> ('w kernel \<Rightarrow> (broker_error + 'a) \<times> 'w kernel) \<Rightarrow> 'w kernel \<Rightarrow> (broker_error + 'a) \<times> 'w kernel" where
  "instrument ev verb k =
     (case admit_verb (be_now ev (kn_world k)) (be_tenant ev) (kn_fair k) of
        (Inl e, fs) \<Rightarrow> (Inl e, k\<lparr>kn_fair := fs\<rparr>)
      | (Inr _, fs) \<Rightarrow> verb (k\<lparr>kn_fair := fs\<rparr>))"

section \<open>Reading\<close>

text \<open>The check on a requested path: its root must be readable, and it must render.\<close>

definition check_path :: "string list \<Rightarrow> path_segment list \<Rightarrow> broker_error + string" where
  "check_path allowed path =
     (case path of
        PField name # _ \<Rightarrow> (if name \<in> set allowed then render_path path else Inl (FieldNotReadable name))
      | _ \<Rightarrow> render_path path)"

definition order_clause :: "read_opts \<Rightarrow> broker_error + string" where
  "order_clause opts =
     (case op_order_by opts of
        None \<Rightarrow> Inr []
      | Some (path, dir) \<Rightarrow>
          map_sum id (\<lambda>p. '' ORDER BY '' @ p @ '' '' @ (case dir of Asc \<Rightarrow> ''ASC'' | Desc \<Rightarrow> ''DESC''))
            (render_path path))"

definition where_clause :: "filter_expr option \<Rightarrow> broker_error + string" where
  "where_clause flt =
     (case flt of None \<Rightarrow> Inr [] | Some f \<Rightarrow> map_sum id (\<lambda>s. '' WHERE '' @ s) (render_filter f))"

definition has_range :: "filter_expr option \<Rightarrow> bool" where
  "has_range flt = (case flt of None \<Rightarrow> False | Some f \<Rightarrow> filter_has_range f)"

text \<open>A range filter with an explicit order forces the scan: the head of the query is rebuilt.\<close>

definition read_query ::
  "string \<Rightarrow> string \<Rightarrow> filter_expr option \<Rightarrow> read_opts \<Rightarrow> broker_error + string" where
  "read_query timeout name flt opts =
     (case where_clause flt of
        Inl e \<Rightarrow> Inl e
      | Inr wh \<Rightarrow>
          (case order_clause opts of
             Inl e \<Rightarrow> Inl e
           | Inr ord \<Rightarrow>
               (let q = ''SELECT * FROM '' @ name @ wh @ ord
                      @ (case op_limit opts of Some l \<Rightarrow> '' LIMIT '' @ nat_str l | None \<Rightarrow> [])
                      @ (case op_start opts of Some s \<Rightarrow> '' START '' @ nat_str s | None \<Rightarrow> []);
                    q' = (if has_range flt \<and> op_order_by opts \<noteq> None
                          then replace_first (''FROM '' @ name) (''FROM '' @ name @ '' WITH NOINDEX'') q else q)
                in Inr (q' @ '' TIMEOUT '' @ timeout @ '';''))))"

definition projection_of :: "path_segment list list \<Rightarrow> string list option" where
  "projection_of paths =
     (if paths = [] then None
      else Some (List.map_filter (\<lambda>p. case p of PField f # _ \<Rightarrow> Some f | _ \<Rightarrow> None) paths))"

definition filter_row :: "string list \<Rightarrow> string list option \<Rightarrow> json \<Rightarrow> json" where
  "filter_row allowed projection row =
     (case row of
        JObject fs \<Rightarrow> JObject (filter (\<lambda>(k, _). k \<in> set allowed
            \<and> (case projection of None \<Rightarrow> True | Some p \<Rightarrow> k \<in> set p \<or> k = ''id'')) fs)
      | _ \<Rightarrow> row)"

definition db_read_inner ::
  "'w broker_env \<Rightarrow> caller \<Rightarrow> string \<Rightarrow> filter_expr option \<Rightarrow> path_segment list list \<Rightarrow> read_opts
   \<Rightarrow> 'w kernel \<Rightarrow> (broker_error + json list) \<times> 'w kernel" where
  "db_read_inner ev ca doctype flt paths opts k =
     and_then (load_doctype ev doctype k) (\<lambda>meta k1.
       let allowed = readable_fields meta (ca_role ca) in
       and_then (lift_res (collect_res (map (check_path allowed) paths)) k1) (\<lambda>_ k2.
       and_then (lift_res (read_query (be_timeout ev) (dm_name meta) flt opts) k2) (\<lambda>q k3.
       and_then (sql_as ev ca q k3) (\<lambda>rows k4.
         (Inr (map (filter_row allowed (projection_of paths)) (json_rows rows)), k4)))))"

definition db_read ::
  "'w broker_env \<Rightarrow> caller \<Rightarrow> string \<Rightarrow> filter_expr option \<Rightarrow> path_segment list list \<Rightarrow> read_opts
   \<Rightarrow> 'w kernel \<Rightarrow> (broker_error + json list) \<times> 'w kernel" where
  "db_read ev ca doctype flt paths opts = instrument ev (db_read_inner ev ca doctype flt paths opts)"

section \<open>Aggregates\<close>

definition group_columns :: "string list \<Rightarrow> path_segment list list \<Rightarrow> broker_error + string list" where
  "group_columns allowed group_by =
     collect_res (map (\<lambda>(i, g). map_sum id (\<lambda>s. s @ '' AS g'' @ nat_str i) (check_path allowed g)) (enumerate 0 group_by))"

definition metric_expr :: "string list \<Rightarrow> metric \<Rightarrow> path_segment list \<Rightarrow> broker_error + string" where
  "metric_expr allowed m path =
     (case m of
        MCount \<Rightarrow> Inr ''count()''
      | MSum \<Rightarrow> map_sum id (\<lambda>s. ''math::sum('' @ s @ '')'') (check_path allowed path)
      | MMin \<Rightarrow> map_sum id (\<lambda>s. ''math::min('' @ s @ '')'') (check_path allowed path)
      | MMax \<Rightarrow> map_sum id (\<lambda>s. ''math::max('' @ s @ '')'') (check_path allowed path)
      | MAvg \<Rightarrow> map_sum id (\<lambda>s. ''math::mean('' @ s @ '')'') (check_path allowed path))"

definition metric_columns :: "string list \<Rightarrow> (metric \<times> path_segment list) list \<Rightarrow> broker_error + string list" where
  "metric_columns allowed metrics =
     collect_res (map (\<lambda>(i, m, path). map_sum id (\<lambda>s. s @ '' AS m'' @ nat_str i) (metric_expr allowed m path))
       (enumerate 0 metrics))"

definition aggregate_query ::
  "string \<Rightarrow> string list \<Rightarrow> string \<Rightarrow> filter_expr option \<Rightarrow> path_segment list list
   \<Rightarrow> (metric \<times> path_segment list) list \<Rightarrow> broker_error + string" where
  "aggregate_query timeout allowed name flt group_by metrics =
     (case group_columns allowed group_by of
        Inl e \<Rightarrow> Inl e
      | Inr gs \<Rightarrow>
          (case metric_columns allowed metrics of
             Inl e \<Rightarrow> Inl e
           | Inr ms \<Rightarrow>
               (case where_clause flt of
                  Inl e \<Rightarrow> Inl e
                | Inr wh \<Rightarrow>
                    Inr (''SELECT '' @ join '', '' (gs @ ms) @ '' FROM '' @ name
                      @ (if has_range flt then '' WITH NOINDEX'' else []) @ wh
                      @ (if group_by = [] then '' GROUP ALL''
                         else '' GROUP BY '' @ join '', '' (map (\<lambda>i. CHR ''g'' # nat_str i) [0..<length group_by]))
                      @ '' TIMEOUT '' @ timeout @ '';''))))"

definition db_aggregate_inner ::
  "'w broker_env \<Rightarrow> caller \<Rightarrow> string \<Rightarrow> filter_expr option \<Rightarrow> path_segment list list
   \<Rightarrow> (metric \<times> path_segment list) list \<Rightarrow> 'w kernel \<Rightarrow> (broker_error + json list) \<times> 'w kernel" where
  "db_aggregate_inner ev ca doctype flt group_by metrics k =
     and_then (load_doctype ev doctype k) (\<lambda>meta k1.
     and_then (lift_res (aggregate_query (be_timeout ev) (readable_fields meta (ca_role ca)) (dm_name meta)
                 flt group_by metrics) k1) (\<lambda>q k2.
     and_then (sql_as ev ca q k2) (\<lambda>rows k3. (Inr (json_rows rows), k3))))"

definition db_aggregate ::
  "'w broker_env \<Rightarrow> caller \<Rightarrow> string \<Rightarrow> filter_expr option \<Rightarrow> path_segment list list
   \<Rightarrow> (metric \<times> path_segment list) list \<Rightarrow> 'w kernel \<Rightarrow> (broker_error + json list) \<times> 'w kernel" where
  "db_aggregate ev ca doctype flt group_by metrics =
     instrument ev (db_aggregate_inner ev ca doctype flt group_by metrics)"

end
