(* ===== verification/Broker_Write.thy ===== *)
theory Broker_Write
  imports Broker
begin

text \<open>
  \<open>kernel/src/broker.rs\<close>: writes, deletes and transitions, the hooks around them and the notifications
  after them, and the job queue's entry. Failures of notifications are counted, never returned.
\<close>

section \<open>Notifications\<close>

definition notification_rules ::
  "'w broker_env \<Rightarrow> string \<Rightarrow> 'w kernel \<Rightarrow> (broker_error + notification_def list) \<times> 'w kernel" where
  "notification_rules ev doctype k =
     (let gen = be_meta_gen ev (kn_world k);
          miss = and_then (load_notifications (be_meta ev) (sql_root ev) doctype k)
            (\<lambda>rules k1. (Inr rules, k1\<lparr>kn_notif_cache := (kn_notif_cache k1)(doctype \<mapsto> (gen, rules))\<rparr>))
      in case kn_notif_cache k doctype of
           Some (cached_gen, rules) \<Rightarrow> (if cached_gen = gen then (Inr rules, k) else miss)
         | None \<Rightarrow> miss)"

definition note_mail_failure :: "string \<Rightarrow> string \<Rightarrow> 'w kernel \<Rightarrow> 'w kernel" where
  "note_mail_failure event subject k = k\<lparr>kn_mail_errors := kn_mail_errors k @ [(event, subject)]\<rparr>"

definition record_id_of :: "json \<Rightarrow> string" where
  "record_id_of stored = (case json_str_at ''id'' stored of Some s \<Rightarrow> s | None \<Rightarrow> [])"

definition create_outbox :: "'w broker_env \<Rightarrow> document \<Rightarrow> 'w kernel \<Rightarrow> (broker_error + unit) \<times> 'w kernel" where
  "create_outbox ev entries k =
     and_then (lift_res (render_value (VObject entries)) k) (\<lambda>content k1.
     and_then (sql_root ev (''CREATE '' @ OUTBOX_TABLE @ '' CONTENT '' @ content @ '';'') k1) (\<lambda>_ k2. (Inr (), k2)))"

definition enqueue_mail ::
  "'w broker_env \<Rightarrow> notification_def \<Rightarrow> json \<Rightarrow> outbound \<Rightarrow> 'w kernel \<Rightarrow> (broker_error + unit) \<times> 'w kernel" where
  "enqueue_mail ev rule stored out k =
     create_outbox ev
       [(''notification'', VText (nd_name rule)), (''doctype'', VText (nd_doctype rule)),
        (''record'', VText (record_id_of stored)), (''to'', VList (map VText (ob_to out))),
        (''subject'', VText (ob_subject out)), (''body'', VText (ob_body out)), (''status'', VText ''queued''),
        (''attempts'', VInt 0), (''tenant'', VText (be_tenant ev)), (''trace'', VText (be_trace ev (kn_world k)))] k"

definition record_dead_mail ::
  "'w broker_env \<Rightarrow> notification_def \<Rightarrow> json \<Rightarrow> string \<Rightarrow> 'w kernel \<Rightarrow> (broker_error + unit) \<times> 'w kernel" where
  "record_dead_mail ev rule stored reason k =
     create_outbox ev
       [(''notification'', VText (nd_name rule)), (''doctype'', VText (nd_doctype rule)),
        (''record'', VText (record_id_of stored)), (''to'', VList []),
        (''subject'', VText (nd_subject rule)), (''body'', VText []), (''status'', VText ''dead''),
        (''attempts'', VInt 0), (''last_error'', VText reason), (''tenant'', VText (be_tenant ev))] k"

text \<open>The addresses of a role; a failed look-up is counted and yields none.\<close>

definition resolve_role :: "'w broker_env \<Rightarrow> notification_def \<Rightarrow> string \<Rightarrow> 'w kernel \<Rightarrow> string list \<times> 'w kernel" where
  "resolve_role ev rule role k =
     (case role_addresses (sql_root ev) role k of
        (Inr a, k1) \<Rightarrow> (a, k1)
      | (Inl _, k1) \<Rightarrow> ([], note_mail_failure ''mail_role_lookup_failed'' (nd_name rule) k1))"

definition fire_rule :: "'w broker_env \<Rightarrow> json \<Rightarrow> notification_def \<Rightarrow> 'w kernel \<Rightarrow> 'w kernel" where
  "fire_rule ev stored rule k =
     (case render_mail (be_codec ev) rule stored (resolve_role ev rule) k of
        (Inr out, k1) \<Rightarrow>
          (case enqueue_mail ev rule stored out k1 of
             (Inl _, k2) \<Rightarrow> note_mail_failure ''mail_enqueue_failed'' (nd_name rule) k2
           | (Inr _, k2) \<Rightarrow> k2)
      | (Inl why, k1) \<Rightarrow>
          (case record_dead_mail ev rule stored (unroutable_text why) k1 of
             (Inl _, k2) \<Rightarrow> note_mail_failure ''mail_deadletter_failed'' (nd_name rule) k2
           | (Inr _, k2) \<Rightarrow> k2))"

definition fire_notifications :: "'w broker_env \<Rightarrow> string \<Rightarrow> json \<Rightarrow> trigger list \<Rightarrow> 'w kernel \<Rightarrow> 'w kernel" where
  "fire_notifications ev doctype stored triggers k =
     (case notification_rules ev doctype k of
        (Inl _, k1) \<Rightarrow> note_mail_failure ''notification_rules_unreadable'' doctype k1
      | (Inr rules, k1) \<Rightarrow>
          fold (\<lambda>rule k2. if list_ex (\<lambda>t. notification_matches (be_codec ev) rule t stored) triggers
                           then fire_rule ev stored rule k2 else k2) rules k1)"

section \<open>Writing\<close>

text \<open>The stored record as the hooks see it: typed by the DocType, without its id.\<close>

definition typed_entry :: "'w broker_env \<Rightarrow> doctype_meta \<Rightarrow> string \<times> json \<Rightarrow> string \<times> cvalue" where
  "typed_entry ev meta e =
     (fst e,
      case (find (\<lambda>f. fm_fieldname f = fst e) (dm_fields meta), snd e) of
        (Some f, JString s) \<Rightarrow> (if fm_fieldtype f = ''Currency'' then VDecimal s else json_to_value (be_f64 ev) (JString s))
      | (_, v) \<Rightarrow> json_to_value (be_f64 ev) v)"

definition record_for_hook ::
  "'w broker_env \<Rightarrow> caller \<Rightarrow> doctype_meta \<Rightarrow> string \<Rightarrow> 'w kernel \<Rightarrow> (broker_error + document) \<times> 'w kernel" where
  "record_for_hook ev ca meta r k =
     and_then (lift_res (render_value (VRecordId (dm_name meta @ '':'' @ r))) k) (\<lambda>rid k1.
     and_then (sql_as ev ca (''SELECT * FROM '' @ rid @ '';'') k1) (\<lambda>out k2.
       (Inr (case json_first out of
               Some (JObject fs) \<Rightarrow> map (typed_entry ev meta) (filter (\<lambda>(n, _). n \<noteq> ''id'') fs)
             | _ \<Rightarrow> []), k2)))"

fun overlay_entry :: "string \<Rightarrow> cvalue \<Rightarrow> document \<Rightarrow> document" where
  "overlay_entry n v [] = [(n, v)]"
| "overlay_entry n v (e # doc) = (if fst e = n then (n, v) # doc else e # overlay_entry n v doc)"

definition hook_document :: "string \<Rightarrow> document \<Rightarrow> document \<Rightarrow> document" where
  "hook_document rid baseline doc =
     (let merged = fold (\<lambda>(n, v). overlay_entry n v) doc baseline
      in if list_ex (\<lambda>e. fst e = ''id'') merged then merged else merged @ [(''id'', VText rid)])"

text \<open>The lifecycle hooks of a docstatus edge; their return value is discarded.\<close>

fun edge_hooks ::
  "'w broker_env \<Rightarrow> hook_chain \<Rightarrow> string \<Rightarrow> string \<Rightarrow> document \<Rightarrow> int \<Rightarrow> int \<Rightarrow> (int \<times> hook_class) list
   \<Rightarrow> 'w kernel \<Rightarrow> (broker_error + unit) \<times> 'w kernel" where
  "edge_hooks ev chain rid doctype hook_doc prior after [] k = (Inr (), k)"
| "edge_hooks ev chain rid doctype hook_doc prior after ((to, c) # edges) k =
     (if prior \<noteq> to \<and> after = to
      then and_then (lift_res (chain_push chain rid c) k) (\<lambda>_ k1.
           and_then (on_world (be_fire ev c doctype hook_doc) k1) (\<lambda>_ k2.
             edge_hooks ev chain rid doctype hook_doc prior after edges k2))
      else edge_hooks ev chain rid doctype hook_doc prior after edges k)"

definition in_envelope :: "doctype_meta \<Rightarrow> string \<Rightarrow> bool" where
  "in_envelope meta n =
     (n \<noteq> ''id'' \<and> (n \<in> set (map fm_fieldname (dm_fields meta)) \<or> n \<in> set ENGINE_FIELDS \<or> n = ''docstatus''))"

text \<open>On an update only what the caller wrote or a hook changed is persisted.\<close>

definition persisted_entries :: "doctype_meta \<Rightarrow> write_op \<Rightarrow> document \<Rightarrow> document \<Rightarrow> document \<Rightarrow> document" where
  "persisted_entries meta op doc hook_doc entries =
     (let bounded = filter (\<lambda>(n, _). in_envelope meta n) entries in
      if op = Update
      then filter (\<lambda>(n, v). list_ex (\<lambda>d. fst d = n) doc
             \<or> \<not> list_ex (\<lambda>b. fst b = n \<and> same_value (snd b) v) hook_doc) bounded
      else bounded)"

definition write_query :: "doctype_meta \<Rightarrow> write_op \<Rightarrow> string option \<Rightarrow> document \<Rightarrow> broker_error + string" where
  "write_query meta op r entries =
     (case render_value (VObject entries) of
        Inl e \<Rightarrow> Inl e
      | Inr content \<Rightarrow>
          (case (op, r) of
             (Create, _) \<Rightarrow> Inr (''CREATE '' @ dm_name meta @ '' CONTENT '' @ content @ '';'')
           | (Update, Some rkey) \<Rightarrow>
               (case render_value (VRecordId (dm_name meta @ '':'' @ rkey)) of
                  Inl e \<Rightarrow> Inl e
                | Inr rid \<Rightarrow> Inr (''UPDATE '' @ rid @ '' MERGE '' @ content @ '';''))
           | (Update, None) \<Rightarrow> Inl (InvalidValue ''update needs a record'')))"

definition no_rows_error :: "doctype_meta \<Rightarrow> write_op \<Rightarrow> string option \<Rightarrow> broker_error" where
  "no_rows_error meta op r =
     (case op of
        Update \<Rightarrow> PermissionDenied (''E_WRITE_NO_ROWS: update of '' @ dm_name meta @ '':''
          @ (case r of Some rkey \<Rightarrow> rkey | None \<Rightarrow> ''?'') @ '' changed nothing '' @ em_dash
          @ '' the record does not exist, or your role may not write it'')
      | Create \<Rightarrow> PermissionDenied (''E_WRITE_NO_ROWS: create in '' @ dm_name meta
          @ '' stored nothing: the table is write-closed (maintained by the kernel, not by record users), ''
          @ ''or your role may not create in it''))"

definition write_triggers :: "write_op \<Rightarrow> document \<Rightarrow> json \<Rightarrow> trigger list" where
  "write_triggers op baseline stored =
     (let prior = (case docstatus_of baseline of Some i \<Rightarrow> i | None \<Rightarrow> 0);
          after = (case Option.bind (json_get ''docstatus'' stored) json_i64 of Some i \<Rightarrow> i | None \<Rightarrow> prior)
      in [case op of Create \<Rightarrow> AfterInsert | Update \<Rightarrow> OnUpdate]
         @ (if prior \<noteq> 1 \<and> after = 1 then [Submit] else [])
         @ (if prior \<noteq> 2 \<and> after = 2 then [Cancel] else []))"

text \<open>The hooks before the write, in order; the result is the document shown last and validate's answer.\<close>

definition run_hooks ::
  "'w broker_env \<Rightarrow> hook_chain \<Rightarrow> write_op \<Rightarrow> string \<Rightarrow> string \<Rightarrow> document \<Rightarrow> document
   \<Rightarrow> 'w kernel \<Rightarrow> (broker_error + document \<times> document) \<times> 'w kernel" where
  "run_hooks ev chain op rid doctype baseline doc k =
     (let hook_doc0 = hook_document rid baseline doc in
      and_then (if op = Create
                then and_then (lift_res (chain_push chain rid BeforeInsert) k)
                       (\<lambda>_ k1. on_world (be_fire ev BeforeInsert doctype hook_doc0) k1)
                else (Inr hook_doc0, k)) (\<lambda>hook_doc k1.
      let prior = (case docstatus_of baseline of Some i \<Rightarrow> i | None \<Rightarrow> 0);
          after = (case docstatus_of hook_doc of Some i \<Rightarrow> i | None \<Rightarrow> prior) in
      and_then (edge_hooks ev chain rid doctype hook_doc prior after [(1, OnSubmit), (2, OnCancel)] k1) (\<lambda>_ k2.
      and_then (on_world (be_validate ev doctype hook_doc) k2) (\<lambda>entries k3. (Inr (hook_doc, entries), k3)))))"

definition db_write_inner ::
  "'w broker_env \<Rightarrow> caller \<Rightarrow> hook_chain \<Rightarrow> write_op \<Rightarrow> string \<Rightarrow> string option \<Rightarrow> document
   \<Rightarrow> 'w kernel \<Rightarrow> (broker_error + json) \<times> 'w kernel" where
  "db_write_inner ev ca chain op doctype r doc k =
     and_then (load_doctype ev doctype k) (\<lambda>meta k1.
       let rid = dm_name meta @ '':'' @ (case r of Some rkey \<Rightarrow> rkey | None \<Rightarrow> ''new'') in
       and_then (lift_res (chain_push chain rid Validate) k1) (\<lambda>_ k2.
       and_then (case (op, r) of (Update, Some rkey) \<Rightarrow> record_for_hook ev ca meta rkey k2 | _ \<Rightarrow> (Inr [], k2)) (\<lambda>baseline k3.
       and_then (run_hooks ev chain op rid doctype baseline doc k3) (\<lambda>(hook_doc, entries) k4.
       and_then (lift_res (write_query meta op r (persisted_entries meta op doc hook_doc entries)) k4) (\<lambda>q k5.
       and_then (sql_as ev ca q k5) (\<lambda>out k6.
         case json_first out of
           None \<Rightarrow> (Inl (no_rows_error meta op r), k6)
         | Some stored \<Rightarrow>
             (Inr stored, fire_notifications ev doctype stored (write_triggers op baseline stored) k6)))))))"

definition db_write ::
  "'w broker_env \<Rightarrow> caller \<Rightarrow> hook_chain \<Rightarrow> write_op \<Rightarrow> string \<Rightarrow> string option \<Rightarrow> document
   \<Rightarrow> 'w kernel \<Rightarrow> (broker_error + json) \<times> 'w kernel" where
  "db_write ev ca chain op doctype r doc = instrument ev (db_write_inner ev ca chain op doctype r doc)"

section \<open>Deleting\<close>

definition delete_outcome :: "broker_error + json \<Rightarrow> broker_error + json" where
  "delete_outcome res =
     (case res of
        Inl (DbError detail) \<Rightarrow>
          (if contains_str DOCSTATUS_DELETE_REFUSAL detail then Inl (DeleteRefused DOCSTATUS_DELETE_REFUSAL detail)
           else if contains_str SINGLE_DELETE_REFUSAL detail then Inl (DeleteRefused SINGLE_DELETE_REFUSAL detail)
           else res)
      | _ \<Rightarrow> res)"

definition db_delete_inner ::
  "'w broker_env \<Rightarrow> caller \<Rightarrow> string \<Rightarrow> string \<Rightarrow> 'w kernel \<Rightarrow> (broker_error + json) \<times> 'w kernel" where
  "db_delete_inner ev ca doctype r k =
     and_then (load_doctype ev doctype k) (\<lambda>meta k1.
     and_then (lift_res (render_value (VRecordId (dm_name meta @ '':'' @ r))) k1) (\<lambda>rid k2.
     and_then (case sql_as ev ca (''DELETE '' @ rid @ '' RETURN BEFORE;'') k2 of (res, k3) \<Rightarrow> (delete_outcome res, k3)) (\<lambda>out k3.
       case json_first out of
         None \<Rightarrow> (Inl (PermissionDenied (''E_DELETE_NO_ROWS: delete of '' @ dm_name meta @ '':'' @ r
              @ '' removed nothing '' @ em_dash @ '' the record does not exist, ''
              @ ''or the compiled permissions do not allow you to delete it'')), k3)
       | Some row \<Rightarrow>
           (case json_get ''id'' row of
              Some rid' \<Rightarrow> (Inr rid', k3)
            | None \<Rightarrow> (Inl (DbError (''delete of '' @ dm_name meta @ '':'' @ r @ '' returned no record id'')), k3)))))"

definition db_delete ::
  "'w broker_env \<Rightarrow> caller \<Rightarrow> string \<Rightarrow> string \<Rightarrow> 'w kernel \<Rightarrow> (broker_error + json) \<times> 'w kernel" where
  "db_delete ev ca doctype r = instrument ev (db_delete_inner ev ca doctype r)"

section \<open>Transitions\<close>

definition default_opts :: read_opts where
  "default_opts = \<lparr>op_order_by = None, op_limit = None, op_start = None\<rparr>"

text \<open>The document read under the caller's own authority, and its workflow state.\<close>

definition read_by_id ::
  "'w broker_env \<Rightarrow> caller \<Rightarrow> string \<Rightarrow> string \<Rightarrow> 'w kernel \<Rightarrow> (broker_error + json) \<times> 'w kernel" where
  "read_by_id ev ca doctype r k =
     (let rkey = doctype @ '':'' @ r in
      and_then (db_read ev ca doctype (Some (FCmp [PField ''id''] Eq (VRecordId rkey))) [] default_opts k) (\<lambda>rows k1.
        case rows of [] \<Rightarrow> (Inl (UnknownDoctype rkey), k1) | doc # _ \<Rightarrow> (Inr doc, k1)))"

definition current_state :: "workflow_def \<Rightarrow> json \<Rightarrow> string" where
  "current_state flow doc = state_or_initial flow (json_str_at STATE_FIELD doc)"

definition db_transition_inner ::
  "'w broker_env \<Rightarrow> caller \<Rightarrow> hook_chain \<Rightarrow> string \<Rightarrow> string \<Rightarrow> string
   \<Rightarrow> 'w kernel \<Rightarrow> (broker_error + json) \<times> 'w kernel" where
  "db_transition_inner ev ca chain doctype r action k =
     and_then (load_workflow (be_meta ev) (sql_root ev) doctype k) (\<lambda>found k1.
       case found of
         None \<Rightarrow> (Inl (WorkflowDenied ''FRUST:E_WORKFLOW:UNMANAGED'' (sq1 doctype @ '' has no workflow'')), k1)
       | Some flow \<Rightarrow>
           and_then (read_by_id ev ca doctype r k1) (\<lambda>doc k2.
           and_then (lift_res (judge flow (current_state flow doc) action (ca_role ca)) k2) (\<lambda>jd k3.
           and_then (db_write_inner ev ca chain Update doctype (Some r)
                [(STATE_FIELD, VText (jd_to jd)), (''docstatus'', VInt (jd_docstatus jd))] k3) (\<lambda>stored k4.
             (Inr stored, fire_notifications ev doctype stored [Transition (jd_action jd) (jd_to jd)] k4)))))"

definition db_transition ::
  "'w broker_env \<Rightarrow> caller \<Rightarrow> hook_chain \<Rightarrow> string \<Rightarrow> string \<Rightarrow> string
   \<Rightarrow> 'w kernel \<Rightarrow> (broker_error + json) \<times> 'w kernel" where
  "db_transition ev ca chain doctype r action = instrument ev (db_transition_inner ev ca chain doctype r action)"

definition workflow_actions ::
  "'w broker_env \<Rightarrow> caller \<Rightarrow> string \<Rightarrow> string \<Rightarrow> 'w kernel \<Rightarrow> (broker_error + json) \<times> 'w kernel" where
  "workflow_actions ev ca doctype r k =
     and_then (load_workflow (be_meta ev) (sql_root ev) doctype k) (\<lambda>found k1.
       case found of
         None \<Rightarrow> (Inr (JObject [(''workflow'', JNull), (''state'', JNull), (''actions'', JArray [])]), k1)
       | Some flow \<Rightarrow>
           and_then (read_by_id ev ca doctype r k1) (\<lambda>doc k2.
             let state = current_state flow doc in
             (Inr (JObject [(''workflow'', JString (wf_name flow)), (''state'', JString state),
                (''actions'', JArray (map (\<lambda>t. JObject [(''action'', JString (tr_action t)), (''to'', JString (tr_to t))])
                   (available flow state (ca_role ca))))]), k2)))"

section \<open>Enqueueing\<close>

definition enqueue_inner ::
  "'w broker_env \<Rightarrow> caller \<Rightarrow> string \<Rightarrow> document \<Rightarrow> 'w kernel \<Rightarrow> (broker_error + string) \<times> 'w kernel" where
  "enqueue_inner ev ca job_kind payload k =
     (if \<not> list_all (\<lambda>c. is_alnum c \<or> c = CHR ''_'') job_kind then (Inl (InvalidValue ''bad job kind''), k)
      else and_then (lift_res (render_value (VObject payload)) k) (\<lambda>payload_s k1.
        and_then (sql_root ev (''CREATE job SET kind = '' @ [CHR 0x27] @ job_kind @ [CHR 0x27] @ '', payload = '' @ payload_s
            @ '', status = 'queued', requested_by = '' @ quote_literal (ca_user ca)
            @ '', tenant = '' @ quote_literal (be_tenant ev)
            @ '', trace = '' @ quote_literal (be_trace ev (kn_world k1)) @ '', enqueued_at = time::now();'') k1)
          (\<lambda>out k2. (Inr (case Option.bind (json_first out) (json_str_at ''id'') of Some s \<Rightarrow> s | None \<Rightarrow> []), k2))))"

definition enqueue ::
  "'w broker_env \<Rightarrow> caller \<Rightarrow> string \<Rightarrow> document \<Rightarrow> 'w kernel \<Rightarrow> (broker_error + string) \<times> 'w kernel" where
  "enqueue ev ca job_kind payload = instrument ev (enqueue_inner ev ca job_kind payload)"

end
