(* ===== verification/Broker_Proofs.thy ===== *)
theory Broker_Proofs
  imports Broker_Write
begin

text \<open>
  What the verbs keep: the generation discipline of the metadata cache, the hook chain's bound, the
  part of the database that a refused write must leave alone, and the account of notifications.
\<close>

section \<open>Hook chains\<close>

definition chain_ok :: "hook_chain \<Rightarrow> bool" where
  "chain_ok chain = (distinct chain \<and> length chain \<le> MAX_HOOK_DEPTH)"

lemma chain_push_Inr:
  "chain_push chain r c = Inr chain' \<longleftrightarrow>
   (r, c) \<notin> set chain \<and> length chain < MAX_HOOK_DEPTH \<and> chain' = chain @ [(r, c)]"
  by (auto simp: chain_push_def list_ex_iff)

lemma chain_push_ok: "chain_ok chain \<Longrightarrow> chain_push chain r c = Inr chain' \<Longrightarrow> chain_ok chain'"
  by (auto simp: chain_push_Inr chain_ok_def)

lemma chain_push_wf: "wf {(chain', chain). \<exists>r c. chain_push chain r c = Inr chain'}"
  by (rule wf_subset [OF wf_measure [of "\<lambda>chain. MAX_HOOK_DEPTH - length chain"]])
    (auto simp: chain_push_Inr)

section \<open>Steps on the world\<close>

lemma on_world_simps [simp]:
  "kn_meta_cache (snd (on_world f k)) = kn_meta_cache k" "kn_fair (snd (on_world f k)) = kn_fair k"
  "kn_notif_cache (snd (on_world f k)) = kn_notif_cache k" "kn_mail_errors (snd (on_world f k)) = kn_mail_errors k"
  "kn_world (snd (on_world f k)) = snd (f (kn_world k))" "fst (on_world f k) = fst (f (kn_world k))"
  by (simp_all add: on_world_def case_prod_unfold)

section \<open>Invariants of steps\<close>

named_theorems pres

definition preserves :: "('k \<Rightarrow> bool) \<Rightarrow> ('k \<Rightarrow> 'a \<times> 'k) \<Rightarrow> bool" where
  "preserves P f = (\<forall>k. P k \<longrightarrow> P (snd (f k)))"

lemma preservesD: "preserves P f \<Longrightarrow> P k \<Longrightarrow> P (snd (f k))"
  by (simp add: preserves_def)

lemma pres_and_then [pres]:
  assumes "preserves P f" and "\<And>a. preserves P (g a)"
  shows "preserves P (\<lambda>k. and_then (f k) g)"
  unfolding preserves_def
proof (intro allI impI)
  fix k assume "P k"
  obtain r k1 where f: "f k = (r, k1)" by fastforce
  with \<open>P k\<close> assms(1) have "P k1" by (metis preservesD snd_conv)
  then show "P (snd (and_then (f k) g))"
    using assms(2) f by (cases r) (simp_all add: preservesD)
qed

lemma pres_lift [pres]: "preserves P (lift_res r)"
  by (simp add: preserves_def lift_res_def)

lemma pres_pure [pres]: "preserves P (\<lambda>k. (r k, k))"
  by (simp add: preserves_def)

lemma pres_if [pres]: "(b \<Longrightarrow> preserves P f) \<Longrightarrow> (\<not> b \<Longrightarrow> preserves P g) \<Longrightarrow> preserves P (\<lambda>k. if b then f k else g k)"
  by (cases b) simp_all

lemma pres_sum:
  "(\<And>a. preserves P (f a)) \<Longrightarrow> (\<And>b. preserves P (g b)) \<Longrightarrow>
   preserves P (\<lambda>k. case x of Inl a \<Rightarrow> f a k | Inr b \<Rightarrow> g b k)"
  by (cases x) simp_all

lemma pres_option [pres]:
  "(x = None \<Longrightarrow> preserves P f) \<Longrightarrow> (\<And>a. x = Some a \<Longrightarrow> preserves P (g a)) \<Longrightarrow>
   preserves P (\<lambda>k. case x of None \<Rightarrow> f k | Some a \<Rightarrow> g a k)"
  by (cases x) simp_all

lemma pres_step:
  assumes "preserves P f" and "\<And>r. preserves P (h r)"
  shows "preserves P (\<lambda>k. case f k of (r, k1) \<Rightarrow> h r k1)"
  using assms unfolding preserves_def case_prod_unfold by blast

lemma and_then_inv:
  assumes "P (snd x)" and "\<And>a k. P k \<Longrightarrow> P (snd (f a k))"
  shows "P (snd (and_then x f))"
proof (cases x)
  case (Pair r k)
  with assms show ?thesis by (cases r) simp_all
qed

text \<open>A loop over a list with a step for each element.\<close>

lemma fold_inv: "(\<And>x k. P k \<Longrightarrow> P (f x k)) \<Longrightarrow> P k \<Longrightarrow> P (fold f xs k)"
  by (induction xs arbitrary: k) simp_all

section \<open>The metadata cache\<close>

definition doctype_query :: "string \<Rightarrow> string" where
  "doctype_query name = ''SELECT * FROM doctype WHERE name = '' @ [CHR 0x27] @ name @ [CHR 0x27] @ '' LIMIT 1;''"

text \<open>
  The discipline of invalidation: the stored DocTypes do not change while the tenant's generation
  stays, so two worlds of one generation answer alike.
\<close>

definition generation_law :: "'w broker_env \<Rightarrow> bool" where
  "generation_law ev =
     (\<forall>w w' name. be_meta_gen ev w = be_meta_gen ev w' \<longrightarrow>
        fst (be_sql_root ev (doctype_query name) w) = fst (be_sql_root ev (doctype_query name) w'))"

definition meta_at :: "'w broker_env \<Rightarrow> string \<Rightarrow> 'w \<Rightarrow> broker_error + doctype_meta" where
  "meta_at ev name w =
     (if name = [] \<or> \<not> list_all (\<lambda>c. is_alnum c \<or> c = CHR ''_'') name then Inl (UnknownDoctype name)
      else case fst (be_sql_root ev (doctype_query name) w) of
        Inl e \<Rightarrow> Inl e
      | Inr v \<Rightarrow> (case json_first v of None \<Rightarrow> Inl (UnknownDoctype name)
                 | Some r \<Rightarrow> map_err (db_error ''bad doctype meta'') (mc_doctype_meta (be_meta ev) r)))"

lemma load_uncached_world:
  "load_doctype_uncached ev name k = (meta_at ev name (kn_world k),
     if name = [] \<or> \<not> list_all (\<lambda>c. is_alnum c \<or> c = CHR ''_'') name then k
     else k\<lparr>kn_world := snd (be_sql_root ev (doctype_query name) (kn_world k))\<rparr>)"
proof (cases "name = [] \<or> \<not> list_all (\<lambda>c. is_alnum c \<or> c = CHR ''_'') name")
  case False
  obtain r w where q: "be_sql_root ev (doctype_query name) (kn_world k) = (r, w)" by fastforce
  show ?thesis
    using False q by (cases r)
      (simp_all add: load_doctype_uncached_def meta_at_def sql_root_def on_world_def doctype_query_def split: option.split)
qed (simp add: load_doctype_uncached_def meta_at_def)

lemma load_uncached_result: "fst (load_doctype_uncached ev name k) = meta_at ev name (kn_world k)"
  by (simp only: load_uncached_world fst_conv)

lemma load_uncached_caches [simp]: "kn_meta_cache (snd (load_doctype_uncached ev name k)) = kn_meta_cache k"
  by (simp add: load_uncached_world)

definition cache_ok :: "'w broker_env \<Rightarrow> 'w kernel \<Rightarrow> bool" where
  "cache_ok ev k =
     (\<forall>name g meta. kn_meta_cache k name = Some (g, meta) \<longrightarrow> (\<forall>w. be_meta_gen ev w = g \<longrightarrow> meta_at ev name w = Inr meta))"

lemma meta_at_generation:
  "generation_law ev \<Longrightarrow> be_meta_gen ev w = be_meta_gen ev w' \<Longrightarrow> meta_at ev name w = meta_at ev name w'"
proof -
  assume "generation_law ev" "be_meta_gen ev w = be_meta_gen ev w'"
  then have "fst (be_sql_root ev (doctype_query name) w) = fst (be_sql_root ev (doctype_query name) w')"
    unfolding generation_law_def by blast
  then show ?thesis by (simp only: meta_at_def)
qed

lemma load_doctype_transparent:
  assumes "generation_law ev" and "cache_ok ev k"
  shows "fst (load_doctype ev name k) = meta_at ev name (kn_world k)"
    and "cache_ok ev (snd (load_doctype ev name k))"
proof -
  let ?gen = "be_meta_gen ev (kn_world k)"
  define miss where "miss = and_then (load_doctype_uncached ev name k)
    (\<lambda>meta k1. (Inr meta, k1\<lparr>kn_meta_cache := (kn_meta_cache k1)(name \<mapsto> (?gen, meta))\<rparr>))"
  have miss: "fst miss = meta_at ev name (kn_world k)" "cache_ok ev (snd miss)"
  proof -
    obtain r k1 where l: "load_doctype_uncached ev name k = (r, k1)" by fastforce
    with load_uncached_result [of ev name k] load_uncached_caches [of ev name k]
    have r: "r = meta_at ev name (kn_world k)" "kn_meta_cache k1 = kn_meta_cache k" by simp_all
    show "fst miss = meta_at ev name (kn_world k)" by (cases r) (simp_all add: miss_def l r(1) [symmetric])
    show "cache_ok ev (snd miss)"
    proof (cases r)
      case (Inr meta)
      have "meta_at ev name w = Inr meta" if "be_meta_gen ev w = ?gen" for w
        using meta_at_generation [OF assms(1) that, of name] r(1) Inr by simp
      with assms(2) Inr l r(2) show ?thesis by (auto simp: miss_def cache_ok_def)
    qed (use assms(2) l r(2) in \<open>simp add: miss_def cache_ok_def\<close>)
  qed
  have "load_doctype ev name k = (case kn_meta_cache k name of
      Some (g, meta) \<Rightarrow> (if g = ?gen then (Inr meta, k) else miss) | None \<Rightarrow> miss)"
    unfolding load_doctype_def miss_def Let_def ..
  moreover have "meta_at ev name (kn_world k) = Inr meta" if "kn_meta_cache k name = Some (?gen, meta)" for meta
    using assms(2) that by (simp add: cache_ok_def)
  ultimately show "fst (load_doctype ev name k) = meta_at ev name (kn_world k)"
    and "cache_ok ev (snd (load_doctype ev name k))"
    using miss assms(2) by (auto split: option.splits)
qed

section \<open>Invariants of the verbs\<close>

text \<open>The statements the kernel runs under its root session inside a verb.\<close>

definition select_query :: "string \<Rightarrow> bool" where
  "select_query q = (take 7 q = ''SELECT '')"

definition outbox_query :: "string \<Rightarrow> bool" where
  "outbox_query q = (take 19 q = ''CREATE _frust_mail '')"

text \<open>
  An invariant of the kernel's state that the caller's statements, the kernel's own queries and outbox
  rows and the hooks keep, and that loading a DocType keeps, is kept by every verb.
\<close>

locale kernel_invariant =
  fixes ev :: "'w broker_env" and P :: "'w kernel \<Rightarrow> bool"
  assumes session: "P k \<Longrightarrow> P (snd (sql_as ev ca q k))"
    and root: "select_query q \<or> outbox_query q \<Longrightarrow> P k \<Longrightarrow> P (snd (sql_root ev q k))"
    and validate: "P k \<Longrightarrow> P (snd (on_world (be_validate ev d doc) k))"
    and fire: "P k \<Longrightarrow> P (snd (on_world (be_fire ev c d doc) k))"
    and fair: "P k \<Longrightarrow> P (k\<lparr>kn_fair := s\<rparr>)"
    and notif: "P k \<Longrightarrow> P (k\<lparr>kn_notif_cache := m\<rparr>)"
    and errors: "P k \<Longrightarrow> P (k\<lparr>kn_mail_errors := es\<rparr>)"
    and load: "P k \<Longrightarrow> P (snd (load_doctype ev name k))"
begin

lemma hooks_pres [pres]:
  "preserves P (on_world (be_validate ev d doc))" "preserves P (on_world (be_fire ev c d doc))"
  by (simp_all add: preserves_def validate fire)

lemma sql_as_pres [pres]: "preserves P (sql_as ev ca q)"
  by (simp add: preserves_def session)

lemma sql_root_pres: "select_query q \<or> outbox_query q \<Longrightarrow> preserves P (sql_root ev q)"
  by (simp add: preserves_def root)

lemma load_pres [pres]: "preserves P (load_doctype ev name)"
  by (simp add: preserves_def load)

lemma instrument_pres [pres]:
  assumes "preserves P verb" shows "preserves P (instrument ev verb)"
  using assms by (auto simp: preserves_def instrument_def fair split: prod.split sum.split)

lemma db_read_pres [pres]: "preserves P (db_read ev ca doctype flt paths opts)"
  unfolding db_read_def
  by (rule instrument_pres, unfold db_read_inner_def [abs_def] Let_def) (intro pres)

lemma db_aggregate_pres: "preserves P (db_aggregate ev ca doctype flt group_by metrics)"
  unfolding db_aggregate_def
  by (rule instrument_pres, unfold db_aggregate_inner_def [abs_def]) (intro pres)

lemma note_failure: "P k \<Longrightarrow> P (note_mail_failure event subject k)"
  by (simp add: note_mail_failure_def errors)

lemma resolve_role_pres: "preserves P (resolve_role ev rule role)"
proof -
  have "preserves P (role_addresses (sql_root ev) role)"
    unfolding role_addresses_def [abs_def] by (intro pres sql_root_pres) (simp add: select_query_def)
  then show ?thesis
    unfolding resolve_role_def [abs_def]
    by (intro pres_step pres_sum) (simp_all add: preserves_def note_failure)
qed

lemma collect_to_pres: "preserves P (collect_to cd stored (resolve_role ev rule) specs)"
proof (induction specs)
  case Nil
  then show ?case by (simp add: preserves_def)
next
  case (Cons spec specs)
  show ?case
  proof (cases "parse_recipient cd spec")
    case (Inr r)
    then show ?thesis
      using Cons resolve_role_pres [of rule]
      by (cases r) (simp_all add: preserves_def case_prod_unfold)
  qed (use Cons in \<open>simp add: preserves_def\<close>)
qed

lemma create_outbox_pres: "preserves P (create_outbox ev entries)"
  unfolding create_outbox_def [abs_def]
  by (intro pres sql_root_pres) (simp add: outbox_query_def OUTBOX_TABLE_def)

lemma fire_rule_inv:
  assumes "P k" shows "P (fire_rule ev stored rule k)"
proof -
  obtain res k1 where r: "render_mail (be_codec ev) rule stored (resolve_role ev rule) k = (res, k1)" by fastforce
  have "k1 = snd (collect_to (be_codec ev) stored (resolve_role ev rule) (nd_recipients rule) k)"
    using r by (auto simp: render_mail_def Let_def split: prod.splits)
  then have k1: "P k1" using preservesD [OF collect_to_pres assms] by simp
  have out: "P (snd (create_outbox ev entries k1))" for entries
    by (rule preservesD [OF create_outbox_pres k1])
  show ?thesis
    unfolding fire_rule_def r enqueue_mail_def record_dead_mail_def case_prod_unfold
    by (cases res) (simp_all add: out note_failure split: sum.split)
qed

lemma fire_notifications_inv:
  assumes "P k" shows "P (fire_notifications ev doctype stored triggers k)"
proof -
  have "preserves P (load_notifications (be_meta ev) (sql_root ev) doctype)"
    unfolding preserves_def load_notifications_def case_prod_unfold
    by (simp add: root select_query_def split: sum.split broker_error.split)
  then have load: "P (snd (load_notifications (be_meta ev) (sql_root ev) doctype k))"
    using assms by (rule preservesD)
  define m where "m = and_then (load_notifications (be_meta ev) (sql_root ev) doctype k)
    (\<lambda>rules k1. (Inr rules, k1\<lparr>kn_notif_cache := (kn_notif_cache k1)(doctype \<mapsto> (be_meta_gen ev (kn_world k), rules))\<rparr>))"
  have "P (snd m)" unfolding m_def using load by (rule and_then_inv) (simp add: notif)
  moreover have "notification_rules ev doctype k = (case kn_notif_cache k doctype of
      Some (g, rules) \<Rightarrow> (if g = be_meta_gen ev (kn_world k) then (Inr rules, k) else m) | None \<Rightarrow> m)"
    unfolding notification_rules_def m_def Let_def ..
  ultimately have "P (snd (notification_rules ev doctype k))"
    using assms by (cases "kn_notif_cache k doctype") auto
  then obtain r k1 where r: "notification_rules ev doctype k = (r, k1)" "P k1"
    by (metis prod.collapse)
  have rules: "P (fold (\<lambda>rule k. if b rule then fire_rule ev stored rule k else k) rules k1)" for b rules
    by (rule fold_inv) (simp_all add: fire_rule_inv r(2))
  show ?thesis
    unfolding fire_notifications_def r(1)
    by (cases r) (simp_all only: prod.case sum.case rules note_failure [OF r(2)])
qed

lemma edge_hooks_pres: "preserves P (edge_hooks ev chain rid doctype hook_doc prior after edges)"
proof (induction edges)
  case (Cons e edges)
  obtain to c where e: "e = (to, c)" by fastforce
  have "edge_hooks ev chain rid doctype hook_doc prior after (e # edges) =
    (\<lambda>k. if prior \<noteq> to \<and> after = to
      then and_then (lift_res (chain_push chain rid c) k) (\<lambda>_ k1.
           and_then (on_world (be_fire ev c doctype hook_doc) k1) (\<lambda>_ k2.
             edge_hooks ev chain rid doctype hook_doc prior after edges k2))
      else edge_hooks ev chain rid doctype hook_doc prior after edges k)"
    by (simp add: e fun_eq_iff)
  then show ?case by (simp only:) (intro pres Cons)
qed (simp add: preserves_def)

lemma run_hooks_pres: "preserves P (run_hooks ev chain op rid doctype baseline doc)"
  unfolding run_hooks_def [abs_def] Let_def by (intro pres edge_hooks_pres)

lemma record_for_hook_pres: "preserves P (record_for_hook ev ca meta r)"
  unfolding record_for_hook_def [abs_def] by (intro pres)

lemma db_write_inner_pres: "preserves P (db_write_inner ev ca chain op doctype r doc)"
proof -
  have base: "preserves P (\<lambda>k. case (op, r) of (Update, Some rkey) \<Rightarrow> record_for_hook ev ca meta rkey k | _ \<Rightarrow> (Inr [], k))"
    for meta
    using record_for_hook_pres by (cases op; cases r) (simp_all add: preserves_def)
  have fin: "preserves P (\<lambda>k. case x of None \<Rightarrow> (e, k) | Some stored \<Rightarrow> (f stored, fire_notifications ev doctype stored (g stored) k))"
    for x :: "json option" and e and f :: "json \<Rightarrow> broker_error + json" and g
    by (cases x) (simp_all add: preserves_def fire_notifications_inv)
  show ?thesis
    unfolding db_write_inner_def [abs_def] Let_def case_prod_unfold
    by (intro pres run_hooks_pres base [unfolded case_prod_unfold] fin)
qed

lemma db_write_pres: "preserves P (db_write ev ca chain op doctype r doc)"
  unfolding db_write_def by (intro instrument_pres db_write_inner_pres)

end

text \<open>The metadata cache's invariant is such an invariant.\<close>

interpretation cache: kernel_invariant ev "\<lambda>k. generation_law ev \<and> cache_ok ev k"
proof
  fix k name
  assume "generation_law ev \<and> cache_ok ev k"
  then show "generation_law ev \<and> cache_ok ev (snd (load_doctype ev name k))"
    by (simp add: load_doctype_transparent(2))
qed (simp_all add: cache_ok_def sql_as_def sql_root_def on_world_def case_prod_unfold)

end
