(* ===== verification/Broker_Atomic.thy ===== *)
theory Broker_Atomic
  imports Broker_Proofs
begin

text \<open>
  What the database must do for a refused write to change nothing, and that the verbs then change
  nothing when they return an error; the account of notifications; what an update persists.
\<close>

section \<open>Refused writes\<close>

text \<open>
  The laws, for the part \<open>v\<close> of the database that documents live in: a query does not change it, nor
  does a statement that fails or that returns no row, nor does a hook.
\<close>

definition write_laws :: "'w broker_env \<Rightarrow> ('w \<Rightarrow> 'v) \<Rightarrow> bool" where
  "write_laws ev v =
     ((\<forall>q w. select_query q \<longrightarrow> v (snd (be_sql_root ev q w)) = v w)
      \<and> (\<forall>u p q w. select_query q \<or> (case fst (be_sql_as ev u p q w) of Inl _ \<Rightarrow> True | Inr out \<Rightarrow> json_first out = None)
           \<longrightarrow> v (snd (be_sql_as ev u p q w)) = v w)
      \<and> (\<forall>d doc w. v (snd (be_validate ev d doc w)) = v w)
      \<and> (\<forall>c d doc w. v (snd (be_fire ev c d doc w)) = v w))"

definition view_is :: "('w \<Rightarrow> 'v) \<Rightarrow> 'v \<Rightarrow> 'w kernel \<Rightarrow> bool" where
  "view_is v x k = (v (kn_world k) = x)"

text \<open>A step that leaves the view alone when it returns an error.\<close>

definition err_keeps :: "('k \<Rightarrow> bool) \<Rightarrow> ('k \<Rightarrow> ('e + 'a) \<times> 'k) \<Rightarrow> bool" where
  "err_keeps P f = (\<forall>k e k'. P k \<longrightarrow> f k = (Inl e, k') \<longrightarrow> P k')"

lemma err_and_then:
  assumes "preserves P f" and "\<And>a. err_keeps P (g a)"
  shows "err_keeps P (\<lambda>k. and_then (f k) g)"
  unfolding err_keeps_def
proof (intro allI impI)
  fix k e k' assume "P k" and r: "and_then (f k) g = (Inl e, k')"
  obtain x k1 where f: "f k = (x, k1)" by fastforce
  with \<open>P k\<close> assms(1) have "P k1" by (metis preservesD snd_conv)
  with r f assms(2) show "P k'" by (cases x) (auto simp: err_keeps_def)
qed

lemma err_preserves: "preserves P f \<Longrightarrow> err_keeps P f"
  unfolding err_keeps_def preserves_def by (metis snd_conv)

lemma view_fair: "view_is v x k \<Longrightarrow> view_is v x (k\<lparr>kn_fair := s\<rparr>)"
  by (simp add: view_is_def)

lemma err_instrument: "err_keeps (view_is v x) verb \<Longrightarrow> err_keeps (view_is v x) (instrument ev verb)"
proof (unfold err_keeps_def, intro allI impI)
  fix k e k'
  assume verb: "\<forall>k e k'. view_is v x k \<longrightarrow> verb k = (Inl e, k') \<longrightarrow> view_is v x k'"
    and k: "view_is v x k" and r: "instrument ev verb k = (Inl e, k')"
  obtain res fs where "admit_verb (be_now ev (kn_world k)) (be_tenant ev) (kn_fair k) = (res, fs)" by fastforce
  with r verb view_fair [OF k, of fs] show "view_is v x k'"
    by (cases res) (auto simp: instrument_def)
qed

lemma pres_instrument: "preserves (view_is v x) verb \<Longrightarrow> preserves (view_is v x) (instrument ev verb)"
  by (auto simp: preserves_def instrument_def view_fair split: prod.split sum.split)

lemma select_root: "write_laws ev v \<Longrightarrow> select_query q \<Longrightarrow> preserves (view_is v x) (sql_root ev q)"
  by (simp add: preserves_def view_is_def write_laws_def sql_root_def)

lemma select_as: "write_laws ev v \<Longrightarrow> select_query q \<Longrightarrow> preserves (view_is v x) (sql_as ev ca q)"
  by (simp add: preserves_def view_is_def write_laws_def sql_as_def)

lemma hooks_view:
  assumes "write_laws ev v"
  shows "preserves (view_is v x) (on_world (be_validate ev d doc))"
    and "preserves (view_is v x) (on_world (be_fire ev c d doc))"
  using assms by (simp_all add: preserves_def view_is_def write_laws_def)

lemma load_doctype_view:
  assumes "write_laws ev v" shows "preserves (view_is v x) (load_doctype ev name)"
proof -
  have sel: "select_query (doctype_query name)" by (simp add: select_query_def doctype_query_def)
  have un: "view_is v x (snd (load_doctype_uncached ev name k))" if "view_is v x k" for k
    using that assms sel by (simp add: load_uncached_world view_is_def write_laws_def)
  show ?thesis
    unfolding preserves_def
  proof (intro allI impI)
    fix k assume k: "view_is v x k"
    define m where "m = and_then (load_doctype_uncached ev name k) (\<lambda>meta k1.
      (Inr meta, k1\<lparr>kn_meta_cache := (kn_meta_cache k1)(name \<mapsto> (be_meta_gen ev (kn_world k), meta))\<rparr>))"
    have "view_is v x (snd m)"
      unfolding m_def using un [OF k] by (rule and_then_inv) (simp add: view_is_def)
    moreover have "load_doctype ev name k = (case kn_meta_cache k name of
        Some (g, meta) \<Rightarrow> (if g = be_meta_gen ev (kn_world k) then (Inr meta, k) else m) | None \<Rightarrow> m)"
      unfolding load_doctype_def m_def Let_def ..
    ultimately show "view_is v x (snd (load_doctype ev name k))"
      using k by (cases "kn_meta_cache k name") auto
  qed
qed

lemma record_for_hook_view: "write_laws ev v \<Longrightarrow> preserves (view_is v x) (record_for_hook ev ca meta r)"
  unfolding record_for_hook_def [abs_def] by (intro pres select_as) (simp_all add: select_query_def)

lemma edge_hooks_view:
  assumes "write_laws ev v"
  shows "preserves (view_is v x) (edge_hooks ev chain rid doctype hook_doc prior after edges)"
proof (induction edges)
  case (Cons e edges)
  obtain to c where e: "e = (to, c)" by fastforce
  have "edge_hooks ev chain rid doctype hook_doc prior after (e # edges) =
    (\<lambda>k. if prior \<noteq> to \<and> after = to
      then and_then (lift_res (chain_push chain rid c) k) (\<lambda>_ k1.
           and_then (on_world (be_fire ev c doctype hook_doc) k1) (\<lambda>_ k2.
             edge_hooks ev chain rid doctype hook_doc prior after edges k2))
      else edge_hooks ev chain rid doctype hook_doc prior after edges k)"
    by (simp add: e fun_eq_iff)
  then show ?case by (simp only:) (intro pres Cons hooks_view [OF assms])
qed (simp add: preserves_def)

lemma run_hooks_view: "write_laws ev v \<Longrightarrow> preserves (view_is v x) (run_hooks ev chain op rid doctype baseline doc)"
  unfolding run_hooks_def [abs_def] Let_def by (intro pres edge_hooks_view hooks_view)

lemma final_write_view:
  assumes "write_laws ev v"
  shows "err_keeps (view_is v x) (\<lambda>k. and_then (sql_as ev ca q k) (\<lambda>out k6.
     case json_first out of None \<Rightarrow> (Inl (e out), k6) | Some stored \<Rightarrow> (Inr stored, n stored k6)))"
  unfolding err_keeps_def
proof (intro allI impI)
  fix k e' k'
  assume k: "view_is v x k" and r: "and_then (sql_as ev ca q k) (\<lambda>out k6.
     case json_first out of None \<Rightarrow> (Inl (e out), k6) | Some stored \<Rightarrow> (Inr stored, n stored k6)) = (Inl e', k')"
  obtain res w where s: "be_sql_as ev (ca_user ca) (ca_pass ca) q (kn_world k) = (res, w)" by fastforce
  then have sql: "sql_as ev ca q k = (res, k\<lparr>kn_world := w\<rparr>)" by (simp add: sql_as_def on_world_def)
  have "(case res of Inl _ \<Rightarrow> True | Inr out \<Rightarrow> json_first out = None) \<and> k' = k\<lparr>kn_world := w\<rparr>"
    using r sql by (auto split: sum.splits option.splits)
  moreover from this assms s have "v w = v (kn_world k)" unfolding write_laws_def by (metis fst_conv snd_conv)
  ultimately show "view_is v x k'" using k by (simp add: view_is_def)
qed

lemma db_write_inner_view:
  assumes "write_laws ev v"
  shows "err_keeps (view_is v x) (db_write_inner ev ca chain op doctype r doc)"
proof -
  have base: "preserves (view_is v x) (\<lambda>k. case (op, r) of
      (Update, Some rkey) \<Rightarrow> record_for_hook ev ca meta rkey k | _ \<Rightarrow> (Inr [], k))" for meta
    using record_for_hook_view [OF assms] by (cases op; cases r) (simp_all add: preserves_def)
  show ?thesis
    unfolding db_write_inner_def [abs_def] Let_def case_prod_unfold
    by (intro err_and_then load_doctype_view [OF assms] pres_lift base [unfolded case_prod_unfold]
        run_hooks_view [OF assms] final_write_view [OF assms])
qed

text \<open>A read is a query.\<close>

lemma replace_first_select:
  "replace_first (''FROM '' @ n) s (''SELECT * FROM '' @ n @ x) = ''SELECT * '' @ s @ x"
proof -
  have "split_str (CHR ''F'' # ''ROM '' @ n) (''SELECT * '' @ (''FROM '' @ n) @ x) = Some (''SELECT * '', x)"
    using split_str_here [of "''FROM '' @ n" x] by (subst split_str_skip) simp_all
  then show ?thesis by (simp add: replace_first_def)
qed

lemma read_query_select:
  assumes "read_query timeout name flt opts = Inr q" shows "select_query q"
  using assms
  by (auto simp: read_query_def select_query_def Let_def replace_first_select [simplified]
      split: sum.splits if_splits)

lemma db_read_view:
  assumes "write_laws ev v" shows "preserves (view_is v x) (db_read ev ca doctype flt paths opts)"
proof -
  have "preserves (view_is v x) (\<lambda>k. and_then (lift_res (read_query timeout name flt opts) k) (\<lambda>q k1.
      and_then (sql_as ev ca q k1) g))"
    if "\<And>rows. preserves (view_is v x) (g rows)" for timeout name and g :: "json \<Rightarrow> 'a kernel \<Rightarrow> (broker_error + json list) \<times> 'a kernel"
  proof (cases "read_query timeout name flt opts")
    case (Inr q)
    have "preserves (view_is v x) (sql_as ev ca q)"
      using select_as [OF assms read_query_select [OF Inr]] .
    with Inr that show ?thesis by (simp add: pres_and_then)
  qed (simp add: preserves_def)
  note q = this
  show ?thesis
    unfolding db_read_def db_read_inner_def [abs_def] Let_def
    by (rule pres_instrument, rule pres_and_then, rule load_doctype_view [OF assms], rule pres_and_then,
        rule pres_lift, rule q, rule pres_pure)
qed

lemma db_transition_view:
  assumes "write_laws ev v"
  shows "err_keeps (view_is v x) (db_transition ev ca chain doctype r action)"
proof -
  have wf: "preserves (view_is v x) (load_workflow (be_meta ev) (sql_root ev) doctype)"
    unfolding load_workflow_def [abs_def]
    by (intro pres_and_then select_root [OF assms])
      (auto simp: select_query_def preserves_def split: option.split sum.split)
  have rd: "preserves (view_is v x) (read_by_id ev ca doctype r)"
    unfolding read_by_id_def [abs_def] Let_def
    by (intro pres_and_then db_read_view [OF assms]) (auto simp: preserves_def split: list.split)
  have wr: "err_keeps (view_is v x) (\<lambda>k. and_then (db_write_inner ev ca chain Update doctype (Some r) d k)
      (\<lambda>stored k4. (Inr stored, f stored k4)))" for d and f :: "json \<Rightarrow> 'a kernel \<Rightarrow> 'a kernel"
    using db_write_inner_view [OF assms] by (auto simp: err_keeps_def and_then_Inl)
  have none: "err_keeps (view_is v x) (\<lambda>k. (Inl e, k))" for e :: broker_error
    by (simp add: err_keeps_def)
  have opt: "err_keeps P (\<lambda>k. case y of None \<Rightarrow> f k | Some a \<Rightarrow> g a k)"
    if "err_keeps P f" "\<And>a. err_keeps P (g a)" for P y
      and f :: "'a kernel \<Rightarrow> (broker_error + json) \<times> 'a kernel" and g :: "workflow_def \<Rightarrow> 'a kernel \<Rightarrow> (broker_error + json) \<times> 'a kernel"
    using that by (cases y) simp_all
  show ?thesis
    unfolding db_transition_def db_transition_inner_def [abs_def]
    by (intro err_instrument err_and_then wf opt none rd pres_lift wr)
qed

section \<open>The account of notifications\<close>

text \<open>
  The outbox counts its rows: it never shrinks under the kernel's root session, and a row that was
  created is there.
\<close>

definition outbox_laws :: "'w broker_env \<Rightarrow> ('w \<Rightarrow> nat) \<Rightarrow> bool" where
  "outbox_laws ev n =
     (\<forall>q w. n w + (if take 19 q = ''CREATE _frust_mail '' \<and> is_ok_res (fst (be_sql_root ev q w)) then 1 else 0)
       \<le> n (snd (be_sql_root ev q w)))"

definition account :: "('w \<Rightarrow> nat) \<Rightarrow> 'w kernel \<Rightarrow> nat" where
  "account n k = n (kn_world k) + length (kn_mail_errors k)"

lemma account_note [simp]: "account n (note_mail_failure e s k) = account n k + 1"
  by (simp add: account_def note_mail_failure_def)

lemma account_root:
  assumes "outbox_laws ev n" shows "account n k \<le> account n (snd (sql_root ev q k))"
proof -
  have "n w \<le> n (snd (be_sql_root ev q w))" for w
    using assms unfolding outbox_laws_def by (meson add_leD1)
  then show ?thesis by (simp add: account_def sql_root_def)
qed

lemma account_and_then:
  assumes "a \<le> account n (snd x)" and "\<And>y k. account n k \<le> account n (snd (f y k))"
  shows "a \<le> account n (snd (and_then x f))"
proof (cases x)
  case (Pair r k)
  with assms show ?thesis by (cases r) (auto intro: order_trans)
qed

lemma account_resolve:
  assumes "outbox_laws ev n" shows "account n k \<le> account n (snd (resolve_role ev rule role k))"
proof -
  have "account n k \<le> account n (snd (role_addresses (sql_root ev) role k))"
    unfolding role_addresses_def by (rule account_and_then [OF account_root [OF assms]]) simp
  then show ?thesis
    unfolding resolve_role_def case_prod_unfold by (simp split: sum.split)
qed

lemma account_collect:
  assumes "outbox_laws ev n"
  shows "account n k \<le> account n (snd (collect_to cd stored (resolve_role ev rule) specs k))"
proof (induction specs arbitrary: k)
  case (Cons spec specs)
  show ?case
  proof (cases "parse_recipient cd spec")
    case (Inr r)
    show ?thesis
    proof (cases r)
      case (RRole role)
      have "account n (snd (resolve_role ev rule role k)) \<le>
          account n (snd (collect_to cd stored (resolve_role ev rule) specs (snd (resolve_role ev rule role k))))"
        by (rule Cons)
      with account_resolve [OF assms, of k rule role] Inr RRole show ?thesis
        by (simp add: case_prod_unfold)
    qed (use Inr Cons in \<open>simp_all add: case_prod_unfold\<close>)
  qed (use Cons in simp)
qed simp

lemma account_create:
  assumes "outbox_laws ev n"
  shows "account n k + (if is_ok_res (fst (create_outbox ev entries k)) then 1 else 0)
       \<le> account n (snd (create_outbox ev entries k))"
proof (cases "render_value (VObject entries)")
  case (Inr content)
  let ?q = "''CREATE '' @ OUTBOX_TABLE @ '' CONTENT '' @ content @ '';''"
  obtain res w where s: "be_sql_root ev ?q (kn_world k) = (res, w)" by fastforce
  have t: "take 19 ?q = ''CREATE _frust_mail ''" by (simp add: OUTBOX_TABLE_def)
  have "n (kn_world k) + (if take 19 ?q = ''CREATE _frust_mail '' \<and> is_ok_res (fst (be_sql_root ev ?q (kn_world k))) then 1 else 0)
      \<le> n (snd (be_sql_root ev ?q (kn_world k)))"
    using assms unfolding outbox_laws_def by blast
  then have "n (kn_world k) + (if is_ok_res res then 1 else 0) \<le> n w"
    unfolding t s fst_conv snd_conv by (simp only: simp_thms)
  with Inr s show ?thesis
    by (cases res) (simp_all add: create_outbox_def sql_root_def on_world_def account_def)
qed (simp add: create_outbox_def)

lemma account_fire_rule:
  assumes "outbox_laws ev n" shows "account n k + 1 \<le> account n (fire_rule ev stored rule k)"
proof -
  obtain res k1 where r: "render_mail (be_codec ev) rule stored (resolve_role ev rule) k = (res, k1)" by fastforce
  have "k1 = snd (collect_to (be_codec ev) stored (resolve_role ev rule) (nd_recipients rule) k)"
    using r by (auto simp: render_mail_def Let_def split: prod.splits)
  then have k1: "account n k \<le> account n k1" using account_collect [OF assms] by simp
  have out: "account n k1 + 1 \<le> account n (case create_outbox ev entries k1 of
      (Inl _, k2) \<Rightarrow> note_mail_failure e s k2 | (Inr _, k2) \<Rightarrow> k2)" for entries e s
    using account_create [OF assms, of k1 entries]
    by (cases "create_outbox ev entries k1"; cases "fst (create_outbox ev entries k1)") auto
  have "account n k + 1 \<le> X" if "account n k1 + 1 \<le> X" for X using that k1 by simp
  then show ?thesis
    unfolding fire_rule_def r enqueue_mail_def record_dead_mail_def
    by (cases res) (simp_all only: sum.case prod.case out)
qed

lemma account_fold:
  assumes "outbox_laws ev n"
  shows "account n k + length (filter P rules)
    \<le> account n (fold (\<lambda>rule k. if P rule then fire_rule ev stored rule k else k) rules k)"
proof (induction rules arbitrary: k)
  case (Cons rule rules)
  show ?case
    using Cons [of "fire_rule ev stored rule k"] Cons [of k] account_fire_rule [OF assms, of k stored rule]
    by simp
qed simp

section \<open>What an update persists\<close>

fun no_nan :: "cvalue \<Rightarrow> bool" where
  "no_nan (VFloat x) = (x \<noteq> NotANumber)"
| "no_nan (VList vs) = list_all no_nan vs"
| "no_nan (VObject es) = list_all (\<lambda>e. no_nan (snd e)) es"
| "no_nan _ = True"

lemma value_eq_refl: "no_nan v \<Longrightarrow> value_eq v v"
proof (induction v rule: no_nan.induct)
  case (1 x)
  then show ?case by (cases x) simp_all
next
  case (2 vs)
  then show ?case by (simp add: list_all_iff list.rel_refl_strong)
next
  case (3 es)
  then show ?case by (simp add: list_all_iff list.rel_refl_strong)
qed simp_all

lemma same_value_refl: "no_nan v \<Longrightarrow> same_value v v"
  by (simp add: same_value_def value_eq_refl Decimal.eq_def Decimal.cmp_def int_cmp_def Let_def split: option.split)

lemma persisted_update:
  "(n, v) \<in> set (persisted_entries meta Update doc hook_doc entries) \<longleftrightarrow>
   (n, v) \<in> set entries \<and> in_envelope meta n
   \<and> (n \<in> fst ` set doc \<or> (\<forall>b. (n, b) \<in> set hook_doc \<longrightarrow> \<not> same_value b v))"
  by (force simp: persisted_entries_def list_ex_iff Let_def)

lemma echo_persists_delta:
  assumes "list_all (\<lambda>e. no_nan (snd e)) hook_doc"
  shows "fst ` set (persisted_entries meta Update doc hook_doc hook_doc) \<subseteq> fst ` set doc"
  using assms same_value_refl by (fastforce simp: persisted_update list_all_iff)

end
