(* ===== verification/Broker_Demo.thy ===== *)
theory Broker_Demo
  imports Broker_Atomic Mail Fleet_Demo
begin

text \<open>
  A small database for concrete runs: one DocType \<open>inv\<close> with a public and a restricted field, one
  stored invoice in state \<open>Draft\<close>, one notification rule, a workflow with one transition. The world
  logs the statements that changed a document and counts the outbox's rows; only the user \<open>boss\<close> may
  update.
\<close>

record demo_world =
  dw_log :: "string list"
  dw_mails :: nat

definition inv_meta :: doctype_meta where
  "inv_meta = \<lparr>dm_name = ''inv'', dm_label = [],
     dm_fields = [\<lparr>fm_fieldname = ''note'', fm_fieldtype = ''Data'', fm_perm_role = None\<rparr>,
                  \<lparr>fm_fieldname = ''salary'', fm_fieldtype = ''Currency'', fm_perm_role = Some ''hr''\<rparr>]\<rparr>"

definition inv_row :: json where
  "inv_row = JObject [(''id'', JString ''inv:1''), (''note'', JString ''hello''), (''salary'', JString ''100.50''),
     (''docstatus'', JInt 0)]"

definition inv_rule :: notification_def where
  "inv_rule = \<lparr>nd_name = ''told'', nd_doctype = ''inv'', nd_event = ''on_update'', nd_action = None,
     nd_condition = None, nd_recipients = [''a@x.org''], nd_subject = ''Changed {{note}}'', nd_body = ''{{missing}}'',
     nd_enabled = True\<rparr>"

definition inv_flow :: workflow_def where
  "inv_flow = \<lparr>wf_name = ''w'', wf_doctype = ''inv'',
     wf_states = [\<lparr>ws_name = ''Draft'', ws_docstatus = 0\<rparr>, \<lparr>ws_name = ''Paid'', ws_docstatus = 1\<rparr>],
     wf_transitions = [\<lparr>tr_from = ''Draft'', tr_to = ''Paid'', tr_role = ''hr'', tr_action = ''Pay''\<rparr>],
     wf_state_rules = []\<rparr>"

definition demo_root :: "demo_world sql" where
  "demo_root q w =
     (if take 19 q = ''CREATE _frust_mail '' then (Inr (JArray [JObject []]), w\<lparr>dw_mails := dw_mails w + 1\<rparr>)
      else (Inr (JArray [JObject []]), w))"

definition demo_as :: "string \<Rightarrow> string \<Rightarrow> demo_world sql" where
  "demo_as u p q w =
     (if take 7 q = ''SELECT '' then (Inr (JArray [inv_row]), w)
      else if u = ''boss''
        then (Inr (JArray [JObject [(''id'', JString ''inv:1''), (''note'', JString ''new''), (''docstatus'', JInt 1)]]),
              w\<lparr>dw_log := dw_log w @ [q]\<rparr>)
      else (Inr (JArray []), w))"

definition demo_env :: "(string \<Rightarrow> document \<Rightarrow> broker_error + document) \<Rightarrow> demo_world broker_env" where
  "demo_env validate =
     \<lparr>be_tenant = ''acme'', be_timeout = ''30s'', be_sql_as = demo_as, be_sql_root = demo_root,
      be_validate = (\<lambda>d doc w. (validate d doc, w)),
      be_fire = (\<lambda>c d doc w. (if c = OnSubmit then Inl (HookRejected ''on_submit'' ''no'') else Inr doc, w)),
      be_meta_gen = (\<lambda>_. 7), be_now = (\<lambda>_. 0), be_trace = (\<lambda>_. ''t''), be_f64 = (\<lambda>_. Finite ''0''),
      be_codec = demo_codec,
      be_meta = \<lparr>mc_workflow = (\<lambda>_. Inr inv_flow), mc_notifications = (\<lambda>_. Inr [inv_rule]),
                 mc_doctype_meta = (\<lambda>_. Inr inv_meta), mc_doctypes = (\<lambda>_. Inr [])\<rparr>\<rparr>"

definition demo_kernel :: "demo_world kernel" where
  "demo_kernel = \<lparr>kn_world = \<lparr>dw_log = [], dw_mails = 0\<rparr>, kn_fair = fair_state_default,
     kn_meta_cache = (\<lambda>_. None), kn_notif_cache = (\<lambda>_. None), kn_mail_errors = []\<rparr>"

definition boss :: caller where
  "boss = \<lparr>ca_user = ''boss'', ca_pass = [], ca_role = ''hr''\<rparr>"

definition clerk :: caller where
  "clerk = \<lparr>ca_user = ''clerk'', ca_pass = [], ca_role = ''clerk''\<rparr>"

lemmas demo_defs = demo_env_def demo_kernel_def demo_root_def demo_as_def boss_def clerk_def

lemma demo_write_laws: "write_laws (demo_env validate) dw_log"
proof -
  have "dw_log (snd (demo_as u p q w)) = dw_log w"
    if "select_query q \<or> (case fst (demo_as u p q w) of Inl _ \<Rightarrow> True | Inr out \<Rightarrow> json_first out = None)" for u p q w
    using that by (auto simp: demo_as_def select_query_def json_first_def split: if_splits)
  then show ?thesis
    by (simp add: write_laws_def demo_env_def demo_root_def)
qed

lemma demo_outbox_laws: "outbox_laws (demo_env validate) dw_mails"
  by (simp add: outbox_laws_def demo_env_def demo_root_def)

lemma demo_generation_law: "generation_law (demo_env validate)"
  by (simp add: generation_law_def demo_env_def demo_root_def)

lemma demo_cache_ok: "cache_ok (demo_env validate) demo_kernel"
  by (simp add: cache_ok_def demo_kernel_def)

end
