(* ===== verification/Props_Broker.thy ===== *)
theory Props_Broker
  imports Broker_Demo
begin

text \<open>Properties of the permission broker and of the notifications it sends.\<close>

section \<open>Reading\<close>







text \<open>C39: the field check of an aggregate looks at plain roots only: for a field the role may not read, the
  path that begins with the field is refused, and the path that begins with a link hop of that name
  compiles to the very query a role that may read the field gets.\<close>

theorem link_hop_reads_hidden_field:
  assumes "f \<notin> set allowed" and "m \<noteq> MCount"
  shows "aggregate_query timeout allowed name flt [] [(m, [PField f])] = Inl (FieldNotReadable f)
    \<and> aggregate_query timeout allowed name flt [] [(m, [LinkHop f])]
      = aggregate_query timeout (f # allowed) name flt [] [(m, [PField f])]"
proof -
  have p: "check_path allowed [LinkHop f] = check_path (f # allowed) [PField f]"
    by (simp add: check_path_def render_path_def render_segment_def MAX_PATH_DEPTH_def)
  have "metric_expr allowed m [LinkHop f] = metric_expr (f # allowed) m [PField f]"
    "metric_expr allowed m [PField f] = Inl (FieldNotReadable f)"
    using assms p by (cases m; simp add: metric_expr_def check_path_def)+
  then show ?thesis
    by (simp add: aggregate_query_def group_columns_def metric_columns_def)
qed

theorem link_hop_reads_hidden_field_witness:
  "aggregate_query ''30s'' (readable_fields inv_meta ''clerk'') ''inv'' None [] [(MMax, [PField ''salary''])]
     = Inl (FieldNotReadable ''salary'')
   \<and> aggregate_query ''30s'' (readable_fields inv_meta ''clerk'') ''inv'' None [] [(MMax, [LinkHop ''salary''])]
     = Inr ''SELECT math::max(salary) AS m0 FROM inv GROUP ALL TIMEOUT 30s;''"
proof -
  have h: "''salary'' \<notin> set (readable_fields inv_meta ''clerk'')" "MMax \<noteq> MCount" by code_simp+
  have "aggregate_query ''30s'' (''salary'' # readable_fields inv_meta ''clerk'') ''inv'' None [] [(MMax, [PField ''salary''])]
      = Inr ''SELECT math::max(salary) AS m0 FROM inv GROUP ALL TIMEOUT 30s;''" by code_simp
  with link_hop_reads_hidden_field [OF h, of "''30s''" "''inv''" None] show ?thesis by simp
qed

section \<open>Writing\<close>

text \<open>C2: a write or a workflow transition that returns an error has changed no document: over a database in
  which queries, failing statements and statements without a row change nothing, and hooks change nothing,
  the documents are what they were, whichever guard, hook, judgement or permission refused.\<close>

theorem refused_write_changes_nothing:
  assumes "write_laws ev v"
  shows "(\<forall>e k'. db_write ev ca chain op doctype r doc k = (Inl e, k') \<longrightarrow> v (kn_world k') = v (kn_world k))
    \<and> (\<forall>e k'. db_transition ev ca chain doctype r' action k = (Inl e, k') \<longrightarrow> v (kn_world k') = v (kn_world k))"
proof -
  have "err_keeps (view_is v (v (kn_world k))) (db_write ev ca chain op doctype r doc)"
    unfolding db_write_def by (intro err_instrument db_write_inner_view assms)
  moreover have "err_keeps (view_is v (v (kn_world k))) (db_transition ev ca chain doctype r' action)"
    by (rule db_transition_view [OF assms])
  ultimately show ?thesis unfolding err_keeps_def view_is_def by blast
qed

definition clerk_write :: "(broker_error + json) \<times> demo_world kernel" where
  "clerk_write = db_write (demo_env (\<lambda>_ doc. Inr doc)) clerk [] Update ''inv'' (Some ''1'') [(''note'', VText ''new'')] demo_kernel"

theorem refused_write_changes_nothing_witness:
  "\<not> is_ok_res (fst clerk_write) \<and> dw_log (kn_world (snd clerk_write)) = []"
proof -
  have no: "\<not> is_ok_res (fst clerk_write)" by code_simp
  then obtain e where "fst clerk_write = Inl e" by (cases "fst clerk_write") simp_all
  then have "clerk_write = (Inl e, snd clerk_write)" by (metis prod.collapse)
  then have "db_write (demo_env (\<lambda>_ doc. Inr doc)) clerk [] Update ''inv'' (Some ''1'')
      [(''note'', VText ''new'')] demo_kernel = (Inl e, snd clerk_write)"
    by (simp only: clerk_write_def)
  with refused_write_changes_nothing [OF demo_write_laws [of "\<lambda>_ doc. Inr doc"],
      of clerk "[]" Update "''inv''" "Some ''1''" "[(''note'', VText ''new'')]" demo_kernel] no
  show ?thesis by (simp add: demo_kernel_def)
qed



text \<open>the veto of submit hooks can be skipped: the docstatus edge is looked for before the validate hooks
  run, so a validate hook that sets docstatus to 1 submits the document although every submit hook rejects.\<close>

definition submitting_hook :: "string \<Rightarrow> document \<Rightarrow> broker_error + document" where
  "submitting_hook d doc = Inr (overlay_entry ''docstatus'' (VInt 1) doc)"

theorem validate_hook_skips_submit_veto:
  "fst (be_fire (demo_env submitting_hook) OnSubmit d doc w) = Inl (HookRejected ''on_submit'' ''no'')
   \<and> (case db_write (demo_env submitting_hook) boss [] Update ''inv'' (Some ''1'') [(''note'', VText ''new'')] demo_kernel of
        (Inr stored, k') \<Rightarrow> json_get ''docstatus'' stored = Some (JInt 1)
          \<and> dw_log (kn_world k') = [''UPDATE type::record('' @ quote_literal ''inv:1'' @ '') MERGE { note: ''
              @ quote_literal ''new'' @ '', docstatus: 1 };'']
      | _ \<Rightarrow> False)"
proof
  show "fst (be_fire (demo_env submitting_hook) OnSubmit d doc w) = Inl (HookRejected ''on_submit'' ''no'')"
    by (simp add: demo_env_def)
qed code_simp

section \<open>Caches and chains\<close>



text \<open>nested hooks end: a chain never holds the same record and hook class twice nor more than eight
  entries, an entry past that is refused, and extending chains is well-founded.\<close>

theorem hook_chains_end:
  "wf {(chain', chain). \<exists>r c. chain_push chain r c = Inr chain'}
   \<and> chain_ok [] \<and> (chain_ok chain \<longrightarrow> chain_push chain r c = Inr chain' \<longrightarrow> chain_ok chain')
   \<and> (chain_ok chain \<longrightarrow> length chain = MAX_HOOK_DEPTH \<longrightarrow> (r, c) \<notin> set chain
        \<longrightarrow> chain_push chain r c = Inl (HookDepthExceeded MAX_HOOK_DEPTH))"
  using chain_push_wf chain_push_ok [of chain r c chain']
  by (auto simp: chain_ok_def) (auto simp: chain_push_def list_ex_iff)

theorem hook_chains_end_witness:
  "chain_ok [(''inv:1'', Validate), (''inv:1'', OnSubmit)]"
proof -
  have "chain_push [] ''inv:1'' Validate = Inr [(''inv:1'', Validate)]"
    "chain_push [(''inv:1'', Validate)] ''inv:1'' OnSubmit = Inr [(''inv:1'', Validate), (''inv:1'', OnSubmit)]"
    by code_simp+
  with hook_chains_end [of "[]" "''inv:1''" Validate "[(''inv:1'', Validate)]"]
    hook_chains_end [of "[(''inv:1'', Validate)]" "''inv:1''" OnSubmit]
  show ?thesis by blast
qed

section \<open>Notifications\<close>


definition boss_write :: "(broker_error + json) \<times> demo_world kernel" where
  "boss_write = db_write (demo_env (\<lambda>_ doc. Inr doc)) boss [] Update ''inv'' (Some ''1'') [(''note'', VText ''new'')] demo_kernel"


text \<open>C26: a template renders to its literals and its fields' own text: pieces written as a template and
  interpolated give the pieces' values, never interpolating a value again, or the error that names the first
  field the document does not have; and a rendered message is addressed to a sorted, duplicate-free,
  non-empty list of exactly the resolved addresses.\<close>

theorem templates_render_their_pieces:
  assumes "list_all piece_ok ps"
  shows "interpolate cd (template_text ps) doc = pieces_value cd doc ps
    \<and> (\<forall>out. fst (render_mail cd rule doc roles s) = Inr out \<longrightarrow>
         ob_to out \<noteq> [] \<and> sorted (ob_to out) \<and> distinct (ob_to out)
         \<and> set (ob_to out) = set (fst (collect_to cd doc roles (nd_recipients rule) s)))"
  using interpolate_template [OF assms] render_mail_to by (metis prod.collapse)

theorem templates_render_their_pieces_witness:
  "interpolate demo_codec ''Dear {{who}}!'' (JObject [(''who'', JString ''{{x}}'')]) = Inr ''Dear {{x}}!''"
proof -
  have h: "list_all piece_ok [Lit ''Dear '', Ref ''who'', Lit ''!'']"
    "template_text [Lit ''Dear '', Ref ''who'', Lit ''!''] = ''Dear {{who}}!''"
    "pieces_value demo_codec (JObject [(''who'', JString ''{{x}}'')]) [Lit ''Dear '', Ref ''who'', Lit ''!''] = Inr ''Dear {{x}}!''"
    by code_simp+
  have "interpolate demo_codec (template_text [Lit ''Dear '', Ref ''who'', Lit ''!''])
      (JObject [(''who'', JString ''{{x}}'')])
    = pieces_value demo_codec (JObject [(''who'', JString ''{{x}}'')]) [Lit ''Dear '', Ref ''who'', Lit ''!'']"
    by (rule templates_render_their_pieces [OF h(1), THEN conjunct1])
  then show ?thesis unfolding h(2,3) .
qed

end
