(* ===== verification/Worker.thy ===== *)
theory Worker
  imports Broker_Write Fairness
begin

text \<open>
  \<open>kernel/src/worker.rs\<close>: the job worker and the mail worker. A claim is one conditional update with a
  fresh fencing token; every later update of the job is conditional on that token. The process-wide
  counters (the claim sequence and the round) and the count of rejected fences are in \<open>worker\<close>, next
  to the kernel's state; the clock, the process id and new trace ids are read from the world.
\<close>

section \<open>Jobs and leases\<close>

record job_lease =
  le_claimed_by :: string
  le_token :: string
  le_attempt :: nat
  le_expires_at :: string

record job =
  jb_id :: string
  jb_kind :: string
  jb_requested_by :: string
  jb_payload :: json
  jb_trace :: "string option"
  jb_lease :: job_lease

datatype job_outcome = Done | Denied string | Retry string

definition MAX_TENANTS_PER_ROUND :: nat where
  "MAX_TENANTS_PER_ROUND = 32"

definition HEAD_PER_TENANT :: nat where
  "HEAD_PER_TENANT = 10"

definition JOB_LEASE_SECONDS :: nat where
  "JOB_LEASE_SECONDS = 300"

definition MAX_JOB_ATTEMPTS :: nat where
  "MAX_JOB_ATTEMPTS = 5"

text \<open>Zero-padded hexadecimal, as \<open>{:0wx}\<close> prints it.\<close>

fun hex_str :: "nat \<Rightarrow> string" where
  "hex_str n = (if n < 16 then [hex_digit n] else hex_str (n div 16) @ [hex_digit (n mod 16)])"

declare hex_str.simps [simp del]

definition hex_pad :: "nat \<Rightarrow> nat \<Rightarrow> string" where
  "hex_pad width n = replicate (width - length (hex_str n)) CHR ''0'' @ hex_str n"

definition claim_token :: "nat \<Rightarrow> nat \<Rightarrow> nat \<Rightarrow> string" where
  "claim_token nanos pid sequence = hex_pad 32 nanos @ ''-'' @ hex_pad 8 pid @ ''-'' @ hex_pad 16 sequence"

datatype claim_source = Queued | ExpiredLease

definition attempts_text :: string where
  "attempts_text = nat_str MAX_JOB_ATTEMPTS"

definition source_predicate :: "claim_source \<Rightarrow> string" where
  "source_predicate source = (case source of
     Queued \<Rightarrow> ''status = 'queued' AND (attempts = NONE OR attempts < '' @ attempts_text @ '')''
   | ExpiredLease \<Rightarrow> ''status = 'running' AND lease_expires_at != NONE AND lease_expires_at <= time::now() AND attempts < ''
       @ attempts_text)"

definition eligible_predicate :: string where
  "eligible_predicate =
     ''((status = 'queued' AND (attempts = NONE OR attempts < '' @ attempts_text @ '')) OR ''
     @ ''(status = 'running' AND lease_expires_at != NONE AND lease_expires_at <= time::now() AND attempts < ''
     @ attempts_text @ ''))''"

section \<open>The statements\<close>

definition claim_sql :: "string \<Rightarrow> string \<Rightarrow> string \<Rightarrow> claim_source \<Rightarrow> broker_error + string" where
  "claim_sql job_id worker_id token source =
     (case render_value (VRecordId job_id) of
        Inl e \<Rightarrow> Inl e
      | Inr rid \<Rightarrow> Inr (''UPDATE '' @ rid @ '' SET status = 'running', claimed_by = '' @ quote_literal worker_id
          @ '', claim_token = '' @ quote_literal token
          @ '', claimed_at = time::now(), lease_expires_at = time::now() + '' @ nat_str JOB_LEASE_SECONDS
          @ ''s, attempts = IF attempts = NONE { 1 } ELSE { attempts + 1 } WHERE '' @ source_predicate source @ '';''))"

definition fenced_update_sql :: "job \<Rightarrow> string \<Rightarrow> broker_error + string" where
  "fenced_update_sql jb upd =
     (case render_value (VRecordId (jb_id jb)) of
        Inl e \<Rightarrow> Inl e
      | Inr rid \<Rightarrow> Inr (''UPDATE '' @ rid @ '' SET '' @ upd @ '' WHERE status = 'running' AND claimed_by = ''
          @ quote_literal (le_claimed_by (jb_lease jb)) @ '' AND claim_token = ''
          @ quote_literal (le_token (jb_lease jb)) @ '';''))"

definition dead_update :: "string \<Rightarrow> string" where
  "dead_update detail = ''status = 'dead', terminal_reason = 'attempts_exhausted', last_error = ''
     @ quote_literal detail
     @ '', finished_at = time::now(), claimed_by = NONE, claim_token = NONE, lease_expires_at = NONE''"

definition requeue_update :: "string \<Rightarrow> string" where
  "requeue_update detail = ''status = 'queued', claimed_by = NONE, claim_token = NONE, claimed_at = NONE, ''
     @ ''lease_expires_at = NONE, last_error = '' @ quote_literal detail"

definition retry_update :: "nat \<Rightarrow> string \<Rightarrow> bool \<times> string" where
  "retry_update attempt detail =
     (if MAX_JOB_ATTEMPTS \<le> attempt then (True, dead_update detail) else (False, requeue_update detail))"

definition renew_update :: string where
  "renew_update = ''lease_expires_at = time::now() + '' @ nat_str JOB_LEASE_SECONDS @ ''s''"

definition finish_update :: "string \<Rightarrow> string \<Rightarrow> string" where
  "finish_update status detail = ''status = '' @ quote_literal status @ '', detail = '' @ quote_literal detail
     @ '', terminal_reason = '' @ quote_literal status
     @ '', finished_at = time::now(), claimed_by = NONE, claim_token = NONE, lease_expires_at = NONE''"

definition reap_sql :: string where
  "reap_sql = ''UPDATE job SET status = 'dead', terminal_reason = 'attempts_exhausted', ''
     @ ''last_error = 'claim lease expired after final attempt', finished_at = time::now(), ''
     @ ''claimed_by = NONE, claim_token = NONE, lease_expires_at = NONE WHERE attempts >= '' @ attempts_text
     @ '' AND (status = 'queued' OR (status = 'running' AND lease_expires_at != NONE AND ''
     @ ''lease_expires_at <= time::now()));''"

section \<open>Decoding a claimed row\<close>

definition required_string :: "json \<Rightarrow> string \<Rightarrow> broker_error + string" where
  "required_string row n =
     (case json_str_at n row of
        Some s \<Rightarrow> if s = [] then Inl (DbError (''claimed job is missing lease field '' @ [CHR 0x27] @ n @ [CHR 0x27])) else Inr s
      | None \<Rightarrow> Inl (DbError (''claimed job is missing lease field '' @ [CHR 0x27] @ n @ [CHR 0x27])))"

definition attempt_of :: "json \<Rightarrow> nat option" where
  "attempt_of row =
     (case Option.bind (json_get ''attempts'' row) json_u64 of
        Some n \<Rightarrow> (if n < 2 ^ 32 \<and> 0 < n then Some n else None)
      | None \<Rightarrow> None)"

definition decode_job :: "json \<Rightarrow> broker_error + job" where
  "decode_job row =
     (case attempt_of row of
        None \<Rightarrow> Inl (DbError ''claimed job has invalid attempt count'')
      | Some attempt \<Rightarrow>
          (case required_string row ''claimed_by'' of
             Inl e \<Rightarrow> Inl e
           | Inr by \<Rightarrow>
               (case required_string row ''claim_token'' of
                  Inl e \<Rightarrow> Inl e
                | Inr tok \<Rightarrow>
                    (case required_string row ''lease_expires_at'' of
                       Inl e \<Rightarrow> Inl e
                     | Inr expires \<Rightarrow>
                         Inr \<lparr>jb_id = str_or_empty ''id'' row, jb_kind = str_or_empty ''kind'' row,
                              jb_requested_by = str_or_empty ''requested_by'' row,
                              jb_payload = (case json_get ''payload'' row of Some p \<Rightarrow> p | None \<Rightarrow> JNull),
                              jb_trace = json_str_at ''trace'' row,
                              jb_lease = \<lparr>le_claimed_by = by, le_token = tok, le_attempt = attempt,
                                          le_expires_at = expires\<rparr>\<rparr>))))"

section \<open>The worker\<close>

record 'w worker_env =
  we_broker :: "'w broker_env"
  we_id :: string
  we_has_broker :: bool
  we_pid :: nat
  we_nanos :: "'w \<Rightarrow> nat"
  we_new_trace :: "'w \<Rightarrow> string"
  we_show :: "broker_error \<Rightarrow> string"

record 'w worker =
  wk_kernel :: "'w kernel"
  wk_round :: nat
  wk_seq :: nat
  wk_rejections :: "string list"

definition on_kernel :: "('w kernel \<Rightarrow> 'a \<times> 'w kernel) \<Rightarrow> 'w worker \<Rightarrow> 'a \<times> 'w worker" where
  "on_kernel f s = (case f (wk_kernel s) of (r, k) \<Rightarrow> (r, s\<lparr>wk_kernel := k\<rparr>))"

definition worker_sql :: "'w worker_env \<Rightarrow> string \<Rightarrow> 'w worker \<Rightarrow> (broker_error + json) \<times> 'w worker" where
  "worker_sql we q = on_kernel (sql_root (we_broker we) q)"

definition next_claim_token :: "'w worker_env \<Rightarrow> 'w worker \<Rightarrow> string \<times> 'w worker" where
  "next_claim_token we s =
     (claim_token (we_nanos we (kn_world (wk_kernel s))) (we_pid we) (wk_seq s),
      s\<lparr>wk_seq := (wk_seq s + 1) mod 2 ^ 64\<rparr>)"

definition try_claim_from ::
  "'w worker_env \<Rightarrow> string \<Rightarrow> claim_source \<Rightarrow> 'w worker \<Rightarrow> (broker_error + job option) \<times> 'w worker" where
  "try_claim_from we job_id source s =
     (case next_claim_token we s of (token, s1) \<Rightarrow>
      and_then (lift_res (claim_sql job_id (we_id we) token source) s1) (\<lambda>q s2.
      and_then (worker_sql we q s2) (\<lambda>out s3.
        case json_rows out of
          [] \<Rightarrow> (Inr None, s3)
        | row # _ \<Rightarrow> (map_sum id Some (decode_job row), s3))))"

definition try_claim :: "'w worker_env \<Rightarrow> string \<Rightarrow> 'w worker \<Rightarrow> (broker_error + job option) \<times> 'w worker" where
  "try_claim we job_id s =
     and_then (try_claim_from we job_id Queued s) (\<lambda>found s1.
       case found of
         Some jb \<Rightarrow> (Inr (Some jb), s1)
       | None \<Rightarrow> try_claim_from we job_id ExpiredLease s1)"

definition note_fence_rejection :: "string \<Rightarrow> 'w worker \<Rightarrow> 'w worker" where
  "note_fence_rejection action s = s\<lparr>wk_rejections := wk_rejections s @ [action]\<rparr>"

definition renew_lease :: "'w worker_env \<Rightarrow> job \<Rightarrow> 'w worker \<Rightarrow> (broker_error + bool) \<times> 'w worker" where
  "renew_lease we jb s =
     and_then (lift_res (fenced_update_sql jb renew_update) s) (\<lambda>q s1.
     and_then (worker_sql we q s1) (\<lambda>out s2.
       if json_rows out \<noteq> [] then (Inr True, s2) else (Inr False, note_fence_rejection ''renew'' s2)))"

definition apply_fenced :: "'w worker_env \<Rightarrow> job \<Rightarrow> string \<Rightarrow> string \<Rightarrow> 'w worker \<Rightarrow> bool \<times> 'w worker" where
  "apply_fenced we jb action upd s =
     (case and_then (lift_res (fenced_update_sql jb upd) s) (worker_sql we) of
        (Inr out, s1) \<Rightarrow> (if json_rows out \<noteq> [] then (True, s1) else (False, note_fence_rejection action s1))
      | (Inl _, s1) \<Rightarrow> (False, note_fence_rejection action s1))"

definition finish_with :: "'w worker_env \<Rightarrow> job \<Rightarrow> string \<Rightarrow> string \<Rightarrow> 'w worker \<Rightarrow> 'w worker" where
  "finish_with we jb status detail s = snd (apply_fenced we jb ''finish'' (finish_update status detail) s)"

definition requeue :: "'w worker_env \<Rightarrow> job \<Rightarrow> string \<Rightarrow> 'w worker \<Rightarrow> 'w worker" where
  "requeue we jb detail s =
     (case retry_update (le_attempt (jb_lease jb)) detail of
        (True, upd) \<Rightarrow> snd (apply_fenced we jb ''dead_letter'' upd s)
      | (False, upd) \<Rightarrow> snd (apply_fenced we jb ''requeue'' upd s))"

definition reap_exhausted :: "'w worker_env \<Rightarrow> 'w worker \<Rightarrow> (broker_error + unit) \<times> 'w worker" where
  "reap_exhausted we s = and_then (worker_sql we reap_sql s) (\<lambda>_ s1. (Inr (), s1))"

section \<open>The next job\<close>

definition tenants_sql :: string where
  "tenants_sql = ''SELECT tenant FROM job WHERE '' @ eligible_predicate @ '' GROUP BY tenant;''"

definition heads_sql :: "string \<Rightarrow> string" where
  "heads_sql tenant = ''SELECT id, enqueued_at, status FROM job WHERE '' @ eligible_predicate @ '' AND tenant = ''
     @ quote_literal tenant @ '' ORDER BY enqueued_at LIMIT '' @ nat_str HEAD_PER_TENANT @ '';''"

definition head_of_row :: "string \<Rightarrow> json \<Rightarrow> ((string \<times> string) \<times> claim_source) option" where
  "head_of_row tenant row =
     (case json_str_at ''id'' row of
        None \<Rightarrow> None
      | Some job_id \<Rightarrow> Some ((job_id, tenant),
          if json_str_at ''status'' row = Some ''running'' then ExpiredLease else Queued))"

fun tenant_heads ::
  "'w worker_env \<Rightarrow> string list \<Rightarrow> 'w worker \<Rightarrow> (broker_error + ((string \<times> string) \<times> claim_source) list) \<times> 'w worker" where
  "tenant_heads we [] s = (Inr [], s)"
| "tenant_heads we (tenant # tenants) s =
     and_then (worker_sql we (heads_sql tenant) s) (\<lambda>rows s1.
     and_then (tenant_heads we tenants s1) (\<lambda>rest s2.
       (Inr (List.map_filter (head_of_row tenant) (json_rows rows) @ rest), s2)))"

text \<open>The source recorded last for an id counts, as in the hash map.\<close>

definition source_of :: "((string \<times> string) \<times> claim_source) list \<Rightarrow> string \<Rightarrow> claim_source" where
  "source_of heads job_id =
     (case find (\<lambda>((i, _), _). i = job_id) (rev heads) of Some (_, source) \<Rightarrow> source | None \<Rightarrow> Queued)"

fun claim_first ::
  "'w worker_env \<Rightarrow> (string \<Rightarrow> claim_source) \<Rightarrow> string list \<Rightarrow> 'w worker \<Rightarrow> (broker_error + job option) \<times> 'w worker" where
  "claim_first we sources [] s = (Inr None, s)"
| "claim_first we sources (job_id # ids) s =
     and_then (try_claim_from we job_id (sources job_id) s) (\<lambda>found s1.
       case found of
         Some jb \<Rightarrow> (Inr (Some jb), s1)
       | None \<Rightarrow> claim_first we sources ids s1)"

definition worker_round :: "(string \<times> string) list \<Rightarrow> 'w worker \<Rightarrow> string list \<times> 'w worker" where
  "worker_round jobs s =
     (case fair_round (kn_fair (wk_kernel s)) (wk_round s) jobs of (order, n) \<Rightarrow> (order, s\<lparr>wk_round := n\<rparr>))"

definition claim_next :: "'w worker_env \<Rightarrow> 'w worker \<Rightarrow> (broker_error + job option) \<times> 'w worker" where
  "claim_next we s =
     and_then (reap_exhausted we s) (\<lambda>_ s1.
     and_then (worker_sql we tenants_sql s1) (\<lambda>rows s2.
       let own = be_tenant (we_broker we);
           tenants = map (\<lambda>r. case json_str_at ''tenant'' r of Some t \<Rightarrow> t | None \<Rightarrow> own) (json_rows rows) in
       and_then (tenant_heads we (take MAX_TENANTS_PER_ROUND tenants) s2) (\<lambda>heads s3.
         case worker_round (map fst heads) s3 of (order, s4) \<Rightarrow>
           claim_first we (source_of heads) order s4)))"

section \<open>Running a job\<close>

definition create_doc_outcome :: "(broker_error \<Rightarrow> string) \<Rightarrow> broker_error + json \<Rightarrow> job_outcome" where
  "create_doc_outcome shown res =
     (case res of
        Inr _ \<Rightarrow> Done
      | Inl (PermissionDenied detail) \<Rightarrow> Denied detail
      | Inl (HookRejected _ message) \<Rightarrow> Denied message
      | Inl e \<Rightarrow> Retry (shown e))"

definition run_create_doc ::
  "'w worker_env \<Rightarrow> 'w broker_env \<Rightarrow> job \<Rightarrow> caller \<Rightarrow> 'w worker \<Rightarrow> job_outcome \<times> 'w worker" where
  "run_create_doc we ev jb ca s =
     (case json_get ''doc'' (jb_payload jb) of
        Some (JObject fs) \<Rightarrow>
          (if \<not> we_has_broker we then (Denied ''worker has no broker to run effects'', s)
           else case on_kernel (db_write ev ca [] Create (str_or_empty ''doctype'' (jb_payload jb)) None
                  (map (\<lambda>e. (fst e, json_to_value (be_f64 ev) (snd e))) fs)) s of
                (res, s1) \<Rightarrow> (create_doc_outcome (we_show we) res, s1))
      | _ \<Rightarrow> (Denied ''payload.doc missing'', s))"

type_synonym 'w resolver = "string \<Rightarrow> 'w kernel \<Rightarrow> caller option \<times> 'w kernel"

definition settle :: "'w worker_env \<Rightarrow> job \<Rightarrow> job_outcome \<Rightarrow> 'w worker \<Rightarrow> 'w worker" where
  "settle we jb outcome s = (case outcome of
     Done \<Rightarrow> finish_with we jb ''done'' [] s
   | Denied msg \<Rightarrow> finish_with we jb ''denied'' msg s
   | Retry msg \<Rightarrow> requeue we jb msg s)"

definition run_traced ::
  "'w worker_env \<Rightarrow> 'w broker_env \<Rightarrow> 'w resolver \<Rightarrow> job \<Rightarrow> 'w worker \<Rightarrow> job_outcome \<times> 'w worker" where
  "run_traced we ev resolve jb s =
     (case on_kernel (resolve (jb_requested_by jb)) s of
        (None, s1) \<Rightarrow>
          (Denied (''principal '' @ [CHR 0x27] @ jb_requested_by jb @ [CHR 0x27] @ '' no longer exists''),
           finish_with we jb ''denied'' [] s1)
      | (Some ca, s1) \<Rightarrow>
          (case (if jb_kind jb = ''create_doc'' then run_create_doc we ev jb ca s1
                 else (Denied (''unknown job kind '' @ [CHR 0x27] @ jb_kind jb @ [CHR 0x27]), s1)) of
             (outcome, s2) \<Rightarrow> (outcome, settle we jb outcome s2)))"

text \<open>A trace id from outside: at most 64 letters, digits and hyphens.\<close>

definition trace_parse :: "string \<Rightarrow> string option" where
  "trace_parse t = (if t \<noteq> [] \<and> length t \<le> 64 \<and> list_all (\<lambda>c. is_alnum c \<or> c = CHR ''-'') t then Some t else None)"

definition adopted_trace :: "('w \<Rightarrow> string) \<Rightarrow> string option \<Rightarrow> 'w \<Rightarrow> string" where
  "adopted_trace fresh tr w = (case Option.bind tr trace_parse of Some t \<Rightarrow> t | None \<Rightarrow> fresh w)"

definition run_job :: "'w worker_env \<Rightarrow> 'w resolver \<Rightarrow> job \<Rightarrow> 'w worker \<Rightarrow> job_outcome \<times> 'w worker" where
  "run_job we resolve jb s =
     (let trace = adopted_trace (we_new_trace we) (jb_trace jb) (kn_world (wk_kernel s))
      in run_traced we ((we_broker we)\<lparr>be_trace := \<lambda>_. trace\<rparr>) resolve jb s)"

section \<open>Authority\<close>

definition run_pass :: "string \<Rightarrow> string" where
  "run_pass user = ''pw-'' @ user"

definition caller_of_user :: "string \<Rightarrow> json \<Rightarrow> caller option" where
  "caller_of_user requested_by rec =
     (if (case json_str_at ''status'' rec of Some st \<Rightarrow> st \<noteq> ''active'' | None \<Rightarrow> False) then None
      else map_option (\<lambda>role. \<lparr>ca_user = requested_by, ca_pass = run_pass requested_by, ca_role = role\<rparr>)
             (json_str_at ''role'' rec))"

definition app_user_resolver :: "'w broker_env \<Rightarrow> 'w resolver" where
  "app_user_resolver ev requested_by k =
     (case sql_root ev (''SELECT name, role, status FROM app_user WHERE name = '' @ quote_literal requested_by
             @ '' LIMIT 1;'') k of
        (Inl _, k1) \<Rightarrow> (None, k1)
      | (Inr v, k1) \<Rightarrow> (Option.bind (json_first v) (caller_of_user requested_by), k1))"

section \<open>The resident loop\<close>

text \<open>\<open>None\<close>: the loop does not end.\<close>

partial_function (option) tick_from ::
  "'w worker_env \<Rightarrow> 'w resolver \<Rightarrow> nat \<Rightarrow> 'w worker \<Rightarrow> ((broker_error + nat) \<times> 'w worker) option" where
  "tick_from we resolve cnt s =
     (case claim_next we s of
        (Inl e, s1) \<Rightarrow> Some (Inl e, s1)
      | (Inr None, s1) \<Rightarrow> Some (Inr cnt, s1)
      | (Inr (Some jb), s1) \<Rightarrow> tick_from we resolve (cnt + 1) (snd (run_job we resolve jb s1)))"

declare tick_from.simps [code]

definition tick :: "'w worker_env \<Rightarrow> 'w resolver \<Rightarrow> 'w worker \<Rightarrow> ((broker_error + nat) \<times> 'w worker) option" where
  "tick we resolve s = tick_from we resolve 0 s"

end
