(* ===== verification/Mail_Worker.thy ===== *)
theory Mail_Worker
  imports Worker
begin

text \<open>
  \<open>kernel/src/worker.rs\<close>: the mail worker. A pass takes the ids queued when it starts, claims each with a
  conditional update, hands the message to the transport and records the outcome. The transport is
  the parameter \<open>mw_deliver\<close>; the results of the recording updates are ignored, as in the code.
\<close>

definition MAX_ATTEMPTS :: int where
  "MAX_ATTEMPTS = 5"

record mail_row =
  mr_id :: string
  mr_notification :: string
  mr_to :: "string list"
  mr_subject :: string
  mr_body :: string
  mr_attempts :: int
  mr_trace :: "string option"

record 'w mail_env =
  mw_sql_root :: "'w sql"
  mw_id :: string
  mw_deliver :: "outbound \<Rightarrow> 'w \<Rightarrow> (failure + string) \<times> 'w"

definition queued_sql :: string where
  "queued_sql = ''SELECT id, enqueued_at FROM '' @ OUTBOX_TABLE
     @ '' WHERE status = 'queued' ORDER BY enqueued_at LIMIT 200;''"

definition queued_ids :: "'w mail_env \<Rightarrow> 'w \<Rightarrow> (broker_error + string list) \<times> 'w" where
  "queued_ids me w =
     and_then (mw_sql_root me queued_sql w) (\<lambda>out w1.
       (Inr (case json_array out of None \<Rightarrow> [] | Some a \<Rightarrow> List.map_filter (json_str_at ''id'') a), w1))"

definition claim_mail_sql :: "string \<Rightarrow> string \<Rightarrow> broker_error + string" where
  "claim_mail_sql worker_id mail_id =
     (case render_value (VRecordId mail_id) of
        Inl e \<Rightarrow> Inl e
      | Inr rid \<Rightarrow> Inr (''UPDATE '' @ rid @ '' SET status = 'sending', claimed_by = '' @ quote_literal worker_id
          @ '', claimed_at = time::now() WHERE status = 'queued';''))"

definition mail_of_row :: "string \<Rightarrow> json \<Rightarrow> mail_row" where
  "mail_of_row mail_id row =
     \<lparr>mr_id = mail_id, mr_notification = str_or_empty ''notification'' row,
      mr_to = (case Option.bind (json_get ''to'' row) json_array of
                 None \<Rightarrow> [] | Some a \<Rightarrow> List.map_filter json_str a),
      mr_subject = str_or_empty ''subject'' row, mr_body = str_or_empty ''body'' row,
      mr_attempts = (case Option.bind (json_get ''attempts'' row) json_i64 of Some i \<Rightarrow> i | None \<Rightarrow> 0),
      mr_trace = json_str_at ''trace'' row\<rparr>"

definition try_claim_mail :: "'w mail_env \<Rightarrow> string \<Rightarrow> 'w \<Rightarrow> (broker_error + mail_row option) \<times> 'w" where
  "try_claim_mail me mail_id w =
     and_then (lift_res (claim_mail_sql (mw_id me) mail_id) w) (\<lambda>q w1.
     and_then (mw_sql_root me q w1) (\<lambda>out w2. (Inr (map_option (mail_of_row mail_id) (json_first out)), w2)))"

text \<open>The recording updates: sent, to be retried, dead.\<close>

definition sent_sql :: "string \<Rightarrow> string \<Rightarrow> string" where
  "sent_sql rid receipt = ''UPDATE '' @ rid @ '' SET status = 'sent', receipt = '' @ quote_literal receipt
     @ '', sent_at = time::now(), attempts = attempts + 1;''"

definition retry_sql :: "string \<Rightarrow> int \<Rightarrow> string \<Rightarrow> string" where
  "retry_sql rid attempts detail = ''UPDATE '' @ rid @ '' SET status = 'queued', claimed_by = NONE, attempts = ''
     @ int_str attempts @ '', last_error = '' @ quote_literal detail @ '';''"

definition dead_sql :: "string \<Rightarrow> int \<Rightarrow> string \<Rightarrow> string" where
  "dead_sql rid attempts detail = ''UPDATE '' @ rid @ '' SET status = 'dead', attempts = ''
     @ int_str attempts @ '', last_error = '' @ quote_literal detail @ '', finished_at = time::now();''"

definition mark :: "'w mail_env \<Rightarrow> string \<Rightarrow> (string \<Rightarrow> string) \<Rightarrow> 'w \<Rightarrow> (broker_error + unit) \<times> 'w" where
  "mark me mail_id stmt w =
     and_then (lift_res (render_value (VRecordId mail_id)) w) (\<lambda>rid w1.
     and_then (mw_sql_root me (stmt rid) w1) (\<lambda>_ w2. (Inr (), w2)))"

text \<open>The counter is an \<open>i64\<close>: one more than its greatest value is its least.\<close>

definition next_attempt :: "int \<Rightarrow> int" where
  "next_attempt n = (if n = 2 ^ 63 - 1 then - (2 ^ 63) else n + 1)"

definition is_permanent :: "failure \<Rightarrow> bool" where
  "is_permanent f = (case f of Permanent _ \<Rightarrow> True | Transient _ \<Rightarrow> False)"

definition gives_up :: "int \<Rightarrow> failure \<Rightarrow> bool" where
  "gives_up attempts f = (is_permanent f \<or> MAX_ATTEMPTS \<le> attempts)"

definition send_one :: "'w mail_env \<Rightarrow> mail_row \<Rightarrow> 'w \<Rightarrow> bool \<times> 'w" where
  "send_one me row w =
     (case mw_deliver me \<lparr>ob_to = mr_to row, ob_subject = mr_subject row, ob_body = mr_body row\<rparr> w of
        (Inr receipt, w1) \<Rightarrow> (True, snd (mark me (mr_id row) (\<lambda>rid. sent_sql rid receipt) w1))
      | (Inl f, w1) \<Rightarrow>
          (let attempts = next_attempt (mr_attempts row); reason = failure_reason f in
           (False, snd (if gives_up attempts f
                        then mark me (mr_id row) (\<lambda>rid. dead_sql rid attempts reason) w1
                        else mark me (mr_id row) (\<lambda>rid. retry_sql rid attempts reason) w1))))"

fun drain_ids :: "'w mail_env \<Rightarrow> nat \<Rightarrow> string list \<Rightarrow> 'w \<Rightarrow> (broker_error + nat) \<times> 'w" where
  "drain_ids me sent [] w = (Inr sent, w)"
| "drain_ids me sent (i # ids) w =
     and_then (try_claim_mail me i w) (\<lambda>claimed w1.
       case claimed of
         None \<Rightarrow> drain_ids me sent ids w1
       | Some row \<Rightarrow>
           (case send_one me row w1 of
              (ok, w2) \<Rightarrow> drain_ids me (if ok then sent + 1 else sent) ids w2))"

definition drain_mail :: "'w mail_env \<Rightarrow> 'w \<Rightarrow> (broker_error + nat) \<times> 'w" where
  "drain_mail me w = and_then (queued_ids me w) (\<lambda>ids w1. drain_ids me 0 ids w1)"

end
