(* ===== verification/Job_Queue.thy ===== *)
theory Job_Queue
  imports Worker
begin

text \<open>
  The job table as a protocol: what the worker's statements do to the rows, at whatever time the
  database's clock shows, and the invariants of every interleaving of workers: the attempt budget, at
  most one live lease per job, and that a lease that was lost stays lost.
\<close>

section \<open>Rows and updates\<close>

record job_row =
  jr_id :: string
  jr_status :: string
  jr_attempts :: "nat option"
  jr_owner :: "string option"
  jr_token :: "string option"
  jr_expires :: "rat option"

definition attempts_made :: "job_row \<Rightarrow> nat" where
  "attempts_made r = (case jr_attempts r of None \<Rightarrow> 0 | Some n \<Rightarrow> n)"

definition expired :: "rat \<Rightarrow> job_row \<Rightarrow> bool" where
  "expired now r = (case jr_expires r of None \<Rightarrow> False | Some t \<Rightarrow> t \<le> now)"

definition claimable :: "claim_source \<Rightarrow> rat \<Rightarrow> job_row \<Rightarrow> bool" where
  "claimable source now r = (attempts_made r < MAX_JOB_ATTEMPTS \<and> (case source of
     Queued \<Rightarrow> jr_status r = ''queued''
   | ExpiredLease \<Rightarrow> jr_status r = ''running'' \<and> expired now r))"

definition lease_end :: "rat \<Rightarrow> rat" where
  "lease_end now = now + of_nat JOB_LEASE_SECONDS"

definition claim_row :: "string \<Rightarrow> string \<Rightarrow> rat \<Rightarrow> job_row \<Rightarrow> job_row" where
  "claim_row worker token now r = r\<lparr>jr_status := ''running'', jr_owner := Some worker, jr_token := Some token,
     jr_expires := Some (lease_end now), jr_attempts := Some (attempts_made r + 1)\<rparr>"

datatype settlement = Finished string | Requeued | Buried | Renewed

definition free_row :: "string \<Rightarrow> job_row \<Rightarrow> job_row" where
  "free_row status r = r\<lparr>jr_status := status, jr_owner := None, jr_token := None, jr_expires := None\<rparr>"

definition settle_row :: "settlement \<Rightarrow> rat \<Rightarrow> job_row \<Rightarrow> job_row" where
  "settle_row st now r = (case st of
     Finished status \<Rightarrow> free_row status r
   | Requeued \<Rightarrow> free_row ''queued'' r
   | Buried \<Rightarrow> free_row ''dead'' r
   | Renewed \<Rightarrow> r\<lparr>jr_expires := Some (lease_end now)\<rparr>)"

definition fenced :: "string \<Rightarrow> string \<Rightarrow> job_row \<Rightarrow> bool" where
  "fenced worker token r = (jr_status r = ''running'' \<and> jr_owner r = Some worker \<and> jr_token r = Some token)"

definition reapable :: "rat \<Rightarrow> job_row \<Rightarrow> bool" where
  "reapable now r = (MAX_JOB_ATTEMPTS \<le> attempts_made r
     \<and> (jr_status r = ''queued'' \<or> jr_status r = ''running'' \<and> expired now r))"

definition update_where :: "('r \<Rightarrow> bool) \<Rightarrow> ('r \<Rightarrow> 'r) \<Rightarrow> 'r list \<Rightarrow> 'r list" where
  "update_where P f rows = map (\<lambda>r. if P r then f r else r) rows"

definition new_row :: "string \<Rightarrow> job_row" where
  "new_row i = \<lparr>jr_id = i, jr_status = ''queued'', jr_attempts = None, jr_owner = None, jr_token = None, jr_expires = None\<rparr>"

definition terminal :: "job_row \<Rightarrow> bool" where
  "terminal r = (jr_status r \<in> {''done'', ''denied'', ''dead''})"

section \<open>Steps\<close>

text \<open>The rows and the tokens that were handed out so far.\<close>

type_synonym queue_state = "job_row list \<times> string list"

definition claim_rows :: "string \<Rightarrow> string \<Rightarrow> string \<Rightarrow> claim_source \<Rightarrow> rat \<Rightarrow> job_row list \<Rightarrow> job_row list" where
  "claim_rows i worker token source now =
     update_where (\<lambda>r. jr_id r = i \<and> claimable source now r) (claim_row worker token now)"

definition settle_rows :: "string \<Rightarrow> string \<Rightarrow> string \<Rightarrow> settlement \<Rightarrow> rat \<Rightarrow> job_row list \<Rightarrow> job_row list" where
  "settle_rows i worker token st now =
     update_where (\<lambda>r. jr_id r = i \<and> fenced worker token r) (settle_row st now)"

definition reap_rows :: "rat \<Rightarrow> job_row list \<Rightarrow> job_row list" where
  "reap_rows now = update_where (reapable now) (free_row ''dead'')"

inductive queue_step :: "queue_state \<Rightarrow> queue_state \<Rightarrow> bool" where
  enqueue: "i \<notin> jr_id ` set rows \<Longrightarrow> queue_step (rows, used) (rows @ [new_row i], used)"
| claim: "queue_step (rows, used) (claim_rows i worker token source now rows, token # used)"
| settle: "st \<in> {Finished ''done'', Finished ''denied'', Requeued, Buried, Renewed} \<Longrightarrow>
    queue_step (rows, used) (settle_rows i worker token st now rows, used)"
| reap: "queue_step (rows, used) (reap_rows now rows, used)"

inductive_simps queue_step_iff: "queue_step (rows, used) (rows', used')"

text \<open>Steps in which no token is handed out twice.\<close>

definition fresh_step :: "queue_state \<Rightarrow> queue_state \<Rightarrow> bool" where
  "fresh_step s s' = (queue_step s s' \<and> distinct (snd s'))"

section \<open>Invariants\<close>

definition row_ok :: "string list \<Rightarrow> job_row \<Rightarrow> bool" where
  "row_ok used r = (attempts_made r \<le> MAX_JOB_ATTEMPTS
     \<and> (jr_status r = ''running'' \<longleftrightarrow> jr_token r \<noteq> None)
     \<and> (jr_token r = None \<longleftrightarrow> jr_owner r = None) \<and> (jr_token r = None \<longleftrightarrow> jr_expires r = None)
     \<and> (case jr_token r of None \<Rightarrow> True | Some t \<Rightarrow> t \<in> set used \<and> 0 < attempts_made r))"

definition queue_ok :: "queue_state \<Rightarrow> bool" where
  "queue_ok s = (distinct (map jr_id (fst s)) \<and> list_all (row_ok (snd s)) (fst s)
     \<and> (\<forall>r \<in> set (fst s). \<forall>r' \<in> set (fst s). jr_token r \<noteq> None \<longrightarrow> jr_token r = jr_token r' \<longrightarrow> r = r'))"

lemma update_ids [simp]:
  "(\<And>r. jr_id (f r) = jr_id r) \<Longrightarrow> map jr_id (update_where P f rows) = map jr_id rows"
  by (simp add: update_where_def)

lemma row_ids [simp]:
  "jr_id (claim_row w t now r) = jr_id r" "jr_id (free_row st r) = jr_id r" "jr_id (settle_row s now r) = jr_id r"
  by (simp_all add: claim_row_def free_row_def settle_row_def split: settlement.split)

lemma update_set: "set (update_where P f rows) = (\<lambda>r. if P r then f r else r) ` set rows"
  by (simp add: update_where_def)

lemma rows_ids [simp]:
  "map jr_id (claim_rows i w t src now rows) = map jr_id rows"
  "map jr_id (settle_rows i w t st now rows) = map jr_id rows"
  "map jr_id (reap_rows now rows) = map jr_id rows"
  by (simp_all add: claim_rows_def settle_rows_def reap_rows_def)

text \<open>A row update that gives a row a token gives it one nobody had.\<close>

lemma update_ok:
  assumes "queue_ok (rows, used)"
    and row: "\<And>r. P r \<Longrightarrow> row_ok used r \<Longrightarrow> row_ok used' (f r)" and "set used \<subseteq> set used'"
    and token: "\<And>r. P r \<Longrightarrow> jr_token (f r) \<in> {None, jr_token r} \<or> jr_token (f r) \<notin> Some ` set used"
    and one: "\<And>r r'. r \<in> set rows \<Longrightarrow> r' \<in> set rows \<Longrightarrow> P r \<Longrightarrow> P r' \<Longrightarrow> r = r' \<or> jr_token (f r) \<in> {None, jr_token r}"
    and ids: "\<And>r. jr_id (f r) = jr_id r"
  shows "queue_ok (update_where P f rows, used')"
proof -
  have ok: "distinct (map jr_id rows)" "\<And>r. r \<in> set rows \<Longrightarrow> row_ok used r"
    "\<And>r r'. r \<in> set rows \<Longrightarrow> r' \<in> set rows \<Longrightarrow> jr_token r \<noteq> None \<Longrightarrow> jr_token r = jr_token r' \<Longrightarrow> r = r'"
    using assms(1) by (auto simp: queue_ok_def list_all_iff)
  have mono: "row_ok used' r" if "row_ok used r" for r
    using that assms(3) by (auto simp: row_ok_def split: option.splits)
  have used: "jr_token r \<in> Some ` set used" if "r \<in> set rows" "jr_token r \<noteq> None" for r
    using ok(2) [OF that(1)] that(2) by (auto simp: row_ok_def split: option.splits)
  let ?g = "\<lambda>r. if P r then f r else r"
  have tok: "jr_token (?g r) \<in> {None, jr_token r} \<or> P r \<and> jr_token (?g r) \<notin> Some ` set used" for r
    using token [of r] by auto
  have inj: "r = r'" if "r \<in> set rows" "r' \<in> set rows" "jr_token (?g r) \<noteq> None" "jr_token (?g r) = jr_token (?g r')" for r r'
  proof (cases "jr_token (?g r) = jr_token r \<and> jr_token (?g r') = jr_token r'")
    case True
    then show ?thesis using that ok(3) by metis
  next
    case False
    then show ?thesis
      using that tok [of r] tok [of r'] used [OF that(1)] used [OF that(2)] one [of r r'] one [of r' r]
      by (auto split: if_splits)
  qed
  have "list_all (row_ok used') (update_where P f rows)"
    using ok(2) row mono by (auto simp: list_all_iff update_where_def)
  moreover have "\<forall>r \<in> set (update_where P f rows). \<forall>r' \<in> set (update_where P f rows).
      jr_token r \<noteq> None \<longrightarrow> jr_token r = jr_token r' \<longrightarrow> r = r'"
    unfolding update_set ball_simps using inj by blast
  ultimately show ?thesis using ok(1) ids by (simp add: queue_ok_def)
qed

lemma queue_ok_step:
  assumes "fresh_step s s'" and "queue_ok s"
  shows "queue_ok s'"
proof -
  obtain rows used rows' used' where s: "s = (rows, used)" "s' = (rows', used')" by fastforce
  have step: "queue_step (rows, used) (rows', used')" and d: "distinct used'" and ok: "queue_ok (rows, used)"
    using assms s by (auto simp: fresh_step_def)
  from step show ?thesis
  proof (cases rule: queue_step.cases)
    case (enqueue i)
    have "row_ok used (new_row i)" by (simp add: row_ok_def new_row_def attempts_made_def)
    moreover have "jr_token (new_row i) = None" by (simp add: new_row_def)
    moreover have "jr_id (new_row i) = i" by (simp add: new_row_def)
    ultimately have "queue_ok (rows @ [new_row i], used)"
      using ok enqueue(3) unfolding queue_ok_def fst_conv snd_conv by force
    then show ?thesis using enqueue s by simp
  next
    case (claim i worker token source now)
    have id: "r = r'" if "r \<in> set rows" "r' \<in> set rows" "jr_id r = i" "jr_id r' = i" for r r'
      using that ok by (auto simp: queue_ok_def distinct_map inj_on_def)
    have "queue_ok (claim_rows i worker token source now rows, token # used)"
      unfolding claim_rows_def
    proof (rule update_ok [OF ok])
      fix r assume "jr_id r = i \<and> claimable source now r"
      then show "row_ok (token # used) (claim_row worker token now r)"
        by (simp add: row_ok_def claim_row_def claimable_def attempts_made_def split: option.splits)
      show "jr_token (claim_row worker token now r) \<in> {None, jr_token r}
          \<or> jr_token (claim_row worker token now r) \<notin> Some ` set used"
        using d claim by (auto simp: claim_row_def)
    qed (use id in \<open>auto simp: row_ok_def\<close>)
    then show ?thesis using claim s by simp
  next
    case (settle st i worker token now)
    have "queue_ok (settle_rows i worker token st now rows, used)"
      unfolding settle_rows_def
    proof (rule update_ok [OF ok])
      fix r assume r: "jr_id r = i \<and> fenced worker token r"
      show "row_ok used (settle_row st now r)" if "row_ok used r"
        using that r settle by (auto simp: row_ok_def settle_row_def free_row_def fenced_def attempts_made_def)
      show "jr_token (settle_row st now r) \<in> {None, jr_token r} \<or> jr_token (settle_row st now r) \<notin> Some ` set used"
        by (cases st) (simp_all add: settle_row_def free_row_def)
      fix r' show "r = r' \<or> jr_token (settle_row st now r) \<in> {None, jr_token r}"
        by (cases st) (simp_all add: settle_row_def free_row_def)
    qed simp_all
    then show ?thesis using settle s by simp
  next
    case (reap now)
    have "queue_ok (reap_rows now rows, used)"
      unfolding reap_rows_def
      by (rule update_ok [OF ok]) (auto simp: row_ok_def free_row_def reapable_def attempts_made_def)
    then show ?thesis using reap s by simp
  qed
qed

definition queue_init :: queue_state where
  "queue_init = ([], [])"

lemma queue_ok_reachable: "fresh_step\<^sup>*\<^sup>* queue_init s \<Longrightarrow> queue_ok s"
proof (induction rule: rtranclp_induct)
  case base
  then show ?case by (simp add: queue_ok_def queue_init_def)
qed (rule queue_ok_step)

section \<open>Nothing is undone\<close>

text \<open>Settled jobs stay as they are; a lease that is gone has no effect ever after.\<close>

lemma terminal_step:
  assumes "queue_step s s'" and "r \<in> set (fst s)" and "terminal r"
  shows "r \<in> set (fst s')"
proof -
  have "r \<in> set (update_where P f rows)" if "r \<in> set rows" "\<not> P r" for P f rows
    using that by (force simp: update_set)
  note keep = this
  from assms(1) show ?thesis
  proof (cases rule: queue_step.cases)
    case (enqueue i rows used)
    then show ?thesis using assms(2) by simp
  next
    case (claim rows used i worker token source now)
    then show ?thesis using assms(2,3)
      by (cases source) (auto simp: claim_rows_def claimable_def terminal_def intro!: keep)
  next
    case (settle st rows used i worker token now)
    then show ?thesis using assms(2,3) by (auto simp: settle_rows_def fenced_def terminal_def intro!: keep)
  next
    case (reap rows used now)
    then show ?thesis using assms(2,3) by (auto simp: reap_rows_def reapable_def terminal_def intro!: keep)
  qed
qed

definition lost :: "string \<Rightarrow> queue_state \<Rightarrow> bool" where
  "lost token s = (token \<in> set (snd s) \<and> Some token \<notin> jr_token ` set (fst s))"

lemma lost_settles_nothing: "lost token (rows, used) \<Longrightarrow> settle_rows i worker token st now rows = rows"
  by (auto simp: lost_def settle_rows_def update_where_def fenced_def image_iff intro!: map_idI)

lemma lost_step:
  assumes "fresh_step s s'" and "lost token s"
  shows "lost token s'"
proof -
  have step: "queue_step s s'" and d: "distinct (snd s')" using assms(1) by (auto simp: fresh_step_def)
  from step show ?thesis
  proof (cases rule: queue_step.cases)
    case (enqueue i rows used)
    then show ?thesis using assms(2) by (auto simp: lost_def new_row_def)
  next
    case (claim rows used i worker t source now)
    then show ?thesis using assms(2) d
      by (auto simp: lost_def claim_rows_def update_set claim_row_def image_iff split: if_splits)
  next
    case (settle st rows used i worker t now)
    then show ?thesis using assms(2)
      by (auto simp: lost_def settle_rows_def update_set settle_row_def free_row_def image_iff
          split: if_splits settlement.splits)
  next
    case (reap rows used now)
    then show ?thesis using assms(2)
      by (auto simp: lost_def reap_rows_def update_set free_row_def image_iff split: if_splits)
  qed
qed

lemma lost_steps: "fresh_step\<^sup>*\<^sup>* s s' \<Longrightarrow> lost token s \<Longrightarrow> lost token s'"
  by (induction rule: rtranclp_induct) (auto intro: lost_step)

lemma terminal_steps: "fresh_step\<^sup>*\<^sup>* s s' \<Longrightarrow> r \<in> set (fst s) \<Longrightarrow> terminal r \<Longrightarrow> r \<in> set (fst s')"
  by (induction rule: rtranclp_induct) (auto intro: terminal_step simp: fresh_step_def)

text \<open>After a worker settled its lease, or another claimed the job, the lease is lost.\<close>

lemma settled_is_lost:
  assumes "queue_ok (rows, used)" and "token \<in> set used" and "st \<noteq> Renewed"
    and "\<And>r. r \<in> set rows \<Longrightarrow> jr_token r = Some token \<Longrightarrow> jr_id r = i \<and> jr_owner r = Some worker"
  shows "lost token (settle_rows i worker token st now rows, used)"
proof -
  have "jr_token (settle_row st now r) = None" for r
    using assms(3) by (cases st) (simp_all add: settle_row_def free_row_def)
  moreover have "fenced worker token r" if "r \<in> set rows" "jr_token r = Some token" for r
    using assms(1,4) that by (auto simp: fenced_def queue_ok_def row_ok_def list_all_iff)
  ultimately show ?thesis
    using assms(2,4) by (fastforce simp: lost_def settle_rows_def update_set)
qed

section \<open>The budget\<close>

text \<open>How often the jobs of a table can still be claimed, plus one for each that is open.\<close>

definition row_budget :: "job_row \<Rightarrow> nat" where
  "row_budget r = (if jr_status r \<in> {''queued'', ''running''} then MAX_JOB_ATTEMPTS + 1 - attempts_made r else 0)"

definition budget :: "job_row list \<Rightarrow> nat" where
  "budget rows = sum_list (map row_budget rows)"

lemma budget_update_le:
  assumes "\<And>r. P r \<Longrightarrow> row_budget (f r) \<le> row_budget r"
  shows "budget (update_where P f rows) \<le> budget rows"
  unfolding budget_def update_where_def map_map
  by (rule sum_list_mono) (simp add: assms)

lemma budget_update_less:
  assumes "\<And>r. P r \<Longrightarrow> row_budget (f r) < row_budget r" and "list_ex P rows"
  shows "budget (update_where P f rows) < budget rows"
  using assms(2)
proof (induction rows)
  case (Cons r rows)
  have le: "budget (update_where P f rows) \<le> budget rows"
    using assms(1) by (intro budget_update_le) (simp add: less_imp_le)
  show ?case
  proof (cases "P r")
    case True
    with le assms(1) [OF True] show ?thesis by (simp add: budget_def update_where_def)
  next
    case False
    with Cons show ?thesis by (simp add: budget_def update_where_def)
  qed
qed simp

lemma claim_budget: "claimable source now r \<Longrightarrow> row_budget (claim_row worker token now r) < row_budget r"
  by (auto simp: claimable_def row_budget_def claim_row_def attempts_made_def split: claim_source.splits option.splits)

lemma settle_budget: "fenced worker token r \<Longrightarrow> row_budget (settle_row st now r) \<le> row_budget r"
  by (auto simp: fenced_def row_budget_def settle_row_def free_row_def attempts_made_def split: settlement.splits)

lemma claim_rows_budget:
  "budget (claim_rows i worker token source now rows) \<le> budget rows"
  "list_ex (\<lambda>r. jr_id r = i \<and> claimable source now r) rows \<Longrightarrow>
     budget (claim_rows i worker token source now rows) < budget rows"
  unfolding claim_rows_def
  using claim_budget by (auto intro!: budget_update_le budget_update_less simp: less_imp_le)

lemma settle_rows_budget: "budget (settle_rows i worker token st now rows) \<le> budget rows"
  unfolding settle_rows_def using settle_budget by (auto intro!: budget_update_le)

lemma reap_rows_budget: "budget (reap_rows now rows) \<le> budget rows"
  unfolding reap_rows_def
  by (rule budget_update_le) (auto simp: row_budget_def free_row_def attempts_made_def)

end
