(* ===== verification/Job_Refine.thy ===== *)
theory Job_Refine
  imports Job_Queue Broker_Atomic
begin

text \<open>
  The worker's functions against the job table's protocol: over a database whose statements act on the
  table as \<open>Job_Queue\<close> says, every verb of the worker is a run of the protocol, and the resident loop ends.
\<close>

section \<open>The job store\<close>

text \<open>
  A statement that fails has acted or not (the answer may be lost); one that answers has acted, and its
  answer has a row exactly when a row matched.
\<close>

definition acts :: "('w \<Rightarrow> 'r list) \<Rightarrow> 'w \<Rightarrow> (broker_error + json) \<times> 'w \<Rightarrow> ('r \<Rightarrow> bool)
    \<Rightarrow> ('r list \<Rightarrow> 'r list) \<Rightarrow> bool" where
  "acts jobs w out P upd = (case out of
     (Inl _, w') \<Rightarrow> jobs w' = jobs w \<or> jobs w' = upd (jobs w)
   | (Inr v, w') \<Rightarrow> jobs w' = upd (jobs w) \<and> (json_rows v \<noteq> [] \<longleftrightarrow> list_ex P (jobs w)))"

text \<open>What a fenced update does, by its text.\<close>

definition settles :: "settlement \<Rightarrow> string \<Rightarrow> bool" where
  "settles st upd = (case st of
     Finished status \<Rightarrow> status \<in> {''done'', ''denied''} \<and> (\<exists>detail. upd = finish_update status detail)
   | Requeued \<Rightarrow> (\<exists>detail. upd = requeue_update detail)
   | Buried \<Rightarrow> (\<exists>detail. upd = dead_update detail)
   | Renewed \<Rightarrow> upd = renew_update)"

locale job_store =
  fixes we :: "'w worker_env" and jobs :: "'w \<Rightarrow> job_row list" and clock :: "'w \<Rightarrow> rat"
  assumes claim_law: "claim_sql i worker token source = Inr q \<Longrightarrow>
      acts jobs w (be_sql_root (we_broker we) q w) (\<lambda>r. jr_id r = i \<and> claimable source (clock w) r)
        (claim_rows i worker token source (clock w))"
    and settle_law: "settles st upd \<Longrightarrow> fenced_update_sql jb upd = Inr q \<Longrightarrow>
      acts jobs w (be_sql_root (we_broker we) q w)
        (\<lambda>r. jr_id r = jb_id jb \<and> fenced (le_claimed_by (jb_lease jb)) (le_token (jb_lease jb)) r)
        (settle_rows (jb_id jb) (le_claimed_by (jb_lease jb)) (le_token (jb_lease jb)) st (clock w))"
    and reap_law: "acts jobs w (be_sql_root (we_broker we) reap_sql w) (reapable (clock w)) (reap_rows (clock w))"
    and root_law: "select_query q \<or> outbox_query q \<Longrightarrow> jobs (snd (be_sql_root (we_broker we) q w)) = jobs w"
    and session_law: "jobs (snd (be_sql_as (we_broker we) u p q w)) = jobs w"
    and validate_law: "jobs (snd (be_validate (we_broker we) d doc w)) = jobs w"
    and fire_law: "jobs (snd (be_fire (we_broker we) c d doc w)) = jobs w"

section \<open>Runs of the protocol\<close>

definition rows_of :: "('w \<Rightarrow> job_row list) \<Rightarrow> 'w worker \<Rightarrow> job_row list" where
  "rows_of jobs s = jobs (kn_world (wk_kernel s))"

definition reached :: "('w \<Rightarrow> job_row list) \<Rightarrow> 'w worker \<Rightarrow> 'w worker \<Rightarrow> bool" where
  "reached jobs s s' =
     ((\<forall>used. \<exists>used'. queue_step\<^sup>*\<^sup>* (rows_of jobs s, used) (rows_of jobs s', used'))
      \<and> budget (rows_of jobs s') \<le> budget (rows_of jobs s))"

lemma reached_same: "rows_of jobs s' = rows_of jobs s \<Longrightarrow> reached jobs s s'"
  by (auto simp: reached_def)

lemma reached_trans: "reached jobs s s' \<Longrightarrow> reached jobs s' s'' \<Longrightarrow> reached jobs s s''"
  unfolding reached_def by (meson order_trans rtranclp_trans)

lemma reached_step:
  assumes "\<And>used. \<exists>used'. queue_step (rows_of jobs s, used) (rows_of jobs s', used')"
    and "budget (rows_of jobs s') \<le> budget (rows_of jobs s)"
  shows "reached jobs s s'"
  using assms unfolding reached_def by (meson r_into_rtranclp)

lemma pres_reached: "(\<And>s. reached jobs s (snd (f s))) \<Longrightarrow> preserves (reached jobs s0) f"
  unfolding preserves_def by (blast intro: reached_trans)

lemma reachedI: "preserves (reached jobs s) f \<Longrightarrow> reached jobs s (snd (f s))"
  by (blast intro: preservesD reached_same)

lemma view_pres:
  fixes jobs :: "'w \<Rightarrow> job_row list"
  assumes "\<And>x. preserves (view_is jobs x) f"
  shows "preserves (reached jobs s0) (on_kernel f)"
proof (rule pres_reached)
  fix s :: "'w worker"
  obtain r k where f: "f (wk_kernel s) = (r, k)" by fastforce
  have "view_is jobs (jobs (kn_world (wk_kernel s))) k"
    using preservesD [OF assms, of "jobs (kn_world (wk_kernel s))" "wk_kernel s"] f by (simp add: view_is_def)
  then show "reached jobs s (snd (on_kernel f s))"
    using f by (intro reached_same) (simp add: rows_of_def view_is_def on_kernel_def)
qed

lemma acts_rows:
  assumes "acts jobs (kn_world (wk_kernel s)) (be_sql_root (we_broker we) q (kn_world (wk_kernel s))) P upd"
    and "worker_sql we q s = (res, s')"
  shows "rows_of jobs s' = upd (rows_of jobs s) \<or> rows_of jobs s' = rows_of jobs s \<and> \<not> is_ok_res res"
    and "res = Inr v \<Longrightarrow> rows_of jobs s' = upd (rows_of jobs s) \<and> (json_rows v \<noteq> [] \<longleftrightarrow> list_ex P (rows_of jobs s))"
proof -
  obtain res' w' where q: "be_sql_root (we_broker we) q (kn_world (wk_kernel s)) = (res', w')" by fastforce
  then have s': "res = res'" "s' = s\<lparr>wk_kernel := (wk_kernel s)\<lparr>kn_world := w'\<rparr>\<rparr>"
    using assms(2) by (auto simp: worker_sql_def on_kernel_def sql_root_def on_world_def)
  show "rows_of jobs s' = upd (rows_of jobs s) \<or> rows_of jobs s' = rows_of jobs s \<and> \<not> is_ok_res res"
    and "res = Inr v \<Longrightarrow> rows_of jobs s' = upd (rows_of jobs s) \<and> (json_rows v \<noteq> [] \<longleftrightarrow> list_ex P (rows_of jobs s))"
    using assms(1) s' by (cases res'; auto simp: acts_def q rows_of_def)+
qed

section \<open>The verbs\<close>

context job_store
begin

lemma root_pres: "select_query q \<Longrightarrow> preserves (reached jobs s0) (worker_sql we q)"
  by (rule pres_reached, rule reached_same)
    (simp add: rows_of_def worker_sql_def on_kernel_def sql_root_def on_world_def case_prod_unfold root_law)

lemma try_claim_step:
  assumes "try_claim_from we i source s = (res, s')"
  shows "reached jobs s s'" and "res = Inr (Some jb) \<Longrightarrow> budget (rows_of jobs s') < budget (rows_of jobs s)"
proof -
  obtain token s1 where t: "next_claim_token we s = (token, s1)" by fastforce
  then have same: "rows_of jobs s1 = rows_of jobs s" "wk_kernel s1 = wk_kernel s"
    by (auto simp: next_claim_token_def rows_of_def)
  have both: "reached jobs s s' \<and> (\<forall>jb. res = Inr (Some jb) \<longrightarrow> budget (rows_of jobs s') < budget (rows_of jobs s))"
  proof (cases "claim_sql i (we_id we) token source")
    case (Inl e)
    then show ?thesis using assms t same by (auto simp: try_claim_from_def intro: reached_same)
  next
    case (Inr q)
    obtain out s2 where q: "worker_sql we q s1 = (out, s2)" by fastforce
    have s': "s' = s2" using assms t Inr q by (cases out) (auto simp: try_claim_from_def split: list.splits)
    define now where "now = clock (kn_world (wk_kernel s1))"
    note a = acts_rows [OF claim_law [OF Inr, of "kn_world (wk_kernel s1)"] q, folded now_def, unfolded same]
    have "reached jobs s s2"
      using a(1)
    proof
      assume "rows_of jobs s2 = claim_rows i (we_id we) token source now (rows_of jobs s)"
      then show ?thesis
        by (intro reached_step) (auto intro: queue_step.claim simp: claim_rows_budget(1))
    qed (simp add: reached_same)
    moreover have "budget (rows_of jobs s2) < budget (rows_of jobs s)" if "res = Inr (Some jb)" for jb
    proof -
      from that assms t Inr q obtain v where v: "out = Inr v" "json_rows v \<noteq> []"
        by (cases out) (auto simp: try_claim_from_def split: list.splits)
      from a(2) [OF v(1)] v(2) show ?thesis by (simp add: claim_rows_budget(2))
    qed
    ultimately show ?thesis using s' by blast
  qed
  then show "reached jobs s s'" "res = Inr (Some jb) \<Longrightarrow> budget (rows_of jobs s') < budget (rows_of jobs s)"
    by simp_all
qed

lemma try_claim_pres [pres]: "preserves (reached jobs s0) (try_claim_from we i source)"
  by (rule pres_reached) (metis try_claim_step(1) prod.collapse)

lemma fenced_pres:
  assumes "settles st upd"
  shows "preserves (reached jobs s0) (\<lambda>s. and_then (lift_res (fenced_update_sql jb upd) s) (worker_sql we))"
proof (rule pres_reached)
  fix s
  show "reached jobs s (snd (and_then (lift_res (fenced_update_sql jb upd) s) (worker_sql we)))"
  proof (cases "fenced_update_sql jb upd")
    case (Inr q)
    obtain out s2 where q: "worker_sql we q s = (out, s2)" by fastforce
    from acts_rows(1) [OF settle_law [OF assms Inr] q] have "reached jobs s s2"
    proof
      assume r: "rows_of jobs s2 = settle_rows (jb_id jb) (le_claimed_by (jb_lease jb)) (le_token (jb_lease jb)) st
          (clock (kn_world (wk_kernel s))) (rows_of jobs s)"
      have "st \<in> {Finished ''done'', Finished ''denied'', Requeued, Buried, Renewed}"
        using assms by (cases st) (auto simp: settles_def)
      then show ?thesis
        by (intro reached_step) (auto simp: r settle_rows_budget intro: queue_step.settle)
    qed (simp add: reached_same)
    then show ?thesis using Inr q by simp
  qed (simp add: reached_same)
qed

lemma note_pres: "reached jobs s0 s \<Longrightarrow> reached jobs s0 (note_fence_rejection action s)"
  by (erule reached_trans) (simp add: note_fence_rejection_def rows_of_def reached_same)

lemma apply_fenced_pres:
  assumes "settles st upd"
  shows "reached jobs s (snd (apply_fenced we jb action upd s))"
proof -
  obtain res s1 where r: "and_then (lift_res (fenced_update_sql jb upd) s) (worker_sql we) = (res, s1)" by fastforce
  with reachedI [OF fenced_pres [OF assms]] have "reached jobs s s1" by (metis snd_conv)
  then show ?thesis using r by (cases res) (simp_all add: apply_fenced_def note_pres)
qed

lemma renew_pres: "reached jobs s (snd (renew_lease we jb s))"
proof -
  obtain res s1 where r: "and_then (lift_res (fenced_update_sql jb renew_update) s) (worker_sql we) = (res, s1)" by fastforce
  have "reached jobs s (snd (and_then (lift_res (fenced_update_sql jb renew_update) s) (worker_sql we)))"
    by (rule reachedI [OF fenced_pres [of Renewed]]) (simp add: settles_def)
  with r have s1: "reached jobs s s1" by simp
  have "renew_lease we jb s = and_then (res, s1) (\<lambda>out s2.
      if json_rows out \<noteq> [] then (Inr True, s2) else (Inr False, note_fence_rejection ''renew'' s2))"
    unfolding renew_lease_def r [symmetric]
    by (cases "fenced_update_sql jb renew_update") simp_all
  then show ?thesis using s1 by (cases res) (simp_all add: note_pres)
qed

lemma settle_reached: "reached jobs s (settle we jb outcome s)"
proof -
  have "reached jobs s (finish_with we jb status detail s)" if "status \<in> {''done'', ''denied''}" for status detail
    unfolding finish_with_def using that by (intro apply_fenced_pres [of "Finished status"]) (auto simp: settles_def)
  moreover have "reached jobs s (requeue we jb detail s)" for detail
    unfolding requeue_def retry_update_def
    using apply_fenced_pres [of Buried "dead_update detail"] apply_fenced_pres [of Requeued "requeue_update detail"]
    by (simp add: settles_def exI [of _ detail])
  ultimately show ?thesis by (cases outcome) (simp_all add: settle_def)
qed

lemma reap_pres [pres]: "preserves (reached jobs s0) (reap_exhausted we)"
proof (rule pres_reached)
  fix s
  obtain out s2 where q: "worker_sql we reap_sql s = (out, s2)" by fastforce
  from acts_rows(1) [OF reap_law q] have "reached jobs s s2"
  proof
    assume r: "rows_of jobs s2 = reap_rows (clock (kn_world (wk_kernel s))) (rows_of jobs s)"
    show ?thesis by (rule reached_step) (auto simp: r reap_rows_budget intro: queue_step.reap)
  qed (simp add: reached_same)
  then show "reached jobs s (snd (reap_exhausted we s))" using q by (cases out) (simp_all add: reap_exhausted_def)
qed

lemma tenant_heads_pres [pres]: "preserves (reached jobs s0) (tenant_heads we tenants)"
proof (induction tenants)
  case (Cons tenant tenants)
  have "preserves (reached jobs s0) (\<lambda>s. and_then (worker_sql we (heads_sql tenant) s) (\<lambda>rows s1.
     and_then (tenant_heads we tenants s1) (\<lambda>rest s2.
       (Inr (List.map_filter (head_of_row tenant) (json_rows rows) @ rest), s2))))"
    by (intro pres root_pres Cons) (simp add: select_query_def heads_sql_def)
  then show ?case by simp
qed (simp add: preserves_def)

lemma claim_first_pres: "preserves (reached jobs s0) (claim_first we sources ids)"
proof (induction ids)
  case (Cons i ids)
  have "preserves (reached jobs s0) (\<lambda>s. and_then (try_claim_from we i (sources i) s) (\<lambda>found s1.
       case found of Some jb \<Rightarrow> (Inr (Some jb), s1) | None \<Rightarrow> claim_first we sources ids s1))"
    by (intro pres Cons)
  then show ?case by simp
qed (simp add: preserves_def)

lemma claim_first_budget:
  "claim_first we sources ids s = (Inr (Some jb), s') \<Longrightarrow> budget (rows_of jobs s') < budget (rows_of jobs s)"
proof (induction ids arbitrary: s)
  case (Cons i ids)
  obtain found s1 where c: "try_claim_from we i (sources i) s = (Inr found, s1)"
    using Cons.prems by (auto simp: and_then_Inr)
  from try_claim_step(1) [OF c] have le: "budget (rows_of jobs s1) \<le> budget (rows_of jobs s)"
    by (simp add: reached_def)
  show ?case
  proof (cases found)
    case None
    with Cons c le show ?thesis by fastforce
  next
    case (Some jb')
    with Cons.prems c try_claim_step(2) [OF c] show ?thesis by simp
  qed
qed simp

lemma round_rows: "worker_round js s = (order, s') \<Longrightarrow> rows_of jobs s' = rows_of jobs s"
  by (auto simp: worker_round_def rows_of_def split: prod.splits)

lemma claim_next_step:
  assumes "claim_next we s = (res, s')"
  shows "reached jobs s s'" and "res = Inr (Some jb) \<Longrightarrow> budget (rows_of jobs s') < budget (rows_of jobs s)"
proof -
  let ?heads = "\<lambda>rows. tenant_heads we (take MAX_TENANTS_PER_ROUND
    (map (\<lambda>r. case json_str_at ''tenant'' r of Some t \<Rightarrow> t | None \<Rightarrow> be_tenant (we_broker we)) (json_rows rows)))"
  define f where "f s = and_then (reap_exhausted we s) (\<lambda>_ s1. and_then (worker_sql we tenants_sql s1) ?heads)" for s
  have "preserves (reached jobs s) f"
    unfolding f_def [abs_def] by (intro pres root_pres) (simp add: select_query_def tenants_sql_def)
  then have f: "reached jobs s (snd (f s))" by (rule reachedI)
  have next': "claim_next we s = and_then (f s) (\<lambda>heads s3. case worker_round (map fst heads) s3 of
      (order, s4) \<Rightarrow> claim_first we (source_of heads) order s4)"
    unfolding claim_next_def f_def Let_def
    by (auto simp: and_then_def split: prod.splits sum.splits)
  have "reached jobs s s' \<and> (\<forall>jb. res = Inr (Some jb) \<longrightarrow> budget (rows_of jobs s') < budget (rows_of jobs s))"
  proof (cases "f s")
    case (Pair r s3)
    show ?thesis
    proof (cases r)
      case (Inl e)
      with Pair f assms next' show ?thesis by auto
    next
      case (Inr heads)
      obtain order s4 where o: "worker_round (map fst heads) s3 = (order, s4)" by fastforce
      have "reached jobs s s3" using f Pair by simp
      moreover have "reached jobs s3 s4" by (rule reached_same) (rule round_rows [OF o])
      ultimately have s4: "reached jobs s s4" by (rule reached_trans)
      have c: "claim_first we (source_of heads) order s4 = (res, s')"
        using assms next' Pair Inr o by simp
      have "reached jobs s4 s'"
        using reachedI [OF claim_first_pres [of s4 "source_of heads" order]] c by simp
      with s4 have "reached jobs s s'" by (rule reached_trans)
      moreover have "budget (rows_of jobs s') < budget (rows_of jobs s)" if "res = Inr (Some jb)" for jb
        using claim_first_budget [OF c [unfolded that]] s4 by (simp add: reached_def)
      ultimately show ?thesis by blast
    qed
  qed
  then show "reached jobs s s'" "res = Inr (Some jb) \<Longrightarrow> budget (rows_of jobs s') < budget (rows_of jobs s)"
    by simp_all
qed

text \<open>A run of a job: its effect does not touch the table, its outcome settles the lease.\<close>

lemma write_view: "preserves (view_is jobs x) (db_write ((we_broker we)\<lparr>be_trace := tr\<rparr>) ca chain op doctype r doc)"
proof -
  let ?ev = "(we_broker we)\<lparr>be_trace := tr\<rparr>"
  have "kernel_invariant ?ev (view_is jobs x)"
  proof
    fix k name assume k: "view_is jobs x k"
    have "select_query (doctype_query name)" by (simp add: select_query_def doctype_query_def)
    then have un: "view_is jobs x (snd (load_doctype_uncached ?ev name k'))" if "view_is jobs x k'" for k'
      using that by (simp add: load_uncached_world view_is_def root_law)
    define m where "m = and_then (load_doctype_uncached ?ev name k) (\<lambda>meta k1.
      (Inr meta, k1\<lparr>kn_meta_cache := (kn_meta_cache k1)(name \<mapsto> (be_meta_gen ?ev (kn_world k), meta))\<rparr>))"
    have "view_is jobs x (snd m)"
      unfolding m_def using un [OF k] by (rule and_then_inv) (simp add: view_is_def)
    moreover have "load_doctype ?ev name k = (case kn_meta_cache k name of
        Some (g, meta) \<Rightarrow> (if g = be_meta_gen ?ev (kn_world k) then (Inr meta, k) else m) | None \<Rightarrow> m)"
      unfolding load_doctype_def m_def Let_def ..
    ultimately show "view_is jobs x (snd (load_doctype ?ev name k))"
      using k by (cases "kn_meta_cache k name") auto
  qed (auto simp: view_is_def sql_as_def sql_root_def session_law root_law validate_law fire_law)
  then show ?thesis by (rule kernel_invariant.db_write_pres)
qed

lemma run_job_reached:
  assumes "\<And>u x. preserves (view_is jobs x) (resolve u)"
  shows "reached jobs s (snd (run_job we resolve jb s))"
proof -
  define tr where "tr = (\<lambda>_::'w. adopted_trace (we_new_trace we) (jb_trace jb) (kn_world (wk_kernel s)))"
  let ?ev = "(we_broker we)\<lparr>be_trace := tr\<rparr>"
  obtain found s1 where r: "on_kernel (resolve (jb_requested_by jb)) s = (found, s1)" by fastforce
  then have s1: "reached jobs s s1"
    using reachedI [OF view_pres [OF assms], of s "jb_requested_by jb"] by simp
  have doc: "reached jobs s1 (snd (run_create_doc we ?ev jb ca s1))" for ca
  proof -
    have "reached jobs s1 (snd (on_kernel (db_write ?ev ca [] Create d None entries) s1))" for d entries
      by (rule reachedI [OF view_pres [OF write_view]])
    then show ?thesis
      by (auto simp: run_create_doc_def case_prod_unfold reached_same split: option.split json.split)
  qed
  have "reached jobs s1 (snd (case (if jb_kind jb = ''create_doc'' then run_create_doc we ?ev jb ca s1 else (d, s1)) of
      (outcome, s2) \<Rightarrow> (outcome, settle we jb outcome s2)))" for ca d
    using doc [of ca] settle_reached
    by (auto simp: case_prod_unfold intro: reached_trans)
  moreover have "reached jobs s1 (finish_with we jb ''denied'' [] s1)"
    using settle_reached [of s1 jb "Denied []"] by (simp add: settle_def)
  ultimately have "reached jobs s1 (snd (run_traced we ?ev resolve jb s))"
    by (cases found) (simp_all add: run_traced_def r)
  then show ?thesis
    using s1 by (auto simp: run_job_def tr_def Let_def intro: reached_trans)
qed

lemma resolver_view: "preserves (view_is jobs x) (app_user_resolver (we_broker we) u)"
proof -
  have "select_query (''SELECT name, role, status FROM app_user WHERE name = '' @ q)" for q
    by (simp add: select_query_def)
  then show ?thesis
    unfolding preserves_def view_is_def app_user_resolver_def
    by (auto simp: sql_root_def on_world_def case_prod_unfold root_law split: sum.split)
qed

lemma try_claim_both: "preserves (reached jobs s0) (try_claim we i)"
  unfolding try_claim_def [abs_def] by (intro pres)

section \<open>The resident loop ends\<close>

lemma tick_from_ends:
  assumes "\<And>u x. preserves (view_is jobs x) (resolve u)"
  shows "\<exists>res s'. tick_from we resolve cnt s = Some (res, s') \<and> reached jobs s s'
    \<and> (case res of Inl _ \<Rightarrow> True | Inr m \<Rightarrow> m + budget (rows_of jobs s') \<le> cnt + budget (rows_of jobs s))"
proof (induction "budget (rows_of jobs s)" arbitrary: cnt s rule: less_induct)
  case less
  obtain found s1 where c: "claim_next we s = (found, s1)" by fastforce
  note step = claim_next_step [OF c]
  consider e where "found = Inl e" | "found = Inr None" | jb where "found = Inr (Some jb)"
    by (metis option.exhaust sum.exhaust)
  then show ?case
  proof cases
    case (3 jb)
    define s2 where "s2 = snd (run_job we resolve jb s1)"
    have r: "reached jobs s1 s2" unfolding s2_def by (rule run_job_reached [OF assms])
    have lt: "budget (rows_of jobs s2) < budget (rows_of jobs s)"
      using step(2) [OF 3] r by (auto simp: reached_def intro: le_less_trans)
    from less(1) [OF lt, of "cnt + 1"] obtain res s' where t: "tick_from we resolve (cnt + 1) s2 = Some (res, s')"
      "reached jobs s2 s'" "case res of Inl _ \<Rightarrow> True
        | Inr m \<Rightarrow> m + budget (rows_of jobs s') \<le> cnt + 1 + budget (rows_of jobs s2)"
      by blast
    have "tick_from we resolve cnt s = Some (res, s')"
      using t(1) by (subst tick_from.simps) (simp add: c 3 s2_def)
    moreover have "reached jobs s s'" using step(1) r t(2) by (blast intro: reached_trans)
    ultimately show ?thesis using t(3) lt by (cases res) auto
  qed (use step(1) c in \<open>auto simp: tick_from.simps [of we resolve cnt s] reached_def\<close>)
qed

end

end
