(* ===== verification/Mail_Store.thy ===== *)
theory Mail_Store
  imports Mail_Worker Job_Refine
begin

text \<open>
  The outbox as the mail worker uses it: the interface of a store whose statements act on the rows, and
  what one pass does to every row.
\<close>

section \<open>Rows\<close>

record mail_state =
  ms_id :: string
  ms_status :: string
  ms_attempts :: int

definition set_mail :: "string \<Rightarrow> int \<Rightarrow> mail_state \<Rightarrow> mail_state" where
  "set_mail status n r = r\<lparr>ms_status := status, ms_attempts := n\<rparr>"

datatype mail_mark = Sent | Requeue int | Bury int

definition mark_mail :: "mail_mark \<Rightarrow> mail_state \<Rightarrow> mail_state" where
  "mark_mail m r = (case m of
     Sent \<Rightarrow> set_mail ''sent'' (ms_attempts r + 1) r
   | Requeue n \<Rightarrow> set_mail ''queued'' n r
   | Bury n \<Rightarrow> set_mail ''dead'' n r)"

definition marks :: "mail_mark \<Rightarrow> (string \<Rightarrow> string) \<Rightarrow> bool" where
  "marks m stmt = (case m of
     Sent \<Rightarrow> (\<exists>receipt. stmt = (\<lambda>rid. sent_sql rid receipt))
   | Requeue n \<Rightarrow> (\<exists>detail. stmt = (\<lambda>rid. retry_sql rid n detail))
   | Bury n \<Rightarrow> (\<exists>detail. stmt = (\<lambda>rid. dead_sql rid n detail)))"

definition waiting :: "string \<Rightarrow> mail_state \<Rightarrow> bool" where
  "waiting i r = (ms_id r = i \<and> ms_status r = ''queued'')"

definition start_sending :: "mail_state \<Rightarrow> mail_state" where
  "start_sending r = set_mail ''sending'' (ms_attempts r) r"

text \<open>The attempts of a row stay within the bound, and an open row has one left.\<close>

definition mail_ok :: "mail_state \<Rightarrow> bool" where
  "mail_ok r = (0 \<le> ms_attempts r \<and> ms_attempts r \<le> MAX_ATTEMPTS
     \<and> (ms_status r = ''queued'' \<or> ms_status r = ''sending'' \<longrightarrow> ms_attempts r < MAX_ATTEMPTS))"

definition outbox_ok :: "mail_state list \<Rightarrow> bool" where
  "outbox_ok rows = (distinct (map ms_id rows) \<and> list_all mail_ok rows)"

section \<open>The store\<close>

locale mail_store =
  fixes me :: "'w mail_env" and mails :: "'w \<Rightarrow> mail_state list"
  assumes claim_law: "claim_mail_sql (mw_id me) i = Inr q \<Longrightarrow>
      acts mails w (mw_sql_root me q w) (waiting i) (update_where (waiting i) start_sending)"
    and claim_row_law: "outbox_ok (mails w) \<Longrightarrow> claim_mail_sql (mw_id me) i = Inr q \<Longrightarrow> fst (mw_sql_root me q w) = Inr out \<Longrightarrow>
      json_first out = Some row \<Longrightarrow> \<exists>r \<in> set (mails w). waiting i r \<and> mr_attempts (mail_of_row i row) = ms_attempts r"
    and mark_law: "marks m stmt \<Longrightarrow> render_value (VRecordId i) = Inr rid \<Longrightarrow>
      acts mails w (mw_sql_root me (stmt rid) w) (\<lambda>r. ms_id r = i) (update_where (\<lambda>r. ms_id r = i) (mark_mail m))"
    and queued_law: "mails (snd (mw_sql_root me queued_sql w)) = mails w"
    and queued_distinct: "fst (queued_ids me w) = Inr ids \<Longrightarrow> distinct ids"
    and deliver_law: "mails (snd (mw_deliver me msg w)) = mails w"

text \<open>What a pass may do to a row: only a queued one is touched, and it is tried once.\<close>

definition tried :: "mail_state \<Rightarrow> mail_state \<Rightarrow> bool" where
  "tried r r' = (r' = r \<or> ms_status r = ''queued'' \<and> ms_id r' = ms_id r
     \<and> (ms_status r' = ''sending'' \<and> ms_attempts r' = ms_attempts r
        \<or> ms_attempts r' = ms_attempts r + 1
          \<and> (ms_status r' = ''sent'' \<or> ms_status r' = ''dead''
             \<or> ms_status r' = ''queued'' \<and> ms_attempts r' < MAX_ATTEMPTS)))"

lemma tried_ok: "tried r r' \<Longrightarrow> mail_ok r \<Longrightarrow> mail_ok r'"
  by (auto simp: tried_def mail_ok_def MAX_ATTEMPTS_def)

text \<open>A pass over the given ids.\<close>

definition pass_over :: "string set \<Rightarrow> mail_state list \<Rightarrow> mail_state list \<Rightarrow> bool" where
  "pass_over ids = list_all2 (\<lambda>r r'. tried r r' \<and> ms_id r' = ms_id r \<and> (ms_id r \<notin> ids \<longrightarrow> r' = r))"

lemma pass_refl: "pass_over ids rows rows"
  by (simp add: pass_over_def list.rel_refl tried_def)

lemma pass_ids: "pass_over ids rows rows' \<Longrightarrow> map ms_id rows' = map ms_id rows"
  unfolding pass_over_def by (induction rule: list_all2_induct) simp_all

lemma pass_ok:
  assumes "pass_over ids rows rows'" and "outbox_ok rows" shows "outbox_ok rows'"
proof -
  from assms(1) have "list_all2 tried rows rows'" unfolding pass_over_def by (rule list_all2_mono) simp
  then have "list_all mail_ok rows \<Longrightarrow> list_all mail_ok rows'"
    by (induction rule: list_all2_induct) (simp_all add: tried_ok)
  then show ?thesis using assms(2) pass_ids [OF assms(1)] by (simp add: outbox_ok_def)
qed

lemma pass_trans:
  assumes "pass_over {i} rows rows1" and "pass_over ids rows1 rows2" and "i \<notin> ids"
  shows "pass_over (insert i ids) rows rows2"
  unfolding pass_over_def
  using assms(1,2) [unfolded pass_over_def]
  by (rule list_all2_trans [rotated]) (use assms(3) in auto)

lemma pass_mono: "pass_over ids rows rows' \<Longrightarrow> ids \<subseteq> ids' \<Longrightarrow> pass_over ids' rows rows'"
  unfolding pass_over_def by (erule list_all2_mono) auto

lemma pass_update:
  assumes "\<And>r. r \<in> set rows \<Longrightarrow> P r \<Longrightarrow> tried r (f r) \<and> ms_id (f r) = ms_id r \<and> ms_id r \<in> ids"
  shows "pass_over ids rows (update_where P f rows)"
  using assms by (auto simp: pass_over_def update_where_def list_all2_map2 list.rel_refl_strong tried_def
      intro!: list.rel_refl_strong)

text \<open>Claiming a row and recording its outcome, in one.\<close>

lemma claim_then_mark:
  assumes "outbox_ok rows" and "r \<in> set rows" and "waiting i r"
    and "\<And>r. tried r (mark_mail m (start_sending r)) \<or> \<not> (waiting i r \<and> ms_attempts r = n)" and "ms_attempts r = n"
  shows "pass_over {i} rows (update_where (\<lambda>r. ms_id r = i) (mark_mail m) (update_where (waiting i) start_sending rows))"
proof -
  have one: "r' = r" if "r' \<in> set rows" "ms_id r' = i" for r'
    using assms(1-3) that by (auto simp: outbox_ok_def waiting_def distinct_map inj_on_def)
  have id: "ms_id (mark_mail m r) = ms_id r" "ms_id (start_sending r) = ms_id r" for r
    by (simp_all add: mark_mail_def start_sending_def set_mail_def split: mail_mark.split)
  have "update_where (\<lambda>r. ms_id r = i) (mark_mail m) (update_where (waiting i) start_sending rows)
      = update_where (\<lambda>r. ms_id r = i) (\<lambda>r. mark_mail m (start_sending r)) rows"
    unfolding update_where_def map_map
    by (rule map_cong) (use one assms(3) id in \<open>auto simp: waiting_def\<close>)
  moreover have "pass_over {i} rows (update_where (\<lambda>r. ms_id r = i) (\<lambda>r. mark_mail m (start_sending r)) rows)"
    by (rule pass_update) (use one assms(3-5) id in auto)
  ultimately show ?thesis by simp
qed

context mail_store
begin

lemma mark_rows:
  assumes "marks m stmt"
  shows "mails (snd (mark me i stmt w)) \<in> {mails w, update_where (\<lambda>r. ms_id r = i) (mark_mail m) (mails w)}"
proof (cases "render_value (VRecordId i)")
  case (Inr rid)
  from mark_law [OF assms Inr, of w] show ?thesis
    by (cases "mw_sql_root me (stmt rid) w"; cases "fst (mw_sql_root me (stmt rid) w)")
      (auto simp: mark_def Inr acts_def simp del: render_value.simps)
qed (simp add: mark_def del: render_value.simps)

lemma send_rows:
  "\<exists>m. mails (snd (send_one me row w)) \<in> {mails w, update_where (\<lambda>r. ms_id r = mr_id row) (mark_mail m) (mails w)}
     \<and> m \<in> {Sent, Bury (next_attempt (mr_attempts row))}
       \<union> (if next_attempt (mr_attempts row) < MAX_ATTEMPTS then {Requeue (next_attempt (mr_attempts row))} else {})"
proof -
  define out where "out = \<lparr>ob_to = mr_to row, ob_subject = mr_subject row, ob_body = mr_body row\<rparr>"
  obtain res w1 where d: "mw_deliver me out w = (res, w1)" by fastforce
  with deliver_law [of out w] have w1: "mails w1 = mails w" by simp
  let ?n = "next_attempt (mr_attempts row)"
  show ?thesis
  proof (cases res)
    case (Inr receipt)
    have "marks Sent (\<lambda>rid. sent_sql rid receipt)" by (auto simp: marks_def)
    from mark_rows [OF this, of "mr_id row" w1] Inr d w1 show ?thesis
      by (intro exI [of _ Sent]) (simp add: send_one_def out_def)
  next
    case (Inl f)
    have b: "marks (Bury ?n) (\<lambda>rid. dead_sql rid ?n d)" "marks (Requeue ?n) (\<lambda>rid. retry_sql rid ?n d)" for d
      by (auto simp: marks_def)
    show ?thesis
    proof (cases "gives_up ?n f")
      case True
      with mark_rows [OF b(1), of "mr_id row" "failure_reason f" w1] Inl d w1 show ?thesis
        by (intro exI [of _ "Bury ?n"]) (simp add: send_one_def out_def Let_def)
    next
      case False
      then have "?n < MAX_ATTEMPTS" by (simp add: gives_up_def)
      with False mark_rows [OF b(2), of "mr_id row" "failure_reason f" w1] Inl d w1 show ?thesis
        by (intro exI [of _ "Requeue ?n"]) (simp add: send_one_def out_def Let_def)
    qed
  qed
qed

lemma claim_rows:
  assumes "try_claim_mail me i w = (res, w1)" and "outbox_ok (mails w)"
  shows "mails w1 \<in> {mails w, update_where (waiting i) start_sending (mails w)}"
    and "res = Inr (Some row) \<Longrightarrow> mails w1 = update_where (waiting i) start_sending (mails w) \<and> mr_id row = i
      \<and> (\<exists>r \<in> set (mails w). waiting i r \<and> mr_attempts row = ms_attempts r)"
proof -
  have "mails w1 \<in> {mails w, update_where (waiting i) start_sending (mails w)}
    \<and> (\<forall>row. res = Inr (Some row) \<longrightarrow> mails w1 = update_where (waiting i) start_sending (mails w) \<and> mr_id row = i
      \<and> (\<exists>r \<in> set (mails w). waiting i r \<and> mr_attempts row = ms_attempts r))"
  proof (cases "claim_mail_sql (mw_id me) i")
    case (Inl e)
    then show ?thesis using assms(1) by (auto simp: try_claim_mail_def)
  next
    case (Inr q)
    obtain out w2 where q: "mw_sql_root me q w = (out, w2)" by fastforce
    have a: "acts mails w (out, w2) (waiting i) (update_where (waiting i) start_sending)"
      using claim_law [OF Inr, of w] q by simp
    show ?thesis
    proof (cases out)
      case (Inl e)
      then show ?thesis using assms(1) Inr q a by (auto simp: try_claim_mail_def acts_def)
    next
      case (Inr v)
      have r: "res = Inr (map_option (mail_of_row i) (json_first v))" "w1 = w2"
        using assms(1) Inr q \<open>claim_mail_sql (mw_id me) i = Inr q\<close> by (auto simp: try_claim_mail_def)
      have "\<exists>r \<in> set (mails w). waiting i r \<and> mr_attempts (mail_of_row i j) = ms_attempts r" if "json_first v = Some j" for j
        using claim_row_law [OF assms(2) \<open>claim_mail_sql (mw_id me) i = Inr q\<close> _ that] q Inr by simp
      moreover have "mails w2 = update_where (waiting i) start_sending (mails w)" using a Inr by (simp add: acts_def)
      ultimately show ?thesis using r by (auto simp: mail_of_row_def)
    qed
  qed
  then show "mails w1 \<in> {mails w, update_where (waiting i) start_sending (mails w)}"
    and "res = Inr (Some row) \<Longrightarrow> mails w1 = update_where (waiting i) start_sending (mails w) \<and> mr_id row = i
      \<and> (\<exists>r \<in> set (mails w). waiting i r \<and> mr_attempts row = ms_attempts r)"
    by blast+
qed

lemma start_pass: "pass_over {i} rows (update_where (waiting i) start_sending rows)"
  by (rule pass_update) (auto simp: waiting_def tried_def start_sending_def set_mail_def)

lemma drain_pass:
  "distinct ids \<Longrightarrow> outbox_ok (mails w) \<Longrightarrow> pass_over (set ids) (mails w) (mails (snd (drain_ids me n ids w)))"
proof (induction ids arbitrary: n w)
  case Nil
  then show ?case by (simp add: pass_refl)
next
  case (Cons i ids)
  obtain res w1 where c: "try_claim_mail me i w = (res, w1)" by fastforce
  note claim = claim_rows [OF c Cons.prems(2)]
  have w1: "pass_over {i} (mails w) (mails w1)" using claim(1) start_pass pass_refl by auto
  have go: "pass_over (set (i # ids)) (mails w) (mails (snd (drain_ids me n' ids w')))"
    if "pass_over {i} (mails w) (mails w')" for n' w'
    using pass_trans [OF that Cons.IH] Cons.prems pass_ok [OF that] by simp
  show ?case
  proof (cases res)
    case (Inl e)
    then show ?thesis using c w1 by (auto intro: pass_mono)
  next
    case (Inr claimed)
    show ?thesis
    proof (cases claimed)
      case None
      then show ?thesis using Inr c go [OF w1] by simp
    next
      case (Some row)
      obtain r where r: "mails w1 = update_where (waiting i) start_sending (mails w)" "mr_id row = i"
        "r \<in> set (mails w)" "waiting i r" "mr_attempts row = ms_attempts r"
        using claim(2) Inr Some by blast
      obtain ok w2 where s: "send_one me row w1 = (ok, w2)" by fastforce
      from r(3,4) Cons.prems(2) have n: "next_attempt (mr_attempts row) = ms_attempts r + 1"
        by (auto simp: outbox_ok_def list_all_iff mail_ok_def waiting_def r(5) next_attempt_def MAX_ATTEMPTS_def)
      from send_rows [of row w1] obtain m
        where m: "mails w2 = mails w1 \<or> mails w2 = update_where (\<lambda>r. ms_id r = i) (mark_mail m) (mails w1)"
          "m = Sent \<or> m = Bury (ms_attempts r + 1) \<or> ms_attempts r + 1 < MAX_ATTEMPTS \<and> m = Requeue (ms_attempts r + 1)"
        using s r(2) n by (auto split: if_splits)
      have "pass_over {i} (mails w) (mails w2)"
        using m(1)
      proof
        assume "mails w2 = update_where (\<lambda>r. ms_id r = i) (mark_mail m) (mails w1)"
        moreover have "pass_over {i} (mails w)
            (update_where (\<lambda>r. ms_id r = i) (mark_mail m) (update_where (waiting i) start_sending (mails w)))"
          by (rule claim_then_mark [OF Cons.prems(2) r(3,4), where n = "ms_attempts r"])
            (use m(2) in \<open>auto simp: tried_def waiting_def mark_mail_def start_sending_def set_mail_def\<close>)
        ultimately show ?thesis using r(1) by simp
      qed (use w1 in simp)
      from go [OF this] show ?thesis using Inr Some c s by simp
    qed
  qed
qed

lemma drain_mail_pass:
  assumes "outbox_ok (mails w)"
  shows "list_all2 tried (mails w) (mails (snd (drain_mail me w)))" and "outbox_ok (mails (snd (drain_mail me w)))"
proof -
  obtain res w1 where q: "queued_ids me w = (res, w1)" by fastforce
  have w1: "mails w1 = mails w"
    using q queued_law [of w] by (auto simp: queued_ids_def and_then_def split: prod.splits sum.splits)
  have pass: "pass_over (case res of Inr ids \<Rightarrow> set ids | Inl _ \<Rightarrow> {}) (mails w) (mails (snd (drain_mail me w)))"
  proof (cases res)
    case (Inr ids)
    then have "distinct ids" using queued_distinct [of w ids] q by simp
    from drain_pass [OF this, of w1 0] assms w1 Inr q show ?thesis by (simp add: drain_mail_def)
  qed (use q w1 in \<open>simp add: drain_mail_def pass_refl\<close>)
  then show "list_all2 tried (mails w) (mails (snd (drain_mail me w)))"
    unfolding pass_over_def by (rule list_all2_mono) simp
  from pass_ok [OF pass assms] show "outbox_ok (mails (snd (drain_mail me w)))" .
qed

end

end
