(* ===== verification/Text_Read.thy ===== *)
theory Text_Read
  imports Fleet_Demo Surql Decimal_Proofs
begin

text \<open>
  Readers for the demonstration databases: literals, numbers and words at the front of a statement's
  text, each with the lemma that it reads back what the statement's writer put there.
\<close>

lemma quote_lit: "quote_literal s = sq @ escape_str s @ sq"
  by (simp add: quote_literal_def escape_literal_def escape_str_def sq_def)

lemma quoted_lit: "quoted p (p @ quote_literal v @ rest) = Some (v, rest)"
  by (simp add: quote_lit quoted_literal)

definition read_span :: "(char \<Rightarrow> bool) \<Rightarrow> string \<Rightarrow> string \<times> string" where
  "read_span P s = (takeWhile P s, dropWhile P s)"

lemma read_span_append: "list_all P a \<Longrightarrow> (s = [] \<or> \<not> P (hd s)) \<Longrightarrow> read_span P (a @ s) = (a, s)"
  by (cases s) (simp_all add: read_span_def list_all_iff)

definition read_nat :: "string \<Rightarrow> nat \<times> string" where
  "read_nat s = map_prod digits_val id (read_span is_digit s)"

lemma read_nat_str: "(s = [] \<or> \<not> is_digit (hd s)) \<Longrightarrow> read_nat (nat_str n @ s) = (n, s)"
  by (simp add: read_nat_def read_span_append nat_str_digits)

definition plain_char :: "char \<Rightarrow> bool" where
  "plain_char c = (is_digit c \<or> c = CHR ''.'' \<or> c = CHR ''-'')"

lemma plain_chars: "list_all plain_char (to_plain_string d)"
proof -
  have n: "list_all plain_char (nat_str k)" for k
    using nat_str_digits [of k] by (auto simp: list_all_iff plain_char_def)
  have "set (take k xs) \<subseteq> set xs" "set (drop k xs) \<subseteq> set xs" for k and xs :: string
    by (rule set_take_subset, rule set_drop_subset)
  then have b: "list_all plain_char (plain_body s (nat_str k))" for s k
    using n [of k] unfolding plain_body_def list_all_iff
    by (auto simp: plain_char_def is_digit_def dest!: subsetD [OF set_take_subset] subsetD [OF set_drop_subset])
  then show ?thesis by (auto simp: to_plain_string_def Let_def plain_char_def)
qed

definition read_decimal :: "string \<Rightarrow> (decimal \<times> string) option" where
  "read_decimal s = (case read_span plain_char s of (t, r) \<Rightarrow> map_option (\<lambda>d. (d, r)) (parse t))"

lemma read_decimal_plain:
  assumes "wf_decimal d" and "de_mantissa d \<noteq> i128_min" and "s = [] \<or> \<not> plain_char (hd s)"
  shows "read_decimal (to_plain_string d @ s) = Some (d, s)"
  using read_span_append [OF plain_chars assms(3)] parse_plain [OF assms(1,2)] by (simp add: read_decimal_def)

end
