(* ===== verification/Job_Demo.thy ===== *)
theory Job_Demo
  imports Job_Refine Broker_Demo Text_Read
begin

text \<open>
  A concrete job table for the witnesses: a database that reads the worker's statements back from their
  text and applies them to a list of rows, and a write path that always fails for a passing reason. It
  is a \<open>job_store\<close>.
\<close>

section \<open>Reading the statements back\<close>

definition claim_tail :: "claim_source \<Rightarrow> string" where
  "claim_tail source = '', claimed_at = time::now(), lease_expires_at = time::now() + '' @ nat_str JOB_LEASE_SECONDS
     @ ''s, attempts = IF attempts = NONE { 1 } ELSE { attempts + 1 } WHERE '' @ source_predicate source @ '';''"

definition read_claim :: "string \<Rightarrow> (string \<times> string \<times> string \<times> claim_source) option" where
  "read_claim q =
     Option.bind (quoted ''UPDATE type::record('' q) (\<lambda>(i, r).
     Option.bind (quoted '') SET status = 'running', claimed_by = '' r) (\<lambda>(w, r).
     Option.bind (quoted '', claim_token = '' r) (\<lambda>(t, r).
       if r = claim_tail Queued then Some (i, w, t, Queued)
       else if r = claim_tail ExpiredLease then Some (i, w, t, ExpiredLease) else None)))"

definition read_renew :: "string \<Rightarrow> (settlement \<times> string) option" where
  "read_renew r = map_option (\<lambda>r. (Renewed, r)) (strip_prefix ('') SET '' @ renew_update) r)"

definition requeue_head :: string where
  "requeue_head = '') SET status = 'queued', claimed_by = NONE, claim_token = NONE, claimed_at = NONE, ''
     @ ''lease_expires_at = NONE, last_error = ''"

definition read_requeue :: "string \<Rightarrow> (settlement \<times> string) option" where
  "read_requeue r = map_option (\<lambda>(_, r). (Requeued, r)) (quoted requeue_head r)"

definition finished_tail :: string where
  "finished_tail = '', finished_at = time::now(), claimed_by = NONE, claim_token = NONE, lease_expires_at = NONE''"

definition dead_head :: string where
  "dead_head = '') SET status = 'dead', terminal_reason = 'attempts_exhausted', last_error = ''"

definition read_dead :: "string \<Rightarrow> (settlement \<times> string) option" where
  "read_dead r = Option.bind (quoted dead_head r) (\<lambda>(_, r). map_option (\<lambda>r. (Buried, r)) (strip_prefix finished_tail r))"

definition read_finish :: "string \<Rightarrow> (settlement \<times> string) option" where
  "read_finish r =
     Option.bind (quoted '') SET status = '' r) (\<lambda>(st, r).
     Option.bind (quoted '', detail = '' r) (\<lambda>(_, r).
     Option.bind (quoted '', terminal_reason = '' r) (\<lambda>(_, r).
       map_option (\<lambda>r. (Finished st, r)) (strip_prefix finished_tail r))))"

fun first_some :: "('a \<Rightarrow> 'b option) list \<Rightarrow> 'a \<Rightarrow> 'b option" where
  "first_some [] x = None"
| "first_some (f # fs) x = (case f x of Some y \<Rightarrow> Some y | None \<Rightarrow> first_some fs x)"

definition read_update :: "string \<Rightarrow> (settlement \<times> string) option" where
  "read_update = first_some [read_renew, read_requeue, read_dead, read_finish]"

definition read_settle :: "string \<Rightarrow> (string \<times> string \<times> string \<times> settlement) option" where
  "read_settle q =
     Option.bind (quoted ''UPDATE type::record('' q) (\<lambda>(i, r).
     Option.bind (read_update r) (\<lambda>(st, r).
     Option.bind (quoted '' WHERE status = 'running' AND claimed_by = '' r) (\<lambda>(w, r).
     map_option (\<lambda>(t, _). (i, w, t, st)) (quoted '' AND claim_token = '' r))))"

lemma record_text: "render_value (VRecordId i) = Inr rid \<Longrightarrow> rid = ''type::record('' @ sq @ escape_str i @ sq @ '')''"
  by (auto simp: quote_lit invalid_def split: option.splits if_splits)

lemma read_claim_sql:
  assumes "claim_sql i w t source = Inr q"
  shows "read_claim q = Some (i, w, t, source)" and "take 12 q = ''UPDATE type:''"
proof -
  obtain rid where r: "render_value (VRecordId i) = Inr rid"
    using assms by (auto simp: claim_sql_def simp del: render_value.simps split: sum.splits)
  have q: "q = ''UPDATE type::record('' @ sq @ escape_str i @ sq @ '') SET status = 'running', claimed_by = ''
      @ sq @ escape_str w @ sq @ '', claim_token = '' @ sq @ escape_str t @ sq @ claim_tail source"
    using assms r record_text [OF r]
    by (simp add: claim_sql_def claim_tail_def quote_lit del: render_value.simps)
  have ne: "claim_tail ExpiredLease \<noteq> claim_tail Queued" by (simp add: claim_tail_def source_predicate_def)
  show "read_claim q = Some (i, w, t, source)"
    unfolding read_claim_def q by (simp only: quoted_literal Option.bind.bind_lunit prod.case)
      (use ne in \<open>cases source; simp\<close>)
  show "take 12 q = ''UPDATE type:''" by (simp add: q)
qed

lemma read_update_text:
  assumes "settles st upd"
  shows "read_update ('') SET '' @ upd @ r) = Some (st, r)"
proof (cases st)
  case (Finished status)
  then obtain detail where u: "upd = finish_update status detail" and s: "status = ''done'' \<or> status = ''denied''"
    using assms by (auto simp: settles_def)
  have t: "'') SET '' @ upd @ r = '') SET status = '' @ sq @ escape_str status @ sq @ '', detail = '' @ sq
      @ escape_str detail @ sq @ '', terminal_reason = '' @ sq @ escape_str status @ sq @ finished_tail @ r"
    by (simp add: u finish_update_def quote_lit finished_tail_def)
  have f: "read_finish ('') SET '' @ upd @ r) = Some (Finished status, r)"
    unfolding read_finish_def t
    by (simp only: quoted_literal Option.bind.bind_lunit prod.case strip_prefix_append option.map)
  have esc: "escape_str ''done'' = ''done''" "escape_str ''denied'' = ''denied''" by simp_all
  have "read_renew ('') SET '' @ upd @ r) = None" "read_requeue ('') SET '' @ upd @ r) = None"
    "read_dead ('') SET '' @ upd @ r) = None"
    using s unfolding t
    by (auto simp: read_renew_def read_requeue_def read_dead_def quoted_def strip_prefix_def renew_update_def
        requeue_head_def dead_head_def sq_def esc simp del: escape_str_def)
  with f Finished show ?thesis by (simp add: read_update_def)
next
  case Requeued
  then obtain detail where u: "upd = requeue_update detail" using assms by (auto simp: settles_def)
  have t: "'') SET '' @ upd @ r = requeue_head @ sq @ escape_str detail @ sq @ r"
    by (simp add: u requeue_update_def quote_lit requeue_head_def)
  have "read_requeue ('') SET '' @ upd @ r) = Some (Requeued, r)"
    unfolding read_requeue_def t by (simp only: quoted_literal option.map prod.case)
  moreover have "read_renew ('') SET '' @ upd @ r) = None"
    unfolding t by (simp add: read_renew_def strip_prefix_def renew_update_def requeue_head_def)
  ultimately show ?thesis using Requeued by (simp add: read_update_def)
next
  case Buried
  then obtain detail where u: "upd = dead_update detail" using assms by (auto simp: settles_def)
  have t: "'') SET '' @ upd @ r = dead_head @ sq @ escape_str detail @ sq @ finished_tail @ r"
    by (simp add: u dead_update_def quote_lit dead_head_def finished_tail_def)
  have "read_dead ('') SET '' @ upd @ r) = Some (Buried, r)"
    unfolding read_dead_def t
    by (simp only: quoted_literal Option.bind.bind_lunit prod.case strip_prefix_append option.map)
  moreover have "read_renew ('') SET '' @ upd @ r) = None" "read_requeue ('') SET '' @ upd @ r) = None"
    unfolding t by (simp_all add: read_renew_def read_requeue_def quoted_def strip_prefix_def renew_update_def
        requeue_head_def dead_head_def)
  ultimately show ?thesis using Buried by (simp add: read_update_def)
next
  case Renewed
  then have "upd = renew_update" using assms by (simp add: settles_def)
  then have "'') SET '' @ upd @ r = ('') SET '' @ renew_update) @ r" by simp
  then have "read_renew ('') SET '' @ upd @ r) = Some (Renewed, r)"
    unfolding read_renew_def by (simp only: strip_prefix_append option.map)
  with Renewed show ?thesis by (simp add: read_update_def)
qed

lemma read_settle_sql:
  assumes "fenced_update_sql jb upd = Inr q" and "settles st upd"
  shows "read_settle q = Some (jb_id jb, le_claimed_by (jb_lease jb), le_token (jb_lease jb), st)"
    and "read_claim q = None" and "take 12 q = ''UPDATE type:''"
proof -
  obtain rid where r: "render_value (VRecordId (jb_id jb)) = Inr rid"
    using assms(1) by (auto simp: fenced_update_sql_def simp del: render_value.simps split: sum.splits)
  define rest where "rest = '' WHERE status = 'running' AND claimed_by = '' @ sq @ escape_str (le_claimed_by (jb_lease jb))
      @ sq @ '' AND claim_token = '' @ sq @ escape_str (le_token (jb_lease jb)) @ sq @ '';''"
  have q: "q = ''UPDATE type::record('' @ sq @ escape_str (jb_id jb) @ sq @ '') SET '' @ upd @ rest"
    using assms(1) r record_text [OF r]
    by (simp add: fenced_update_sql_def rest_def quote_lit del: render_value.simps)
  show "read_settle q = Some (jb_id jb, le_claimed_by (jb_lease jb), le_token (jb_lease jb), st)"
    unfolding read_settle_def q
    by (simp only: quoted_literal read_update_text [OF assms(2)] rest_def Option.bind.bind_lunit prod.case option.map)
  have "quoted '') SET status = 'running', claimed_by = '' ('') SET '' @ upd @ rest) = None"
    using assms(2)
    by (cases st) (auto simp: settles_def quoted_def strip_prefix_def renew_update_def requeue_update_def
        dead_update_def finish_update_def quote_lit sq_def)
  then show "read_claim q = None"
    unfolding read_claim_def q by (simp only: quoted_literal Option.bind.bind_lunit prod.case Option.bind.simps)
  show "take 12 q = ''UPDATE type:''" by (simp add: q)
qed

section \<open>The database\<close>

record job_world =
  jw_rows :: "job_row list"
  jw_now :: rat

definition row_json :: "job_row \<Rightarrow> json" where
  "row_json r = JObject [(''id'', JString (jr_id r)), (''status'', JString (jr_status r)),
     (''attempts'', JInt (int (attempts_made r))),
     (''claimed_by'', case jr_owner r of Some w \<Rightarrow> JString w | None \<Rightarrow> JNull),
     (''claim_token'', case jr_token r of Some t \<Rightarrow> JString t | None \<Rightarrow> JNull),
     (''lease_expires_at'', JString ''soon''), (''kind'', JString ''create_doc''), (''requested_by'', JString ''ann''),
     (''payload'', JObject [(''doctype'', JString ''inv''), (''doc'', JObject [(''note'', JString ''x'')])])]"

definition job_select :: "string \<Rightarrow> job_world \<Rightarrow> json" where
  "job_select q w =
     (let ready = filter (\<lambda>r. claimable Queued (jw_now w) r \<or> claimable ExpiredLease (jw_now w) r) (jw_rows w) in
      if q = tenants_sql then JArray (if ready = [] then [] else [JObject [(''tenant'', JString ''acme'')]])
      else if q = heads_sql ''acme'' then JArray (map row_json ready)
      else JArray [JObject [(''role'', JString ''hr'')]])"

definition answer_update ::
  "(job_row \<Rightarrow> bool) \<Rightarrow> (job_row list \<Rightarrow> job_row list) \<Rightarrow> job_world \<Rightarrow> (broker_error + json) \<times> job_world" where
  "answer_update P upd w =
     (let hit = map jr_id (filter P (jw_rows w)); rows = upd (jw_rows w)
      in (Inr (JArray (map row_json (if hit = [] then [] else filter (\<lambda>r. jr_id r \<in> set hit) rows))), w\<lparr>jw_rows := rows\<rparr>))"

definition job_root :: "job_world sql" where
  "job_root q w =
     (if select_query q then (Inr (job_select q w), w)
      else if outbox_query q then (Inr (JArray []), w)
      else if q = reap_sql then answer_update (reapable (jw_now w)) (reap_rows (jw_now w)) w
      else case read_claim q of
        Some (i, wk, t, source) \<Rightarrow>
          answer_update (\<lambda>r. jr_id r = i \<and> claimable source (jw_now w) r) (claim_rows i wk t source (jw_now w)) w
      | None \<Rightarrow>
          (case read_settle q of
             Some (i, wk, t, st) \<Rightarrow>
               answer_update (\<lambda>r. jr_id r = i \<and> fenced wk t r) (settle_rows i wk t st (jw_now w)) w
           | None \<Rightarrow> (Inr JNull, w)))"

definition job_broker :: "broker_error + json \<Rightarrow> job_world broker_env" where
  "job_broker written =
     \<lparr>be_tenant = ''acme'', be_timeout = ''30s'', be_sql_as = (\<lambda>u p q w. (written, w)), be_sql_root = job_root,
      be_validate = (\<lambda>d doc w. (Inr doc, w)), be_fire = (\<lambda>c d doc w. (Inr doc, w)),
      be_meta_gen = (\<lambda>_. 7), be_now = (\<lambda>_. 0), be_trace = (\<lambda>_. ''t''), be_f64 = (\<lambda>_. Finite ''0''),
      be_codec = demo_codec,
      be_meta = \<lparr>mc_workflow = (\<lambda>_. Inr inv_flow), mc_notifications = (\<lambda>_. Inr []),
                 mc_doctype_meta = (\<lambda>_. Inr inv_meta), mc_doctypes = (\<lambda>_. Inr [])\<rparr>\<rparr>"

definition job_env :: "broker_error + json \<Rightarrow> job_world worker_env" where
  "job_env written =
     \<lparr>we_broker = job_broker written, we_id = ''resident-0'', we_has_broker = True, we_pid = 7,
      we_nanos = (\<lambda>_. 255), we_new_trace = (\<lambda>_. ''fresh''), we_show = (\<lambda>_. ''conflict'')\<rparr>"

definition job_start :: "job_row list \<Rightarrow> job_world worker" where
  "job_start rows =
     \<lparr>wk_kernel = \<lparr>kn_world = \<lparr>jw_rows = rows, jw_now = 0\<rparr>, kn_fair = fair_state_default,
        kn_meta_cache = (\<lambda>_. None), kn_notif_cache = (\<lambda>_. None), kn_mail_errors = []\<rparr>,
      wk_round = 0, wk_seq = 0, wk_rejections = []\<rparr>"

section \<open>Its laws\<close>

lemma answer_acts:
  assumes "upd (jw_rows w) = update_where P f (jw_rows w)" and "\<And>r. jr_id (f r) = jr_id r"
  shows "acts jw_rows w (answer_update P upd w) P upd"
proof -
  have "map jr_id (filter P rows) = [] \<longleftrightarrow> \<not> list_ex P rows" for rows
    by (induction rows) auto
  moreover have "filter (\<lambda>r. jr_id r \<in> set (map jr_id (filter P (jw_rows w)))) (upd (jw_rows w)) \<noteq> []"
    if ex: "list_ex P (jw_rows w)"
  proof -
    obtain r where r: "r \<in> set (jw_rows w)" "P r" using ex by (auto simp: list_ex_iff)
    then have "f r \<in> set (filter (\<lambda>r. jr_id r \<in> set (map jr_id (filter P (jw_rows w)))) (upd (jw_rows w)))"
      using assms(2) [of r] by (force simp: assms(1) update_set)
    then show ?thesis by (rule length_pos_if_in_set [THEN length_greater_0_conv [THEN iffD1]])
  qed
  ultimately show ?thesis
    by (auto simp: acts_def answer_update_def Let_def json_rows_def json_array_def simp del: map_is_Nil_conv set_map)
qed

lemma update_type_text: "take 12 q = ''UPDATE type:'' \<Longrightarrow> \<not> select_query q \<and> \<not> outbox_query q \<and> q \<noteq> reap_sql"
proof -
  assume t: "take 12 q = ''UPDATE type:''"
  from arg_cong [OF t, of "take 7"] arg_cong [OF t, of "take 8"]
  have h: "take 7 q = ''UPDATE ''" "take 8 q = ''UPDATE t''" by simp_all
  have "take 19 q \<noteq> ''CREATE _frust_mail ''"
  proof
    assume "take 19 q = ''CREATE _frust_mail ''"
    from arg_cong [OF this, of "take 8"] h(2) show False by simp
  qed
  with h show ?thesis by (auto simp: select_query_def outbox_query_def reap_sql_def)
qed

interpretation demo_jobs: job_store "job_env written" jw_rows jw_now
proof
  fix i worker token source q w
  assume c: "claim_sql i worker token source = Inr q"
  note r = read_claim_sql [OF c]
  show "acts jw_rows w (be_sql_root (we_broker (job_env written)) q w) (\<lambda>r. jr_id r = i \<and> claimable source (jw_now w) r)
      (claim_rows i worker token source (jw_now w))"
    using update_type_text [OF r(2)]
    by (simp add: job_env_def job_broker_def job_root_def r(1))
      (rule answer_acts [where f = "claim_row worker token (jw_now w)"], simp_all add: claim_rows_def)
next
  fix st upd jb q w
  assume s: "settles st upd" and f: "fenced_update_sql jb upd = Inr q"
  note r = read_settle_sql [OF f s]
  show "acts jw_rows w (be_sql_root (we_broker (job_env written)) q w)
        (\<lambda>r. jr_id r = jb_id jb \<and> fenced (le_claimed_by (jb_lease jb)) (le_token (jb_lease jb)) r)
        (settle_rows (jb_id jb) (le_claimed_by (jb_lease jb)) (le_token (jb_lease jb)) st (jw_now w))"
    using update_type_text [OF r(3)]
    by (simp add: job_env_def job_broker_def job_root_def r(1,2))
      (rule answer_acts [where f = "settle_row st (jw_now w)"], simp_all add: settle_rows_def)
next
  fix w
  have "\<not> select_query reap_sql" "\<not> outbox_query reap_sql"
    by (simp_all add: select_query_def outbox_query_def reap_sql_def)
  then show "acts jw_rows w (be_sql_root (we_broker (job_env written)) reap_sql w) (reapable (jw_now w)) (reap_rows (jw_now w))"
    by (simp add: job_env_def job_broker_def job_root_def)
      (rule answer_acts [where f = "free_row ''dead''"], simp_all add: reap_rows_def)
qed (auto simp: job_env_def job_broker_def job_root_def)

lemma demo_job_store: "job_store (job_env written) jw_rows jw_now"
  by (rule demo_jobs.job_store_axioms)

end
