(* ===== verification/Mail_Demo.thy ===== *)
theory Mail_Demo
  imports Mail_Store Job_Demo
begin

text \<open>
  A concrete outbox: a database that reads the mail worker's statements back from their text and applies
  them to a list of rows, and a transport that refuses. It is a \<open>mail_store\<close>.
\<close>

section \<open>Reading the statements back\<close>

definition read_mail_claim :: "string \<Rightarrow> string option" where
  "read_mail_claim q =
     Option.bind (quoted ''UPDATE type::record('' q) (\<lambda>(i, r).
     Option.bind (quoted '') SET status = 'sending', claimed_by = '' r) (\<lambda>(_, r).
       if r = '', claimed_at = time::now() WHERE status = 'queued';'' then Some i else None))"

definition read_int :: "string \<Rightarrow> int" where
  "read_int r = (let ds = takeWhile (\<lambda>c. c \<noteq> CHR '','') r
     in if take 1 ds = ''-'' then - int (digits_val (drop 1 ds)) else int (digits_val ds))"

definition read_mark :: "string \<Rightarrow> mail_mark option" where
  "read_mark = first_some
     [\<lambda>r. map_option (\<lambda>_. Sent) (quoted '') SET status = 'sent', receipt = '' r),
      \<lambda>r. map_option (\<lambda>r. Requeue (read_int r)) (strip_prefix '') SET status = 'queued', claimed_by = NONE, attempts = '' r),
      \<lambda>r. map_option (\<lambda>r. Bury (read_int r)) (strip_prefix '') SET status = 'dead', attempts = '' r)]"

definition read_mail_mark :: "string \<Rightarrow> (string \<times> mail_mark) option" where
  "read_mail_mark q =
     Option.bind (quoted ''UPDATE type::record('' q) (\<lambda>(i, r). map_option (Pair i) (read_mark r))"

lemma read_int_str: "read_int (int_str n @ CHR '','' # r) = n"
proof -
  have d: "\<forall>c \<in> set (nat_str k). c \<noteq> CHR '',''" "\<forall>c \<in> set (nat_str k). c \<noteq> CHR ''-''" for k
    using nat_str_digits [of k] by (auto simp: list_all_iff is_digit_def)
  have "\<forall>c \<in> set (int_str n). c \<noteq> CHR '',''" using d by (auto simp: int_str_def)
  then have "takeWhile (\<lambda>c. c \<noteq> CHR '','') (int_str n @ CHR '','' # r) = int_str n"
    by (simp add: takeWhile_append)
  moreover have "take 1 (nat_str k) \<noteq> ''-''" for k
    using d(2) [of k] by (cases "nat_str k") auto
  ultimately show ?thesis by (simp add: read_int_def Let_def int_str_def)
qed

lemma read_mail_claim_sql:
  assumes "claim_mail_sql wid i = Inr q"
  shows "read_mail_claim q = Some i" and "q \<noteq> queued_sql"
proof -
  obtain rid where r: "render_value (VRecordId i) = Inr rid"
    using assms by (auto simp: claim_mail_sql_def simp del: render_value.simps split: sum.splits)
  have q: "q = ''UPDATE type::record('' @ sq @ escape_str i @ sq @ '') SET status = 'sending', claimed_by = ''
      @ sq @ escape_str wid @ sq @ '', claimed_at = time::now() WHERE status = 'queued';''"
    using assms r record_text [OF r] by (simp add: claim_mail_sql_def quote_lit del: render_value.simps)
  show "read_mail_claim q = Some i"
    unfolding read_mail_claim_def q by (simp only: quoted_literal Option.bind.bind_lunit prod.case) simp
  show "q \<noteq> queued_sql" by (simp add: q queued_sql_def)
qed

lemma read_mail_mark_sql:
  assumes "marks m stmt" and "render_value (VRecordId i) = Inr rid"
  shows "read_mail_mark (stmt rid) = Some (i, m)" and "read_mail_claim (stmt rid) = None" and "stmt rid \<noteq> queued_sql"
proof -
  obtain s where s: "stmt rid = ''UPDATE type::record('' @ sq @ escape_str i @ sq @ '') SET status = '' @ s"
    and m: "read_mark ('') SET status = '' @ s) = Some m" and ns: "take 9 s \<noteq> [CHR 0x27] @ ''sending'' @ [CHR 0x27]"
  proof (cases m)
    case Sent
    then obtain receipt where "stmt = (\<lambda>rid. sent_sql rid receipt)" using assms(1) by (auto simp: marks_def)
    then have t: "stmt rid = ''UPDATE type::record('' @ sq @ escape_str i @ sq @ '') SET status = ''
        @ ([CHR 0x27] @ ''sent'' @ [CHR 0x27] @ '', receipt = '' @ sq @ escape_str receipt @ sq
           @ '', sent_at = time::now(), attempts = attempts + 1;'')"
      by (simp add: sent_sql_def record_text [OF assms(2)] quote_lit)
    have "quoted '') SET status = 'sent', receipt = '' ('') SET status = 'sent', receipt = '' @ sq @ escape_str receipt @ sq @ x)
        = Some (receipt, x)" for x
      by (rule quoted_literal)
    then show thesis using that [OF t] Sent by (simp add: read_mark_def)
  next
    case (Requeue n)
    then obtain detail where "stmt = (\<lambda>rid. retry_sql rid n detail)" using assms(1) by (auto simp: marks_def)
    then have t: "stmt rid = ''UPDATE type::record('' @ sq @ escape_str i @ sq @ '') SET status = ''
        @ ([CHR 0x27] @ ''queued'' @ [CHR 0x27] @ '', claimed_by = NONE, attempts = '' @ int_str n @ CHR '','' #
           '' last_error = '' @ quote_literal detail @ '';'')"
      by (simp add: retry_sql_def record_text [OF assms(2)])
    show thesis using that [OF t] Requeue read_int_str [of n]
      by (simp add: read_mark_def quoted_def strip_prefix_def)
  next
    case (Bury n)
    then obtain detail where "stmt = (\<lambda>rid. dead_sql rid n detail)" using assms(1) by (auto simp: marks_def)
    then have t: "stmt rid = ''UPDATE type::record('' @ sq @ escape_str i @ sq @ '') SET status = ''
        @ ([CHR 0x27] @ ''dead'' @ [CHR 0x27] @ '', attempts = '' @ int_str n @ CHR '','' #
           '' last_error = '' @ quote_literal detail @ '', finished_at = time::now();'')"
      by (simp add: dead_sql_def record_text [OF assms(2)])
    show thesis using that [OF t] Bury read_int_str [of n]
      by (simp add: read_mark_def quoted_def strip_prefix_def)
  qed
  show "read_mail_mark (stmt rid) = Some (i, m)"
    unfolding read_mail_mark_def s by (simp only: quoted_literal Option.bind.bind_lunit prod.case m option.map)
  have "quoted '') SET status = 'sending', claimed_by = '' ('') SET status = '' @ s) = None"
  proof (rule quoted_None)
    have "s = ([CHR 0x27] @ ''sending'' @ [CHR 0x27]) @ x \<Longrightarrow> False" for x using ns by simp
    then show "strip_prefix ('') SET status = 'sending', claimed_by = '' @ sq) ('') SET status = '' @ s) = None"
      by (fastforce simp: option.case_eq_if strip_prefix_Some sq_def intro: ccontr dest!: not_None_eq [THEN iffD1])
  qed
  then show "read_mail_claim (stmt rid) = None"
    unfolding read_mail_claim_def s by (simp only: quoted_literal Option.bind.bind_lunit prod.case Option.bind.simps)
  show "stmt rid \<noteq> queued_sql" by (simp add: s queued_sql_def)
qed

section \<open>The database\<close>

definition mail_json :: "mail_state \<Rightarrow> json" where
  "mail_json r = JObject [(''id'', JString (ms_id r)), (''attempts'', JInt (ms_attempts r)),
     (''to'', JArray [JString ''a@x.org'']), (''subject'', JString ''s''), (''body'', JString ''b'')]"

definition mail_root :: "mail_state list sql" where
  "mail_root q rows =
     (if q = queued_sql
      then (Inr (JArray (map (\<lambda>i. JObject [(''id'', JString i)])
              (remdups (map ms_id (filter (\<lambda>r. ms_status r = ''queued'') rows))))), rows)
      else case read_mail_claim q of
        Some i \<Rightarrow> (Inr (JArray (map mail_json (filter (waiting i) rows))), update_where (waiting i) start_sending rows)
      | None \<Rightarrow>
          (case read_mail_mark q of
             Some (i, m) \<Rightarrow> (Inr (JArray (map mail_json (filter (\<lambda>r. ms_id r = i) rows))),
                update_where (\<lambda>r. ms_id r = i) (mark_mail m) rows)
           | None \<Rightarrow> (Inr JNull, rows)))"

definition mail_env :: "mail_state list mail_env" where
  "mail_env = \<lparr>mw_sql_root = mail_root, mw_id = ''mail-0'', mw_deliver = (\<lambda>_ w. (Inl (Transient ''busy''), w))\<rparr>"

lemma mail_answer: "json_rows (JArray (map f (filter P rows))) \<noteq> [] \<longleftrightarrow> list_ex P rows"
  by (induction rows) (simp_all add: json_rows_def json_array_def)

interpretation demo_mails: mail_store mail_env "\<lambda>rows. rows"
proof
  fix i q rows
  assume c: "claim_mail_sql (mw_id mail_env) i = Inr q"
  note r = read_mail_claim_sql [OF c]
  show "acts (\<lambda>rows. rows) rows (mw_sql_root mail_env q rows) (waiting i) (update_where (waiting i) start_sending)"
    by (simp add: mail_env_def mail_root_def r acts_def mail_answer)
next
  fix rows i q out row
  assume ok: "outbox_ok rows" and c: "claim_mail_sql (mw_id mail_env) i = Inr q"
    and o: "fst (mw_sql_root mail_env q rows) = Inr out" and f: "json_first out = Some row"
  note r = read_mail_claim_sql [OF c]
  have "\<exists>x \<in> set (filter (waiting i) rows). row = mail_json x"
    using o f by (cases "filter (waiting i) rows") (auto simp: mail_env_def mail_root_def r json_first_def)
  then obtain x where x: "x \<in> set (filter (waiting i) rows)" "row = mail_json x" ..
  then have "mr_attempts (mail_of_row i row) = ms_attempts x"
    using ok by (auto simp: outbox_ok_def list_all_iff mail_ok_def MAX_ATTEMPTS_def mail_of_row_def mail_json_def
        json_get_def json_i64_def)
  with x show "\<exists>r \<in> set rows. waiting i r \<and> mr_attempts (mail_of_row i row) = ms_attempts r" by auto
next
  fix m stmt i rid rows
  assume m: "marks m stmt" "render_value (VRecordId i) = Inr rid"
  show "acts (\<lambda>rows. rows) rows (mw_sql_root mail_env (stmt rid) rows) (\<lambda>r. ms_id r = i)
      (update_where (\<lambda>r. ms_id r = i) (mark_mail m))"
    by (simp add: mail_env_def mail_root_def read_mail_mark_sql [OF m] acts_def mail_answer)
next
  fix rows ids
  assume "fst (queued_ids mail_env rows) = Inr ids"
  moreover have "List.map_filter (json_str_at ''id'') (map (\<lambda>i. JObject [(''id'', JString i)]) is) = is" for "is"
    by (induction "is") (simp_all add: List.map_filter_def json_str_at_def json_get_def json_str_def)
  ultimately show "distinct ids"
    by (auto simp: queued_ids_def mail_env_def mail_root_def json_array_def)
qed (simp_all add: mail_env_def mail_root_def)

lemma demo_mail_store: "mail_store mail_env (\<lambda>rows. rows)"
  by (rule demo_mails.mail_store_axioms)

end
