(* ===== verification/Props_Worker.thy ===== *)
theory Props_Worker
  imports Mail_Demo
begin

text \<open>Properties of the job worker and of the mail worker.\<close>

section \<open>Tokens\<close>

definition hex_val :: "string \<Rightarrow> nat" where
  "hex_val s = foldl (\<lambda>n c. 16 * n + (if of_char c < (58::nat) then of_char c - 48 else of_char c - 87)) 0 s"

lemma hex_val_snoc: "hex_val (s @ [hex_digit d]) = 16 * hex_val s + d" if "d < 16"
  using that by (auto simp: hex_val_def hex_digit_def of_char_of take_bit_eq_mod)

lemma hex_val_str [simp]: "hex_val (hex_str n) = n"
proof (induction n rule: hex_str.induct)
  case (1 n)
  show ?case
  proof (cases "n < 16")
    case True
    then show ?thesis using hex_val_snoc [of n "[]"] by (simp add: hex_str.simps hex_val_def)
  next
    case False
    then show ?thesis using 1 hex_val_snoc [of "n mod 16" "hex_str (n div 16)"] by (subst hex_str.simps) simp
  qed
qed

lemma hex_val_pad [simp]: "hex_val (hex_pad w n) = n"
proof -
  have "hex_val (replicate k CHR ''0'' @ s) = hex_val s" for k s
    by (induction k) (simp_all add: hex_val_def)
  then show ?thesis by (simp add: hex_pad_def)
qed

lemma hex_no_hyphen: "CHR ''-'' \<notin> set (hex_pad w n)"
proof -
  have d: "hex_digit d \<noteq> CHR ''-''" if "d < 16" for d
  proof
    assume "hex_digit d = CHR ''-''"
    then have "of_char (hex_digit d) = (45::nat)" by simp
    with that show False by (auto simp: hex_digit_def of_char_of take_bit_eq_mod split: if_splits)
  qed
  have "CHR ''-'' \<notin> set (hex_str n)"
  proof (induction n rule: hex_str.induct)
    case (1 n)
    then show ?case using d [of n] d [of "n mod 16"] by (subst hex_str.simps) (auto simp del: d)
  qed
  then show ?thesis by (simp add: hex_pad_def)
qed

lemma hyphen_split:
  assumes "a @ ''-'' @ r = b @ ''-'' @ r'" and "CHR ''-'' \<notin> set a" and "CHR ''-'' \<notin> set b"
  shows "a = b \<and> r = r'"
  using assms
proof (induction a arbitrary: b)
  case Nil
  then show ?case by (cases b) auto
next
  case (Cons x a)
  then show ?case by (cases b) auto
qed

lemma hex_pad_eq: "hex_pad w n = hex_pad w m \<longleftrightarrow> n = m"
  using hex_val_pad by metis

lemma claim_token_eq: "claim_token n p k = claim_token n' p' k' \<longleftrightarrow> n = n' \<and> p = p' \<and> k = k'"
proof
  assume "claim_token n p k = claim_token n' p' k'"
  then have "hex_pad 32 n @ ''-'' @ (hex_pad 8 p @ ''-'' @ hex_pad 16 k)
      = hex_pad 32 n' @ ''-'' @ (hex_pad 8 p' @ ''-'' @ hex_pad 16 k')"
    by (simp add: claim_token_def)
  from hyphen_split [OF this hex_no_hyphen hex_no_hyphen] hyphen_split [OF _ hex_no_hyphen hex_no_hyphen]
  show "n = n' \<and> p = p' \<and> k = k'" by (metis hex_pad_eq)
qed simp

section \<open>Leases\<close>

text \<open>C9: at every point of every interleaving of workers in which no token repeats, no job was claimed more
  than five times, no two jobs carry one token, settled jobs stay as they are, and a lease that was settled
  or taken over never settles anything again; and tokens of different processes or of different claims
  of one process are different.\<close>

theorem job_leases_are_exclusive:
  assumes "fresh_step\<^sup>*\<^sup>* queue_init s" and "fresh_step\<^sup>*\<^sup>* s s'"
  shows "(\<forall>r \<in> set (fst s'). attempts_made r \<le> MAX_JOB_ATTEMPTS
        \<and> (\<forall>r' \<in> set (fst s'). jr_token r \<noteq> None \<longrightarrow> jr_token r = jr_token r' \<longrightarrow> r = r'))
    \<and> (\<forall>r \<in> set (fst s). terminal r \<longrightarrow> r \<in> set (fst s'))
    \<and> (lost token s \<longrightarrow> settle_rows i worker token st now (fst s') = fst s')
    \<and> (claim_token n p k = claim_token n' p' k' \<longleftrightarrow> n = n' \<and> p = p' \<and> k = k')"
proof -
  have ok: "queue_ok s'" using assms by (meson queue_ok_reachable rtranclp_trans)
  have "settle_rows i worker token st now (fst s') = fst s'" if "lost token s"
    using lost_settles_nothing [of token "fst s'" "snd s'"] lost_steps [OF assms(2) that] by simp
  moreover have "\<forall>r \<in> set (fst s'). attempts_made r \<le> MAX_JOB_ATTEMPTS"
    using ok by (simp add: queue_ok_def list_all_iff row_ok_def)
  moreover have "\<forall>r \<in> set (fst s'). \<forall>r' \<in> set (fst s'). jr_token r \<noteq> None \<longrightarrow> jr_token r = jr_token r' \<longrightarrow> r = r'"
    using ok unfolding queue_ok_def by blast
  ultimately show ?thesis
    using terminal_steps [OF assms(2)] claim_token_eq by blast
qed

text \<open>A worker whose lease expired and was taken over cannot finish the job.\<close>

theorem job_leases_are_exclusive_witness:
  "settle_rows ''j'' ''a'' ''t1'' (Finished ''done'') 0
     (fst (claim_rows ''j'' ''b'' ''t2'' ExpiredLease 400 (claim_rows ''j'' ''a'' ''t1'' Queued 0 [new_row ''j'']), [''t2'', ''t1'']))
   = claim_rows ''j'' ''b'' ''t2'' ExpiredLease 400 (claim_rows ''j'' ''a'' ''t1'' Queued 0 [new_row ''j''])"
proof -
  let ?r0 = "[new_row ''j'']" and ?r1 = "claim_rows ''j'' ''a'' ''t1'' Queued 0 [new_row ''j'']"
  let ?r2 = "claim_rows ''j'' ''b'' ''t2'' ExpiredLease 400 ?r1"
  have a: "fresh_step queue_init (?r0, [])"
    using queue_step.enqueue [of "''j''" "[]" "[]"] by (simp add: fresh_step_def queue_init_def)
  have b: "fresh_step (?r0, []) (?r1, [''t1''])" by (simp add: fresh_step_def queue_step.claim)
  have c: "fresh_step (?r1, [''t1'']) (?r2, [''t2'', ''t1''])" by (simp add: fresh_step_def queue_step.claim)
  have "fresh_step\<^sup>*\<^sup>* queue_init (?r1, [''t1''])"
    using a b by (rule converse_rtranclp_into_rtranclp [OF _ r_into_rtranclp])
  then have "fresh_step\<^sup>*\<^sup>* queue_init (?r2, [''t2'', ''t1''])"
    using c by (rule rtranclp.rtrancl_into_rtrancl)
  moreover have "lost ''t1'' (?r2, [''t2'', ''t1''])" by code_simp
  ultimately show ?thesis
    using job_leases_are_exclusive [of "(?r2, [''t2'', ''t1''])" "(?r2, [''t2'', ''t1''])" "''t1''"] by simp
qed

section \<open>The worker and the protocol\<close>

text \<open>C8: the worker implements the protocol: over a job store, claiming, renewing, finding the next job and
  running one are each a run of the protocol's steps, whatever the database answers, and a claim that
  returns a job has used up one of its attempts.\<close>

theorem worker_refines_job_protocol:
  assumes "job_store we jobs clock"
  shows "reached jobs s (snd (try_claim we i s)) \<and> reached jobs s (snd (renew_lease we jb s))
    \<and> reached jobs s (snd (claim_next we s))
    \<and> reached jobs s (snd (run_job we (app_user_resolver (we_broker we)) jb s))
    \<and> (\<forall>jb' s'. claim_next we s = (Inr (Some jb'), s') \<longrightarrow> budget (rows_of jobs s') < budget (rows_of jobs s))"
proof -
  have res: "preserves (view_is jobs x) (app_user_resolver (we_broker we) u)" for x u
    by (rule job_store.resolver_view [OF assms])
  show ?thesis
  proof (intro conjI)
    show "reached jobs s (snd (try_claim we i s))"
      by (rule reachedI) (rule job_store.try_claim_both [OF assms])
    show "reached jobs s (snd (claim_next we s))"
      using job_store.claim_next_step(1) [OF assms] by (metis prod.collapse)
    show "reached jobs s (snd (run_job we (app_user_resolver (we_broker we)) jb s))"
      by (rule job_store.run_job_reached [OF assms res])
  qed (use job_store.renew_pres [OF assms] job_store.claim_next_step(2) [OF assms] in blast)+
qed

theorem worker_refines_job_protocol_witness:
  "reached jw_rows (job_start [new_row ''job:1'']) (snd (claim_next (job_env (Inr JNull)) (job_start [new_row ''job:1''])))
   \<and> rows_of jw_rows (snd (claim_next (job_env (Inr JNull)) (job_start [new_row ''job:1''])))
     = [\<lparr>jr_id = ''job:1'', jr_status = ''running'', jr_attempts = Some 1, jr_owner = Some ''resident-0'',
         jr_token = Some (claim_token 255 7 0), jr_expires = Some 300\<rparr>]"
proof
  show "reached jw_rows (job_start [new_row ''job:1'']) (snd (claim_next (job_env (Inr JNull)) (job_start [new_row ''job:1''])))"
    using worker_refines_job_protocol [OF demo_job_store] by blast
qed code_simp



lemma tick_from_last:
  "tick_from we resolve cnt s = Some x \<Longrightarrow>
     (case x of (Inl _, _) \<Rightarrow> True | (Inr m, s') \<Rightarrow> \<exists>s1. claim_next we s1 = (Inr None, s'))"
proof (rule tick_from.raw_induct [of "\<lambda>we resolve cnt s x. case x of (Inl _, _) \<Rightarrow> True
    | (Inr m, s') \<Rightarrow> \<exists>s1. claim_next we s1 = (Inr None, s')" we resolve cnt s x])
  fix f :: "'a worker_env \<Rightarrow> 'a resolver \<Rightarrow> nat \<Rightarrow> 'a worker \<Rightarrow> ((broker_error + nat) \<times> 'a worker) option"
    and we resolve cnt s x
  assume "\<And>we resolve cnt s x. f we resolve cnt s = Some x \<Longrightarrow>
      (case x of (Inl _, _) \<Rightarrow> True | (Inr m, s') \<Rightarrow> \<exists>s1. claim_next we s1 = (Inr None, s'))"
    and "(case claim_next we s of (Inl e, s1) \<Rightarrow> Some (Inl e, s1) | (Inr None, s1) \<Rightarrow> Some (Inr cnt, s1)
      | (Inr (Some jb), s1) \<Rightarrow> f we resolve (cnt + 1) (snd (run_job we resolve jb s1))) = Some x"
  then show "case x of (Inl _, _) \<Rightarrow> True | (Inr m, s') \<Rightarrow> \<exists>s1. claim_next we s1 = (Inr None, s')"
    by (fastforce split: prod.splits sum.splits option.splits)
qed

text \<open>a passing failure costs a job its whole budget in one pass: the pass ends only when a search finds
  no job to claim, and a job that a worker requeued below the budget can be claimed again at once,
  whatever the time.\<close>

theorem requeued_job_is_claimed_at_once:
  assumes "tick we resolve s = Some (Inr m, s')"
  shows "(\<exists>s1. claim_next we s1 = (Inr None, s'))
    \<and> (attempts_made r < MAX_JOB_ATTEMPTS \<longrightarrow> claimable Queued now (settle_row Requeued now' r))"
proof
  show "\<exists>s1. claim_next we s1 = (Inr None, s')"
    using tick_from_last [OF assms [unfolded tick_def]] by simp
  show "attempts_made r < MAX_JOB_ATTEMPTS \<longrightarrow> claimable Queued now (settle_row Requeued now' r)"
    by (simp add: claimable_def settle_row_def free_row_def attempts_made_def)
qed

theorem requeued_job_is_claimed_at_once_witness:
  "claimable Queued 0 (settle_row Requeued 0 (claim_row ''a'' ''t'' 0 (new_row ''j'')))
   \<and> (\<exists>s s'. tick (job_env (Inr JNull)) (app_user_resolver (we_broker (job_env (Inr JNull)))) s = Some (Inr 0, s'))"
proof -
  let ?t = "tick (job_env (Inr JNull)) (app_user_resolver (we_broker (job_env (Inr JNull)))) (job_start [])"
  have "map_option fst ?t = Some (Inr 0)" by code_simp
  then obtain s' where "?t = Some (Inr 0, s')" by (cases ?t) auto
  moreover have "attempts_made (claim_row ''a'' ''t'' 0 (new_row ''j'')) < MAX_JOB_ATTEMPTS" by code_simp
  ultimately show ?thesis using requeued_job_is_claimed_at_once [of _ _ _ 0 s'] by blast
qed

section \<open>The mail worker\<close>



end
