(* ===== verification/Text_Diff.thy ===== *)
theory Text_Diff
  imports Prelude Contract
begin

text \<open>
  \<open>kernel/src/aggregates.rs\<close>, the text patches of the change feed: \<open>dmp_unpatch\<close> applies one to a
  source text. The source is taken apart into characters (\<open>chars\<close>), which are short byte strings
  here; escapes are decoded to bytes which must be UTF-8 again. A line that begins with a character of several
  bytes makes \<open>split_at(1)\<close> panic: a result of its own beside the errors.
\<close>

section \<open>Characters\<close>

definition byte_in :: "nat \<Rightarrow> nat \<Rightarrow> char \<Rightarrow> bool" where
  "byte_in lo hi c = (lo \<le> of_char c \<and> of_char c \<le> hi)"

text \<open>The bytes of the well-formed character that a text begins with, 0 if there is none.\<close>

definition utf8_step :: "string \<Rightarrow> nat" where
  "utf8_step s = (case s of
     [] \<Rightarrow> 0
   | a # r \<Rightarrow>
       if byte_in 0 0x7F a then 1
       else if byte_in 0xC2 0xDF a then
         (case r of b # _ \<Rightarrow> if byte_in 0x80 0xBF b then 2 else 0 | _ \<Rightarrow> 0)
       else if byte_in 0xE0 0xEF a then
         (case r of b # c # _ \<Rightarrow>
            if byte_in (if byte_in 0xE0 0xE0 a then 0xA0 else 0x80) (if byte_in 0xED 0xED a then 0x9F else 0xBF) b
               \<and> byte_in 0x80 0xBF c then 3 else 0
          | _ \<Rightarrow> 0)
       else if byte_in 0xF0 0xF4 a then
         (case r of b # c # d # _ \<Rightarrow>
            if byte_in (if byte_in 0xF0 0xF0 a then 0x90 else 0x80) (if byte_in 0xF4 0xF4 a then 0x8F else 0xBF) b
               \<and> byte_in 0x80 0xBF c \<and> byte_in 0x80 0xBF d then 4 else 0
          | _ \<Rightarrow> 0)
       else 0)"

fun utf8_chars :: "string \<Rightarrow> string list option" where
  "utf8_chars [] = Some []"
| "utf8_chars (a # s) =
     (let n = utf8_step (a # s) in
      if n = 0 then None
      else map_option ((#) (take n (a # s))) (utf8_chars (drop (n - 1) s)))"

declare utf8_chars.simps(2) [simp del]

lemma utf8_chars_concat: "utf8_chars s = Some cs \<Longrightarrow> concat cs = s"
proof (induction s arbitrary: cs rule: utf8_chars.induct)
  case (2 a s)
  obtain k where k: "utf8_step (a # s) = Suc k"
    using 2(2) by (cases "utf8_step (a # s)") (simp_all add: utf8_chars.simps)
  with 2(2) obtain ds where "utf8_chars (drop k s) = Some ds" and "cs = (a # take k s) # ds"
    by (auto simp: utf8_chars.simps)
  with 2(1) [OF refl] k show ?case by simp
qed simp

text \<open>A \<open>&str\<close> is well-formed, so its characters are those; of any other text they are its bytes.\<close>

definition chars_of :: "string \<Rightarrow> string list" where
  "chars_of s = (case utf8_chars s of Some cs \<Rightarrow> cs | None \<Rightarrow> map (\<lambda>c. [c]) s)"

lemma chars_of_concat [simp]: "concat (chars_of s) = s"
  by (simp add: chars_of_def utf8_chars_concat split: option.split)

text \<open>\<open>lines()\<close>: a line ends at a line feed or at a carriage return and a line feed; an empty last line is none.\<close>

definition text_lines :: "string \<Rightarrow> string list" where
  "text_lines s =
     (let ps = split_char (CHR 0x0A) s in
      map (\<lambda>l. case strip_suffix [CHR 0x0D] l of Some l' \<Rightarrow> l' | None \<Rightarrow> l) (butlast ps)
      @ (if last ps = [] then [] else [last ps]))"

section \<open>Numbers and escapes\<close>

text \<open>\<open>parse::<usize>\<close> takes one leading plus sign.\<close>

definition parse_usize :: "string \<Rightarrow> nat option" where
  "parse_usize s =
     (let ds = (case strip_prefix ''+'' s of Some r \<Rightarrow> r | None \<Rightarrow> s) in
      if ds \<noteq> [] \<and> list_all is_digit ds \<and> digits_val ds < 2 ^ 64 then Some (digits_val ds) else None)"

definition hex_nibble :: "char \<Rightarrow> nat option" where
  "hex_nibble c =
     (if byte_in 0x30 0x39 c then Some (of_char c - 0x30)
      else if byte_in 0x41 0x46 c then Some (of_char c - 0x37)
      else if byte_in 0x61 0x66 c then Some (of_char c - 0x57)
      else None)"

text \<open>\<open>u8::from_str_radix(hex, 16)\<close> of two bytes: it, too, takes a plus sign.\<close>

definition hex_byte :: "char \<Rightarrow> char \<Rightarrow> char option" where
  "hex_byte h l =
     (if h = CHR ''+'' then map_option char_of (hex_nibble l)
      else case (hex_nibble h, hex_nibble l) of
        (Some a, Some b) \<Rightarrow> Some (char_of (16 * a + b))
      | _ \<Rightarrow> None)"

fun percent_decode :: "string \<Rightarrow> string option" where
  "percent_decode (c # h # l # s) =
     (if c = CHR ''%''
      then (case hex_byte h l of
              None \<Rightarrow> None
            | Some b \<Rightarrow> map_option ((#) b) (percent_decode s))
      else map_option ((#) c) (percent_decode (h # l # s)))"
| "percent_decode s = Some s"

datatype undo_failure = Failed broker_error | Panicked

definition diff_bad :: "string \<Rightarrow> undo_failure" where
  "diff_bad d = Failed (DbError (''text-diff undo: '' @ d))"

definition decode_text :: "string \<Rightarrow> undo_failure + string" where
  "decode_text t =
     (case percent_decode t of
        None \<Rightarrow> Inl (diff_bad (''bad %-escape in '' @ [CHR 0x27] @ t @ [CHR 0x27]))
      | Some s \<Rightarrow> (if utf8_chars s = None then Inl (diff_bad ''undecodable %-escape'') else Inr s))"

section \<open>Patches\<close>

definition bad_header :: "string \<Rightarrow> undo_failure" where
  "bad_header line = diff_bad (''bad hunk header '' @ [CHR 0x27] @ line @ [CHR 0x27])"

definition hunk_range :: "string \<Rightarrow> undo_failure + (nat \<times> nat)" where
  "hunk_range h =
     (case split_once CHR '','' h of
        Some (a, b) \<Rightarrow>
          (case parse_usize a of
             None \<Rightarrow> Inl (diff_bad ''bad hunk offset'')
           | Some start1 \<Rightarrow>
               (case parse_usize b of
                  None \<Rightarrow> Inl (diff_bad ''bad hunk length'')
                | Some len1 \<Rightarrow> Inr (start1, len1)))
      | None \<Rightarrow>
          (case parse_usize h of
             None \<Rightarrow> Inl (diff_bad ''bad hunk offset'')
           | Some start1 \<Rightarrow> Inr (start1, 1)))"

text \<open>A header moves to its offset; what it skips is kept. The state is the output so far and the characters used up.\<close>

definition hunk_header :: "string list \<Rightarrow> string \<Rightarrow> nat \<Rightarrow> string \<Rightarrow> undo_failure + (string \<times> nat)" where
  "hunk_header src out pos line =
     (case Option.bind (strip_prefix ''@@ -'' line) (split_str '' +'') of
        None \<Rightarrow> Inl (bad_header line)
      | Some (h, _) \<Rightarrow>
          (case hunk_range h of
             Inl e \<Rightarrow> Inl e
           | Inr (start1, len1) \<Rightarrow>
               (let hunk_at = (if len1 = 0 then start1 else start1 - 1) in
                if hunk_at < pos \<or> length src < hunk_at
                then Inl (diff_bad (''hunk offset '' @ nat_str hunk_at @ '' out of order''))
                else Inr (out @ concat (take (hunk_at - pos) (drop pos src)), hunk_at))))"

definition hunk_line :: "string list \<Rightarrow> string \<Rightarrow> nat \<Rightarrow> string \<Rightarrow> undo_failure + (string \<times> nat)" where
  "hunk_line src out pos line =
     (if line \<noteq> [] \<and> byte_in 0x80 0xFF (hd line) then Inl Panicked
      else case decode_text (tl line) of
        Inl e \<Rightarrow> Inl e
      | Inr t \<Rightarrow>
          (if line \<noteq> [] \<and> hd line \<in> {CHR '' '', CHR ''-''}
           then (let taken = chars_of t in
                 if take (length taken) (drop pos src) \<noteq> taken
                 then Inl (diff_bad (''context mismatch at '' @ nat_str pos))
                 else Inr (if hd line = CHR '' '' then out @ t else out, pos + length taken))
           else if line \<noteq> [] \<and> hd line = CHR ''+'' then Inr (out @ t, pos)
           else Inl (diff_bad (''bad hunk line '' @ [CHR 0x27] @ line @ [CHR 0x27]))))"

text \<open>The lines of a hunk run up to the next line that begins with two at-signs.\<close>

fun unpatch_lines :: "string list \<Rightarrow> bool \<Rightarrow> string \<Rightarrow> nat \<Rightarrow> string list \<Rightarrow> undo_failure + string" where
  "unpatch_lines src in_hunk out pos [] = Inr (out @ concat (drop pos src))"
| "unpatch_lines src in_hunk out pos (line # lines) =
     (case (if in_hunk \<and> strip_prefix ''@@'' line = None then hunk_line src out pos line
            else hunk_header src out pos line) of
        Inl e \<Rightarrow> Inl e
      | Inr (out', pos') \<Rightarrow> unpatch_lines src True out' pos' lines)"

definition dmp_unpatch :: "string \<Rightarrow> string \<Rightarrow> undo_failure + string" where
  "dmp_unpatch source patch = unpatch_lines (chars_of source) False [] 0 (text_lines patch)"

section \<open>What a patch does\<close>

text \<open>An edit script: texts kept, deleted and inserted. It reads a source and writes a result.\<close>

datatype edit = Keep string | Delete string | Insert string

definition script_source :: "edit list \<Rightarrow> string" where
  "script_source es = concat (map (\<lambda>e. case e of Keep t \<Rightarrow> t | Delete t \<Rightarrow> t | Insert _ \<Rightarrow> []) es)"

definition script_result :: "edit list \<Rightarrow> string" where
  "script_result es = concat (map (\<lambda>e. case e of Keep t \<Rightarrow> t | Delete _ \<Rightarrow> [] | Insert t \<Rightarrow> t) es)"

text \<open>The edits that a patch asks for, in its order.\<close>

definition line_edit :: "string \<Rightarrow> edit option" where
  "line_edit line =
     (case (line, decode_text (tl line)) of
        (c # _, Inr t) \<Rightarrow>
          (if c = CHR ''-'' then Some (Delete t) else if c = CHR ''+'' then Some (Insert t) else None)
      | _ \<Rightarrow> None)"

definition is_change :: "edit \<Rightarrow> bool" where
  "is_change e = (case e of Keep _ \<Rightarrow> False | _ \<Rightarrow> True)"

lemma script_append [simp]:
  "script_source (es @ fs) = script_source es @ script_source fs"
  "script_result (es @ fs) = script_result es @ script_result fs"
  by (simp_all add: script_source_def script_result_def)

lemma script_one [simp]:
  "script_source [Keep t] = t" "script_source [Delete t] = t" "script_source [Insert t] = []"
  "script_result [Keep t] = t" "script_result [Delete t] = []" "script_result [Insert t] = t"
  by (simp_all add: script_source_def script_result_def)

lemma take_taken:
  "take (length ts) (drop pos src) = ts \<Longrightarrow> concat (take (pos + length ts) src) = concat (take pos src) @ concat ts"
  by (simp add: take_add)

text \<open>One line extends the script; it may skip or keep more of the source but drops nothing on its own.\<close>

lemma hunk_header_script:
  assumes "hunk_header src out pos line = Inr (out', pos')"
    and "script_source es = concat (take pos src)" and "script_result es = out"
  shows "\<exists>t. script_source (es @ [Keep t]) = concat (take pos' src) \<and> script_result (es @ [Keep t]) = out'"
proof -
  have h: "pos \<le> pos'" "out' = out @ concat (take (pos' - pos) (drop pos src))"
    using assms(1) by (auto simp: hunk_header_def Let_def split: option.splits prod.splits sum.splits if_splits)
  then have "take pos' src = take pos src @ take (pos' - pos) (drop pos src)"
    using take_add [of pos "pos' - pos" src] by simp
  with h assms(2,3) show ?thesis by (intro exI [of _ "concat (take (pos' - pos) (drop pos src))"]) simp
qed

lemma hunk_line_script:
  assumes "hunk_line src out pos line = Inr (out', pos')"
    and "script_source es = concat (take pos src)" and "script_result es = out"
  shows "\<exists>e. script_source (es @ [e]) = concat (take pos' src) \<and> script_result (es @ [e]) = out'
    \<and> (if is_change e then line_edit line = Some e else line_edit line = None)"
proof -
  obtain t where t: "decode_text (tl line) = Inr t" and ne: "line \<noteq> []"
    using assms(1) by (cases line) (auto simp: hunk_line_def split: if_splits sum.splits)
  consider (kept) "hd line = CHR '' ''" | (deleted) "hd line = CHR ''-''" | (inserted) "hd line = CHR ''+''"
    using assms(1) t ne by (auto simp: hunk_line_def split: if_splits)
  then show ?thesis
  proof cases
    case kept
    with assms(1) t ne have "take (length (chars_of t)) (drop pos src) = chars_of t"
        "out' = out @ t" "pos' = pos + length (chars_of t)"
      by (auto simp: hunk_line_def Let_def split: if_splits)
    with take_taken [of "chars_of t" pos src] kept t ne assms(2,3) show ?thesis
      by (intro exI [of _ "Keep t"]) (auto simp: is_change_def line_edit_def neq_Nil_conv)
  next
    case deleted
    with assms(1) t ne have "take (length (chars_of t)) (drop pos src) = chars_of t"
        "out' = out" "pos' = pos + length (chars_of t)"
      by (auto simp: hunk_line_def Let_def split: if_splits)
    with take_taken [of "chars_of t" pos src] deleted t ne assms(2,3) show ?thesis
      by (intro exI [of _ "Delete t"]) (auto simp: is_change_def line_edit_def neq_Nil_conv)
  next
    case inserted
    with assms(1) t ne have "out' = out @ t" "pos' = pos"
      by (auto simp: hunk_line_def Let_def split: if_splits)
    with inserted t ne assms(2,3) show ?thesis
      by (intro exI [of _ "Insert t"]) (auto simp: is_change_def line_edit_def neq_Nil_conv)
  qed
qed

lemma header_no_edit: "strip_prefix ''@@'' line = Some r \<Longrightarrow> line_edit line = None"
  by (auto simp: strip_prefix_Some line_edit_def split: sum.split)

lemma header_starts: "hunk_header src out pos line = Inr x \<Longrightarrow> \<exists>r. strip_prefix ''@@'' line = Some r"
  by (auto simp: hunk_header_def strip_prefix_Some bind_eq_Some_conv split: option.splits)

lemma unpatch_script:
  assumes "unpatch_lines src in_hunk out pos lines = Inr res"
    and "script_source es = concat (take pos src)" and "script_result es = out"
  shows "\<exists>fs. script_source (es @ fs) = concat src \<and> script_result (es @ fs) = res
    \<and> filter is_change fs = List.map_filter line_edit lines"
  using assms
proof (induction src in_hunk out pos lines arbitrary: es rule: unpatch_lines.induct)
  case (1 src in_hunk out pos)
  then have "script_source (es @ [Keep (concat (drop pos src))]) = concat src
      \<and> script_result (es @ [Keep (concat (drop pos src))]) = res"
    by (simp flip: concat_append)
  then show ?case
    by (intro exI [of _ "[Keep (concat (drop pos src))]"]) (simp add: is_change_def map_filter_simps)
next
  case (2 src in_hunk out pos line lines)
  obtain out' pos' where s: "(if in_hunk \<and> strip_prefix ''@@'' line = None then hunk_line src out pos line
      else hunk_header src out pos line) = Inr (out', pos')"
      and u: "unpatch_lines src True out' pos' lines = Inr res"
    using 2(2) by (auto split: sum.splits)
  have "\<exists>e. script_source (es @ [e]) = concat (take pos' src) \<and> script_result (es @ [e]) = out'
      \<and> (if is_change e then line_edit line = Some e else line_edit line = None)"
  proof (cases "in_hunk \<and> strip_prefix ''@@'' line = None")
    case True
    with s hunk_line_script 2(3,4) show ?thesis by simp
  next
    case False
    with s have h: "hunk_header src out pos line = Inr (out', pos')" by simp
    then have "line_edit line = None" using header_starts header_no_edit by blast
    moreover obtain t where "script_source (es @ [Keep t]) = concat (take pos' src)"
        and "script_result (es @ [Keep t]) = out'"
      using hunk_header_script [OF h 2(3,4)] by blast
    ultimately show ?thesis by (intro exI [of _ "Keep t"]) (simp add: is_change_def)
  qed
  then obtain e where e: "script_source (es @ [e]) = concat (take pos' src)" "script_result (es @ [e]) = out'"
    "if is_change e then line_edit line = Some e else line_edit line = None" by blast
  from 2(1) [OF s refl u e(1,2)]
  obtain fs where "script_source ((es @ [e]) @ fs) = concat src" "script_result ((es @ [e]) @ fs) = res"
    "filter is_change fs = List.map_filter line_edit lines" by blast
  with e(3) show ?case
    by (intro exI [of _ "e # fs"]) (auto simp: map_filter_simps split: if_splits)
qed

lemma dmp_unpatch_script:
  assumes "dmp_unpatch source patch = Inr res"
  shows "\<exists>es. script_source es = source \<and> script_result es = res
    \<and> filter is_change es = List.map_filter line_edit (text_lines patch)"
  using unpatch_script [of "chars_of source" False "[]" 0 "text_lines patch" res "[]"] assms
  by (simp add: dmp_unpatch_def script_source_def script_result_def)

end
