(* ===== verification/Change_Feed.thy ===== *)
theory Change_Feed
  imports Text_Diff Effects Ordered_Map
begin

text \<open>
  \<open>kernel/src/aggregates.rs\<close>, the change feed: \<open>apply_undo\<close> takes the document before an update from
  the one after it and the feed's undo operations, \<open>decode_entries\<close> decodes a batch of entries. An
  object is a \<open>BTreeMap\<close>, its fields sorted by name. The lemmas show that the undo of an edit gives back
  the document.
\<close>

section \<open>Paths\<close>

fun replace_pair :: "char \<Rightarrow> char \<Rightarrow> string \<Rightarrow> string \<Rightarrow> string" where
  "replace_pair a b r (c # d # s) =
     (if c = a \<and> d = b then r @ replace_pair a b r s else c # replace_pair a b r (d # s))"
| "replace_pair a b r s = s"

definition path_tokens :: "string \<Rightarrow> string list" where
  "path_tokens path =
     map (\<lambda>t. replace_pair CHR ''~'' CHR ''0'' ''~'' (replace_pair CHR ''~'' CHR ''1'' ''/'' t))
       (tl (split_char CHR ''/'' path))"

definition undo_error :: "string \<Rightarrow> string \<Rightarrow> undo_failure" where
  "undo_error msg path = Failed (DbError (msg @ path))"

text \<open>Change the value at the end of a path; every step of it must exist.\<close>

fun undo_at :: "string \<Rightarrow> (json \<Rightarrow> undo_failure + json) \<Rightarrow> string list \<Rightarrow> json \<Rightarrow> undo_failure + json" where
  "undo_at path f [] v = f v"
| "undo_at path f (t # ts) v =
     (case v of
        JObject m \<Rightarrow>
          (case map_of m t of
             None \<Rightarrow> Inl (undo_error ''undo path missing: '' path)
           | Some x \<Rightarrow> map_sum id (\<lambda>x'. JObject (bt_insert t x' m)) (undo_at path f ts x))
      | JArray a \<Rightarrow>
          (case parse_usize t of
             None \<Rightarrow> Inl (undo_error ''bad undo index in '' path)
           | Some i \<Rightarrow>
               (if i < length a then map_sum id (\<lambda>x'. JArray (a[i := x'])) (undo_at path f ts (a ! i))
                else Inl (undo_error ''undo index oob: '' path)))
      | _ \<Rightarrow> Inl (undo_error ''undo path through scalar: '' path))"

section \<open>Undo operations\<close>

definition op_value :: "json \<Rightarrow> json" where
  "op_value op = (case json_get ''value'' op of Some v \<Rightarrow> v | None \<Rightarrow> JNull)"

definition unpatched :: "json \<Rightarrow> string \<Rightarrow> json option \<Rightarrow> undo_failure + json" where
  "unpatched op path slot =
     (case Option.bind slot json_str of
        None \<Rightarrow> Inl (undo_error ''text-diff undo on non-string at '' path)
      | Some cur \<Rightarrow>
          (case json_str_at ''value'' op of
             None \<Rightarrow> Inl (undo_error ''text-diff undo without patch at '' path)
           | Some patch \<Rightarrow> map_sum id JString (dmp_unpatch cur patch)))"

definition undo_field :: "json \<Rightarrow> string \<Rightarrow> string \<Rightarrow> string \<Rightarrow> (string, json) btree \<Rightarrow> undo_failure + json" where
  "undo_field op kind path leaf m =
     (if kind = ''remove'' then Inr (JObject (bt_remove leaf m))
      else if kind = ''change'' then
        map_sum id (\<lambda>v. JObject (bt_insert leaf v m)) (unpatched op path (map_of m leaf))
      else Inr (JObject (bt_insert leaf (op_value op) m)))"

definition array_index :: "string \<Rightarrow> json list \<Rightarrow> nat option" where
  "array_index leaf a = (if leaf = ''-'' then Some (length a) else parse_usize leaf)"

definition undo_item :: "json \<Rightarrow> string \<Rightarrow> string \<Rightarrow> string \<Rightarrow> json list \<Rightarrow> undo_failure + json" where
  "undo_item op kind path leaf a =
     (case array_index leaf a of
        None \<Rightarrow> Inl (undo_error ''bad undo index in '' path)
      | Some i \<Rightarrow>
          (if kind = ''replace'' then
             (if i < length a then Inr (JArray (a[i := op_value op]))
              else Inl (undo_error ''undo index oob: '' path))
           else if kind = ''change'' then
             map_sum id (\<lambda>v. JArray (a[i := v])) (unpatched op path (if i < length a then Some (a ! i) else None))
           else if kind = ''add'' then
             (let j = min i (length a) in Inr (JArray (take j a @ [op_value op] @ drop j a)))
           else Inr (JArray (take i a @ drop (i + 1) a))))"

definition undo_leaf :: "json \<Rightarrow> string \<Rightarrow> string \<Rightarrow> string \<Rightarrow> json \<Rightarrow> undo_failure + json" where
  "undo_leaf op kind path leaf cur =
     (case cur of
        JObject m \<Rightarrow> undo_field op kind path leaf m
      | JArray a \<Rightarrow> undo_item op kind path leaf a
      | _ \<Rightarrow> Inl (undo_error ''undo target is scalar: '' path))"

definition undo_op :: "json \<Rightarrow> json \<Rightarrow> undo_failure + json" where
  "undo_op op doc =
     (let kind = str_or_empty ''op'' op; path = str_or_empty ''path'' op in
      if kind \<notin> {''replace'', ''add'', ''remove'', ''change''}
      then Inl (Failed (DbError (''changefeed undo op '' @ [CHR 0x27] @ kind @ [CHR 0x27] @ '' at '' @ [CHR 0x27] @ path
        @ [CHR 0x27] @ '' is not reversible kernel-side'')))
      else case path_tokens path of
        [] \<Rightarrow> Inr (op_value op)
      | t # ts \<Rightarrow> undo_at path (undo_leaf op kind path (last (t # ts))) (butlast (t # ts)) doc)"

fun apply_undo :: "json \<Rightarrow> json list \<Rightarrow> undo_failure + json" where
  "apply_undo doc [] = Inr doc"
| "apply_undo doc (op # ops) =
     (case undo_op op doc of Inl e \<Rightarrow> Inl e | Inr doc' \<Rightarrow> apply_undo doc' ops)"

section \<open>Entries\<close>

record change =
  ch_before :: "json option"
  ch_after :: "json option"

definition mangled_dash :: string where
  "mangled_dash = [CHR 0xC3, CHR 0xA2, CHR 0xE2, CHR 0x82, CHR 0xAC, CHR 0xE2, CHR 0x80, CHR 0x9D]"

text \<open>One change of an entry: none for schema definitions, and none for a shape that is not known.\<close>

definition decode_change :: "json \<Rightarrow> undo_failure + change list" where
  "decode_change c =
     (if json_get ''define_table'' c \<noteq> None then Inr []
      else case json_get ''delete'' c of
        Some d \<Rightarrow>
          (case json_get ''original'' d of
             Some before \<Rightarrow> Inr [\<lparr>ch_before = Some before, ch_after = None\<rparr>]
           | None \<Rightarrow> Inl (Failed (DbError (''delete without original '' @ mangled_dash
               @ '' source table needs CHANGEFEED ... INCLUDE ORIGINAL''))))
      | None \<Rightarrow>
          (case json_get ''current'' c of
             Some cur \<Rightarrow>
               (case apply_undo cur (case Option.bind (json_get ''update'' c) json_array of Some ops \<Rightarrow> ops | None \<Rightarrow> []) of
                  Inl e \<Rightarrow> Inl e
                | Inr before \<Rightarrow> Inr [\<lparr>ch_before = Some before, ch_after = Some cur\<rparr>])
           | None \<Rightarrow>
               (case json_get ''update'' c of
                  Some (JObject m) \<Rightarrow> Inr [\<lparr>ch_before = None, ch_after = Some (JObject m)\<rparr>]
                | _ \<Rightarrow> Inr [])))"

definition entry_changes :: "json \<Rightarrow> json list" where
  "entry_changes e = (case Option.bind (json_get ''changes'' e) json_array of Some cs \<Rightarrow> cs | None \<Rightarrow> [])"

definition entry_stamp :: "nat \<Rightarrow> json \<Rightarrow> nat" where
  "entry_stamp last_vs e = (case Option.bind (json_get ''versionstamp'' e) json_u64 of Some n \<Rightarrow> n | None \<Rightarrow> last_vs)"

fun decode_from :: "change list \<Rightarrow> nat \<Rightarrow> json list \<Rightarrow> undo_failure + (change list \<times> nat)" where
  "decode_from out last_vs [] = Inr (out, last_vs)"
| "decode_from out last_vs (e # es) =
     (case collect_res (map decode_change (entry_changes e)) of
        Inl f \<Rightarrow> Inl f
      | Inr css \<Rightarrow> decode_from (out @ concat css) (entry_stamp last_vs e) es)"

definition decode_entries :: "json list \<Rightarrow> undo_failure + (change list \<times> nat)" where
  "decode_entries entries = decode_from [] 0 entries"

lemma decode_from_acc:
  "decode_from out last_vs es = map_sum id (\<lambda>(cs, n). (out @ cs, n)) (decode_from [] last_vs es)"
proof (induction es arbitrary: out last_vs)
  case (Cons e es)
  show ?case
  proof (cases "collect_res (map decode_change (entry_changes e))")
    case (Inr css)
    then show ?thesis
      using Cons [of "out @ concat css"] Cons [of "concat css"]
      by (cases "decode_from [] (entry_stamp last_vs e) es") auto
  qed simp
qed simp

lemma decode_from_append:
  "decode_from out n (es @ fs) = (case decode_from out n es of Inl e \<Rightarrow> Inl e | Inr (out', n') \<Rightarrow> decode_from out' n' fs)"
  by (induction out n es rule: decode_from.induct) (auto split: sum.split)

section \<open>Undoing an edit\<close>

text \<open>The documents of the feed have sorted fields.\<close>

fun json_sorted :: "json \<Rightarrow> bool" where
  "json_sorted (JArray a) = list_all json_sorted a"
| "json_sorted (JObject m) = (bt_invar m \<and> list_all (\<lambda>e. json_sorted (snd e)) m)"
| "json_sorted _ = True"

text \<open>The operation as the feed writes it.\<close>

definition make_op :: "string \<Rightarrow> string \<Rightarrow> json option \<Rightarrow> json" where
  "make_op kind path v =
     JObject ([(''op'', JString kind), (''path'', JString path)] @ (case v of None \<Rightarrow> [] | Some x \<Rightarrow> [(''value'', x)]))"

lemma make_op_reads [simp]:
  "str_or_empty ''op'' (make_op kind path v) = kind"
  "str_or_empty ''path'' (make_op kind path v) = path"
  "op_value (make_op kind path (Some x)) = x"
  by (simp_all add: make_op_def str_or_empty_def json_str_at_def json_get_def json_str_def op_value_def split: option.splits)

text \<open>The undo of a replacement, of a removed field or of an added one, at one place of a document.\<close>

definition undo_of :: "string \<Rightarrow> string \<Rightarrow> json \<Rightarrow> json option" where
  "undo_of path leaf cur =
     (case cur of
        JObject m \<Rightarrow> Some (case map_of m leaf of None \<Rightarrow> make_op ''remove'' path None | Some x \<Rightarrow> make_op ''replace'' path (Some x))
      | JArray a \<Rightarrow> (case parse_usize leaf of Some i \<Rightarrow> if leaf \<noteq> ''-'' \<and> i < length a then Some (make_op ''replace'' path (Some (a ! i))) else None | None \<Rightarrow> None)
      | _ \<Rightarrow> None)"

lemma bt_insert_back: "bt_invar m \<Longrightarrow> map_of m k = Some x \<Longrightarrow> bt_insert k x (bt_insert k v m) = m"
  by (induction m) (fastforce simp: bt_invar_Cons dest: map_of_SomeD split: if_splits)+

lemma bt_remove_back: "bt_invar m \<Longrightarrow> map_of m k = None \<Longrightarrow> bt_remove k (bt_insert k v m) = m"
proof (induction m)
  case (Cons e m)
  then show ?case by (auto simp: bt_invar_Cons split: if_splits)
qed simp

lemma bt_insert_same: "map_of (bt_insert k v m) k = Some v" if "bt_invar m"
  using that by (simp add: bt_lookup_insert)

lemma undo_leaf_back:
  assumes "json_sorted cur" and "undo_of path leaf cur = Some op"
    and "undo_leaf (make_op ''replace'' path (Some x)) ''replace'' path leaf cur = Inr cur'"
  shows "undo_leaf op (str_or_empty ''op'' op) path leaf cur' = Inr cur"
proof (cases cur)
  case (JObject m)
  then have c: "cur' = JObject (bt_insert leaf x m)" and m: "bt_invar m"
    using assms(1,3) by (simp_all add: undo_leaf_def undo_field_def)
  show ?thesis
  proof (cases "map_of m leaf")
    case None
    then have "op = make_op ''remove'' path None" using JObject assms(2) by (simp add: undo_of_def)
    then show ?thesis using JObject c None m by (simp add: undo_leaf_def undo_field_def bt_remove_back)
  next
    case (Some y)
    then have "op = make_op ''replace'' path (Some y)" using JObject assms(2) by (simp add: undo_of_def)
    then show ?thesis using JObject c Some m by (simp add: undo_leaf_def undo_field_def bt_insert_back)
  qed
next
  case (JArray a)
  then obtain i where i: "parse_usize leaf = Some i" "leaf \<noteq> ''-''" "i < length a"
      and op: "op = make_op ''replace'' path (Some (a ! i))"
    using assms(2) by (auto simp: undo_of_def split: option.splits if_splits)
  then have "cur' = JArray (a[i := x])"
    using JArray assms(3) by (simp add: undo_leaf_def undo_item_def array_index_def)
  with i op JArray show ?thesis by (simp add: undo_leaf_def undo_item_def array_index_def)
qed (use assms(2) in \<open>simp_all add: undo_of_def\<close>)

text \<open>A change along a path is undone by the undoing change along it.\<close>

lemma map_sum_Inr: "map_sum id g r = Inr y \<longleftrightarrow> (\<exists>x. r = Inr x \<and> y = g x)"
  by (cases r) auto

fun focus :: "string list \<Rightarrow> json \<Rightarrow> json option" where
  "focus [] v = Some v"
| "focus (t # ts) v =
     (case v of
        JObject m \<Rightarrow> Option.bind (map_of m t) (focus ts)
      | JArray a \<Rightarrow> Option.bind (parse_usize t) (\<lambda>i. if i < length a then focus ts (a ! i) else None)
      | _ \<Rightarrow> None)"

lemma undo_at_back:
  assumes "json_sorted v" and "focus ts v = Some x" and "undo_at path f ts v = Inr v'"
    and "\<And>x'. json_sorted x \<Longrightarrow> f x = Inr x' \<Longrightarrow> g x' = Inr x"
  shows "undo_at path g ts v' = Inr v"
  using assms(1-3)
proof (induction ts arbitrary: v v')
  case (Cons t ts)
  show ?case
  proof (cases v)
    case (JObject m)
    then obtain y y' where y: "map_of m t = Some y" "focus ts y = Some x" and u: "undo_at path f ts y = Inr y'"
        and v': "v' = JObject (bt_insert t y' m)"
      using Cons.prems(2,3) by (auto simp: map_sum_Inr split: option.splits)
    have m: "bt_invar m" and sy: "json_sorted y"
      using Cons.prems(1) JObject map_of_SomeD [OF y(1)] by (auto simp: list_all_iff)
    from Cons.IH [OF sy y(2) u] have "undo_at path g ts y' = Inr y" .
    with JObject m y v' show ?thesis by (simp add: bt_insert_same bt_insert_back)
  next
    case (JArray a)
    then obtain i y' where i: "parse_usize t = Some i" "i < length a" "focus ts (a ! i) = Some x"
        and u: "undo_at path f ts (a ! i) = Inr y'" and v': "v' = JArray (a[i := y'])"
      using Cons.prems(2,3) by (auto simp: map_sum_Inr split: option.splits if_splits)
    have "json_sorted (a ! i)" using Cons.prems(1) JArray i by (auto simp: list_all_iff)
    from Cons.IH [OF this i(3) u] have "undo_at path g ts y' = Inr (a ! i)" .
    with JArray i v' show ?thesis by simp
  qed (use Cons.prems(2) in simp_all)
next
  case Nil
  then show ?case using assms(4) by simp
qed

text \<open>So the undo operation at a path undoes a replacement there.\<close>

definition undo_for :: "string \<Rightarrow> json \<Rightarrow> json option" where
  "undo_for path doc =
     (case path_tokens path of
        [] \<Rightarrow> Some (make_op ''replace'' path (Some doc))
      | t # ts \<Rightarrow> Option.bind (focus (butlast (t # ts)) doc) (undo_of path (last (t # ts))))"

lemma undo_of_kind:
  "undo_of path leaf cur = Some op \<Longrightarrow> str_or_empty ''op'' op \<in> {''replace'', ''remove''} \<and> str_or_empty ''path'' op = path"
  by (auto simp: undo_of_def split: json.splits option.splits if_splits)

lemma undo_op_back:
  assumes "json_sorted doc" and "undo_for path doc = Some op"
    and "undo_op (make_op ''replace'' path (Some x)) doc = Inr doc'"
  shows "undo_op op doc' = Inr doc"
proof (cases "path_tokens path")
  case Nil
  then show ?thesis using assms by (auto simp: undo_for_def undo_op_def Let_def)
next
  case (Cons t ts)
  let ?leaf = "last (t # ts)" and ?ps = "butlast (t # ts)"
  obtain cur where f: "focus ?ps doc = Some cur" and o: "undo_of path ?leaf cur = Some op"
    using assms(2) Cons by (auto simp: undo_for_def bind_eq_Some_conv)
  have "undo_at path (undo_leaf op (str_or_empty ''op'' op) path ?leaf) ?ps doc' = Inr doc"
  proof (rule undo_at_back [OF assms(1) f])
    show "undo_at path (undo_leaf (make_op ''replace'' path (Some x)) ''replace'' path ?leaf) ?ps doc = Inr doc'"
      using assms(3) Cons by (simp add: undo_op_def Let_def)
  next
    fix cur' assume "json_sorted cur"
      and "undo_leaf (make_op ''replace'' path (Some x)) ''replace'' path ?leaf cur = Inr cur'"
    then show "undo_leaf op (str_or_empty ''op'' op) path ?leaf cur' = Inr cur"
      using undo_leaf_back o by blast
  qed
  with undo_of_kind [OF o] Cons show ?thesis by (auto simp: undo_op_def Let_def)
qed

lemma apply_undo_append:
  "apply_undo doc (ops @ ops') = (case apply_undo doc ops of Inl e \<Rightarrow> Inl e | Inr doc' \<Rightarrow> apply_undo doc' ops')"
  by (induction doc ops rule: apply_undo.induct) (auto split: sum.split)

text \<open>An edit sets the values of some paths in turn; its undo list is built while it is applied.\<close>

fun edit_with_undo :: "(string \<times> json) list \<Rightarrow> json \<Rightarrow> (json \<times> json list) option" where
  "edit_with_undo [] doc = Some (doc, [])"
| "edit_with_undo ((path, x) # edits) doc =
     (case (undo_for path doc, undo_op (make_op ''replace'' path (Some x)) doc) of
        (Some op, Inr doc') \<Rightarrow> (if json_sorted doc then map_option (\<lambda>(after, ops). (after, ops @ [op])) (edit_with_undo edits doc') else None)
      | _ \<Rightarrow> None)"

lemma edit_undone: "edit_with_undo edits doc = Some (after, ops) \<Longrightarrow> apply_undo after ops = Inr doc"
proof (induction edits doc arbitrary: after ops rule: edit_with_undo.induct)
  case (2 path x edits doc)
  then obtain op doc' ops' where "undo_for path doc = Some op"
    "undo_op (make_op ''replace'' path (Some x)) doc = Inr doc'" "json_sorted doc"
    "edit_with_undo edits doc' = Some (after, ops')" "ops = ops' @ [op]"
    by (auto split: option.splits sum.splits if_splits)
  moreover from this have "apply_undo after ops' = Inr doc'" by (intro 2(1)) auto
  ultimately show ?case using undo_op_back [of doc path op x doc'] by (simp add: apply_undo_append)
qed simp

end
