(* ===== verification/Rollup.thy ===== *)
theory Rollup
  imports Change_Feed Decimal Surql
begin

text \<open>
  \<open>kernel/src/aggregates.rs\<close>, the rollup worker: what a document contributes, the signed fold of a batch
  of changes, the transaction that adds the deltas and moves the cursor, the passes over the feed. A
  contributor is an object of the trait \<open>Contrib\<close>: a record of functions with the two contributors
  of the code as its values. The state is the contributors' cache of customer groups beside the world.
\<close>

record 'w rollup_state =
  ru_cache :: "(string \<times> string) list"
  ru_world :: 'w

type_synonym contribution = "(string \<times> (string \<times> decimal) list) list"

record 'w contributor =
  hd_rollup :: string
  hd_source :: string
  hd_contrib :: "json \<Rightarrow> 'w rollup_state \<Rightarrow> (broker_error + contribution) \<times> 'w rollup_state"

definition at_world :: "('w \<Rightarrow> 'a \<times> 'w) \<Rightarrow> 'w rollup_state \<Rightarrow> 'a \<times> 'w rollup_state" where
  "at_world f st = (case f (ru_world st) of (r, w) \<Rightarrow> (r, st\<lparr>ru_world := w\<rparr>))"

definition word_chars :: "string \<Rightarrow> bool" where
  "word_chars s = list_all (\<lambda>c. is_alnum c \<or> c = CHR ''_'') s"

section \<open>Contributors\<close>

definition group_sql :: "string \<Rightarrow> string \<Rightarrow> string" where
  "group_sql hop rid = ''SELECT VALUE <string>'' @ hop @ '' FROM ONLY '' @ rid @ '';''"

definition group_of :: "'w sql \<Rightarrow> string \<Rightarrow> string \<Rightarrow> 'w rollup_state \<Rightarrow> (broker_error + string) \<times> 'w rollup_state" where
  "group_of sql hop customer st =
     (case map_of (ru_cache st) customer of
        Some g \<Rightarrow> (Inr g, st)
      | None \<Rightarrow>
          and_then (lift_res (render_value (VRecordId customer)) st) (\<lambda>rid st1.
            if \<not> word_chars hop then (Inl (InvalidValue ''bad hop field''), st1)
            else and_then (at_world (sql (group_sql hop rid)) st1) (\<lambda>v st2.
              let g = (case json_str v of Some s \<Rightarrow> s | None \<Rightarrow> ''(none)'') in
              (Inr g, st2\<lparr>ru_cache := (customer, g) # ru_cache st2\<rparr>))))"

definition decimal_one :: decimal where
  "decimal_one = \<lparr>de_mantissa = 1, de_scale = 0\<rparr>"

definition group_contrib :: "'w sql \<Rightarrow> string \<Rightarrow> json \<Rightarrow> 'w rollup_state \<Rightarrow> (broker_error + contribution) \<times> 'w rollup_state" where
  "group_contrib sql hop doc st =
     (case json_str_at ''customer'' doc of
        None \<Rightarrow> (Inr [], st)
      | Some customer \<Rightarrow>
          and_then (group_of sql hop customer st) (\<lambda>grp st1.
            (Inr [(grp, [(''revenue'', from_json (json_get ''total'' doc)), (''n'', decimal_one)])], st1)))"

definition group_revenue :: "'w sql \<Rightarrow> string \<Rightarrow> string \<Rightarrow> string \<Rightarrow> 'w contributor" where
  "group_revenue sql source rollup hop =
     \<lparr>hd_rollup = rollup, hd_source = source, hd_contrib = group_contrib sql hop\<rparr>"

text \<open>Sales by item: the lines of a document, summed per item.\<close>

definition add_line :: "json \<Rightarrow> (string, decimal \<times> decimal) btree \<Rightarrow> (string, decimal \<times> decimal) btree" where
  "add_line line m =
     (case json_str_at ''item'' line of
        None \<Rightarrow> m
      | Some i \<Rightarrow>
          (case (case map_of m i of Some e \<Rightarrow> e | None \<Rightarrow> (decimal_zero, decimal_zero)) of
             (qty, amount) \<Rightarrow>
               bt_insert i (add qty (from_json (json_get ''qty'' line)), add amount (from_json (json_get ''amount'' line))) m))"

definition item_lines :: "json \<Rightarrow> contribution" where
  "item_lines doc =
     (let lines = (case Option.bind (json_get ''lines'' doc) json_array of Some ls \<Rightarrow> ls | None \<Rightarrow> []) in
      map (\<lambda>(k, qty, amount). (k, [(''qty'', qty), (''amount'', amount)])) (fold add_line lines []))"

definition item_sales :: "string \<Rightarrow> string \<Rightarrow> 'w contributor" where
  "item_sales source rollup =
     \<lparr>hd_rollup = rollup, hd_source = source, hd_contrib = (\<lambda>doc st. (Inr (item_lines doc), st))\<rparr>"

section \<open>The signed fold\<close>

type_synonym deltas = "(string, (string, decimal) btree) btree"

definition slot :: "(string, decimal) btree \<Rightarrow> string \<Rightarrow> decimal" where
  "slot bucket f = (case map_of bucket f of Some d \<Rightarrow> d | None \<Rightarrow> decimal_zero)"

definition add_field :: "bool \<Rightarrow> string \<times> decimal \<Rightarrow> (string, decimal) btree \<Rightarrow> (string, decimal) btree" where
  "add_field subtract fa bucket =
     (case fa of (f, amt) \<Rightarrow> bt_insert f (add (slot bucket f) (if subtract then neg amt else amt)) bucket)"

definition bucket_of :: "deltas \<Rightarrow> string \<Rightarrow> (string, decimal) btree" where
  "bucket_of acc k = (case map_of acc k of Some b \<Rightarrow> b | None \<Rightarrow> [])"

definition add_contribution :: "bool \<Rightarrow> string \<times> (string \<times> decimal) list \<Rightarrow> deltas \<Rightarrow> deltas" where
  "add_contribution subtract c acc =
     (case c of (k, fs) \<Rightarrow> bt_insert k (fold (add_field subtract) fs (bucket_of acc k)) acc)"

definition fold_doc :: "'w contributor \<Rightarrow> bool \<Rightarrow> json option \<Rightarrow> deltas \<Rightarrow> 'w rollup_state \<Rightarrow> (broker_error + deltas) \<times> 'w rollup_state" where
  "fold_doc h subtract doc acc st =
     (case doc of
        None \<Rightarrow> (Inr acc, st)
      | Some d \<Rightarrow> and_then (hd_contrib h d st) (\<lambda>cs st1. (Inr (fold (add_contribution subtract) cs acc), st1)))"

fun fold_changes :: "'w contributor \<Rightarrow> change list \<Rightarrow> deltas \<Rightarrow> 'w rollup_state \<Rightarrow> (broker_error + deltas) \<times> 'w rollup_state" where
  "fold_changes h [] acc st = (Inr acc, st)"
| "fold_changes h (ch # chs) acc st =
     and_then (fold_doc h True (ch_before ch) acc st) (\<lambda>acc1 st1.
     and_then (fold_doc h False (ch_after ch) acc1 st1) (\<lambda>acc2 st2. fold_changes h chs acc2 st2))"

section \<open>Statements\<close>

definition CURSOR_TABLE :: string where
  "CURSOR_TABLE = ''agg_cursor''"

definition cursor_id :: "'w contributor \<Rightarrow> string" where
  "cursor_id h = CURSOR_TABLE @ '':'' @ hd_rollup h"

definition cursor_ddl :: string where
  "cursor_ddl = ''DEFINE TABLE IF NOT EXISTS '' @ CURSOR_TABLE @ '' SCHEMALESS ''
     @ ''PERMISSIONS FOR select WHERE $auth.id != NONE FOR create, update, delete NONE;''"

definition cursor_sql :: "'w contributor \<Rightarrow> string" where
  "cursor_sql h = ''SELECT VALUE vs FROM '' @ cursor_id h @ '';''"

definition feed_sql :: "'w contributor \<Rightarrow> nat \<Rightarrow> nat \<Rightarrow> string" where
  "feed_sql h since limit =
     ''SHOW CHANGES FOR TABLE '' @ hd_source h @ '' SINCE '' @ nat_str since @ '' LIMIT '' @ nat_str limit @ '';''"

definition field_set :: "string \<times> decimal \<Rightarrow> string" where
  "field_set fd = (case fd of (f, d) \<Rightarrow> f @ '' = ('' @ f @ '' ?? 0dec) + '' @ to_plain_string d @ ''dec'')"

definition bucket_sql :: "'w contributor \<Rightarrow> string \<times> (string, decimal) btree \<Rightarrow> string" where
  "bucket_sql h kb =
     (case kb of (k, fds) \<Rightarrow>
        ''UPSERT type::record('' @ [CHR 0x27] @ hd_rollup h @ [CHR 0x27] @ '', '' @ quote_literal k
        @ '') SET k = '' @ quote_literal k @ '', '' @ join '', '' (map field_set fds) @ ''; '')"

definition batch_sql :: "'w contributor \<Rightarrow> deltas \<Rightarrow> nat \<Rightarrow> string" where
  "batch_sql h acc last_vs =
     ''BEGIN; '' @ concat (map (bucket_sql h) acc)
     @ ''UPSERT '' @ cursor_id h @ '' SET vs = '' @ nat_str last_vs @ '', updated_at = time::now(); COMMIT;''"

definition reset_sql :: "'w contributor \<Rightarrow> string" where
  "reset_sql h = ''BEGIN; DELETE '' @ hd_rollup h @ ''; UPSERT '' @ cursor_id h @ '' SET vs = 0, updated_at = time::now(); COMMIT;''"

section \<open>Passes\<close>

definition failing :: "(broker_error + 'a) \<times> 's \<Rightarrow> (undo_failure + 'a) \<times> 's" where
  "failing x = map_prod (map_err Failed) id x"

definition rollup_worker_new :: "'w sql \<Rightarrow> 'w contributor \<Rightarrow> 'w rollup_state \<Rightarrow> (broker_error + unit) \<times> 'w rollup_state" where
  "rollup_worker_new sql h st =
     (case find (\<lambda>n. n = [] \<or> \<not> word_chars n) [hd_source h, hd_rollup h] of
        Some n \<Rightarrow> (Inl (InvalidValue (''bad rollup table name: '' @ n)), st)
      | None \<Rightarrow> and_then (at_world (sql cursor_ddl) st) (\<lambda>_ st1. (Inr (), st1)))"

definition cursor_value :: "json \<Rightarrow> nat" where
  "cursor_value v = (case Option.bind (json_first v) json_u64 of Some n \<Rightarrow> n | None \<Rightarrow> 0)"

definition read_cursor :: "'w sql \<Rightarrow> 'w contributor \<Rightarrow> 'w rollup_state \<Rightarrow> (broker_error + nat) \<times> 'w rollup_state" where
  "read_cursor sql h st = and_then (at_world (sql (cursor_sql h)) st) (\<lambda>v st1. (Inr (cursor_value v), st1))"

text \<open>The next stamp: an \<open>u64\<close> wraps.\<close>

definition next_stamp :: "nat \<Rightarrow> nat" where
  "next_stamp n = (n + 1) mod 2 ^ 64"

definition rollup_lag :: "'w sql \<Rightarrow> 'w contributor \<Rightarrow> 'w rollup_state \<Rightarrow> (broker_error + nat) \<times> 'w rollup_state" where
  "rollup_lag sql h st =
     and_then (read_cursor sql h st) (\<lambda>vs st1.
     and_then (at_world (sql (feed_sql h (next_stamp vs) 1000)) st1) (\<lambda>v st2.
       (Inr (length (filter (\<lambda>e. json_get ''changes'' e \<noteq> None) (json_rows v))), st2)))"

text \<open>The second half of a pass: fold the changes, send the deltas with the new cursor.\<close>

definition apply_changes :: "'w sql \<Rightarrow> 'w contributor \<Rightarrow> change list \<Rightarrow> nat \<Rightarrow> 'w rollup_state \<Rightarrow> (undo_failure + nat) \<times> 'w rollup_state" where
  "apply_changes sql h changes last_vs st =
     and_then (failing (fold_changes h changes [] st)) (\<lambda>acc st1.
     and_then (failing (at_world (sql (batch_sql h acc last_vs)) st1)) (\<lambda>_ st2.
       (Inr (length changes), st2)))"

definition rollup_tick :: "'w sql \<Rightarrow> 'w contributor \<Rightarrow> nat \<Rightarrow> 'w rollup_state \<Rightarrow> (undo_failure + nat) \<times> 'w rollup_state" where
  "rollup_tick sql h limit st =
     and_then (failing (read_cursor sql h st)) (\<lambda>vs st1.
     and_then (failing (at_world (sql (feed_sql h (next_stamp vs) limit)) st1)) (\<lambda>v st2.
       if json_rows v = [] then (Inr 0, st2)
       else and_then (lift_res (decode_entries (json_rows v)) st2) (\<lambda>(changes, last_vs) st3.
              apply_changes sql h changes last_vs st3)))"

text \<open>Passes until one has applied no change; \<open>None\<close> is a loop that never ends.\<close>

partial_function (option) drain_from ::
  "'w sql \<Rightarrow> 'w contributor \<Rightarrow> nat \<Rightarrow> 'w rollup_state \<Rightarrow> ((undo_failure + nat) \<times> 'w rollup_state) option" where
  "drain_from sql h sofar st =
     (case rollup_tick sql h 1000 st of
        (Inl e, st1) \<Rightarrow> Some (Inl e, st1)
      | (Inr n, st1) \<Rightarrow> (if n = 0 then Some (Inr sofar, st1) else drain_from sql h (sofar + n) st1))"

declare drain_from.simps [code]

definition rollup_drain :: "'w sql \<Rightarrow> 'w contributor \<Rightarrow> 'w rollup_state \<Rightarrow> ((undo_failure + nat) \<times> 'w rollup_state) option" where
  "rollup_drain sql h st = drain_from sql h 0 st"

definition recompute_from_source :: "'w sql \<Rightarrow> 'w contributor \<Rightarrow> 'w rollup_state \<Rightarrow> ((undo_failure + nat) \<times> 'w rollup_state) option" where
  "recompute_from_source sql h st =
     (case failing (at_world (sql (reset_sql h)) st) of
        (Inl e, st1) \<Rightarrow> Some (Inl e, st1)
      | (Inr _, st1) \<Rightarrow> rollup_drain sql h st1)"

end
