(* ===== verification/Rollup_Proofs.thy ===== *)
theory Rollup_Proofs
  imports Rollup Decimal_Proofs "HOL-Library.Multiset"
begin

text \<open>
  The signed fold is exact: as long as the amounts of a batch fit, the deltas are the numeric sums of
  what the documents after the changes contribute less what the documents before them did. Over a
  history in which every document that disappears was there, such sums telescope to what the documents that are left
  contribute.
\<close>

section \<open>Exact addition\<close>

definition inside :: "nat \<Rightarrow> rat \<Rightarrow> decimal \<Rightarrow> bool" where
  "inside S B d = (de_scale d \<le> S \<and> \<bar>val d\<bar> \<le> B)"

lemma mantissa_val: "of_int (de_mantissa d) = val d * 10 ^ de_scale d"
  by (simp add: val_def)

lemma in_i128_abs: "\<bar>m\<bar> \<le> i128_max \<Longrightarrow> in_i128 m"
  by (auto simp: in_i128_def i128_bounds abs_le_iff)

lemma scaled_abs:
  fixes v B :: rat
  assumes "\<bar>v\<bar> \<le> B" and "s \<le> S" and "B * 10 ^ S \<le> of_int M" and "of_int m = v * 10 ^ s"
  shows "\<bar>m\<bar> \<le> M"
proof -
  have B: "0 \<le> B" using assms(1) abs_ge_zero [of v] by linarith
  have "\<bar>of_int m\<bar> = \<bar>v\<bar> * (10 :: rat) ^ s" using assms(4) by (simp add: abs_mult)
  also have "\<dots> \<le> B * 10 ^ S"
    using assms(1,2) B by (intro mult_mono power_increasing) simp_all
  finally have "\<bar>of_int m\<bar> \<le> (of_int M :: rat)" using assms(3) by linarith
  then show ?thesis by (metis of_int_abs of_int_le_iff)
qed

lemma fits_inside:
  assumes "inside S B d" and "S \<le> 38" and "B * 10 ^ S \<le> of_int i128_max" and "de_scale d \<le> s" and "s \<le> S"
  shows "fits_at d s"
proof -
  have "of_int (de_mantissa d * 10 ^ (s - de_scale d)) = val d * 10 ^ s"
    using assms(4) by (simp add: mantissa_val flip: power_add)
  then have "\<bar>de_mantissa d * 10 ^ (s - de_scale d)\<bar> \<le> i128_max"
    using scaled_abs [of "val d" B s S] assms(1,3,5) unfolding inside_def by blast
  then show ?thesis using assms(2,5) unfolding fits_at_def by (auto intro: in_i128_abs)
qed

lemma add_inside:
  assumes "inside S B a" and "inside S C b" and "S \<le> 38" and "(B + C) * 10 ^ S \<le> of_int i128_max"
  shows "val (add a b) = val a + val b" and "inside S (B + C) (add a b)"
proof -
  let ?s = "max (de_scale a) (de_scale b)"
  have BC: "0 \<le> B" "0 \<le> C" using assms(1,2) by (auto simp: inside_def)
  have s: "?s \<le> S" using assms(1,2) by (simp add: inside_def)
  have "B * 10 ^ S \<le> (B + C) * 10 ^ S" "C * 10 ^ S \<le> (B + C) * 10 ^ S"
    using BC by (simp_all add: mult_right_mono)
  with assms(4) have le: "B * 10 ^ S \<le> of_int i128_max" "C * 10 ^ S \<le> of_int i128_max" by linarith+
  have fa: "fits_at a ?s" and fb: "fits_at b ?s"
    using fits_inside [OF assms(1,3) le(1) _ s] fits_inside [OF assms(2,3) le(2) _ s] by simp_all
  let ?m = "de_mantissa (rescaled a ?s) + de_mantissa (rescaled b ?s)"
  have "of_int ?m = (val a + val b) * 10 ^ ?s"
    using rescaled_fits [OF fa] rescaled_fits [OF fb]
    by (simp add: mantissa_val algebra_simps flip: power_add)
  moreover have ab: "\<bar>val a + val b\<bar> \<le> B + C" using assms(1,2) unfolding inside_def by linarith
  ultimately have "in_i128 ?m" using scaled_abs [OF _ s assms(4)] by (intro in_i128_abs) blast
  then show v: "val (add a b) = val a + val b" by (rule add_val [OF fa fb])
  show "inside S (B + C) (add a b)" using v ab s by (simp add: inside_def add_def Let_def)
qed

lemma neg_inside:
  assumes "inside S B a" and "B * 10 ^ S \<le> of_int i128_max"
  shows "val (neg a) = - val a" and "inside S B (neg a)"
proof -
  have "\<bar>de_mantissa a\<bar> \<le> i128_max"
    using scaled_abs [OF _ _ assms(2), of "val a" "de_scale a"] assms(1) by (simp add: inside_def mantissa_val)
  then have "in_i128 (- de_mantissa a)" by (intro in_i128_abs) simp
  then have "neg a = \<lparr>de_mantissa = - de_mantissa a, de_scale = de_scale a\<rparr>"
    by (simp add: neg_def wrap_i128_id)
  then show "val (neg a) = - val a" and "inside S B (neg a)" using assms(1) by (simp_all add: inside_def val_def)
qed

section \<open>What the deltas say\<close>

definition delta :: "deltas \<Rightarrow> string \<Rightarrow> string \<Rightarrow> rat" where
  "delta acc k f = val (slot (bucket_of acc k) f)"

definition field_sum :: "(string \<times> decimal) list \<Rightarrow> string \<Rightarrow> rat" where
  "field_sum fs f = sum_list (map (\<lambda>(g, a). if g = f then val a else 0) fs)"

definition contributed :: "contribution \<Rightarrow> string \<Rightarrow> string \<Rightarrow> rat" where
  "contributed cs k f = sum_list (map (\<lambda>(l, fs). if l = k then field_sum fs f else 0) cs)"

definition field_weight :: "(string \<times> decimal) list \<Rightarrow> rat" where
  "field_weight fs = sum_list (map (\<lambda>(_, a). \<bar>val a\<bar>) fs)"

definition weight :: "contribution \<Rightarrow> rat" where
  "weight cs = sum_list (map (\<lambda>(_, fs). field_weight fs) cs)"

definition scales_ok :: "nat \<Rightarrow> contribution \<Rightarrow> bool" where
  "scales_ok S cs = list_all (\<lambda>(_, fs). list_all (\<lambda>(_, a). de_scale a \<le> S) fs) cs"

definition bucket_ok :: "nat \<Rightarrow> rat \<Rightarrow> (string, decimal) btree \<Rightarrow> bool" where
  "bucket_ok S B b = (bt_invar b \<and> (\<forall>f. inside S B (slot b f)))"

definition deltas_ok :: "nat \<Rightarrow> rat \<Rightarrow> deltas \<Rightarrow> bool" where
  "deltas_ok S B acc = (bt_invar acc \<and> (\<forall>k. bucket_ok S B (bucket_of acc k)))"

lemma inside_mono: "inside S B d \<Longrightarrow> B \<le> C \<Longrightarrow> inside S C d"
  by (auto simp: inside_def)

lemma bucket_mono: "bucket_ok S B b \<Longrightarrow> B \<le> C \<Longrightarrow> bucket_ok S C b"
  unfolding bucket_ok_def by (blast intro: inside_mono)

lemma deltas_mono: "deltas_ok S B acc \<Longrightarrow> B \<le> C \<Longrightarrow> deltas_ok S C acc"
  unfolding deltas_ok_def by (blast intro: bucket_mono)

lemma field_weight_nonneg [simp]: "0 \<le> field_weight fs"
  unfolding field_weight_def by (rule sum_list_nonneg) auto

lemma weight_nonneg [simp]: "0 \<le> weight cs"
  unfolding weight_def by (rule sum_list_nonneg) auto

lemma deltas_empty [simp]: "deltas_ok S 0 []" "delta [] k f = 0"
  by (simp_all add: deltas_ok_def bucket_ok_def bucket_of_def slot_def inside_def decimal_zero_def delta_def)

lemma fits_less: "(B + C) * 10 ^ S \<le> (of_int M :: rat) \<Longrightarrow> 0 \<le> C \<Longrightarrow> B * 10 ^ S \<le> of_int M"
proof -
  assume "(B + C) * 10 ^ S \<le> (of_int M :: rat)" and "0 \<le> C"
  moreover from this have "B * 10 ^ S \<le> (B + C) * 10 ^ S" by (intro mult_right_mono) simp_all
  ultimately show ?thesis by linarith
qed

lemma slot_insert [simp]: "bt_invar b \<Longrightarrow> slot (bt_insert f d b) g = (if g = f then d else slot b g)"
  by (simp add: slot_def bt_lookup_insert)

lemma bucket_insert [simp]: "bt_invar acc \<Longrightarrow> bucket_of (bt_insert k b acc) l = (if l = k then b else bucket_of acc l)"
  by (simp add: bucket_of_def bt_lookup_insert)

abbreviation sgn_of :: "bool \<Rightarrow> rat" where
  "sgn_of subtract \<equiv> (if subtract then - 1 else 1)"

lemma add_field_exact:
  assumes "bucket_ok S B b" and "de_scale a \<le> S" and "S \<le> 38" and "(B + \<bar>val a\<bar>) * 10 ^ S \<le> of_int i128_max"
  shows "bucket_ok S (B + \<bar>val a\<bar>) (add_field subtract (f, a) b)"
    and "val (slot (add_field subtract (f, a) b) g) = val (slot b g) + (if f = g then sgn_of subtract * val a else 0)"
proof -
  have b: "bt_invar b" and w: "\<And>h. inside S B (slot b h)" using assms(1) by (auto simp: bucket_ok_def)
  have B: "0 \<le> B" using w [of f] by (auto simp: inside_def)
  have a: "inside S \<bar>val a\<bar> a" using assms(2) by (simp add: inside_def)
  have fa: "\<bar>val a\<bar> * 10 ^ S \<le> of_int i128_max"
    using fits_less [of "\<bar>val a\<bar>" B S i128_max] assms(4) B by (simp add: add.commute)
  let ?x = "if subtract then neg a else a"
  have x: "inside S \<bar>val a\<bar> ?x" "val ?x = sgn_of subtract * val a"
    using neg_inside [OF a fa] a by auto
  note s = add_inside [OF w [of f] x(1) assms(3,4)]
  show "bucket_ok S (B + \<bar>val a\<bar>) (add_field subtract (f, a) b)"
    using b s(2) inside_mono [OF w, of "B + \<bar>val a\<bar>"] by (auto simp: bucket_ok_def add_field_def bt_invar_insert)
  show "val (slot (add_field subtract (f, a) b) g) = val (slot b g) + (if f = g then sgn_of subtract * val a else 0)"
    using b s(1) x(2) by (auto simp: add_field_def)
qed

lemma add_fields_exact:
  assumes "bucket_ok S B b" and "list_all (\<lambda>(_, a). de_scale a \<le> S) fs" and "S \<le> 38"
    and "(B + field_weight fs) * 10 ^ S \<le> of_int i128_max"
  shows "bucket_ok S (B + field_weight fs) (fold (add_field subtract) fs b)
    \<and> val (slot (fold (add_field subtract) fs b) g) = val (slot b g) + sgn_of subtract * field_sum fs g"
  using assms
proof (induction fs arbitrary: B b)
  case (Cons fa fs)
  obtain f a where fa: "fa = (f, a)" by (cases fa)
  have w: "B + field_weight (fa # fs) = (B + \<bar>val a\<bar>) + field_weight fs"
    by (simp add: fa field_weight_def)
  have fit: "(B + \<bar>val a\<bar>) * 10 ^ S \<le> of_int i128_max"
    using fits_less [of "B + \<bar>val a\<bar>" "field_weight fs"] Cons.prems(4) w by simp
  have a: "de_scale a \<le> S" and fs: "list_all (\<lambda>(_, a). de_scale a \<le> S) fs" using Cons.prems(2) fa by simp_all
  note one = add_field_exact [OF Cons.prems(1) a Cons.prems(3) fit, of subtract f]
  have "bucket_ok S ((B + \<bar>val a\<bar>) + field_weight fs) (fold (add_field subtract) fs (add_field subtract (f, a) b))
    \<and> val (slot (fold (add_field subtract) fs (add_field subtract (f, a) b)) g)
      = val (slot (add_field subtract (f, a) b) g) + sgn_of subtract * field_sum fs g"
    using Cons.IH [OF one(1) fs Cons.prems(3)] Cons.prems(4) w by simp
  with one(2) [of g] w show ?case by (auto simp: fa field_sum_def add.assoc)
qed (simp add: field_weight_def field_sum_def)

lemma add_contribution_exact:
  assumes "deltas_ok S B acc" and "list_all (\<lambda>(_, a). de_scale a \<le> S) fs" and "S \<le> 38"
    and "(B + field_weight fs) * 10 ^ S \<le> of_int i128_max"
  shows "deltas_ok S (B + field_weight fs) (add_contribution subtract (l, fs) acc)
    \<and> delta (add_contribution subtract (l, fs) acc) k f
      = delta acc k f + (if l = k then sgn_of subtract * field_sum fs f else 0)"
proof -
  have inv: "bt_invar acc" and b: "\<And>k. bucket_ok S B (bucket_of acc k)" using assms(1) by (auto simp: deltas_ok_def)
  from add_fields_exact [OF b assms(2-4), where subtract = subtract] bucket_mono [OF b, of "B + field_weight fs"] inv
  show ?thesis by (auto simp: deltas_ok_def add_contribution_def bt_invar_insert delta_def)
qed

lemma add_contributions_exact:
  assumes "deltas_ok S B acc" and "scales_ok S cs" and "S \<le> 38" and "(B + weight cs) * 10 ^ S \<le> of_int i128_max"
  shows "deltas_ok S (B + weight cs) (fold (add_contribution subtract) cs acc)
    \<and> delta (fold (add_contribution subtract) cs acc) k f = delta acc k f + sgn_of subtract * contributed cs k f"
  using assms
proof (induction cs arbitrary: B acc)
  case (Cons c cs)
  obtain l fs where c: "c = (l, fs)" by (cases c)
  have w: "B + weight (c # cs) = (B + field_weight fs) + weight cs" by (simp add: c weight_def)
  have fit: "(B + field_weight fs) * 10 ^ S \<le> of_int i128_max"
    using fits_less [of "B + field_weight fs" "weight cs"] Cons.prems(4) w by simp
  have fs: "list_all (\<lambda>(_, a). de_scale a \<le> S) fs" and cs: "scales_ok S cs"
    using Cons.prems(2) c by (simp_all add: scales_ok_def)
  note one = add_contribution_exact [OF Cons.prems(1) fs Cons.prems(3) fit, of subtract l k f]
  have "deltas_ok S ((B + field_weight fs) + weight cs) (fold (add_contribution subtract) cs (add_contribution subtract (l, fs) acc))
    \<and> delta (fold (add_contribution subtract) cs (add_contribution subtract (l, fs) acc)) k f
      = delta (add_contribution subtract (l, fs) acc) k f + sgn_of subtract * contributed cs k f"
    using Cons.IH [OF one [THEN conjunct1] cs Cons.prems(3)] Cons.prems(4) w by simp
  with one w show ?case by (auto simp: c contributed_def add.assoc)
qed (simp add: weight_def contributed_def)

section \<open>Changes\<close>

text \<open>What a document contributes, as a function of the document alone.\<close>

type_synonym contributing = "json \<Rightarrow> contribution"

definition of_doc :: "contributing \<Rightarrow> json option \<Rightarrow> contribution" where
  "of_doc C d = (case d of None \<Rightarrow> [] | Some doc \<Rightarrow> C doc)"

definition change_sum :: "contributing \<Rightarrow> change list \<Rightarrow> string \<Rightarrow> string \<Rightarrow> rat" where
  "change_sum C chs k f =
     sum_list (map (\<lambda>ch. contributed (of_doc C (ch_after ch)) k f - contributed (of_doc C (ch_before ch)) k f) chs)"

definition change_weight :: "contributing \<Rightarrow> change list \<Rightarrow> rat" where
  "change_weight C chs = sum_list (map (\<lambda>ch. weight (of_doc C (ch_before ch)) + weight (of_doc C (ch_after ch))) chs)"

definition change_scales :: "nat \<Rightarrow> contributing \<Rightarrow> change list \<Rightarrow> bool" where
  "change_scales S C chs = list_all (\<lambda>ch. scales_ok S (of_doc C (ch_before ch)) \<and> scales_ok S (of_doc C (ch_after ch))) chs"

definition batch_fits :: "nat \<Rightarrow> contributing \<Rightarrow> change list \<Rightarrow> bool" where
  "batch_fits S C chs = (S \<le> 38 \<and> change_scales S C chs \<and> change_weight C chs * 10 ^ S \<le> of_int i128_max)"

lemma change_weight_nonneg [simp]: "0 \<le> change_weight C chs"
  unfolding change_weight_def by (rule sum_list_nonneg) auto

lemma change_sum_simps [simp]:
  "change_sum C [] k f = 0"
  "change_sum C (ch # chs) k f = contributed (of_doc C (ch_after ch)) k f - contributed (of_doc C (ch_before ch)) k f + change_sum C chs k f"
  "change_sum C (chs @ chs') k f = change_sum C chs k f + change_sum C chs' k f"
  by (simp_all add: change_sum_def)

lemma change_weight_simps [simp]:
  "change_weight C [] = 0"
  "change_weight C (ch # chs) = weight (of_doc C (ch_before ch)) + weight (of_doc C (ch_after ch)) + change_weight C chs"
  "change_weight C (chs @ chs') = change_weight C chs + change_weight C chs'"
  by (simp_all add: change_weight_def)

lemma change_scales_simps [simp]:
  "change_scales S C (chs @ chs') = (change_scales S C chs \<and> change_scales S C chs')"
  by (simp add: change_scales_def)

text \<open>Replaying a history over the documents that are there: each change takes one away and adds one.\<close>

definition docs_of :: "json option \<Rightarrow> json multiset" where
  "docs_of d = (case d of None \<Rightarrow> {#} | Some doc \<Rightarrow> {#doc#})"

fun replay :: "json multiset \<Rightarrow> change list \<Rightarrow> json multiset option" where
  "replay docs [] = Some docs"
| "replay docs (ch # chs) =
     (if docs_of (ch_before ch) \<subseteq># docs then replay (docs - docs_of (ch_before ch) + docs_of (ch_after ch)) chs else None)"

definition docs_sum :: "contributing \<Rightarrow> json multiset \<Rightarrow> string \<Rightarrow> string \<Rightarrow> rat" where
  "docs_sum C docs k f = (\<Sum>doc \<in># docs. contributed (C doc) k f)"

lemma docs_sum_simps [simp]:
  "docs_sum C {#} k f = 0"
  "docs_sum C (A + B) k f = docs_sum C A k f + docs_sum C B k f"
  "docs_sum C (docs_of d) k f = contributed (of_doc C d) k f"
  by (auto simp: docs_sum_def docs_of_def of_doc_def contributed_def split: option.split)

lemma docs_sum_diff: "A \<subseteq># B \<Longrightarrow> docs_sum C (B - A) k f = docs_sum C B k f - docs_sum C A k f"
  using docs_sum_simps(2) [of C "B - A" A k f] by (simp add: subset_mset.diff_add)

lemma change_sum_telescopes:
  "replay docs chs = Some docs' \<Longrightarrow> docs_sum C docs' k f = docs_sum C docs k f + change_sum C chs k f"
proof (induction docs chs rule: replay.induct)
  case (2 docs ch chs)
  then have sub: "docs_of (ch_before ch) \<subseteq># docs" by (auto split: if_splits)
  have "docs_sum C (docs - docs_of (ch_before ch) + docs_of (ch_after ch)) k f
      = docs_sum C docs k f - contributed (of_doc C (ch_before ch)) k f + contributed (of_doc C (ch_after ch)) k f"
    by (simp only: docs_sum_simps docs_sum_diff [OF sub])
  with 2 sub show ?case by (simp split: if_splits del: subset_mset.add_diff_assoc2)
qed simp

lemma replay_append: "replay docs (chs @ chs') = Option.bind (replay docs chs) (\<lambda>d. replay d chs')"
  by (induction docs chs rule: replay.induct) auto

end
