(* ===== verification/Rollup_Store.thy ===== *)
theory Rollup_Store
  imports Rollup_Proofs "HOL-Library.Sublist"
begin

text \<open>
  The rollup worker over a database: a feed of stamped changes that may grow at any time, a cursor, and the
  accumulated totals. Its laws are those of the database's statements: the batch is one transaction, applied as a whole
  or not at all, also when its answer is lost. What the worker keeps is that the totals are exactly the
  signed sum of a prefix of the feed, the prefix the cursor names.
\<close>

text \<open>A batch that can be sent: its buckets are not empty, their fields are words, and its amounts are in range.\<close>

definition sendable :: "deltas \<Rightarrow> bool" where
  "sendable acc = (bt_invar acc \<and> list_all (\<lambda>(_, b). b \<noteq> [] \<and> bt_invar b \<and> list_all (\<lambda>(f, d). f \<noteq> [] \<and> word_chars f
     \<and> wf_decimal d \<and> de_mantissa d \<noteq> i128_min) b) acc)"

definition well_named :: "contribution \<Rightarrow> bool" where
  "well_named cs = list_all (\<lambda>(_, fs). fs \<noteq> [] \<and> list_all (\<lambda>(f, _). f \<noteq> [] \<and> word_chars f) fs) cs"

definition stamped :: "(nat \<times> change list) list \<Rightarrow> bool" where
  "stamped es = (sorted_wrt (<) (map fst es) \<and> list_all (\<lambda>e. 0 < fst e \<and> fst e < 2 ^ 64 - 1) es)"

definition stamp_at :: "(nat \<times> change list) list \<Rightarrow> nat \<Rightarrow> nat" where
  "stamp_at es n = (if n = 0 then 0 else fst (es ! (n - 1)))"

definition changes_to :: "(nat \<times> change list) list \<Rightarrow> nat \<Rightarrow> change list" where
  "changes_to es n = concat (map snd (take n es))"

lemma stamped_pending:
  assumes "stamped es" and "n \<le> length es"
  shows "filter (\<lambda>e. stamp_at es n + 1 \<le> fst e) es = drop n es"
proof -
  have s: "sorted_wrt (<) (map fst es)" and p: "\<And>e. e \<in> set es \<Longrightarrow> 0 < fst e"
    using assms(1) by (auto simp: stamped_def list_all_iff)
  have lt: "fst (es ! i) < fst (es ! j)" if "i < j" "j < length es" for i j
    using sorted_wrt_nth_less [OF s that(1)] that by simp
  have "\<not> (stamp_at es n + 1 \<le> fst e)" if mem: "e \<in> set (take n es)" for e
  proof -
    obtain i where "i < length (take n es)" "take n es ! i = e"
      using mem unfolding in_set_conv_nth by blast
    then have i: "i < n" "i < length es" "e = es ! i" by simp_all
    then have "fst e \<le> fst (es ! (n - 1))"
      using lt [of i "n - 1"] assms(2) by (cases "i = n - 1") (auto intro: less_imp_le)
    with i(1) show ?thesis by (simp add: stamp_at_def)
  qed
  moreover have "stamp_at es n + 1 \<le> fst e" if mem: "e \<in> set (drop n es)" for e
  proof -
    obtain j where "j < length (drop n es)" "drop n es ! j = e"
      using mem unfolding in_set_conv_nth by blast
    then have j: "n + j < length es" "e = es ! (n + j)" by simp_all
    show ?thesis
    proof (cases n)
      case 0
      then show ?thesis using p [of e] j by (simp add: stamp_at_def Suc_leI)
    next
      case (Suc m)
      then show ?thesis using lt [of m "n + j"] j by (simp add: stamp_at_def)
    qed
  qed
  ultimately have "filter (\<lambda>e. stamp_at es n + 1 \<le> fst e) (take n es @ drop n es) = drop n es"
    by (simp only: filter_append) (simp add: filter_id_conv filter_empty_conv del: append_take_drop_id)
  then show ?thesis by simp
qed

definition named_deltas :: "deltas \<Rightarrow> bool" where
  "named_deltas acc = list_all (\<lambda>(_, b). b \<noteq> [] \<and> list_all (\<lambda>(f, _). f \<noteq> [] \<and> word_chars f) b) acc"

lemma bt_insert_all: "list_all P m \<Longrightarrow> P (k, v) \<Longrightarrow> list_all P (bt_insert k v m)"
  by (induction m) auto

lemma bt_insert_nonempty [simp]: "bt_insert k v m \<noteq> []"
  by (cases m) auto

lemma add_fields_named:
  assumes "list_all (\<lambda>(f, _). f \<noteq> [] \<and> word_chars f) fs" and "list_all (\<lambda>(f, _). f \<noteq> [] \<and> word_chars f) b"
  shows "list_all (\<lambda>(f, _). f \<noteq> [] \<and> word_chars f) (fold (add_field subtract) fs b)
    \<and> (fs \<noteq> [] \<or> b \<noteq> [] \<longrightarrow> fold (add_field subtract) fs b \<noteq> [])"
  using assms
proof (induction fs arbitrary: b)
  case (Cons fa fs)
  obtain f a where fa: "fa = (f, a)" by (cases fa)
  have "list_all (\<lambda>(f, _). f \<noteq> [] \<and> word_chars f) (add_field subtract fa b)" and "add_field subtract fa b \<noteq> []"
    using Cons.prems fa by (simp_all add: add_field_def bt_insert_all)
  with Cons.IH [of "add_field subtract fa b"] Cons.prems(1) show ?case by simp
qed simp

lemma add_contributions_named:
  assumes "well_named cs" and "named_deltas acc"
  shows "named_deltas (fold (add_contribution subtract) cs acc)"
  using assms
proof (induction cs arbitrary: acc)
  case (Cons c cs)
  obtain k fs where c: "c = (k, fs)" by (cases c)
  have b: "list_all (\<lambda>(f, _). f \<noteq> [] \<and> word_chars f) (bucket_of acc k)"
  proof (cases "map_of acc k")
    case (Some x)
    from map_of_SomeD [OF this] Cons.prems(2) Some show ?thesis
      unfolding bucket_of_def named_deltas_def list_all_iff by (auto dest!: bspec)
  qed (simp add: bucket_of_def)
  have "named_deltas (add_contribution subtract c acc)"
    using Cons.prems add_fields_named [of fs "bucket_of acc k" subtract] b c
    unfolding named_deltas_def add_contribution_def by (auto simp: well_named_def intro!: bt_insert_all)
  with Cons show ?case by (simp add: well_named_def)
qed simp

lemma inside_wf:
  assumes "inside S B d" and "S \<le> 38" and "B * 10 ^ S \<le> of_int i128_max"
  shows "wf_decimal d \<and> de_mantissa d \<noteq> i128_min"
proof -
  have "\<bar>de_mantissa d\<bar> \<le> i128_max"
    using scaled_abs [OF _ _ assms(3), of "val d" "de_scale d"] assms(1) by (simp add: inside_def mantissa_val)
  moreover have "de_scale d < 2 ^ 32" using assms(1,2) by (simp add: inside_def)
  ultimately show ?thesis by (auto simp: wf_decimal_def in_i128_abs i128_bounds)
qed

lemma deltas_sendable:
  assumes "deltas_ok S B acc" and "named_deltas acc" and "S \<le> 38" and "B * 10 ^ S \<le> of_int i128_max"
  shows "sendable acc"
proof -
  have inv: "bt_invar acc" and ok: "\<And>k. bucket_ok S B (bucket_of acc k)" using assms(1) by (auto simp: deltas_ok_def)
  have "bt_invar b \<and> wf_decimal d \<and> de_mantissa d \<noteq> i128_min" if kb: "(k, b) \<in> set acc" and fd: "(f, d) \<in> set b" for k b f d
  proof -
    have "map_of acc k = Some b" using kb inv by (auto simp: bt_invar_def)
    then have b: "bucket_ok S B b" using ok [of k] by (simp add: bucket_of_def)
    then have "map_of b f = Some d" using fd by (auto simp: bucket_ok_def bt_invar_def)
    then have "inside S B d" using b by (auto simp: bucket_ok_def slot_def dest!: spec [of _ f])
    with b inside_wf [OF _ assms(3,4)] show ?thesis by (simp add: bucket_ok_def)
  qed
  moreover have "bt_invar b" if "(k, b) \<in> set acc" for k b
  proof -
    have "map_of acc k = Some b" using that inv by (auto simp: bt_invar_def)
    then show ?thesis using ok [of k] by (simp add: bucket_of_def bucket_ok_def)
  qed
  ultimately show ?thesis using assms(2) inv
    unfolding sendable_def named_deltas_def by (fastforce simp: list_all_iff)
qed

text \<open>The cursor names the prefix of \<open>n\<close> entries, and the totals are its signed sum.\<close>

definition in_step ::
  "contributing \<Rightarrow> ('w \<Rightarrow> (nat \<times> change list) list) \<Rightarrow> ('w \<Rightarrow> nat) \<Rightarrow> ('w \<Rightarrow> string \<Rightarrow> string \<Rightarrow> rat) \<Rightarrow> nat \<Rightarrow> 'w \<Rightarrow> bool" where
  "in_step C feed cursor_at rolled n w = (n \<le> length (feed w) \<and> cursor_at w = stamp_at (feed w) n
     \<and> (\<forall>k f. rolled w k f = change_sum C (changes_to (feed w) n) k f))"

locale rollup_store =
  fixes sql :: "'w sql"
    and h :: "'w contributor"
    and C :: contributing
    and S :: nat
    and feed :: "'w \<Rightarrow> (nat \<times> change list) list"
    and cursor_at :: "'w \<Rightarrow> nat"
    and rolled :: "'w \<Rightarrow> string \<Rightarrow> string \<Rightarrow> rat"
    and good :: "(string \<times> string) list \<Rightarrow> bool"
  assumes feed_stamped: "stamped (feed w)"
    and feed_fits: "batch_fits S C (concat (map snd (feed w)))"
    and named: "well_named (C doc)"
    and cursor_law: "sql (cursor_sql h) w = (r, w') \<Longrightarrow>
      prefix (feed w) (feed w') \<and> cursor_at w' = cursor_at w \<and> rolled w' = rolled w \<and> (\<forall>v. r = Inr v \<longrightarrow> cursor_at w < 2 ^ 64 \<longrightarrow> cursor_value v = cursor_at w)"
    and feed_law: "sql (feed_sql h since limit) w = (r, w') \<Longrightarrow>
      prefix (feed w) (feed w') \<and> cursor_at w' = cursor_at w \<and> rolled w' = rolled w
      \<and> (\<forall>v chs vs. r = Inr v \<longrightarrow> json_rows v \<noteq> [] \<longrightarrow> decode_entries (json_rows v) = Inr (chs, vs) \<longrightarrow>
           (\<exists>m>0. m \<le> length (filter (\<lambda>e. since \<le> fst e) (feed w))
              \<and> chs = changes_to (filter (\<lambda>e. since \<le> fst e) (feed w)) m
              \<and> vs = stamp_at (filter (\<lambda>e. since \<le> fst e) (feed w)) m))
      \<and> (\<forall>v. r = Inr v \<longrightarrow> json_rows v = [] \<longrightarrow> limit = 1000 \<longrightarrow> filter (\<lambda>e. since \<le> fst e) (feed w) = [])"
    and batch_law: "sendable acc \<Longrightarrow> sql (batch_sql h acc vs) w = (r, w') \<Longrightarrow>
      prefix (feed w) (feed w')
      \<and> ((\<exists>e. r = Inl e) \<and> cursor_at w' = cursor_at w \<and> rolled w' = rolled w
         \<or> cursor_at w' = vs \<and> rolled w' = (\<lambda>k f. rolled w k f + delta acc k f))"
    and contrib_law: "good (ru_cache st) \<Longrightarrow> hd_contrib h doc st = (rc, st') \<Longrightarrow>
      good (ru_cache st') \<and> prefix (feed (ru_world st)) (feed (ru_world st')) \<and> cursor_at (ru_world st') = cursor_at (ru_world st)
      \<and> rolled (ru_world st') = rolled (ru_world st) \<and> (\<forall>cs. rc = Inr cs \<longrightarrow> cs = C doc)"
begin

definition synced :: "nat \<Rightarrow> 'w rollup_state \<Rightarrow> bool" where
  "synced n st = (good (ru_cache st) \<and> in_step C feed cursor_at rolled n (ru_world st))"

definition same_view :: "'w rollup_state \<Rightarrow> 'w rollup_state \<Rightarrow> bool" where
  "same_view st st' = (good (ru_cache st') \<and> prefix (feed (ru_world st)) (feed (ru_world st'))
     \<and> cursor_at (ru_world st') = cursor_at (ru_world st) \<and> rolled (ru_world st') = rolled (ru_world st))"

lemma same_view_refl: "good (ru_cache st) \<Longrightarrow> same_view st st"
  by (simp add: same_view_def)

lemma same_view_trans: "same_view a b \<Longrightarrow> same_view b c \<Longrightarrow> same_view a c"
  by (auto simp: same_view_def intro: prefix_order.trans)

lemma prefix_kept: "prefix es es' \<Longrightarrow> n \<le> length es \<Longrightarrow> stamp_at es' n = stamp_at es n \<and> changes_to es' n = changes_to es n"
  by (auto simp: prefix_def stamp_at_def changes_to_def nth_append)

lemma synced_view: "synced n st \<Longrightarrow> same_view st st' \<Longrightarrow> synced n st'"
  using prefix_kept [of "feed (ru_world st)" "feed (ru_world st')" n]
  by (auto simp: synced_def in_step_def same_view_def dest: prefix_length_le)

lemma at_world_view:
  assumes "at_world f st = (r, st')" and "good (ru_cache st)"
    and "\<And>w'. f (ru_world st) = (r, w') \<Longrightarrow> prefix (feed (ru_world st)) (feed w') \<and> cursor_at w' = cursor_at (ru_world st) \<and> rolled w' = rolled (ru_world st)"
  shows "same_view st st'"
  using assms by (auto simp: at_world_def same_view_def split: prod.splits)

lemma read_cursor_view:
  assumes "good (ru_cache st)" and "read_cursor sql h st = (r, st')"
  shows "same_view st st' \<and> (\<forall>n. r = Inr n \<longrightarrow> cursor_at (ru_world st) < 2 ^ 64 \<longrightarrow> n = cursor_at (ru_world st))"
  using assms cursor_law
  by (fastforce simp: read_cursor_def and_then_def at_world_def same_view_def split: prod.splits sum.splits)

text \<open>The fold of a batch that fits.\<close>

lemma fold_doc_exact:
  assumes "good (ru_cache st)" and "fold_doc h subtract d acc st = (Inr acc', st')"
    and "deltas_ok S B acc" and "scales_ok S (of_doc C d)" and "S \<le> 38"
    and "(B + weight (of_doc C d)) * 10 ^ S \<le> of_int i128_max"
  shows "same_view st st' \<and> deltas_ok S (B + weight (of_doc C d)) acc'
    \<and> (\<forall>k f. delta acc' k f = delta acc k f + sgn_of subtract * contributed (of_doc C d) k f)"
proof (cases d)
  case None
  with assms show ?thesis by (auto simp: fold_doc_def of_doc_def weight_def contributed_def intro: same_view_refl)
next
  case (Some doc)
  with assms(2) obtain cs where c: "hd_contrib h doc st = (Inr cs, st')"
      and a: "acc' = fold (add_contribution subtract) cs acc"
    by (auto simp: fold_doc_def and_then_Inr)
  have cs: "cs = of_doc C d" and v: "same_view st st'"
    using contrib_law [OF assms(1) c] Some by (auto simp: of_doc_def same_view_def)
  from add_contributions_exact [OF assms(3-6), of subtract] v show ?thesis unfolding a cs by blast
qed

lemma fold_doc_view:
  assumes "good (ru_cache st)" and "fold_doc h subtract d acc st = (r, st')"
  shows "same_view st st'"
proof (cases d)
  case (Some doc)
  then show ?thesis using assms contrib_law [OF assms(1), of doc]
    by (fastforce simp: fold_doc_def and_then_def same_view_def split: prod.splits sum.splits)
qed (use assms in \<open>simp add: fold_doc_def same_view_refl\<close>)

lemma fold_changes_view:
  assumes "good (ru_cache st)" and "fold_changes h chs acc st = (r, st')"
  shows "same_view st st'"
  using assms
proof (induction chs arbitrary: acc st)
  case (Cons ch chs)
  obtain r1 st1 where 1: "fold_doc h True (ch_before ch) acc st = (r1, st1)" by (cases "fold_doc h True (ch_before ch) acc st")
  have v1: "same_view st st1" by (rule fold_doc_view [OF Cons.prems(1) 1])
  show ?case
  proof (cases r1)
    case (Inl e)
    with 1 v1 Cons.prems(2) show ?thesis by simp
  next
    case (Inr acc1)
    obtain r2 st2 where 2: "fold_doc h False (ch_after ch) acc1 st1 = (r2, st2)" by (cases "fold_doc h False (ch_after ch) acc1 st1")
    have v2: "same_view st1 st2" using fold_doc_view [OF _ 2] v1 by (simp add: same_view_def)
    show ?thesis
    proof (cases r2)
      case (Inl e)
      with 1 2 Inr v1 v2 Cons.prems(2) show ?thesis using same_view_trans by auto
    next
      case (Inr acc2)
      with 1 2 \<open>r1 = Inr acc1\<close> Cons.prems(2) have "fold_changes h chs acc2 st2 = (r, st')" by simp
      from Cons.IH [OF _ this] v1 v2 show ?thesis by (meson same_view_def same_view_trans)
    qed
  qed
qed (simp add: same_view_refl)

lemma fold_changes_exact:
  assumes "good (ru_cache st)" and "fold_changes h chs acc st = (Inr acc', st')"
    and "deltas_ok S B acc" and "change_scales S C chs" and "S \<le> 38"
    and "(B + change_weight C chs) * 10 ^ S \<le> of_int i128_max"
  shows "deltas_ok S (B + change_weight C chs) acc' \<and> (\<forall>k f. delta acc' k f = delta acc k f + change_sum C chs k f)"
  using assms
proof (induction chs arbitrary: acc st B)
  case (Cons ch chs)
  let ?b = "of_doc C (ch_before ch)" and ?a = "of_doc C (ch_after ch)"
  obtain acc1 st1 acc2 st2 where 1: "fold_doc h True (ch_before ch) acc st = (Inr acc1, st1)"
    and 2: "fold_doc h False (ch_after ch) acc1 st1 = (Inr acc2, st2)" and 3: "fold_changes h chs acc2 st2 = (Inr acc', st')"
    using Cons.prems(2) by (auto simp: and_then_Inr)
  have w: "B + change_weight C (ch # chs) = (B + weight ?b) + weight ?a + change_weight C chs" by simp
  note fit = Cons.prems(6) [unfolded w]
  have sb: "scales_ok S ?b" and sa: "scales_ok S ?a" and sc: "change_scales S C chs"
    using Cons.prems(4) by (simp_all add: change_scales_def)
  have fa: "(B + weight ?b + weight ?a) * 10 ^ S \<le> of_int i128_max" by (rule fits_less [OF fit]) simp
  have fb: "(B + weight ?b) * 10 ^ S \<le> of_int i128_max" by (rule fits_less [OF fa]) simp
  note e1 = fold_doc_exact [OF Cons.prems(1) 1 Cons.prems(3) sb Cons.prems(5) fb]
  note e2 = fold_doc_exact [OF _ 2 e1 [THEN conjunct2, THEN conjunct1] sa Cons.prems(5) fa]
  have g1: "good (ru_cache st1)" using e1 by (simp add: same_view_def)
  note e2 = e2 [OF g1]
  have g2: "good (ru_cache st2)" using e2 by (simp add: same_view_def)
  from Cons.IH [OF g2 3 e2 [THEN conjunct2, THEN conjunct1] sc Cons.prems(5) fit] e1 e2 w
  show ?case by (simp add: add.assoc)
qed simp

lemma fold_changes_named:
  "good (ru_cache st) \<Longrightarrow> named_deltas acc \<Longrightarrow> fold_changes h chs acc st = (Inr acc', st') \<Longrightarrow> named_deltas acc'"
proof (induction chs arbitrary: acc st)
  case (Cons ch chs)
  obtain acc1 st1 acc2 st2 where 1: "fold_doc h True (ch_before ch) acc st = (Inr acc1, st1)"
    and 2: "fold_doc h False (ch_after ch) acc1 st1 = (Inr acc2, st2)" and 3: "fold_changes h chs acc2 st2 = (Inr acc', st')"
    using Cons.prems(3) by (auto simp: and_then_Inr)
  have one: "named_deltas b \<and> good (ru_cache t')"
    if "fold_doc h sb d a t = (Inr b, t')" "named_deltas a" "good (ru_cache t)" for sb d a b t t'
  proof (cases d)
    case None
    with that show ?thesis by (simp add: fold_doc_def)
  next
    case (Some doc)
    with that(1) obtain cs where c: "hd_contrib h doc t = (Inr cs, t')" and b: "b = fold (add_contribution sb) cs a"
      by (auto simp: fold_doc_def and_then_Inr)
    with contrib_law [OF that(3) c] named [of doc] that(2) show ?thesis by (simp add: add_contributions_named)
  qed
  from one [OF 1 Cons.prems(2,1)] one [OF 2] Cons.IH [OF _ _ 3] show ?case by blast
qed simp

section \<open>One pass\<close>

lemma failing_eq [simp]:
  "failing x = (Inr a, st) \<longleftrightarrow> x = (Inr a, st)"
  "(\<exists>e. failing x = (Inl e, st)) \<longleftrightarrow> (\<exists>e. x = (Inl e, st))"
  by (cases x; cases "fst x"; force simp: failing_def)+

lemma sum_weight_le:
  "change_weight C (changes_to es m) \<le> change_weight C (concat (map snd es))"
proof -
  have "concat (map snd es) = changes_to es m @ concat (map snd (drop m es))"
    unfolding changes_to_def by (simp flip: concat_append map_append)
  then show ?thesis by simp
qed

lemma part_fits:
  assumes "batch_fits S C (concat (map snd es))" and "es = a @ b @ c"
  shows "batch_fits S C (concat (map snd b))"
proof -
  have e: "concat (map snd es) = concat (map snd a) @ concat (map snd b) @ concat (map snd c)" using assms(2) by simp
  have "change_weight C (concat (map snd b)) * 10 ^ S \<le> change_weight C (concat (map snd es)) * 10 ^ S"
    by (rule mult_right_mono) (simp_all add: e)
  moreover have "change_weight C (concat (map snd es)) * 10 ^ S \<le> of_int i128_max" and "S \<le> 38"
    and "change_scales S C (concat (map snd b))"
    using assms(1) by (simp_all add: batch_fits_def e)
  ultimately show ?thesis unfolding batch_fits_def by (blast intro: order_trans)
qed

lemma changes_to_add: "changes_to es (n + m) = changes_to es n @ changes_to (drop n es) m"
  by (simp add: changes_to_def take_add)

lemma stamp_at_add: "0 < m \<Longrightarrow> n + m \<le> length es \<Longrightarrow> stamp_at (drop n es) m = stamp_at es (n + m)"
  by (simp add: stamp_at_def)

lemma apply_batch:
  assumes "synced n st" and "m > 0" and "n + m \<le> length (feed (ru_world st))"
    and "chs = changes_to (drop n (feed (ru_world st))) m" and "vs = stamp_at (feed (ru_world st)) (n + m)"
    and "fold_changes h chs [] st = (Inr acc, st1)" and "at_world (sql (batch_sql h acc vs)) st1 = (r, st2)"
  shows "prefix (feed (ru_world st)) (feed (ru_world st2)) \<and> (synced (n + m) st2 \<or> (\<exists>e. r = Inl e) \<and> synced n st2)"
proof -
  have good: "good (ru_cache st)" using assms(1) by (simp add: synced_def)
  let ?es = "feed (ru_world st)"
  have fits: "batch_fits S C chs"
    unfolding assms(4) changes_to_def
    by (rule part_fits [OF feed_fits [of "ru_world st"], where a = "take n ?es" and c = "drop m (drop n ?es)"])
      (simp only: append_take_drop_id)
  then have f: "change_scales S C chs" "S \<le> 38" "(0 + change_weight C chs) * 10 ^ S \<le> of_int i128_max"
    by (simp_all add: batch_fits_def)
  note e = fold_changes_exact [OF good assms(6) deltas_empty(1) f]
  have n: "named_deltas acc" by (rule fold_changes_named [OF good _ assms(6)]) (simp add: named_deltas_def)
  have sendable: "sendable acc" by (rule deltas_sendable [OF e [THEN conjunct1] n f(2,3)])
  have d: "delta acc k f = change_sum C chs k f" for k f using e by simp
  have v1: "same_view st st1" by (rule fold_changes_view [OF good assms(6)])
  have s1: "synced n st1" by (rule synced_view [OF assms(1) v1])
  have p1: "prefix ?es (feed (ru_world st1))" and g1: "good (ru_cache st1)" using v1 by (simp_all add: same_view_def)
  obtain w2 where w2: "sql (batch_sql h acc vs) (ru_world st1) = (r, w2)" "st2 = st1\<lparr>ru_world := w2\<rparr>"
    using assms(7) by (auto simp: at_world_def split: prod.splits)
  note law = batch_law [OF sendable w2(1)]
  have p2: "prefix (feed (ru_world st1)) (feed w2)" using law by blast
  have p: "prefix ?es (feed w2)" using p1 p2 by (rule prefix_order.trans)
  have "synced (n + m) st2 \<or> (\<exists>e. r = Inl e) \<and> synced n st2"
  proof (cases "cursor_at w2 = cursor_at (ru_world st1) \<and> rolled w2 = rolled (ru_world st1) \<and> (\<exists>e. r = Inl e)")
    case True
    then have "same_view st1 st2" using p2 g1 w2(2) by (simp add: same_view_def)
    with True synced_view [OF s1] show ?thesis by blast
  next
    case False
    with law have c: "cursor_at w2 = vs" and t: "rolled w2 = (\<lambda>k f. rolled (ru_world st1) k f + delta acc k f)" by auto
    have le: "n + m \<le> length (feed w2)" using assms(3) prefix_length_le [OF p] by simp
    have "changes_to (feed w2) (n + m) = changes_to (feed w2) n @ chs"
      using prefix_kept [OF p assms(3)] prefix_kept [OF p, of n] assms(3,4) by (simp add: changes_to_add)
    moreover have "rolled (ru_world st1) k f = change_sum C (changes_to (feed w2) n) k f" for k f
      using s1 prefix_kept [OF p2, of n] by (simp add: synced_def in_step_def)
    moreover have "vs = stamp_at (feed w2) (n + m)" using prefix_kept [OF p assms(3)] assms(5) by simp
    ultimately have "synced (n + m) st2" using w2(2) c t d le g1 by (simp add: synced_def in_step_def)
    then show ?thesis ..
  qed
  with p w2(2) show ?thesis by simp
qed

lemma stamp_bound: "n \<le> length (feed w) \<Longrightarrow> stamp_at (feed w) n < 2 ^ 64 - 1"
  using feed_stamped [of w] by (cases n) (auto simp: stamp_at_def stamped_def list_all_iff)

lemma apply_changes_synced:
  assumes "synced n st" and "m > 0" and "n + m \<le> length (feed (ru_world st))"
    and "chs = changes_to (drop n (feed (ru_world st))) m" and "vs = stamp_at (feed (ru_world st)) (n + m)"
    and "apply_changes sql h chs vs st = (r, st')"
  shows "synced (n + m) st' \<and> (\<forall>c. r = Inr c \<longrightarrow> c = length (changes_to (drop n (feed (ru_world st'))) m))
    \<or> (\<exists>e. r = Inl e) \<and> synced n st'"
proof -
  obtain r1 st1 where 1: "fold_changes h chs [] st = (r1, st1)" by (cases "fold_changes h chs [] st")
  have v1: "same_view st st1" using fold_changes_view [OF _ 1] assms(1) by (simp add: synced_def)
  show ?thesis
  proof (cases r1)
    case (Inl e)
    with assms(6) 1 have "st' = st1" "\<exists>f. r = Inl f" by (auto simp: apply_changes_def failing_def)
    with synced_view [OF assms(1) v1] show ?thesis by blast
  next
    case (Inr acc)
    obtain r2 st2 where 2: "at_world (sql (batch_sql h acc vs)) st1 = (r2, st2)"
      by (cases "at_world (sql (batch_sql h acc vs)) st1")
    have s2: "prefix (feed (ru_world st)) (feed (ru_world st2))"
        "synced (n + m) st2 \<or> (\<exists>e. r2 = Inl e) \<and> synced n st2"
      using apply_batch [OF assms(1-5) 1 [unfolded Inr] 2] by simp_all
    have st': "st' = st2" "r = (case r2 of Inl e \<Rightarrow> Inl (Failed e) | Inr _ \<Rightarrow> Inr (length chs))"
      using assms(6) 1 Inr 2 by (cases r2; simp add: apply_changes_def failing_def)+
    have "chs = changes_to (drop n (feed (ru_world st2))) m"
      using assms(3,4) prefix_kept [OF s2(1) assms(3)] prefix_kept [OF s2(1), of n] by (simp add: changes_to_add)
    with s2(2) st' show ?thesis by (cases r2) auto
  qed
qed

text \<open>What the feed query answers when the worker is in step.\<close>

lemma feed_answer:
  assumes "synced n st" and "at_world (sql (feed_sql h (next_stamp (cursor_at (ru_world st))) limit)) st = (r, st')"
  shows "synced n st'"
    and "r = Inr v \<Longrightarrow> json_rows v = [] \<Longrightarrow> limit = 1000 \<Longrightarrow> \<exists>w'. n = length (feed w')"
    and "r = Inr v \<Longrightarrow> json_rows v \<noteq> [] \<Longrightarrow> decode_entries (json_rows v) = Inr (chs, vs) \<Longrightarrow>
      \<exists>m>0. n + m \<le> length (feed (ru_world st')) \<and> chs = changes_to (drop n (feed (ru_world st'))) m
        \<and> vs = stamp_at (feed (ru_world st')) (n + m)"
proof -
  let ?es = "feed (ru_world st)"
  have le: "n \<le> length ?es" and c: "cursor_at (ru_world st) = stamp_at ?es n"
    using assms(1) by (simp_all add: synced_def in_step_def)
  have "next_stamp (cursor_at (ru_world st)) = stamp_at ?es n + 1"
    using stamp_bound [OF le] c by (simp add: next_stamp_def)
  then have pending: "filter (\<lambda>e. next_stamp (cursor_at (ru_world st)) \<le> fst e) ?es = drop n ?es"
    using stamped_pending [OF feed_stamped le] by simp
  obtain w where w: "sql (feed_sql h (next_stamp (cursor_at (ru_world st))) limit) (ru_world st) = (r, w)" "st' = st\<lparr>ru_world := w\<rparr>"
    using assms(2) by (auto simp: at_world_def split: prod.splits)
  note law = feed_law [OF w(1), unfolded pending]
  have v: "same_view st st'" using law w(2) assms(1) by (simp add: same_view_def synced_def)
  show "synced n st'" by (rule synced_view [OF assms(1) v])
  have p: "prefix ?es (feed (ru_world st'))" using v by (simp add: same_view_def)
  show "\<exists>w'. n = length (feed w')" if "r = Inr v" "json_rows v = []" "limit = 1000"
    using law that le by (intro exI [of _ "ru_world st"]) simp
  show "\<exists>m>0. n + m \<le> length (feed (ru_world st')) \<and> chs = changes_to (drop n (feed (ru_world st'))) m
      \<and> vs = stamp_at (feed (ru_world st')) (n + m)"
    if rv: "r = Inr v" "json_rows v \<noteq> []" "decode_entries (json_rows v) = Inr (chs, vs)"
  proof -
    obtain m where m: "m > 0" "m \<le> length (drop n ?es)" "chs = changes_to (drop n ?es) m" "vs = stamp_at (drop n ?es) m"
      using law rv by blast
    have nm: "n + m \<le> length ?es" using m(2) le by simp
    have "vs = stamp_at (feed (ru_world st')) (n + m)"
      using m(4) stamp_at_add [OF m(1) nm] prefix_kept [OF p nm] by simp
    moreover have "chs = changes_to (drop n (feed (ru_world st'))) m"
      using m(3) prefix_kept [OF p nm] prefix_kept [OF p le] by (simp add: changes_to_add)
    moreover have "n + m \<le> length (feed (ru_world st'))" using nm prefix_length_le [OF p] by simp
    ultimately show ?thesis using m(1) by blast
  qed
qed

text \<open>A pass leaves the worker in step, at the same entry or at a later one; if it reports changes, at a later one.\<close>

lemma tick_synced:
  assumes "synced n st" and "rollup_tick sql h limit st = (r, st')"
  shows "\<exists>m. synced (n + m) st' \<and> (\<forall>c. r = Inr c \<longrightarrow> c = length (changes_to (drop n (feed (ru_world st'))) m))
    \<and> (limit = 1000 \<longrightarrow> m = 0 \<longrightarrow> (\<exists>c. r = Inr c) \<longrightarrow> (\<exists>w'. n = length (feed w')))"
proof -
  have good: "good (ru_cache st)" using assms(1) by (simp add: synced_def)
  obtain r1 st1 where 1: "read_cursor sql h st = (r1, st1)" by (cases "read_cursor sql h st")
  have v1: "same_view st st1" and n1: "\<And>vs. r1 = Inr vs \<Longrightarrow> vs = cursor_at (ru_world st1)"
    using read_cursor_view [OF good 1] stamp_bound [of n "ru_world st"] assms(1)
    by (auto simp: same_view_def synced_def in_step_def)
  have s1: "synced n st1" by (rule synced_view [OF assms(1) v1])
  have failed: ?thesis if "synced n st'" "r = Inl e" for e
    using that by (intro exI [of _ 0]) simp
  show ?thesis
  proof (cases r1)
    case (Inl e)
    with 1 assms(2) s1 show ?thesis by (intro failed [of "Failed e"]) (simp_all add: rollup_tick_def failing_def)
  next
    case (Inr c)
    then have r1: "r1 = Inr (cursor_at (ru_world st1))" using n1 by simp
    let ?q = "feed_sql h (next_stamp (cursor_at (ru_world st1))) limit"
    obtain r2 st2 where 2: "at_world (sql ?q) st1 = (r2, st2)" by (cases "at_world (sql ?q) st1")
    note ans = feed_answer [OF s1 2]
    show ?thesis
    proof (cases r2)
      case (Inl e)
      with 1 2 r1 assms(2) ans(1) show ?thesis by (intro failed [of "Failed e"]) (simp_all add: rollup_tick_def failing_def)
    next
      case (Inr v)
      have step: "(if json_rows v = [] then (Inr 0, st2)
          else and_then (lift_res (decode_entries (json_rows v)) st2) (\<lambda>(changes, last_vs) st3. apply_changes sql h changes last_vs st3)) = (r, st')"
        using assms(2) 1 2 r1 Inr by (simp add: rollup_tick_def failing_def)
      show ?thesis
      proof (cases "json_rows v = [] \<or> (\<exists>e. decode_entries (json_rows v) = Inl e)")
        case True
        with step ans(1) ans(2) [OF Inr] show ?thesis by (intro exI [of _ 0]) (auto simp: changes_to_def lift_res_def split: if_splits)
      next
        case False
        then obtain chs vs where dec: "decode_entries (json_rows v) = Inr (chs, vs)"
          by (cases "decode_entries (json_rows v)") auto
        then have app: "apply_changes sql h chs vs st2 = (r, st')" using step False by simp
        obtain m where "m > 0" "n + m \<le> length (feed (ru_world st2))" "chs = changes_to (drop n (feed (ru_world st2))) m"
            "vs = stamp_at (feed (ru_world st2)) (n + m)"
          using ans(3) [OF Inr _ dec] False by blast
        from apply_changes_synced [OF ans(1) this app] \<open>m > 0\<close> failed show ?thesis by blast
      qed
    qed
  qed
qed

end

section \<open>Passes until nothing is left\<close>

text \<open>A feed that does not grow, all of whose entries hold a change.\<close>

locale quiet_rollup_store = rollup_store +
  fixes es :: "(nat \<times> change list) list"
  assumes quiet: "feed w = es"
    and changing: "e \<in> set es \<Longrightarrow> snd e \<noteq> []"
begin

lemma changes_nonempty: "0 < m \<Longrightarrow> n + m \<le> length es \<Longrightarrow> changes_to (drop n es) m \<noteq> []"
proof -
  assume m: "0 < m" and le: "n + m \<le> length es"
  then have "es ! n \<in> set (take m (drop n es))" by (auto simp: in_set_conv_nth intro: exI [of _ 0])
  moreover have "es ! n \<in> set es" using m le by simp
  ultimately show ?thesis using changing [of "es ! n"] by (auto simp: changes_to_def)
qed

lemma drain_from_done:
  assumes "synced n st"
  shows "\<exists>r st' m. drain_from sql h sofar st = Some (r, st') \<and> n \<le> m \<and> synced m st'
    \<and> (\<forall>c. r = Inr c \<longrightarrow> m = length es \<and> c = sofar + length (changes_to (drop n es) (m - n)))"
  using assms
proof (induction "length es - n" arbitrary: n st sofar rule: less_induct)
  case less
  obtain r st' where t: "rollup_tick sql h 1000 st = (r, st')" by (cases "rollup_tick sql h 1000 st")
  obtain m where m: "synced (n + m) st'"
      "\<And>c. r = Inr c \<Longrightarrow> c = length (changes_to (drop n es) m)"
      "m = 0 \<Longrightarrow> \<exists>c. r = Inr c \<Longrightarrow> n = length es"
    using tick_synced [OF less.prems t] quiet by auto
  have le: "n + m \<le> length es" using m(1) quiet by (simp add: synced_def in_step_def)
  show ?case
  proof (cases r)
    case (Inl e)
    with t m(1) show ?thesis by (intro exI [of _ r] exI [of _ st'] exI [of _ "n + m"]) (simp add: drain_from.simps [of sql h sofar st])
  next
    case (Inr c)
    show ?thesis
    proof (cases "m = 0")
      case True
      with Inr m t show ?thesis
        by (intro exI [of _ "Inr sofar"] exI [of _ st'] exI [of _ n]) (simp add: drain_from.simps [of sql h sofar st] changes_to_def)
    next
      case False
      then have pos: "0 < c" using m(2) [OF Inr] changes_nonempty [OF _ le] by simp
      have "length es - (n + m) < length es - n" using False le by simp
      from less.hyps [OF this m(1), of "sofar + c"] obtain r2 st2 m2
        where d: "drain_from sql h (sofar + c) st' = Some (r2, st2)" "n + m \<le> m2" "synced m2 st2"
          "\<And>x. r2 = Inr x \<Longrightarrow> m2 = length es \<and> x = (sofar + c) + length (changes_to (drop (n + m) es) (m2 - (n + m)))" by blast
      have "m + (m2 - (n + m)) = m2 - n" using d(2) by simp
      then have e: "length (changes_to (drop n es) (m2 - n)) = c + length (changes_to (drop (n + m) es) (m2 - (n + m)))"
        using changes_to_add [of "drop n es" m "m2 - (n + m)"] m(2) [OF Inr] by (simp add: add.commute)
      have "drain_from sql h sofar st = Some (r2, st2)"
        using d(1) t Inr pos by (simp add: drain_from.simps [of sql h sofar st])
      moreover have "m2 = length es \<and> x = sofar + length (changes_to (drop n es) (m2 - n))" if "r2 = Inr x" for x
        using d(4) [OF that] unfolding e by simp
      ultimately show ?thesis using d(2,3) by (meson add_leE)
    qed
  qed
qed

lemma drain_done:
  assumes "synced n st"
  shows "\<exists>r st' m. rollup_drain sql h st = Some (r, st') \<and> synced m st' \<and> (\<forall>c. r = Inr c \<longrightarrow> m = length es)"
  unfolding rollup_drain_def using drain_from_done [OF assms, of 0] by blast

end

end
