(* ===== verification/Rollup_Demo.thy ===== *)
theory Rollup_Demo
  imports Rollup_Store Text_Read
begin

text \<open>
  The two contributors keep the contract of \<open>rollup_store\<close>, and a concrete database whose feed has three
  entries (a document is created, changed and deleted while another stays) reads the worker's
  statements back from their text.
\<close>

section \<open>Reading the batch\<close>

definition field_text :: "string \<Rightarrow> string" where
  "field_text f = '' = ('' @ f @ '' ?? 0dec) + ''"

definition word_char :: "char \<Rightarrow> bool" where
  "word_char c = (is_alnum c \<or> c = CHR ''_'')"

definition read_field :: "string \<Rightarrow> ((string \<times> decimal) \<times> string) option" where
  "read_field s =
     (case read_span word_char s of (f, r) \<Rightarrow>
        Option.bind (strip_prefix (field_text f) r) (\<lambda>r.
        Option.bind (read_decimal r) (\<lambda>(d, r).
        map_option (\<lambda>r. ((f, d), r)) (strip_prefix ''dec'' r))))"

lemma read_field_set:
  assumes "word_chars f" and "wf_decimal d" and "de_mantissa d \<noteq> i128_min"
  shows "read_field (field_set (f, d) @ s) = Some ((f, d), s)"
proof -
  have w: "list_all word_char f" using assms(1) by (simp add: word_chars_def word_char_def [abs_def])
  have t: "field_set (f, d) @ s = f @ (field_text f @ (to_plain_string d @ (''dec'' @ s)))"
    by (simp add: field_set_def field_text_def)
  have "read_span word_char (f @ (field_text f @ (to_plain_string d @ (''dec'' @ s))))
      = (f, field_text f @ (to_plain_string d @ (''dec'' @ s)))"
    by (rule read_span_append [OF w]) (simp add: field_text_def word_char_def is_alnum_def is_digit_def)
  moreover have "read_decimal (to_plain_string d @ (''dec'' @ s)) = Some (d, ''dec'' @ s)"
    by (rule read_decimal_plain [OF assms(2,3)]) (simp add: plain_char_def is_digit_def)
  moreover have "strip_prefix ''dec'' (''dec'' @ s) = Some s" by (rule strip_prefix_append)
  ultimately show ?thesis unfolding t read_field_def by (simp only: prod.case strip_prefix_append Option.bind.bind_lunit option.map)
qed

text \<open>Fields up to the semicolon.\<close>

fun read_fields :: "nat \<Rightarrow> string \<Rightarrow> ((string \<times> decimal) list \<times> string) option" where
  "read_fields 0 s = None"
| "read_fields (Suc n) s =
     Option.bind (read_field s) (\<lambda>(fd, r).
       case strip_prefix '', '' r of
         Some r \<Rightarrow> map_option (\<lambda>(fds, r). (fd # fds, r)) (read_fields n r)
       | None \<Rightarrow> map_option (\<lambda>r. ([fd], r)) (strip_prefix ''; '' r))"

lemma read_fields_sets:
  assumes "fds \<noteq> []" and "length fds \<le> n"
    and "list_all (\<lambda>(f, d). f \<noteq> [] \<and> word_chars f \<and> wf_decimal d \<and> de_mantissa d \<noteq> i128_min) fds"
  shows "read_fields n (join '', '' (map field_set fds) @ ''; '' @ s) = Some (fds, s)"
  using assms
proof (induction fds arbitrary: n)
  case (Cons fd fds)
  obtain f d where fd: "fd = (f, d)" by (cases fd)
  obtain m where n: "n = Suc m" using Cons.prems(2) by (cases n) auto
  note one = read_field_set [of f d]
  have ok: "word_chars f" "wf_decimal d" "de_mantissa d \<noteq> i128_min" using Cons.prems(3) fd by simp_all
  show ?case
  proof (cases fds)
    case Nil
    with one [OF ok, of "''; '' @ s"] show ?thesis by (simp add: n fd strip_prefix_def)
  next
    case (Cons x xs)
    have t: "join '', '' (map field_set (fd # fds)) @ ''; '' @ s
        = field_set (f, d) @ ('', '' @ (join '', '' (map field_set fds) @ ''; '' @ s))"
      using Cons by (simp add: fd)
    have "read_fields m (join '', '' (map field_set fds) @ ''; '' @ s) = Some (fds, s)"
      using Cons.IH [of m] Cons.prems n Cons by simp
    then show ?thesis unfolding t n read_fields.simps one [OF ok]
      by (simp only: Option.bind.bind_lunit prod.case strip_prefix_append option.case) (simp add: fd)
  qed
qed simp

definition read_bucket :: "string \<Rightarrow> string \<Rightarrow> ((string \<times> (string, decimal) btree) \<times> string) option" where
  "read_bucket rollup s =
     Option.bind (quoted (''UPSERT type::record('' @ sq @ rollup @ sq @ '', '') s) (\<lambda>(k, r).
     Option.bind (quoted '') SET k = '' r) (\<lambda>(_, r).
     Option.bind (strip_prefix '', '' r) (\<lambda>r.
     map_option (\<lambda>(fds, r). ((k, fds), r)) (read_fields (length r) r))))"

lemma join_length: "length fds \<le> length (join '', '' (map field_set fds)) + 1"
proof (induction fds)
  case (Cons fd fds)
  then show ?case by (cases fds) (auto simp: field_set_def split: prod.split)
qed simp

lemma read_bucket_sql:
  assumes "fds \<noteq> []"
    and "list_all (\<lambda>(f, d). f \<noteq> [] \<and> word_chars f \<and> wf_decimal d \<and> de_mantissa d \<noteq> i128_min) fds"
  shows "read_bucket (hd_rollup h) (bucket_sql h (k, fds) @ s) = Some ((k, fds), s)"
proof -
  let ?b = "join '', '' (map field_set fds) @ ''; '' @ s"
  have t: "bucket_sql h (k, fds) @ s = (''UPSERT type::record('' @ sq @ hd_rollup h @ sq @ '', '') @ quote_literal k
      @ ('') SET k = '' @ quote_literal k @ ('', '' @ ?b))"
    by (simp add: bucket_sql_def sq_def)
  have "read_fields (length ?b) ?b = Some (fds, s)"
    using join_length [of fds] by (intro read_fields_sets [OF assms(1) _ assms(2)]) simp
  then show ?thesis unfolding t read_bucket_def
    by (simp only: quoted_lit Option.bind.bind_lunit prod.case strip_prefix_append option.map)
qed

fun read_buckets :: "string \<Rightarrow> nat \<Rightarrow> string \<Rightarrow> (deltas \<times> string) option" where
  "read_buckets rollup 0 s = None"
| "read_buckets rollup (Suc n) s =
     (case strip_prefix ''UPSERT type'' s of
        None \<Rightarrow> Some ([], s)
      | Some _ \<Rightarrow>
          Option.bind (read_bucket rollup s) (\<lambda>(kb, r).
            map_option (\<lambda>(acc, r). (kb # acc, r)) (read_buckets rollup n r)))"

definition cursor_tail :: "'w contributor \<Rightarrow> nat \<Rightarrow> string" where
  "cursor_tail h vs = ''UPSERT '' @ cursor_id h @ '' SET vs = '' @ nat_str vs @ '', updated_at = time::now(); COMMIT;''"

lemma read_buckets_sql:
  assumes "length acc < n"
    and "list_all (\<lambda>(_, b). b \<noteq> [] \<and> bt_invar b \<and> list_all (\<lambda>(f, d). f \<noteq> [] \<and> word_chars f
     \<and> wf_decimal d \<and> de_mantissa d \<noteq> i128_min) b) acc"
  shows "read_buckets (hd_rollup h) n (concat (map (bucket_sql h) acc) @ cursor_tail h vs) = Some (acc, cursor_tail h vs)"
  using assms
proof (induction acc arbitrary: n)
  case Nil
  then obtain m where "n = Suc m" by (cases n) auto
  moreover have "strip_prefix ''UPSERT type'' (cursor_tail h vs) = None"
    by (simp add: cursor_tail_def cursor_id_def CURSOR_TABLE_def strip_prefix_def)
  ultimately show ?case by simp
next
  case (Cons kb acc)
  obtain k b where kb: "kb = (k, b)" by (cases kb)
  obtain m where n: "n = Suc m" using Cons.prems(1) by (cases n) auto
  let ?r = "concat (map (bucket_sql h) acc) @ cursor_tail h vs"
  have b: "b \<noteq> []" "list_all (\<lambda>(f, d). f \<noteq> [] \<and> word_chars f \<and> wf_decimal d \<and> de_mantissa d \<noteq> i128_min) b"
    using Cons.prems(2) kb by simp_all
  have p: "strip_prefix ''UPSERT type'' (bucket_sql h (k, b) @ ?r) \<noteq> None"
    by (simp add: bucket_sql_def strip_prefix_def)
  have "read_buckets (hd_rollup h) m ?r = Some (acc, cursor_tail h vs)"
    using Cons.IH [of m] Cons.prems n by simp
  with p read_bucket_sql [OF b, of h k ?r] show ?case
    by (simp add: n kb del: append_assoc) (simp split: option.split)
qed

definition read_batch :: "'w contributor \<Rightarrow> string \<Rightarrow> (deltas \<times> nat) option" where
  "read_batch h q =
     Option.bind (strip_prefix ''BEGIN; '' q) (\<lambda>r.
     Option.bind (read_buckets (hd_rollup h) (length r) r) (\<lambda>(acc, r).
     Option.bind (strip_prefix (''UPSERT '' @ cursor_id h @ '' SET vs = '') r) (\<lambda>r.
       Some (acc, fst (read_nat r)))))"

lemma bucket_sql_length: "length acc \<le> length (concat (map (bucket_sql h) acc))"
  by (induction acc) (auto simp: bucket_sql_def split: prod.split)

lemma read_batch_sql:
  assumes "sendable acc"
  shows "read_batch h (batch_sql h acc vs) = Some (acc, vs)"
proof -
  let ?r = "concat (map (bucket_sql h) acc) @ cursor_tail h vs"
  have t: "batch_sql h acc vs = ''BEGIN; '' @ ?r" by (simp add: batch_sql_def cursor_tail_def)
  have "length acc < length ?r"
    using bucket_sql_length [of acc h] by (simp add: cursor_tail_def)
  then have b: "read_buckets (hd_rollup h) (length ?r) ?r = Some (acc, cursor_tail h vs)"
    using assms by (intro read_buckets_sql) (simp_all add: sendable_def)
  have c: "cursor_tail h vs = (''UPSERT '' @ cursor_id h @ '' SET vs = '') @ (nat_str vs @ '', updated_at = time::now(); COMMIT;'')"
    by (simp add: cursor_tail_def)
  have "strip_prefix (''UPSERT '' @ cursor_id h @ '' SET vs = '') (cursor_tail h vs) = Some (nat_str vs @ '', updated_at = time::now(); COMMIT;'')"
    unfolding c by (rule strip_prefix_append)
  moreover have "read_nat (nat_str vs @ '', updated_at = time::now(); COMMIT;'') = (vs, '', updated_at = time::now(); COMMIT;'')"
    by (rule read_nat_str) (simp add: is_digit_def)
  ultimately show ?thesis unfolding read_batch_def t using b
    by (simp only: strip_prefix_append Option.bind.bind_lunit prod.case fst_conv)
qed

section \<open>The contributors of the code\<close>

lemma item_lines_named: "well_named (item_lines doc)"
proof -
  have "word_chars ''qty''" "word_chars ''amount''" by code_simp+
  then show ?thesis by (auto simp: well_named_def item_lines_def list_all_iff)
qed

text \<open>Revenue by group is a function of the document alone as long as no customer changes its group.\<close>

definition group_contribution :: "(string \<Rightarrow> string) \<Rightarrow> contributing" where
  "group_contribution grp doc =
     (case json_str_at ''customer'' doc of
        None \<Rightarrow> []
      | Some c \<Rightarrow> [(grp c, [(''revenue'', from_json (json_get ''total'' doc)), (''n'', decimal_one)])])"

lemma group_contrib_law:
  assumes "\<And>c rid w v w'. render_value (VRecordId c) = Inr rid \<Longrightarrow> sql (group_sql hop rid) w = (Inr v, w') \<Longrightarrow>
      grp c = (case json_str v of Some s \<Rightarrow> s | None \<Rightarrow> ''(none)'')"
    and "\<forall>(c, g) \<in> set (ru_cache st). g = grp c" and "group_contrib sql hop doc st = (r, st')"
  shows "(\<forall>(c, g) \<in> set (ru_cache st'). g = grp c) \<and> (\<forall>cs. r = Inr cs \<longrightarrow> cs = group_contribution grp doc)"
proof (cases "json_str_at ''customer'' doc")
  case None
  with assms show ?thesis by (auto simp: group_contrib_def group_contribution_def)
next
  case (Some c)
  have "(\<forall>(c, g) \<in> set (ru_cache st'). g = grp c) \<and> (\<forall>g. fst (group_of sql hop c st) = Inr g \<longrightarrow> g = grp c)"
  proof (cases "map_of (ru_cache st) c")
    case (Some g)
    with assms(2,3) \<open>json_str_at ''customer'' doc = Some c\<close> show ?thesis
      by (auto simp: group_contrib_def group_of_def dest!: map_of_SomeD)
  next
    case None
    show ?thesis
    proof (cases "render_value (VRecordId c)")
      case (Inl e)
      with None assms(2,3) \<open>json_str_at ''customer'' doc = Some c\<close> show ?thesis
        by (auto simp: group_contrib_def group_of_def simp del: render_value.simps)
    next
      case (Inr rid)
      with None assms(1) [OF Inr] assms(2,3) \<open>json_str_at ''customer'' doc = Some c\<close> show ?thesis
        by (auto simp: group_contrib_def group_of_def at_world_def and_then_def Let_def simp del: render_value.simps
          split: prod.splits sum.splits if_splits)
    qed
  qed
  with Some assms(3) show ?thesis
    by (auto simp: group_contrib_def group_contribution_def and_then_def split: prod.splits sum.splits)
qed

text \<open>The bounds of \<open>i128\<close> as numerals, so that decimals evaluate quickly.\<close>

declare i128_bounds [code]

lemma wrap_i128_exec [code]:
  "wrap_i128 x = (if i128_min \<le> x \<and> x \<le> i128_max then x else (x + 2 ^ 127) mod 2 ^ 128 - 2 ^ 127)"
  by (simp add: wrap_i128_def i128_bounds)

section \<open>A feed with three entries\<close>

definition line :: "string \<Rightarrow> int \<Rightarrow> string \<Rightarrow> json" where
  "line item qty amount = JObject [(''amount'', JString amount), (''item'', JString item), (''qty'', JInt qty)]"

definition sale :: "string \<Rightarrow> json list \<Rightarrow> json" where
  "sale i lines = JObject [(''id'', JString i), (''lines'', JArray lines)]"

definition entry :: "nat \<Rightarrow> json \<Rightarrow> json" where
  "entry vs c = JObject [(''changes'', JArray [c]), (''versionstamp'', JInt (int vs))]"

definition demo_feed :: "json list" where
  "demo_feed =
     [entry 10 (JObject [(''update'', sale ''s:1'' [line ''a'' 2 ''60.10'', line ''b'' 1 ''40'']) ]),
      entry 20 (JObject [(''current'', sale ''s:1'' [line ''a'' 3 ''90.15'', line ''b'' 1 ''40'']),
        (''update'', JArray [make_op ''replace'' ''/lines/0/amount'' (Some (JString ''60.10'')),
                            make_op ''replace'' ''/lines/0/qty'' (Some (JInt 2))])]),
      entry 30 (JObject [(''update'', sale ''s:2'' [line ''b'' 5 ''199.95''])])]"

definition entry_of :: "json \<Rightarrow> nat \<times> change list" where
  "entry_of e = (entry_stamp 0 e, case decode_entries [e] of Inr (chs, _) \<Rightarrow> chs | Inl _ \<Rightarrow> [])"

definition demo_entries :: "(nat \<times> change list) list" where
  "demo_entries = map entry_of demo_feed"

record rollup_world =
  rw_cursor :: nat
  rw_sums :: "string \<Rightarrow> string \<Rightarrow> rat"

definition sales :: "rollup_world contributor" where
  "sales = item_sales ''sale'' ''item_sales''"

definition read_since :: "string \<Rightarrow> (nat \<times> nat) option" where
  "read_since q =
     Option.bind (strip_prefix ''SHOW CHANGES FOR TABLE sale SINCE '' q) (\<lambda>r.
       case read_nat r of (since, r) \<Rightarrow>
         map_option (\<lambda>r. (since, fst (read_nat r))) (strip_prefix '' LIMIT '' r))"

definition rollup_sql :: "rollup_world sql" where
  "rollup_sql q w =
     (if q = cursor_sql sales then (Inr (JArray [JInt (int (rw_cursor w))]), w)
      else case read_since q of
        Some (since, limit) \<Rightarrow> (Inr (JArray (take limit (filter (\<lambda>e. since \<le> entry_stamp 0 e) demo_feed))), w)
      | None \<Rightarrow>
          (case read_batch sales q of
             Some (acc, vs) \<Rightarrow> (Inr JNull, \<lparr>rw_cursor = vs, rw_sums = (\<lambda>k f. rw_sums w k f + delta acc k f)\<rparr>)
           | None \<Rightarrow> (Inl (DbError ''statement not understood''), w)))"

text \<open>Each entry of the feed decodes to one change.\<close>

lemma demo_entry:
  assumes "e \<in> set demo_feed"
  shows "decode_from out n [e] = Inr (out @ snd (entry_of e), fst (entry_of e)) \<and> entry_stamp 0 e = fst (entry_of e)"
proof -
  have "list_all (\<lambda>e. decode_from [] 0 [e] = Inr (snd (entry_of e), fst (entry_of e))) demo_feed" by code_simp
  then have d: "decode_from [] 0 [e] = Inr (snd (entry_of e), fst (entry_of e))" using assms by (simp add: list_all_iff)
  have "entry_stamp n e = entry_stamp 0 e" using assms by (auto simp: demo_feed_def entry_def entry_stamp_def json_get_def json_u64_def)
  with d decode_from_acc [of out n "[e]"] show ?thesis by (auto simp: entry_of_def split: sum.splits)
qed

lemma demo_decode:
  "set es \<subseteq> set demo_feed \<Longrightarrow> es \<noteq> [] \<Longrightarrow>
     decode_from out n es = Inr (out @ concat (map (\<lambda>e. snd (entry_of e)) es), fst (entry_of (last es)))"
proof (induction es arbitrary: out n)
  case (Cons e es)
  have e: "decode_from out n [e] = Inr (out @ snd (entry_of e), fst (entry_of e))" using demo_entry Cons.prems(1) by simp
  have "decode_from out n ([e] @ es) = decode_from (out @ snd (entry_of e)) (fst (entry_of e)) es"
    unfolding decode_from_append e by simp
  with Cons show ?case by (cases es) auto
qed simp

lemma read_since_sql: "read_since (feed_sql sales since limit) = Some (since, limit)"
proof -
  have t: "feed_sql sales since limit = ''SHOW CHANGES FOR TABLE sale SINCE '' @ (nat_str since @ ('' LIMIT '' @ (nat_str limit @ '';'')))"
    by (simp add: feed_sql_def sales_def item_sales_def)
  have "read_nat (nat_str since @ ('' LIMIT '' @ (nat_str limit @ '';''))) = (since, '' LIMIT '' @ (nat_str limit @ '';''))"
    by (rule read_nat_str) (simp add: is_digit_def)
  moreover have "read_nat (nat_str limit @ '';'') = (limit, '';'')" by (rule read_nat_str) (simp add: is_digit_def)
  ultimately show ?thesis unfolding t read_since_def
    by (simp only: strip_prefix_append Option.bind.bind_lunit prod.case option.map fst_conv)
qed

lemma demo_feed_law:
  assumes "rollup_sql (feed_sql sales since limit) w = (r, w')"
  shows "w' = w \<and> r = Inr (JArray (take limit (filter (\<lambda>e. since \<le> entry_stamp 0 e) demo_feed)))"
proof -
  have "feed_sql sales since limit \<noteq> cursor_sql sales" by (simp add: feed_sql_def cursor_sql_def)
  with assms show ?thesis by (simp add: rollup_sql_def read_since_sql)
qed

lemma demo_answer:
  fixes since limit
  defines "rows \<equiv> take limit (filter (\<lambda>e. since \<le> entry_stamp 0 e) demo_feed)"
    and "es \<equiv> filter (\<lambda>e. since \<le> fst e) demo_entries"
  assumes "rows \<noteq> []" and "decode_entries rows = Inr (chs, vs)"
  shows "\<exists>m>0. m \<le> length es \<and> chs = changes_to es m \<and> vs = stamp_at es m"
proof -
  have es: "es = map entry_of (filter (\<lambda>e. since \<le> entry_stamp 0 e) demo_feed)"
    unfolding es_def demo_entries_def filter_map by (rule arg_cong [where f = "map entry_of"]) (rule filter_cong, simp, simp add: demo_entry)
  have rows: "map entry_of rows = take (length rows) es" unfolding es rows_def by (simp add: take_map min_def)
  have sub: "set rows \<subseteq> set demo_feed" unfolding rows_def using set_take_subset by fastforce
  have "decode_entries rows = Inr (concat (map (\<lambda>e. snd (entry_of e)) rows), fst (entry_of (last rows)))"
    unfolding decode_entries_def using demo_decode [OF sub assms(3), of "[]" 0] by simp
  with assms(4) have c: "chs = concat (map snd (map entry_of rows))" and v: "vs = fst (last (map entry_of rows))"
    using assms(3) by (simp_all add: comp_def last_map)
  have le: "length rows \<le> length es" unfolding es rows_def by simp
  have "es \<noteq> []" using le assms(3) by auto
  then have "last (take (length rows) es) = es ! (length rows - 1)"
    using le assms(3) by (subst last_conv_nth) simp_all
  then have "vs = stamp_at es (length rows)" using v assms(3) unfolding rows by (simp add: stamp_at_def)
  then show ?thesis using c le assms(3) unfolding rows changes_to_def by (intro exI [of _ "length rows"]) simp
qed

text \<open>A bound on the weight of a batch that is computed on the mantissas alone.\<close>

definition mantissas :: "contribution \<Rightarrow> int" where
  "mantissas cs = sum_list (map (\<lambda>(_, fs). sum_list (map (\<lambda>(_, a). \<bar>de_mantissa a\<bar>) fs)) cs)"

definition change_mantissas :: "contributing \<Rightarrow> change list \<Rightarrow> int" where
  "change_mantissas C chs = sum_list (map (\<lambda>ch. mantissas (of_doc C (ch_before ch)) + mantissas (of_doc C (ch_after ch))) chs)"

lemma val_mantissa: "\<bar>val d\<bar> \<le> of_int \<bar>de_mantissa d\<bar>"
proof -
  have "\<bar>val d\<bar> = of_int \<bar>de_mantissa d\<bar> / 10 ^ de_scale d" by (simp add: val_def)
  also have "\<dots> \<le> of_int \<bar>de_mantissa d\<bar>" using mult_left_mono [of 1 "10 ^ de_scale d" "\<bar>of_int (de_mantissa d)\<bar> :: rat"] by (simp add: divide_le_eq)
  finally show ?thesis .
qed

lemma weight_mantissas: "weight cs \<le> of_int (mantissas cs)"
proof -
  have f: "field_weight fs \<le> of_int (sum_list (map (\<lambda>(_, a). \<bar>de_mantissa a\<bar>) fs))" for fs :: "(string \<times> decimal) list"
  proof (induction fs)
    case (Cons fa fs)
    then show ?case using val_mantissa [of "snd fa"] by (simp add: field_weight_def split_beta)
  qed (simp add: field_weight_def)
  show ?thesis
  proof (induction cs)
    case (Cons c cs)
    then show ?case using f [of "snd c"] by (simp add: weight_def mantissas_def split_beta)
  qed (simp add: weight_def mantissas_def)
qed

lemma change_weight_mantissas: "change_weight C chs \<le> of_int (change_mantissas C chs)"
proof (induction chs)
  case (Cons ch chs)
  then show ?case
    using weight_mantissas [of "of_doc C (ch_before ch)"] weight_mantissas [of "of_doc C (ch_after ch)"]
    by (simp add: change_mantissas_def)
qed (simp add: change_mantissas_def)

lemma demo_changing: "list_all (\<lambda>e. snd e \<noteq> []) demo_entries"
  by code_simp

lemma demo_stamped: "stamped demo_entries"
proof -
  have m: "map fst demo_entries = [10, 20, 30]" by code_simp
  have "list_all (\<lambda>e. 0 < fst e \<and> fst e < 2 ^ 64 - 1) demo_entries = list_all (\<lambda>n. 0 < n \<and> n < 2 ^ 64 - 1) (map fst demo_entries)"
    by (simp add: list_all_iff)
  then show ?thesis unfolding stamped_def m by simp
qed

lemma demo_fits: "batch_fits 2 item_lines (concat (map snd demo_entries))"
proof -
  let ?c = "concat (map snd demo_entries)"
  have m: "change_mantissas item_lines ?c = 41165" by code_simp
  have "change_weight item_lines ?c \<le> 41165" using change_weight_mantissas [of item_lines ?c] unfolding m by simp
  then have "change_weight item_lines ?c * 10 ^ 2 \<le> 41165 * 10 ^ 2" by (rule mult_right_mono) simp
  also have "\<dots> \<le> of_int i128_max" by (simp add: i128_bounds)
  finally have "change_weight item_lines ?c * 10 ^ 2 \<le> of_int i128_max" .
  moreover have "change_scales 2 item_lines ?c" by code_simp
  ultimately show ?thesis unfolding batch_fits_def by simp
qed

interpretation demo_rollup: quiet_rollup_store rollup_sql sales item_lines 2 "\<lambda>_. demo_entries" rw_cursor rw_sums "\<lambda>_. True" demo_entries
proof unfold_locales
  fix w r w' assume "rollup_sql (cursor_sql sales) w = (r, w')"
  then have "w' = w" "r = Inr (JArray [JInt (int (rw_cursor w))])" by (auto simp: rollup_sql_def)
  then show "prefix demo_entries demo_entries \<and> rw_cursor w' = rw_cursor w \<and> rw_sums w' = rw_sums w \<and> (\<forall>v. r = Inr v \<longrightarrow> rw_cursor w < 2 ^ 64 \<longrightarrow> cursor_value v = rw_cursor w)"
    by (simp add: cursor_value_def json_first_def json_u64_def)
next
  fix since limit w r w' assume "rollup_sql (feed_sql sales since limit) w = (r, w')"
  note a = demo_feed_law [OF this]
  show "prefix demo_entries demo_entries \<and> rw_cursor w' = rw_cursor w \<and> rw_sums w' = rw_sums w
    \<and> (\<forall>v chs vs. r = Inr v \<longrightarrow> json_rows v \<noteq> [] \<longrightarrow> decode_entries (json_rows v) = Inr (chs, vs) \<longrightarrow>
         (\<exists>m>0. m \<le> length (filter (\<lambda>e. since \<le> fst e) demo_entries)
            \<and> chs = changes_to (filter (\<lambda>e. since \<le> fst e) demo_entries) m
            \<and> vs = stamp_at (filter (\<lambda>e. since \<le> fst e) demo_entries) m))
    \<and> (\<forall>v. r = Inr v \<longrightarrow> json_rows v = [] \<longrightarrow> limit = 1000 \<longrightarrow> filter (\<lambda>e. since \<le> fst e) demo_entries = [])"
    using a demo_answer [where since = since and limit = limit] demo_entry
    by (auto simp: json_rows_def json_array_def demo_entries_def filter_empty_conv)
next
  fix acc vs w r w' assume "sendable acc" and q: "rollup_sql (batch_sql sales acc vs) w = (r, w')"
  have b: "read_batch sales (batch_sql sales acc vs) = Some (acc, vs)" by (rule read_batch_sql) fact
  have "batch_sql sales acc vs \<noteq> cursor_sql sales" "read_since (batch_sql sales acc vs) = None"
    by (simp_all add: batch_sql_def cursor_sql_def read_since_def strip_prefix_def)
  with q b show "prefix demo_entries demo_entries
    \<and> ((\<exists>e. r = Inl e) \<and> rw_cursor w' = rw_cursor w \<and> rw_sums w' = rw_sums w
       \<or> rw_cursor w' = vs \<and> rw_sums w' = (\<lambda>k f. rw_sums w k f + delta acc k f))"
    by (auto simp: rollup_sql_def)
qed (use demo_stamped demo_fits demo_changing item_lines_named in \<open>auto simp: list_all_iff sales_def item_sales_def\<close>)

lemma demo_rollup_store: "quiet_rollup_store rollup_sql sales item_lines 2 (\<lambda>_. demo_entries) rw_cursor rw_sums (\<lambda>_. True) demo_entries"
  by unfold_locales

end
