(* ===== verification/Props_Rollup.thy ===== *)
theory Props_Rollup
  imports Rollup_Demo
begin

text \<open>Properties of the change feed and of the rollup worker.\<close>

text \<open>C32: text undo is strict: a patch that applies to a source is an edit script that reads the whole
  source, character by character, and writes the result; its deletions and insertions are those of the
  patch's lines, in their order, and nothing else is dropped or invented.\<close>

theorem text_undo_is_strict:
  assumes "dmp_unpatch source patch = Inr res"
  shows "\<exists>es. script_source es = source \<and> script_result es = res
    \<and> filter is_change es = List.map_filter line_edit (text_lines patch)"
  by (rule dmp_unpatch_script [OF assms])

theorem text_undo_is_strict_witness:
  "\<exists>es. script_source es = ''2026-08'' \<and> script_result es = ''2026-07''
     \<and> filter is_change es = [Delete ''8'', Insert ''7'']"
proof -
  let ?p = "''@@ -3,5 +3,5 @@'' @ [CHR 0x0A] @ '' 26-0'' @ [CHR 0x0A] @ ''-8'' @ [CHR 0x0A] @ ''+7'' @ [CHR 0x0A]"
  have "dmp_unpatch ''2026-08'' ?p = Inr ''2026-07''" by code_simp
  moreover have "List.map_filter line_edit (text_lines ?p) = [Delete ''8'', Insert ''7'']" by code_simp
  ultimately show ?thesis using text_undo_is_strict [of "''2026-08''" ?p "''2026-07''"] by simp
qed



text \<open>C15: each change is counted exactly once: whatever a pass meets (an error of the feed, a batch that
  fails, a batch that is committed but whose answer is lost, a feed that grows meanwhile), the totals
  afterwards are the exact signed sum of the contributions of the first entries of the feed, those that the cursor
  names.\<close>

theorem rollup_pass_counts_once:
  assumes "rollup_store sql h C S feed cursor_at rolled good"
    and "good (ru_cache st)" and "in_step C feed cursor_at rolled n (ru_world st)"
    and "rollup_tick sql h limit st = (r, st')"
  shows "\<exists>m\<ge>n. good (ru_cache st') \<and> in_step C feed cursor_at rolled m (ru_world st')"
proof -
  have "rollup_store.synced C feed cursor_at rolled good n st"
    using assms(2,3) by (simp add: rollup_store.synced_def [OF assms(1)])
  from rollup_store.tick_synced [OF assms(1) this assms(4)]
  obtain m where "rollup_store.synced C feed cursor_at rolled good (n + m) st'" by blast
  then show ?thesis by (intro exI [of _ "n + m"]) (simp add: rollup_store.synced_def [OF assms(1)])
qed

definition rollup_start :: "rollup_world rollup_state" where
  "rollup_start = \<lparr>ru_cache = [], ru_world = \<lparr>rw_cursor = 0, rw_sums = (\<lambda>_ _. 0)\<rparr>\<rparr>"

lemma rollup_start_in_step: "in_step item_lines (\<lambda>_. demo_entries) rw_cursor rw_sums 0 (ru_world rollup_start)"
  by (simp add: in_step_def rollup_start_def stamp_at_def changes_to_def)

theorem rollup_pass_counts_once_witness:
  "\<exists>m\<ge>0. True \<and> in_step item_lines (\<lambda>_. demo_entries) rw_cursor rw_sums m (ru_world (snd (rollup_tick rollup_sql sales 2 rollup_start)))"
  by (rule rollup_pass_counts_once [OF quiet_rollup_store.axioms(1) [OF demo_rollup_store] TrueI rollup_start_in_step])
    (rule prod.collapse [symmetric])



end
