(* ===== verification/Hooks.thy ===== *)
theory Hooks
  imports Broker Ordered_Map
begin

text \<open>
  \<open>kernel/src/hooks.rs\<close>: the dispatcher of WebAssembly hooks. The guests are not part of the program: a
  component is what instantiating it and calling its \<open>validate\<close> do, on an instance of type \<open>'i\<close> and the
  world. The dispatcher's own state is the two resident instances, the pool of script instances
  and the cache of script plans; one dispatcher serves every tenant, whose database and generation come
  with each call.
\<close>

section \<open>Values on the wire\<close>

datatype wit_value =
    NullV
  | BoolV bool
  | IntV int
  | FloatV float_val
  | DecimalV string
  | TextV string
  | DatetimeV string
  | DurationV string
  | RecordIdV string
  | CompoundV string

text \<open>Printing and parsing of JSON, and of its floats.\<close>

record hook_codec =
  hc_to_string :: "json \<Rightarrow> string"
  hc_from_str :: "string \<Rightarrow> json option"
  hc_f64 :: "json \<Rightarrow> float_val"
  hc_float :: "string \<Rightarrow> string"

fun contract_to_json :: "hook_codec \<Rightarrow> cvalue \<Rightarrow> json" where
  "contract_to_json hc VNull = JNull"
| "contract_to_json hc (VBool b) = JBool b"
| "contract_to_json hc (VInt i) = JInt i"
| "contract_to_json hc (VFloat x) = (case x of Finite s \<Rightarrow> JFloat (hc_float hc s) | _ \<Rightarrow> JNull)"
| "contract_to_json hc (VDecimal s) = JString s"
| "contract_to_json hc (VText s) = JString s"
| "contract_to_json hc (VDatetime s) = JString s"
| "contract_to_json hc (VDuration s) = JString s"
| "contract_to_json hc (VRecordId s) = JString s"
| "contract_to_json hc (VList items) = JArray (map (contract_to_json hc) items)"
| "contract_to_json hc (VObject entries) =
     JObject (fold (\<lambda>(k, v). bt_insert k v) (map (\<lambda>e. (fst e, contract_to_json hc (snd e))) entries) [])"

fun json_to_contract :: "hook_codec \<Rightarrow> json \<Rightarrow> cvalue" where
  "json_to_contract hc JNull = VNull"
| "json_to_contract hc (JBool b) = VBool b"
| "json_to_contract hc (JInt i) = (case json_i64 (JInt i) of Some n \<Rightarrow> VInt n | None \<Rightarrow> VFloat (hc_f64 hc (JInt i)))"
| "json_to_contract hc (JFloat s) = VFloat (hc_f64 hc (JFloat s))"
| "json_to_contract hc (JString s) = VText s"
| "json_to_contract hc (JArray a) = VList (map (json_to_contract hc) a)"
| "json_to_contract hc (JObject fs) = VObject (map (\<lambda>e. (fst e, json_to_contract hc (snd e))) fs)"

definition to_wit :: "hook_codec \<Rightarrow> cvalue \<Rightarrow> wit_value" where
  "to_wit hc v =
     (case v of
        VNull \<Rightarrow> NullV | VBool b \<Rightarrow> BoolV b | VInt i \<Rightarrow> IntV i | VFloat x \<Rightarrow> FloatV x
      | VDecimal s \<Rightarrow> DecimalV s | VText s \<Rightarrow> TextV s | VDatetime s \<Rightarrow> DatetimeV s
      | VDuration s \<Rightarrow> DurationV s | VRecordId s \<Rightarrow> RecordIdV s
      | _ \<Rightarrow> CompoundV (hc_to_string hc (contract_to_json hc v)))"

definition from_wit :: "hook_codec \<Rightarrow> wit_value \<Rightarrow> cvalue" where
  "from_wit hc v =
     (case v of
        NullV \<Rightarrow> VNull | BoolV b \<Rightarrow> VBool b | IntV i \<Rightarrow> VInt i | FloatV x \<Rightarrow> VFloat x
      | DecimalV s \<Rightarrow> VDecimal s | TextV s \<Rightarrow> VText s | DatetimeV s \<Rightarrow> VDatetime s
      | DurationV s \<Rightarrow> VDuration s | RecordIdV s \<Rightarrow> VRecordId s
      | CompoundV raw \<Rightarrow> json_to_contract hc (case hc_from_str hc raw of Some j \<Rightarrow> j | None \<Rightarrow> JNull))"

type_synonym wit_doc = "(string \<times> wit_value) list"

definition doc_to_wit :: "hook_codec \<Rightarrow> document \<Rightarrow> wit_doc" where
  "doc_to_wit hc doc = map (\<lambda>(k, v). (k, to_wit hc v)) doc"

definition doc_from_wit :: "hook_codec \<Rightarrow> wit_doc \<Rightarrow> document" where
  "doc_from_wit hc doc = map (\<lambda>(k, v). (k, from_wit hc v)) doc"

section \<open>Instances\<close>

definition CALL_FUEL :: nat where
  "CALL_FUEL = 2000000000"

datatype guest_result = GuestOk wit_doc | GuestReject string | GuestTrap string

text \<open>A call gets a fresh allowance of fuel and tells what is left of it.\<close>

record ('i, 'w) guest =
  co_instantiate :: "string option \<Rightarrow> string + 'i"
  co_validate :: "'i \<Rightarrow> nat \<Rightarrow> wit_doc \<Rightarrow> 'w \<Rightarrow> (guest_result \<times> nat option) \<times> 'i \<times> 'w"

record 'i hook_instance =
  hi_live :: "'i option"
  hi_script :: "string option"

definition instance_new :: "'i hook_instance" where
  "instance_new = \<lparr>hi_live = None, hi_script = None\<rparr>"

definition instance_ensure :: "('i, 'w) guest \<Rightarrow> 'i hook_instance \<Rightarrow> broker_error + 'i" where
  "instance_ensure co hi =
     (case hi_live hi of
        Some i \<Rightarrow> Inr i
      | None \<Rightarrow> map_err (HookRejected ''instantiate'') (co_instantiate co (hi_script hi)))"

definition burned :: "nat option \<Rightarrow> nat" where
  "burned left = (case left of None \<Rightarrow> 0 | Some l \<Rightarrow> CALL_FUEL - l)"

text \<open>A trap drops the instance; the next call builds a new one.\<close>

definition instance_validate ::
  "hook_codec \<Rightarrow> ('i, 'w) guest \<Rightarrow> document \<Rightarrow> 'i hook_instance \<Rightarrow> 'w \<Rightarrow> (broker_error + document \<times> nat) \<times> 'i hook_instance \<times> 'w" where
  "instance_validate hc co doc hi w =
     (case instance_ensure co hi of
        Inl e \<Rightarrow> (Inl e, hi, w)
      | Inr i \<Rightarrow>
          (case co_validate co i CALL_FUEL (doc_to_wit hc doc) w of
             ((GuestOk out, left), i', w') \<Rightarrow> (Inr (doc_from_wit hc out, burned left), hi\<lparr>hi_live := Some i'\<rparr>, w')
           | ((GuestReject m, left), i', w') \<Rightarrow> (Inl (HookRejected ''hook'' m), hi\<lparr>hi_live := Some i'\<rparr>, w')
           | ((GuestTrap m, left), i', w') \<Rightarrow> (Inl (HookRejected ''trap'' m), hi\<lparr>hi_live := None\<rparr>, w')))"

section \<open>The dispatcher\<close>

type_synonym pool_key = "string \<times> string \<times> string \<times> hook_class"

record ('i, 'w) wasm_hooks =
  wh_world :: 'w
  wh_plugin :: "'i hook_instance"
  wh_script :: "'i hook_instance"
  wh_pool :: "pool_key \<rightharpoonup> string \<times> 'i hook_instance"
  wh_cache :: "string \<times> string \<rightharpoonup> nat \<times> hook_plan"

text \<open>The components, whether a source of scripts is attached, and the codec.\<close>

record ('i, 'w) hook_env =
  he_plugin :: "('i, 'w) guest"
  he_engine :: "('i, 'w) guest"
  he_scripts :: bool
  he_codec :: hook_codec

text \<open>\<open>HookTenant\<close>: the database of the tenant whose request is served, and its generation.\<close>

record 'w hook_tenant =
  ht_id :: string
  ht_sql :: "'w sql"
  ht_gen :: "'w \<Rightarrow> nat"

definition wasm_load :: "string option \<Rightarrow> 'w \<Rightarrow> ('i, 'w) wasm_hooks" where
  "wasm_load script w =
     \<lparr>wh_world = w, wh_plugin = instance_new, wh_script = instance_new\<lparr>hi_script := script\<rparr>,
      wh_pool = Map.empty, wh_cache = Map.empty\<rparr>"

definition dispatch_plugin :: "('i, 'w) hook_env \<Rightarrow> document \<Rightarrow> ('i, 'w) wasm_hooks \<Rightarrow> (broker_error + document) \<times> ('i, 'w) wasm_hooks" where
  "dispatch_plugin he doc st =
     (case instance_validate (he_codec he) (he_plugin he) doc (wh_plugin st) (wh_world st) of
        (r, hi, w) \<Rightarrow> (map_sum id fst r, st\<lparr>wh_plugin := hi, wh_world := w\<rparr>))"

definition dispatch_script :: "('i, 'w) hook_env \<Rightarrow> document \<Rightarrow> ('i, 'w) wasm_hooks \<Rightarrow> (broker_error + document) \<times> ('i, 'w) wasm_hooks" where
  "dispatch_script he doc st =
     (case instance_validate (he_codec he) (he_engine he) doc (wh_script st) (wh_world st) of
        (r, hi, w) \<Rightarrow> (map_sum id fst r, st\<lparr>wh_script := hi, wh_world := w\<rparr>))"

definition scripts_for :: "'w hook_tenant \<Rightarrow> string \<Rightarrow> ('i, 'w) wasm_hooks \<Rightarrow> (broker_error + hook_plan) \<times> ('i, 'w) wasm_hooks" where
  "scripts_for ht doctype st =
     (let gen = ht_gen ht (wh_world st); k = (ht_id ht, doctype);
          miss = (case load_server_scripts (ht_sql ht) doctype (wh_world st) of
                    (Inl e, w) \<Rightarrow> (Inl e, st\<lparr>wh_world := w\<rparr>)
                  | (Inr plan, w) \<Rightarrow> (Inr plan, st\<lparr>wh_world := w, wh_cache := (wh_cache st)(k \<mapsto> (gen, plan))\<rparr>))
      in case wh_cache st k of
           Some (cached_gen, plan) \<Rightarrow> (if cached_gen = gen then (Inr plan, st) else miss)
         | None \<Rightarrow> miss)"

section \<open>The chain of an event's scripts\<close>

text \<open>The pooled instance of a script, rebuilt when its text has changed.\<close>

definition pool_slot :: "string \<Rightarrow> (string \<times> 'i hook_instance) option \<Rightarrow> string \<times> 'i hook_instance" where
  "pool_slot script found =
     (let fresh = (script, instance_new\<lparr>hi_script := Some script\<rparr>) in
      case found of
        None \<Rightarrow> fresh
      | Some (text, inst) \<Rightarrow> (if text \<noteq> script then fresh else (text, inst)))"

definition own_script :: string where
  "own_script = ''the doctype's own script''"

definition undeclared :: "string list \<Rightarrow> document \<Rightarrow> document \<Rightarrow> string option" where
  "undeclared declared current out =
     (if declared = [] then None
      else map_option fst (find (\<lambda>(k, _). k \<notin> set declared \<and> k \<noteq> ''id'' \<and> k \<noteq> ''docstatus'' \<and> k \<notin> fst ` set current) out))"

definition undeclared_error :: "script_entry \<Rightarrow> string \<Rightarrow> string \<Rightarrow> broker_error" where
  "undeclared_error entry doctype bad =
     HookRejected ''envelope''
       (''FRUST:E_FIELD_UNDECLARED: '' @ sq1 (case sc_app entry of Some a \<Rightarrow> a | None \<Rightarrow> own_script)
        @ '' wrote field '' @ sq1 bad @ '' on'' @ replicate 38 CHR '' '' @ sq1 doctype
        @ '', which no app declares. Declare it in the'' @ replicate 38 CHR '' ''
        @ ''manifest (extensions must namespace their fields) '' @ em_dash @ '' it'' @ replicate 38 CHR '' ''
        @ ''would otherwise be dropped without a word.'')"

definition named_rejection :: "script_entry \<Rightarrow> broker_error \<Rightarrow> broker_error" where
  "named_rejection entry e =
     (case e of
        HookRejected stage message \<Rightarrow>
          HookRejected stage (message @ '' (rejected by the '' @ (if sc_is_owner entry then ''owner'' else ''extension'')
            @ '', '' @ (case sc_app entry of None \<Rightarrow> own_script | Some a \<Rightarrow> ''app '' @ sq1 a) @ '')'')
      | _ \<Rightarrow> e)"

text \<open>What becomes of one script's answer: the next document, or the error that ends the chain.\<close>

definition judge_entry :: "string list \<Rightarrow> string \<Rightarrow> script_entry \<Rightarrow> document \<Rightarrow> broker_error + document \<Rightarrow> broker_error + document" where
  "judge_entry declared doctype entry current answer =
     (case answer of
        Inl e \<Rightarrow> Inl (named_rejection entry e)
      | Inr out \<Rightarrow>
          (case undeclared declared current out of
             Some bad \<Rightarrow> Inl (undeclared_error entry doctype bad)
           | None \<Rightarrow> Inr out))"

definition entry_key :: "string \<Rightarrow> string \<Rightarrow> hook_class \<Rightarrow> script_entry \<Rightarrow> pool_key" where
  "entry_key tenant doctype class entry =
     (tenant, doctype, case sc_app entry of Some a \<Rightarrow> a | None \<Rightarrow> [], class)"

fun run_entries ::
  "('i, 'w) hook_env \<Rightarrow> string \<Rightarrow> hook_class \<Rightarrow> string \<Rightarrow> string list \<Rightarrow> script_entry list \<Rightarrow> document \<Rightarrow>
   ('i, 'w) wasm_hooks \<Rightarrow> (broker_error + document) \<times> ('i, 'w) wasm_hooks" where
  "run_entries he tenant class doctype declared [] current st = (Inr current, st)"
| "run_entries he tenant class doctype declared (entry # entries) current st =
     (let k = entry_key tenant doctype class entry in
      case pool_slot (sc_script entry) (wh_pool st k) of
        (text, inst) \<Rightarrow>
          (case instance_validate (he_codec he) (he_engine he) current inst (wh_world st) of
             (r, inst', w) \<Rightarrow>
               and_then (judge_entry declared doctype entry current (map_sum id fst r),
                         st\<lparr>wh_world := w, wh_pool := (wh_pool st)(k \<mapsto> (text, inst'))\<rparr>)
                 (\<lambda>out st1. run_entries he tenant class doctype declared entries out st1)))"

definition dispatch_doctype_script ::
  "('i, 'w) hook_env \<Rightarrow> 'w hook_tenant \<Rightarrow> hook_class \<Rightarrow> string \<Rightarrow> document \<Rightarrow>
   ('i, 'w) wasm_hooks \<Rightarrow> (broker_error + document option) \<times> ('i, 'w) wasm_hooks" where
  "dispatch_doctype_script he ht class doctype doc st =
     (if \<not> he_scripts he then (Inr None, st)
      else and_then (scripts_for ht doctype st) (\<lambda>plan st1.
        let entries = filter (\<lambda>e. sc_hook e = class) (hp_entries plan) in
        if entries = [] then (Inr None, st1)
        else and_then (run_entries he (ht_id ht) class doctype (hp_declared plan) entries doc st1)
               (\<lambda>out st2. (Inr (Some out), st2))))"

section \<open>The doors of the dispatcher\<close>

definition need_tenant :: broker_error where
  "need_tenant = InvalidValue ''tenant-scoped scripts require broker dispatch''"

definition wasm_validate :: "('i, 'w) hook_env \<Rightarrow> document \<Rightarrow> ('i, 'w) wasm_hooks \<Rightarrow> (broker_error + document) \<times> ('i, 'w) wasm_hooks" where
  "wasm_validate he doc st =
     and_then (dispatch_plugin he doc st) (\<lambda>after_plugin st1.
       if he_scripts he then (Inl need_tenant, st1) else dispatch_script he after_plugin st1)"

definition wasm_validate_for ::
  "('i, 'w) hook_env \<Rightarrow> 'w hook_tenant \<Rightarrow> string \<Rightarrow> document \<Rightarrow> ('i, 'w) wasm_hooks \<Rightarrow> (broker_error + document) \<times> ('i, 'w) wasm_hooks" where
  "wasm_validate_for he ht doctype doc st =
     and_then (dispatch_plugin he doc st) (\<lambda>after_plugin st1.
     and_then (dispatch_doctype_script he ht Validate doctype after_plugin st1) (\<lambda>res st2.
       case res of
         Some out \<Rightarrow> (Inr out, st2)
       | None \<Rightarrow> (if he_scripts he then (Inr after_plugin, st2) else dispatch_script he after_plugin st2)))"

definition wasm_fire :: "('i, 'w) hook_env \<Rightarrow> document \<Rightarrow> ('i, 'w) wasm_hooks \<Rightarrow> (broker_error + document) \<times> ('i, 'w) wasm_hooks" where
  "wasm_fire he doc st = (if he_scripts he then (Inl need_tenant, st) else (Inr doc, st))"

definition wasm_fire_for ::
  "('i, 'w) hook_env \<Rightarrow> 'w hook_tenant \<Rightarrow> hook_class \<Rightarrow> string \<Rightarrow> document \<Rightarrow> ('i, 'w) wasm_hooks \<Rightarrow> (broker_error + document) \<times> ('i, 'w) wasm_hooks" where
  "wasm_fire_for he ht class doctype doc st =
     and_then (dispatch_doctype_script he ht class doctype doc st) (\<lambda>res st1.
       (Inr (case res of Some out \<Rightarrow> (if may_mutate class then out else doc) | None \<Rightarrow> doc), st1))"

section \<open>The external hook runner\<close>

text \<open>
  \<open>ExternalHookRunner\<close> of \<open>broker.rs\<close>: a document is marshalled down to three fields, sent over HTTP, and
  what the verdict changes is carried back. The transport and the conversions of floats are fields of
  \<open>runner\<close>.
\<close>

record 'w runner =
  xr_post :: "json \<Rightarrow> 'w \<Rightarrow> (broker_error + json) \<times> 'w"
  xr_int_f64 :: "int \<Rightarrow> float_val"
  xr_parse_f64 :: "string \<Rightarrow> float_val option"
  xr_float_json :: "float_val \<Rightarrow> json"
  xr_as_f64 :: "json \<Rightarrow> float_val option"
  xr_show :: "json \<Rightarrow> string"

definition runner_num :: "'w runner \<Rightarrow> cvalue option \<Rightarrow> float_val" where
  "runner_num xr v =
     (case v of
        Some (VFloat x) \<Rightarrow> x
      | Some (VInt i) \<Rightarrow> xr_int_f64 xr i
      | Some (VDecimal s) \<Rightarrow> (case xr_parse_f64 xr s of Some x \<Rightarrow> x | None \<Rightarrow> Finite ''0'')
      | _ \<Rightarrow> Finite ''0'')"

definition runner_text :: "cvalue option \<Rightarrow> string" where
  "runner_text v = (case v of Some (VText s) \<Rightarrow> s | Some (VRecordId s) \<Rightarrow> s | _ \<Rightarrow> [])"

definition runner_doc :: "'w runner \<Rightarrow> document \<Rightarrow> json" where
  "runner_doc xr doc =
     JObject [(''id'', JString (runner_text (map_of doc ''id''))),
       (''status'', JString (let s = runner_text (map_of doc ''status'') in if s = [] then ''Draft'' else s)),
       (''total'', xr_float_json xr (runner_num xr (map_of doc ''total'')))]"

definition replace_entry :: "string \<Rightarrow> cvalue \<Rightarrow> document \<Rightarrow> document" where
  "replace_entry k v doc = filter (\<lambda>(l, _). l \<noteq> k) doc @ [(k, v)]"

definition carry_verdict :: "'w runner \<Rightarrow> json \<Rightarrow> document \<Rightarrow> document" where
  "carry_verdict xr verdict doc =
     (let ok = (case json_get ''ok'' verdict of Some v \<Rightarrow> v | None \<Rightarrow> JNull);
          out = (case json_str_at ''status'' ok of Some s \<Rightarrow> replace_entry ''status'' (VText s) doc | None \<Rightarrow> doc)
      in case Option.bind (json_get ''total'' ok) (xr_as_f64 xr) of
           Some t \<Rightarrow> (if map_of doc ''total'' \<noteq> None then replace_entry ''total'' (VFloat t) out else out)
         | None \<Rightarrow> out)"

definition external_validate :: "'w runner \<Rightarrow> document \<Rightarrow> 'w \<Rightarrow> (broker_error + document) \<times> 'w" where
  "external_validate xr doc w =
     and_then (xr_post xr (runner_doc xr doc) w) (\<lambda>verdict w1.
       case json_get ''err'' verdict of
         Some err \<Rightarrow>
           (Inl (HookRejected (case json_str_at ''stage'' verdict of Some s \<Rightarrow> s | None \<Rightarrow> ''?'') (xr_show xr err)), w1)
       | None \<Rightarrow> (Inr (carry_verdict xr verdict doc), w1))"

end
