(* ===== verification/Hooks_Proofs.thy ===== *)
theory Hooks_Proofs
  imports Hooks
begin

text \<open>
  What a dispatch should do, as a function of the tenant's metadata and of what each script answers: the
  scripts of the event, one after the other, each on what the one before made of the document. The
  locale states what is expected of the script engine and of the metadata; under it pooling, caching and
  the sharing of the dispatcher by all tenants do not show.
\<close>

section \<open>The reference chain\<close>

type_synonym script_answer = "string \<Rightarrow> document \<Rightarrow> broker_error + document"

fun chain_spec :: "script_answer \<Rightarrow> string list \<Rightarrow> string \<Rightarrow> script_entry list \<Rightarrow> document \<Rightarrow> broker_error + document" where
  "chain_spec ans declared doctype [] current = Inr current"
| "chain_spec ans declared doctype (entry # entries) current =
     (case judge_entry declared doctype entry current (ans (sc_script entry) current) of
        Inl e \<Rightarrow> Inl e
      | Inr out \<Rightarrow> chain_spec ans declared doctype entries out)"

definition event_spec :: "script_answer \<Rightarrow> hook_plan \<Rightarrow> hook_class \<Rightarrow> string \<Rightarrow> document \<Rightarrow> broker_error + document option" where
  "event_spec ans plan class doctype doc =
     (let entries = filter (\<lambda>e. sc_hook e = class) (hp_entries plan) in
      if entries = [] then Inr None
      else map_sum id Some (chain_spec ans (hp_declared plan) doctype entries doc))"

text \<open>A chain that ends well ran every script, in order; one that ends badly ran those before the one it blames.\<close>

fun steps :: "script_answer \<Rightarrow> script_entry list \<Rightarrow> document \<Rightarrow> document \<Rightarrow> bool" where
  "steps ans [] doc out = (out = doc)"
| "steps ans (e # es) doc out = (\<exists>next. ans (sc_script e) doc = Inr next \<and> steps ans es next out)"

definition keys_of :: "document \<Rightarrow> string set" where
  "keys_of doc = fst ` set doc"

lemma judge_entry_Inr:
  "judge_entry declared doctype e cur answer = Inr out \<longleftrightarrow> answer = Inr out \<and> undeclared declared cur out = None"
  by (auto simp: judge_entry_def split: sum.splits option.splits)

lemma undeclared_None:
  "undeclared declared cur out = None \<longleftrightarrow>
     declared = [] \<or> keys_of out \<subseteq> set declared \<union> {''id'', ''docstatus''} \<union> keys_of cur"
proof -
  have "find (\<lambda>(k, _). k \<notin> set declared \<and> k \<noteq> ''id'' \<and> k \<noteq> ''docstatus'' \<and> k \<notin> fst ` set cur) out = None
      \<longleftrightarrow> (\<forall>e \<in> set out. fst e \<in> set declared \<union> {''id'', ''docstatus''} \<union> fst ` set cur)"
    unfolding find_None_iff by force
  then show ?thesis by (simp add: undeclared_def keys_of_def image_subset_iff)
qed

lemma undeclared_Some: "undeclared declared cur out = Some bad \<Longrightarrow> bad \<in> keys_of out \<and> bad \<notin> set declared"
proof -
  assume "undeclared declared cur out = Some bad"
  then obtain e where "find (\<lambda>(k, _). k \<notin> set declared \<and> k \<noteq> ''id'' \<and> k \<noteq> ''docstatus'' \<and> k \<notin> fst ` set cur) out = Some e"
      and "fst e = bad"
    by (auto simp: undeclared_def split: if_splits)
  then have "e \<in> set out" and "fst e \<notin> set declared"
    by (auto simp: find_Some_iff split_beta)
  with \<open>fst e = bad\<close> show ?thesis by (auto simp: keys_of_def)
qed

lemma chain_spec_Inr:
  assumes "chain_spec ans declared doctype es doc = Inr out"
  shows "steps ans es doc out \<and> (declared \<noteq> [] \<longrightarrow> keys_of out \<subseteq> set declared \<union> {''id'', ''docstatus''} \<union> keys_of doc)"
  using assms
proof (induction es arbitrary: doc)
  case (Cons e es)
  then obtain next' where n: "judge_entry declared doctype e doc (ans (sc_script e) doc) = Inr next'"
      and c: "chain_spec ans declared doctype es next' = Inr out"
    by (auto split: sum.splits)
  from n have "ans (sc_script e) doc = Inr next'" and "undeclared declared doc next' = None"
    by (auto simp: judge_entry_Inr)
  with Cons.IH [OF c] show ?case by (auto simp: undeclared_None)
qed auto

lemma chain_spec_Inl:
  assumes "chain_spec ans declared doctype es doc = Inl err"
  shows "\<exists>before e after cur. es = before @ e # after \<and> steps ans before doc cur
    \<and> ((\<exists>x. ans (sc_script e) cur = Inl x \<and> err = named_rejection e x)
       \<or> (\<exists>out bad. ans (sc_script e) cur = Inr out \<and> bad \<in> keys_of out \<and> bad \<notin> set declared \<and> err = undeclared_error e doctype bad))"
  using assms
proof (induction es arbitrary: doc)
  case (Cons e es)
  show ?case
  proof (cases "judge_entry declared doctype e doc (ans (sc_script e) doc)")
    case (Inl x)
    then have x: "err = x" using Cons.prems by simp
    have "(\<exists>y. ans (sc_script e) doc = Inl y \<and> err = named_rejection e y)
        \<or> (\<exists>out bad. ans (sc_script e) doc = Inr out \<and> bad \<in> keys_of out \<and> bad \<notin> set declared \<and> err = undeclared_error e doctype bad)"
    proof (cases "ans (sc_script e) doc")
      case (Inl y)
      then show ?thesis using \<open>judge_entry _ _ _ _ _ = Inl x\<close> x by (simp add: judge_entry_def)
    next
      case (Inr out)
      then obtain bad where "undeclared declared doc out = Some bad" "x = undeclared_error e doctype bad"
        using \<open>judge_entry _ _ _ _ _ = Inl x\<close> by (auto simp: judge_entry_def split: option.splits)
      moreover from this have "bad \<in> keys_of out \<and> bad \<notin> set declared" using undeclared_Some by blast
      ultimately show ?thesis using Inr x by blast
    qed
    then show ?thesis by (intro exI [of _ "[]"] exI [of _ e] exI [of _ es] exI [of _ doc]) simp
  next
    case (Inr out)
    then have "chain_spec ans declared doctype es out = Inl err" using Cons.prems by simp
    from Cons.IH [OF this] obtain before e' after cur where
      b: "es = before @ e' # after" "steps ans before out cur"
      "(\<exists>x. ans (sc_script e') cur = Inl x \<and> err = named_rejection e' x)
       \<or> (\<exists>out bad. ans (sc_script e') cur = Inr out \<and> bad \<in> keys_of out \<and> bad \<notin> set declared \<and> err = undeclared_error e' doctype bad)"
      by blast
    from Inr have "ans (sc_script e) doc = Inr out" by (simp add: judge_entry_Inr)
    with b show ?thesis by (intro exI [of _ "e # before"] exI [of _ e'] exI [of _ after] exI [of _ cur]) auto
  qed
qed simp

section \<open>The contract of the engine and of the metadata\<close>

text \<open>
  An instance answers by its script and the document alone (\<open>sem\<close>), and a tenant's plans change only
  with its generation.
\<close>

text \<open>What a script answers, by the meaning \<open>sem\<close> of scripts.\<close>

definition answer_of :: "('i, 'w) hook_env \<Rightarrow> (string option \<Rightarrow> wit_doc \<Rightarrow> guest_result) \<Rightarrow> script_answer" where
  "answer_of he sem script doc =
     (case co_instantiate (he_engine he) (Some script) of
        Inl m \<Rightarrow> Inl (HookRejected ''instantiate'' m)
      | Inr _ \<Rightarrow>
          (case sem (Some script) (doc_to_wit (he_codec he) doc) of
             GuestOk out \<Rightarrow> Inr (doc_from_wit (he_codec he) out)
           | GuestReject m \<Rightarrow> Inl (HookRejected ''hook'' m)
           | GuestTrap m \<Rightarrow> Inl (HookRejected ''trap'' m)))"

text \<open>A pooled instance runs the text it is pooled under; a cached plan is that of its tenant and generation.\<close>

definition slot_ok :: "('i \<Rightarrow> string option \<Rightarrow> bool) \<Rightarrow> string \<times> 'i hook_instance \<Rightarrow> bool" where
  "slot_ok good s = (case s of (src, inst) \<Rightarrow> hi_script inst = Some src \<and> (\<forall>i. hi_live inst = Some i \<longrightarrow> good i (Some src)))"

definition hooks_ok ::
  "('i \<Rightarrow> string option \<Rightarrow> bool) \<Rightarrow> (string \<Rightarrow> nat \<Rightarrow> string \<Rightarrow> hook_plan) \<Rightarrow> ('i, 'w) wasm_hooks \<Rightarrow> bool" where
  "hooks_ok good plan_of st = ((\<forall>k s. wh_pool st k = Some s \<longrightarrow> slot_ok good s)
     \<and> (\<forall>t d g plan. wh_cache st (t, d) = Some (g, plan) \<longrightarrow> plan = plan_of t g d))"

locale hook_contract =
  fixes he :: "('i, 'w) hook_env"
    and good :: "'i \<Rightarrow> string option \<Rightarrow> bool"
    and sem :: "string option \<Rightarrow> wit_doc \<Rightarrow> guest_result"
    and plan_of :: "string \<Rightarrow> nat \<Rightarrow> string \<Rightarrow> hook_plan"
    and tenants :: "'w hook_tenant set"
  assumes instantiate_law: "co_instantiate (he_engine he) sc = Inr i \<Longrightarrow> good i sc"
    and instantiable_law: "good i sc \<Longrightarrow> \<exists>j. co_instantiate (he_engine he) sc = Inr j"
    and call_law: "good i sc \<Longrightarrow> co_validate (he_engine he) i fuel d w = ((res, left), i', w') \<Longrightarrow> res = sem sc d \<and> good i' sc"
    and plan_law: "ht \<in> tenants \<Longrightarrow> load_server_scripts (ht_sql ht) doctype w = (Inr plan, w') \<Longrightarrow> plan = plan_of (ht_id ht) (ht_gen ht w) doctype"
begin

lemma pool_slot_ok: "(\<And>s. found = Some s \<Longrightarrow> slot_ok good s) \<Longrightarrow> slot_ok good (pool_slot script found) \<and> fst (pool_slot script found) = script"
  by (auto simp: pool_slot_def slot_ok_def instance_new_def Let_def split: option.splits)

lemma slot_validate:
  assumes "slot_ok good (src, inst)" and "instance_validate (he_codec he) (he_engine he) doc inst w = (r, inst', w')"
  shows "map_sum id fst r = (answer_of he sem) src doc \<and> slot_ok good (src, inst')"
proof (cases "instance_ensure (he_engine he) inst")
  case (Inl e)
  then obtain m where "co_instantiate (he_engine he) (Some src) = Inl m" "e = HookRejected ''instantiate'' m" "hi_live inst = None"
    using assms(1) by (auto simp: instance_ensure_def slot_ok_def map_err_def split: option.splits sum.splits)
  with assms Inl show ?thesis by (auto simp: instance_validate_def answer_of_def)
next
  case (Inr i)
  then have g: "good i (Some src)"
    using assms(1) instantiate_law by (auto simp: instance_ensure_def slot_ok_def split: option.splits)
  then obtain j where j: "co_instantiate (he_engine he) (Some src) = Inr j" using instantiable_law by blast
  obtain res left i' w'' where c: "co_validate (he_engine he) i CALL_FUEL (doc_to_wit (he_codec he) doc) w = ((res, left), i', w'')"
    by (metis surj_pair)
  note law = call_law [OF g c]
  from law have res: "res = sem (Some src) (doc_to_wit (he_codec he) doc)" and g': "good i' (Some src)" by simp_all
  show ?thesis
    using assms Inr c g' j by (cases res) (auto simp: instance_validate_def answer_of_def slot_ok_def simp flip: res)
qed

lemma run_entries_spec:
  assumes "hooks_ok good plan_of st" and "run_entries he t class doctype declared es doc st = (r, st')"
  shows "r = chain_spec (answer_of he sem) declared doctype es doc \<and> hooks_ok good plan_of st'"
  using assms
proof (induction es arbitrary: doc st)
  case (Cons e es)
  let ?k = "entry_key t doctype class e"
  obtain src inst where p: "pool_slot (sc_script e) (wh_pool st ?k) = (src, inst)" by fastforce
  have "slot_ok good (pool_slot (sc_script e) (wh_pool st ?k)) \<and> fst (pool_slot (sc_script e) (wh_pool st ?k)) = sc_script e"
    using Cons.prems(1) unfolding hooks_ok_def by (intro pool_slot_ok) blast
  then have s: "slot_ok good (src, inst)" and src: "src = sc_script e" unfolding p by auto
  obtain r1 inst1 w1 where v: "instance_validate (he_codec he) (he_engine he) doc inst (wh_world st) = (r1, inst1, w1)"
    by (metis surj_pair)
  have a: "map_sum id fst r1 = (answer_of he sem) (sc_script e) doc" and s1: "slot_ok good (src, inst1)"
    using slot_validate [OF s v] src by simp_all
  let ?st1 = "st\<lparr>wh_world := w1, wh_pool := (wh_pool st)(?k \<mapsto> (src, inst1))\<rparr>"
  have ok1: "hooks_ok good plan_of ?st1" using Cons.prems(1) s1 by (auto simp: hooks_ok_def)
  have rn: "and_then (judge_entry declared doctype e doc ((answer_of he sem) (sc_script e) doc), ?st1)
      (\<lambda>out st1. run_entries he t class doctype declared es out st1) = (r, st')"
    using Cons.prems(2) p v a by (simp add: Let_def)
  show ?case
  proof (cases "judge_entry declared doctype e doc ((answer_of he sem) (sc_script e) doc)")
    case (Inl x)
    then have "r = Inl x" "st' = ?st1" using rn by simp_all
    with Inl ok1 show ?thesis by simp
  next
    case (Inr out)
    with rn have "run_entries he t class doctype declared es out ?st1 = (r, st')" by simp
    from Cons.IH [OF ok1 this] Inr show ?thesis by simp
  qed
qed simp

lemma scripts_for_spec:
  assumes "hooks_ok good plan_of st" and "ht \<in> tenants" and "scripts_for ht doctype st = (r, st')"
  shows "hooks_ok good plan_of st' \<and> (case r of Inr plan \<Rightarrow> plan = plan_of (ht_id ht) (ht_gen ht (wh_world st)) doctype
    | Inl e \<Rightarrow> fst (load_server_scripts (ht_sql ht) doctype (wh_world st)) = Inl e)"
proof (cases "\<exists>plan. wh_cache st (ht_id ht, doctype) = Some (ht_gen ht (wh_world st), plan)")
  case True
  with assms show ?thesis by (auto simp: scripts_for_def Let_def hooks_ok_def)
next
  case False
  obtain q w where l: "load_server_scripts (ht_sql ht) doctype (wh_world st) = (q, w)" by fastforce
  have "scripts_for ht doctype st = (case q of Inl e \<Rightarrow> (Inl e, st\<lparr>wh_world := w\<rparr>)
      | Inr plan \<Rightarrow> (Inr plan, st\<lparr>wh_world := w, wh_cache := (wh_cache st)((ht_id ht, doctype) \<mapsto> (ht_gen ht (wh_world st), plan))\<rparr>))"
    using False l by (auto simp: scripts_for_def Let_def split: option.split sum.split)
  moreover have "plan = plan_of (ht_id ht) (ht_gen ht (wh_world st)) doctype" if "q = Inr plan" for plan
    using plan_law [OF assms(2)] l that by blast
  ultimately show ?thesis using assms(1,3) l by (cases q) (auto simp: hooks_ok_def split: if_splits)
qed

lemma dispatch_spec:
  assumes "hooks_ok good plan_of st" and "ht \<in> tenants" and "he_scripts he"
    and "dispatch_doctype_script he ht class doctype doc st = (r, st')"
  shows "hooks_ok good plan_of st' \<and> (r = event_spec (answer_of he sem) (plan_of (ht_id ht) (ht_gen ht (wh_world st)) doctype) class doctype doc
    \<or> (\<exists>e. r = Inl e \<and> fst (load_server_scripts (ht_sql ht) doctype (wh_world st)) = Inl e))"
proof -
  obtain q st1 where s: "scripts_for ht doctype st = (q, st1)" by fastforce
  note p = scripts_for_spec [OF assms(1,2) s]
  show ?thesis
  proof (cases q)
    case (Inl e)
    with p s assms(3,4) show ?thesis by (simp add: dispatch_doctype_script_def)
  next
    case (Inr plan)
    then have ok1: "hooks_ok good plan_of st1" and plan: "plan = plan_of (ht_id ht) (ht_gen ht (wh_world st)) doctype" using p by simp_all
    let ?es = "filter (\<lambda>e. sc_hook e = class) (hp_entries plan)"
    show ?thesis
    proof (cases "?es = []")
      case True
      with Inr ok1 plan s assms(3,4) show ?thesis by (auto simp: dispatch_doctype_script_def event_spec_def Let_def)
    next
      case False
      obtain r2 st2 where rn: "run_entries he (ht_id ht) class doctype (hp_declared plan) ?es doc st1 = (r2, st2)" by fastforce
      note c = run_entries_spec [OF ok1 rn]
      have "(r, st') = (map_sum id Some r2, st2)"
        using assms(3,4) s Inr False rn by (cases r2) (simp_all add: dispatch_doctype_script_def Let_def)
      with c plan False show ?thesis by (simp add: event_spec_def Let_def)
    qed
  qed
qed

end

section \<open>A concrete guest\<close>

text \<open>
  Guests whose scripts are four words, and two tenants whose DocTypes carry different scripts: a
  \<open>hook_contract\<close>.
\<close>

definition word_sem :: "string option \<Rightarrow> wit_doc \<Rightarrow> guest_result" where
  "word_sem sc d =
     (if sc = Some ''tag'' then GuestOk (d @ [(''note'', TextV ''tagged'')])
      else if sc = Some ''stray'' then GuestOk (d @ [(''secret'', TextV ''x'')])
      else if sc = Some ''refuse'' then GuestReject ''total is negative''
      else if sc = Some ''loop'' then GuestTrap ''epoch deadline''
      else GuestOk d)"

definition word_guest :: "(string option, nat) guest" where
  "word_guest = \<lparr>co_instantiate = Inr,
     co_validate = (\<lambda>i fuel d w. ((word_sem i d, Some (fuel - 1)), i, w))\<rparr>"

definition demo_hook_codec :: hook_codec where
  "demo_hook_codec = \<lparr>hc_to_string = (\<lambda>_. []), hc_from_str = (\<lambda>_. None), hc_f64 = (\<lambda>_. NotANumber), hc_float = (\<lambda>s. s)\<rparr>"

definition demo_hooks :: "(string option, nat) hook_env" where
  "demo_hooks = \<lparr>he_plugin = word_guest, he_engine = word_guest, he_scripts = True, he_codec = demo_hook_codec\<rparr>"

definition script_json :: "string \<Rightarrow> string \<Rightarrow> json" where
  "script_json a sc = JObject [(''app'', JString a), (''hook'', JString ''validate''), (''script'', JString sc)]"

definition demo_row :: "string \<Rightarrow> nat \<Rightarrow> json" where
  "demo_row t g =
     JObject [(''app'', JString ''core''), (''fields'', JArray [JObject [(''fieldname'', JString ''note'')], JObject [(''fieldname'', JString ''total'')]]),
       (''server_script'', JArray (if t = ''acme'' then [script_json ''ext'' (if g = 0 then ''tag'' else ''refuse''), script_json ''core'' ''check'']
                                  else [script_json ''core'' ''stray'']))]"

definition demo_tenant :: "string \<Rightarrow> nat hook_tenant" where
  "demo_tenant t = \<lparr>ht_id = t, ht_sql = (\<lambda>_ g. (Inr (JArray [demo_row t g]), g)), ht_gen = (\<lambda>g. g)\<rparr>"

definition demo_plan :: "string \<Rightarrow> nat \<Rightarrow> string \<Rightarrow> hook_plan" where
  "demo_plan t g d = plan_of_row (demo_row t g)"

interpretation demo_contract: hook_contract demo_hooks "\<lambda>i sc. i = sc" word_sem demo_plan "range demo_tenant"
proof unfold_locales
  fix ht doctype w plan w'
  assume "ht \<in> range demo_tenant" and l: "load_server_scripts (ht_sql ht) doctype w = (Inr plan, w')"
  then obtain t where "ht = demo_tenant t" by blast
  with l show "plan = demo_plan (ht_id ht) (ht_gen ht w) doctype"
    by (auto simp: load_server_scripts_def demo_tenant_def json_first_def demo_plan_def)
qed (auto simp: demo_hooks_def word_guest_def)

lemma demo_hook_contract: "hook_contract demo_hooks (\<lambda>i sc. i = sc) word_sem demo_plan (range demo_tenant)"
  by unfold_locales

lemma fresh_hooks_ok: "hooks_ok good plan_of (wasm_load script w)"
  by (simp add: hooks_ok_def wasm_load_def)

end
