(* ===== verification/Props_Hooks.thy ===== *)
theory Props_Hooks
  imports Hooks_Proofs
begin

text \<open>Properties of the hook dispatcher.\<close>





end
