(* ===== verification/Provision.thy ===== *)
theory Provision
  imports Tenancy Surql Mail Workflow
begin

text \<open>
  \<open>kernel/src/meta.rs\<close>, the kernel's own schema as text; \<open>keyguard.rs\<close>, the test whether a database
  accepts tokens signed with the export placeholder; \<open>provision.rs\<close>, the statements that create, reset
  and re-key a tenant's database. A connection scoped to a tenant is a record of its sessions;
  base64, HMAC and JSON printing come from other packages and are parameters.
\<close>

section \<open>The meta schema\<close>

definition META_SCHEMA_VERSION :: int where
  "META_SCHEMA_VERSION = 10"

definition META_TABLE :: string where
  "META_TABLE = ''_frust_meta''"

definition BOOT_LOCK_TABLE :: string where
  "BOOT_LOCK_TABLE = ''_frust_boot_lock''"

definition APP_TABLE :: string where
  "APP_TABLE = ''installed_app''"

definition APP_FIXTURE_TABLE :: string where
  "APP_FIXTURE_TABLE = ''app_fixture''"

definition POLICY_TABLE :: string where
  "POLICY_TABLE = ''_tenant_policy''"

definition SESSION_TABLE :: string where
  "SESSION_TABLE = ''_frust_session''"

definition ddl_sep :: string where
  "ddl_sep = CHR '';'' # [CHR 0x0A]"

definition identity_ddl :: string where
  "identity_ddl =
     join ddl_sep [
       ''DEFINE TABLE OVERWRITE app_user SCHEMAFULL PERMISSIONS FOR select WHERE id = $auth.id FOR ''
        @ ''create, update, delete NONE'',
       ''DEFINE FIELD OVERWRITE name ON app_user TYPE string'',
       ''DEFINE FIELD OVERWRITE role ON app_user TYPE string'',
       ''DEFINE FIELD OVERWRITE pass ON app_user TYPE string PERMISSIONS NONE'',
       ''DEFINE FIELD OVERWRITE status ON app_user TYPE option<string>'',
       ''DEFINE FIELD OVERWRITE email ON app_user TYPE option<string>'']"

definition access_ddl :: string where
  "access_ddl =
     ''DEFINE ACCESS IF NOT EXISTS account ON DATABASE TYPE RECORD SIGNIN (SELECT * FROM app_user ''
     @ ''WHERE name = $name AND crypto::argon2::compare(pass, $pass)) DURATION FOR TOKEN 1h, FOR ''
     @ ''SESSION 12h''"

definition restored_key_remediation_ddl :: string where
  "restored_key_remediation_ddl =
     ''DEFINE ACCESS OVERWRITE <access-name> ON DATABASE TYPE RECORD SIGNIN (SELECT * FROM ''
     @ ''app_user WHERE name = $name AND crypto::argon2::compare(pass, $pass)) WITH JWT ALGORITHM ''
     @ ''HS512 KEY '<a fresh high-entropy secret>' DURATION FOR TOKEN 1h, FOR SESSION 12h;''"

definition tenant_policy_ddl :: string where
  "tenant_policy_ddl =
     join ddl_sep [
       ''DEFINE TABLE OVERWRITE '' @ POLICY_TABLE @ '' SCHEMALESS PERMISSIONS NONE'',
       ''DEFINE FIELD OVERWRITE tenant ON '' @ POLICY_TABLE @ '' TYPE string'',
       ''DEFINE FIELD OVERWRITE verbs_per_sec ON '' @ POLICY_TABLE @ '' TYPE option<float>'',
       ''DEFINE FIELD OVERWRITE verb_burst ON '' @ POLICY_TABLE @ '' TYPE option<float>'',
       ''DEFINE FIELD OVERWRITE jobs_per_round ON '' @ POLICY_TABLE @ '' TYPE option<int>'']"

definition app_registry_ddl :: string where
  "app_registry_ddl =
     join ddl_sep [
       ''DEFINE TABLE OVERWRITE '' @ APP_TABLE @ '' SCHEMALESS CHANGEFEED 30d PERMISSIONS NONE'',
       ''DEFINE FIELD OVERWRITE name ON '' @ APP_TABLE @ '' TYPE string'',
       ''DEFINE FIELD OVERWRITE version ON '' @ APP_TABLE @ '' TYPE string'',
       ''DEFINE FIELD OVERWRITE enabled ON '' @ APP_TABLE @ '' TYPE bool'',
       ''DEFINE FIELD OVERWRITE manifest ON '' @ APP_TABLE @ '' TYPE string'',
       ''DEFINE FIELD OVERWRITE installed_at ON '' @ APP_TABLE @ '' TYPE datetime'',
       ''DEFINE FIELD OVERWRITE updated_at ON '' @ APP_TABLE @ '' TYPE option<datetime>'']"

definition app_fixture_ddl :: string where
  "app_fixture_ddl =
     join ddl_sep [
       ''DEFINE TABLE OVERWRITE '' @ APP_FIXTURE_TABLE
        @ '' SCHEMAFULL CHANGEFEED 30d PERMISSIONS NONE'',
       ''DEFINE FIELD OVERWRITE doctype ON '' @ APP_FIXTURE_TABLE @ '' TYPE string'',
       ''DEFINE FIELD OVERWRITE record_key ON '' @ APP_FIXTURE_TABLE @ '' TYPE string'',
       ''DEFINE FIELD OVERWRITE app ON '' @ APP_FIXTURE_TABLE @ '' TYPE string'',
       ''DEFINE FIELD OVERWRITE shipped ON '' @ APP_FIXTURE_TABLE @ '' TYPE string'',
       ''DEFINE FIELD OVERWRITE active ON '' @ APP_FIXTURE_TABLE @ '' TYPE bool'',
       ''DEFINE FIELD OVERWRITE adopted_at ON '' @ APP_FIXTURE_TABLE @ '' TYPE datetime'',
       ''DEFINE FIELD OVERWRITE orphaned_at ON '' @ APP_FIXTURE_TABLE @ '' TYPE option<datetime>'']"

definition workflow_ddl :: string where
  "workflow_ddl =
     ''DEFINE TABLE OVERWRITE workflow SCHEMALESS PERMISSIONS NONE''"

definition job_ddl :: string where
  "job_ddl =
     join ddl_sep [
       ''DEFINE TABLE OVERWRITE job SCHEMALESS CHANGEFEED 1d PERMISSIONS NONE'',
       ''DEFINE FIELD OVERWRITE status ON job TYPE string DEFAULT 'queued'' @ [CHR 0x27],
       ''DEFINE FIELD OVERWRITE attempts ON job TYPE int DEFAULT 0'',
       ''DEFINE FIELD OVERWRITE claimed_by ON job TYPE option<string>'',
       ''DEFINE FIELD OVERWRITE claim_token ON job TYPE option<string>'',
       ''DEFINE FIELD OVERWRITE claimed_at ON job TYPE option<datetime>'',
       ''DEFINE FIELD OVERWRITE lease_expires_at ON job TYPE option<datetime>'',
       ''DEFINE FIELD OVERWRITE finished_at ON job TYPE option<datetime>'',
       ''DEFINE FIELD OVERWRITE terminal_reason ON job TYPE option<string>'',
       ''DEFINE INDEX OVERWRITE job_schedule ON TABLE job FIELDS status, tenant, enqueued_at'',
       ''DEFINE INDEX OVERWRITE job_lease_expiry ON TABLE job FIELDS status, lease_expires_at'']"

definition mail_ddl :: string where
  "mail_ddl =
     join ddl_sep [
       ''DEFINE TABLE OVERWRITE '' @ NOTIFICATION_TABLE @ '' SCHEMALESS PERMISSIONS NONE'',
       ''DEFINE TABLE OVERWRITE '' @ OUTBOX_TABLE @ '' SCHEMALESS CHANGEFEED 30d PERMISSIONS NONE'',
       ''DEFINE FIELD OVERWRITE enqueued_at ON '' @ OUTBOX_TABLE
        @ '' TYPE datetime DEFAULT time::now()'']"

definition meta_data_migrations :: string where
  "meta_data_migrations =
     join ''; '' [
       ''UPDATE doctype SET server_script = [{ app: app, script: server_script }]          WHERE ''
        @ ''type::is_string(server_script)'',
       ''UPDATE doctype SET server_script = IF type::is_array(server_script) {            ''
        @ ''server_script.map(|$s|              IF $s.hook = NONE { ''
        @ ''object::from_entries(object::entries($s).append(['hook', 'validate'])) }              ELSE ''
        @ ''{ $s })          } ELSE { server_script }'',
       ''UPDATE job SET status = 'queued', claimed_by = NONE, claimed_at = NONE, claim_token = NONE, ''
        @ ''lease_expires_at = NONE, attempts = IF attempts = NONE { 0 } ELSE { attempts }, last_error ''
        @ ''= 'legacy running claim recovered during v9 migration' WHERE status = 'running' AND ''
        @ ''lease_expires_at = NONE'']"

definition meta_ddl :: string where
  "meta_ddl =
     join ddl_sep [
       app_registry_ddl, app_fixture_ddl, workflow_ddl, mail_ddl,
       ''DEFINE TABLE OVERWRITE '' @ META_TABLE @ '' SCHEMALESS PERMISSIONS NONE'',
       ''DEFINE TABLE OVERWRITE '' @ BOOT_LOCK_TABLE @ '' SCHEMALESS PERMISSIONS NONE'',
       ''DEFINE TABLE OVERWRITE doctype SCHEMALESS PERMISSIONS NONE'',
       job_ddl,
       ''DEFINE TABLE OVERWRITE '' @ SESSION_TABLE @ '' SCHEMALESS PERMISSIONS NONE'',
       identity_ddl, access_ddl]"
section \<open>A tenant's connection\<close>

text \<open>\<open>Db\<close>: its target, the name of its record access, and its sessions: root in the tenant's database,
  root in its namespace only, root with the statements' raw answers, and a session under a
  given authorization header.\<close>

record ('c, 'w) tenant_db =
  td_target :: "'c resolved_tenant"
  td_access :: string
  td_root :: "'w sql"
  td_root_ns :: "'w sql"
  td_root_raw :: "string \<Rightarrow> 'w \<Rightarrow> (broker_error + json list) \<times> 'w"
  td_session :: "string \<Rightarrow> 'w sql"

section \<open>The key guard\<close>

definition REDACTED_KEY :: string where
  "REDACTED_KEY = ''[REDACTED]''"

definition CANARY_ID :: string where
  "CANARY_ID = ''app_user:__frust_keyguard_canary__''"

record token_codec =
  tk_b64 :: "string \<Rightarrow> string"
  tk_hmac :: "string \<Rightarrow> string \<Rightarrow> string"
  tk_show :: "json \<Rightarrow> string"

definition dq :: "string \<Rightarrow> string" where
  "dq s = CHR 0x22 # s @ [CHR 0x22]"

text \<open>A token signed with the key \<open>k\<close>, issued at the second \<open>now\<close>; a JSON object lists its keys in order.\<close>

definition forge_token :: "token_codec \<Rightarrow> nat \<Rightarrow> string \<Rightarrow> string \<Rightarrow> string \<Rightarrow> string \<Rightarrow> string" where
  "forge_token tk now ns db access k =
     (let header = tk_b64 tk (''{'' @ dq ''alg'' @ '':'' @ dq ''HS512'' @ '','' @ dq ''typ'' @ '':'' @ dq ''JWT'' @ ''}'');
          claims = JObject [(''ID'', JString CANARY_ID), (''ac'', JString access), (''db'', JString db),
            (''exp'', JInt (int now + 300)), (''iat'', JInt (int now)), (''nbf'', JInt (int now)), (''ns'', JString ns)];
          signing_input = header @ ''.'' @ tk_b64 tk (tk_show tk claims)
      in signing_input @ ''.'' @ tk_b64 tk (tk_hmac tk k signing_input))"

definition unauthorized :: "string \<Rightarrow> bool" where
  "unauthorized detail = (contains_str ''401'' detail \<or> contains_str ''unauthor'' (map ascii_lower detail))"

definition store_accepts_key ::
  "token_codec \<Rightarrow> ('w \<Rightarrow> nat) \<Rightarrow> ('c, 'w) tenant_db \<Rightarrow> string \<Rightarrow> 'w \<Rightarrow> (broker_error + bool) \<times> 'w" where
  "store_accepts_key tk clock db k w =
     (let token = forge_token tk (clock w) (rt_namespace (td_target db)) (rt_database (td_target db)) (td_access db) k in
      case td_session db (''Bearer '' @ token) ''RETURN 1;'' w of
        (Inr _, w1) \<Rightarrow> (Inr True, w1)
      | (Inl e, w1) \<Rightarrow>
          (case e of
             PermissionDenied _ \<Rightarrow> (Inr False, w1)
           | DbError detail \<Rightarrow> (if unauthorized detail then (Inr False, w1) else (Inl e, w1))
           | _ \<Rightarrow> (Inl e, w1)))"

definition restored_key_error :: "string \<Rightarrow> broker_error" where
  "restored_key_error access =
     PermissionDenied (
       ''FRUST:E_RESTORED_ACCESS_KEY: this database accepts tokens signed with SurrealDB's export ''
       @ ''placeholder key ('' @ sq1 REDACTED_KEY @ ''), so ANY party can forge a session for ANY user. This is ''
       @ ''what a `surreal import` of an exported dump leaves behind '' @ em_dash
       @ '' the key is redacted on export and restored literally.'' @ [CHR 0x0A]
       @ ''REMEDY: re-issue the record access (yours is named '' @ sq1 access @ '') with a fresh secret before serving ''
       @ em_dash @ [CHR 0x0A] @ ''  '' @ restored_key_remediation_ddl @ [CHR 0x0A]
       @ ''Use OVERWRITE: the IF-NOT-EXISTS form is a no-op against an existing access and fixes nothing. Existing ''
       @ ''sessions do not survive a restore in any case. There is deliberately no flag to serve anyway.'')"

definition assert_access_key_is_not_redacted ::
  "token_codec \<Rightarrow> ('w \<Rightarrow> nat) \<Rightarrow> ('c, 'w) tenant_db \<Rightarrow> 'w \<Rightarrow> (broker_error + unit) \<times> 'w" where
  "assert_access_key_is_not_redacted tk clock db w =
     and_then (store_accepts_key tk clock db REDACTED_KEY w) (\<lambda>accepted w1.
       if accepted then (Inl (restored_key_error (td_access db)), w1) else (Inr (), w1))"

section \<open>Provisioning\<close>

definition step_ddl :: "provisioning_step \<Rightarrow> broker_error + string" where
  "step_ddl step =
     (case step of
        CreateNamespace ns \<Rightarrow> Inr (''DEFINE NAMESPACE IF NOT EXISTS '' @ ns)
      | CreateDatabase ns database \<Rightarrow> Inr (''DEFINE DATABASE IF NOT EXISTS '' @ database)
      | DefineAccess p \<Rightarrow>
          (case p of
             OnDatabase \<Rightarrow> Inr access_ddl
           | OnNamespace \<Rightarrow> Inl (InvalidValue (
               ''namespace-level RECORD access is not supported by SurrealDB 3.2.0 (probed: HTTP 400); this topology ''
          @ ''must place its access ON DATABASE''))))"

definition ddl :: "provisioning_step list \<Rightarrow> broker_error + string list" where
  "ddl plan = collect_res (map step_ddl plan)"

definition step_session :: "('c, 'w) tenant_db \<Rightarrow> provisioning_step \<Rightarrow> 'w sql" where
  "step_session db step = (case step of DefineAccess _ \<Rightarrow> td_root db | _ \<Rightarrow> td_root_ns db)"

fun provision_steps :: "('c, 'w) tenant_db \<Rightarrow> provisioning_step list \<Rightarrow> 'w \<Rightarrow> (broker_error + unit) \<times> 'w" where
  "provision_steps db [] w = (Inr (), w)"
| "provision_steps db (step # steps) w =
     and_then (lift_res (step_ddl step) w) (\<lambda>sql w1.
     and_then (step_session db step (sql @ '';'') w1) (\<lambda>_ w2. provision_steps db steps w2))"

definition provision ::
  "('c resolved_tenant \<Rightarrow> ('c, 'w) tenant_db) \<Rightarrow> 'c resolved_tenant \<Rightarrow> 'w \<Rightarrow> (broker_error + unit) \<times> 'w" where
  "provision scoped_db target w =
     provision_steps (scoped_db target) (strategy_provisioning_plan (rt_strategy target) target) w"

fun provision_each ::
  "('c resolved_tenant \<Rightarrow> ('c, 'w) tenant_db) \<Rightarrow> 'c resolved_tenant list \<Rightarrow> 'w \<Rightarrow> (broker_error + unit) \<times> 'w" where
  "provision_each scoped_db [] w = (Inr (), w)"
| "provision_each scoped_db (t # ts) w =
     and_then (provision scoped_db t w) (\<lambda>_ w1. provision_each scoped_db ts w1)"

definition provision_all ::
  "codec \<Rightarrow> ('c resolved_tenant \<Rightarrow> ('c, 'w) tenant_db) \<Rightarrow> 'c tenancy \<Rightarrow> 'w \<Rightarrow> (broker_error + nat) \<times> 'w" where
  "provision_all cd scoped_db t w =
     and_then (lift_res (resolve_all cd t) w) (\<lambda>targets w1.
     and_then (provision_each scoped_db targets w1) (\<lambda>_ w2. (Inr (length targets), w2)))"

definition export_target :: "'c resolved_tenant \<Rightarrow> string \<times> string option \<times> bool" where
  "export_target target =
     (let plan = strategy_backup_plan (rt_strategy target) target
      in (bp_namespace plan, bp_database plan, bp_tenant_isolated plan))"

section \<open>Resetting and re-keying\<close>

definition reset_database_for_restore ::
  "('c resolved_tenant \<Rightarrow> ('c, 'w) tenant_db) \<Rightarrow> 'c resolved_tenant \<Rightarrow> 'w \<Rightarrow> (broker_error + unit) \<times> 'w" where
  "reset_database_for_restore scoped_db target w =
     (let plan = strategy_backup_plan (rt_strategy target) target in
      if \<not> bp_tenant_isolated plan
      then (Inl (InvalidValue ''tenant restore refused: the strategy's database contains shared tenant data''), w)
      else case bp_database plan of
        None \<Rightarrow> (Inl (InvalidValue ''restore requires a database-scoped backup plan''), w)
      | Some database \<Rightarrow>
          and_then (td_root_ns (scoped_db target) (''REMOVE DATABASE '' @ database @ ''; DEFINE DATABASE '' @ database @ '';'') w)
            (\<lambda>_ w1. (Inr (), w1)))"

definition rotate_sql :: "string \<Rightarrow> string \<Rightarrow> string" where
  "rotate_sql access secret =
     ''DEFINE ACCESS OVERWRITE '' @ access @ '' ON DATABASE TYPE RECORD SIGNIN (SELECT * FROM app_user ''
     @ ''WHERE name = $name AND crypto::argon2::compare(pass, $pass)) WITH JWT ALGORITHM HS512 KEY ''
     @ quote_literal secret @ '' DURATION FOR TOKEN 1h, FOR SESSION 12h;''"

definition rotate_restored_access ::
  "('c resolved_tenant \<Rightarrow> ('c, 'w) tenant_db) \<Rightarrow> 'c resolved_tenant \<Rightarrow> 'w \<Rightarrow> (broker_error + unit) \<times> 'w" where
  "rotate_restored_access scoped_db target w =
     (let db = scoped_db target in
      and_then (td_root db ''RETURN rand::string(64);'' w) (\<lambda>answer w1.
        case json_str answer of
          None \<Rightarrow> (Inl (DbError ''database did not return a signing-key string''), w1)
        | Some secret \<Rightarrow>
            (if length secret \<noteq> 64 \<or> \<not> list_all is_alnum secret
             then (Inl (DbError ''database returned an invalid signing-key value''), w1)
             else and_then (lift_res (render_path [PField (td_access db)]) w1) (\<lambda>access w2.
                  and_then (td_root db (rotate_sql access secret) w2) (\<lambda>_ w3. (Inr (), w3))))))"

end
