(* ===== verification/Recovery.thy ===== *)
theory Recovery
  imports Provision Text_Diff
begin

text \<open>
  \<open>kernel/src/recovery.rs\<close>: the backup and restore commands. Paths are the texts the operator gave, with
  the standard library's operations on their components. The file system, the child processes and
  the clock act on the world \<open>'w\<close> through the record \<open>disk\<close>; SHA-256 and the JSON form of the manifest
  come from other packages and are fields of it. \<open>Aborted\<close> is a panic.
\<close>

section \<open>Paths\<close>

datatype path_part = RootDir | CurDir | ParentDir | Normal string

definition path_part :: "string \<Rightarrow> path_part" where
  "path_part s = (if s = ''..'' then ParentDir else Normal s)"

definition path_parts :: "string list \<Rightarrow> path_part list" where
  "path_parts ss = map path_part (filter (\<lambda>s. s \<noteq> [] \<and> s \<noteq> ''.'') ss)"

definition components :: "string \<Rightarrow> path_part list" where
  "components p =
     (let ss = split_char CHR ''/'' p in
      if p \<noteq> [] \<and> hd p = CHR ''/'' then RootDir # path_parts ss
      else if hd ss = ''.'' then CurDir # path_parts ss
      else path_parts ss)"

definition file_name :: "string \<Rightarrow> string option" where
  "file_name p =
     (if components p = [] then None
      else case last (components p) of Normal s \<Rightarrow> Some s | _ \<Rightarrow> None)"

text \<open>The parent is the shortest prefix of the text with all components but the last.\<close>

definition parent :: "string \<Rightarrow> string option" where
  "parent p =
     (if components p = [] \<or> last (components p) = RootDir then None
      else find (\<lambda>t. components t = butlast (components p)) (map (\<lambda>n. take n p) [0..<length p + 1]))"

definition path_push :: "string \<Rightarrow> string \<Rightarrow> string" where
  "path_push p n =
     (if n \<noteq> [] \<and> hd n = CHR ''/'' then n
      else if p = [] \<or> last p = CHR ''/'' then p @ n
      else p @ ''/'' @ n)"

definition with_file_name :: "string \<Rightarrow> string \<Rightarrow> string" where
  "with_file_name p n =
     path_push (if file_name p = None then p else case parent p of Some t \<Rightarrow> t | None \<Rightarrow> p) n"

definition path_starts_with :: "string \<Rightarrow> string \<Rightarrow> bool" where
  "path_starts_with p base = (take (length (components base)) (components p) = components base)"

section \<open>Commands\<close>

datatype recovery_failure = Refused string | Aborted

definition DUMP_FILE :: string where
  "DUMP_FILE = ''dump.surql''"

definition MANIFEST_FILE :: string where
  "MANIFEST_FILE = ''manifest.json''"

definition FORMAT_VERSION :: nat where
  "FORMAT_VERSION = 1"

definition USAGE :: string where
  "USAGE =
     ''usage:'' @ [CHR 0x0A]
     @ ''  frust backup --tenant <slug> --output <new-directory> [--surreal-bin <path>] [--dry-run]'' @ [CHR 0x0A]
     @ ''  frust backup verify --input <backup-directory>'' @ [CHR 0x0A]
     @ ''  frust restore --tenant <slug> --input <backup-directory> ''
     @ ''--safety-backup <new-directory> --confirm-drop <namespace/database> ''
     @ ''[--surreal-bin <path>] [--dry-run]''"

datatype recovery_command =
    Backup string string string bool
  | Verify string
  | Restore string string string "string option" string bool

definition command_tenant :: "recovery_command \<Rightarrow> string option" where
  "command_tenant c = (case c of
     Backup tenant _ _ _ \<Rightarrow> Some tenant | Restore tenant _ _ _ _ _ \<Rightarrow> Some tenant | Verify _ \<Rightarrow> None)"

definition is_flag :: "string \<Rightarrow> bool" where
  "is_flag s = (strip_prefix ''--'' s \<noteq> None)"

fun option_from :: "string \<Rightarrow> string option \<Rightarrow> string list \<Rightarrow> recovery_failure + string option" where
  "option_from name found [] = Inr found"
| "option_from name found (a # args) =
     (if a \<noteq> name then option_from name found args
      else if found \<noteq> None then Inl (Refused (name @ '' was supplied more than once''))
      else case args of
        v # rest \<Rightarrow> (if is_flag v then Inl (Refused (name @ '' requires a value''))
                     else option_from name (Some v) rest)
      | [] \<Rightarrow> Inl (Refused (name @ '' requires a value'')))"

definition option_of :: "string list \<Rightarrow> string \<Rightarrow> recovery_failure + string option" where
  "option_of args name = option_from name None args"

definition required :: "string list \<Rightarrow> string \<Rightarrow> recovery_failure + string" where
  "required args name =
     try_res (option_of args name) (\<lambda>v. case v of
       Some s \<Rightarrow> Inr s | None \<Rightarrow> Inl (Refused (''missing '' @ name @ CHR 0x0A # USAGE)))"

fun validate_flags :: "codec \<Rightarrow> string list \<Rightarrow> string list \<Rightarrow> string list \<Rightarrow> recovery_failure + unit" where
  "validate_flags cd valued switches [] = Inr ()"
| "validate_flags cd valued switches (flag # args) =
     (if flag \<in> set valued then
        (case args of
           v # rest \<Rightarrow> (if is_flag v then Inl (Refused (flag @ '' requires a value''))
                        else validate_flags cd valued switches rest)
         | [] \<Rightarrow> Inl (Refused (flag @ '' requires a value'')))
      else if flag \<in> set switches then validate_flags cd valued switches args
      else Inl (Refused (''unknown recovery argument '' @ cd_debug_str cd flag @ CHR 0x0A # USAGE)))"

text \<open>The binary named on the command line, else by the environment variable \<open>FRUST_SURREAL_BIN\<close>.\<close>

definition surreal_bin :: "string option \<Rightarrow> string list \<Rightarrow> recovery_failure + string" where
  "surreal_bin from_env args =
     try_res (option_of args ''--surreal-bin'') (\<lambda>v.
       Inr (case v of Some s \<Rightarrow> s | None \<Rightarrow> (case from_env of Some s \<Rightarrow> s | None \<Rightarrow> ''surreal'')))"

definition parse_verify :: "codec \<Rightarrow> string list \<Rightarrow> recovery_failure + recovery_command" where
  "parse_verify cd tail =
     try_res (validate_flags cd [''--input''] [] tail) (\<lambda>_.
     try_res (required tail ''--input'') (\<lambda>input. Inr (Verify input)))"

definition parse_backup :: "codec \<Rightarrow> string option \<Rightarrow> string list \<Rightarrow> recovery_failure + recovery_command" where
  "parse_backup cd from_env tail =
     try_res (validate_flags cd [''--tenant'', ''--output'', ''--surreal-bin''] [''--dry-run''] tail) (\<lambda>_.
     try_res (required tail ''--tenant'') (\<lambda>tenant.
     try_res (required tail ''--output'') (\<lambda>output.
     try_res (surreal_bin from_env tail) (\<lambda>bin. Inr (Backup tenant output bin (''--dry-run'' \<in> set tail))))))"

definition parse_restore :: "codec \<Rightarrow> string option \<Rightarrow> string list \<Rightarrow> recovery_failure + recovery_command" where
  "parse_restore cd from_env tail =
     try_res (validate_flags cd [''--tenant'', ''--input'', ''--safety-backup'', ''--confirm-drop'', ''--surreal-bin'']
       [''--dry-run''] tail) (\<lambda>_.
     try_res (required tail ''--tenant'') (\<lambda>tenant.
     try_res (required tail ''--input'') (\<lambda>input.
     try_res (required tail ''--safety-backup'') (\<lambda>safety.
     try_res (option_of tail ''--confirm-drop'') (\<lambda>confirm.
     try_res (surreal_bin from_env tail) (\<lambda>bin.
       Inr (Restore tenant input safety confirm bin (''--dry-run'' \<in> set tail))))))))"

definition parse_command :: "codec \<Rightarrow> string option \<Rightarrow> string list \<Rightarrow> recovery_failure + recovery_command option" where
  "parse_command cd from_env args =
     (case args of
        [] \<Rightarrow> Inr None
      | a # tail \<Rightarrow>
          (if a = ''backup'' \<and> tail \<noteq> [] \<and> hd tail = ''verify'' then map_sum id Some (parse_verify cd (tl tail))
           else if a = ''backup'' then map_sum id Some (parse_backup cd from_env tail)
           else if a = ''restore'' then map_sum id Some (parse_restore cd from_env tail)
           else Inr None))"

section \<open>Manifests and plans\<close>

record backup_manifest =
  bm_format_version :: nat
  bm_created :: nat
  bm_tenant :: string
  bm_topology :: string
  bm_namespace :: string
  bm_database :: string
  bm_tenant_isolated :: bool
  bm_dump_file :: string
  bm_dump_bytes :: nat
  bm_dump_sha256 :: string

definition manifest_scope :: "backup_manifest \<Rightarrow> string" where
  "manifest_scope m = bm_namespace m @ ''/'' @ bm_database m"

record target_plan =
  tp_tenant :: string
  tp_topology :: string
  tp_namespace :: string
  tp_database :: string
  tp_tenant_isolated :: bool

definition plan_target :: "'c resolved_tenant \<Rightarrow> recovery_failure + target_plan" where
  "plan_target target =
     (let plan = strategy_backup_plan (rt_strategy target) target in
      case bp_database plan of
        None \<Rightarrow> Inl (Refused ''SurrealDB export/import requires a database-scoped backup plan'')
      | Some database \<Rightarrow>
          Inr \<lparr>tp_tenant = rt_tenant_id target, tp_topology = strategy_name (rt_strategy target),
               tp_namespace = bp_namespace plan, tp_database = database,
               tp_tenant_isolated = bp_tenant_isolated plan\<rparr>)"

definition plan_scope :: "target_plan \<Rightarrow> string" where
  "plan_scope p = tp_namespace p @ ''/'' @ tp_database p"

definition plan_matches :: "target_plan \<Rightarrow> backup_manifest \<Rightarrow> bool" where
  "plan_matches p m =
     (tp_tenant p = bm_tenant m \<and> tp_topology p = bm_topology m \<and> tp_namespace p = bm_namespace m
      \<and> tp_database p = bm_database m \<and> tp_tenant_isolated p = bm_tenant_isolated m)"

section \<open>The disk\<close>

text \<open>Opening a file may fail, and so may reading it then. A write creates the file, writes and syncs it.\<close>

record 'w disk =
  dk_exists :: "string \<Rightarrow> 'w \<Rightarrow> bool"
  dk_is_dir :: "string \<Rightarrow> 'w \<Rightarrow> bool"
  dk_open :: "string \<Rightarrow> 'w \<Rightarrow> string + (string + string)"
  dk_create_dir_all :: "string \<Rightarrow> 'w \<Rightarrow> (string + unit) \<times> 'w"
  dk_create_dir :: "string \<Rightarrow> 'w \<Rightarrow> (string + unit) \<times> 'w"
  dk_write :: "string \<Rightarrow> string \<Rightarrow> 'w \<Rightarrow> (string + unit) \<times> 'w"
  dk_sync :: "string \<Rightarrow> 'w \<Rightarrow> (string + unit) \<times> 'w"
  dk_rename :: "string \<Rightarrow> string \<Rightarrow> 'w \<Rightarrow> (string + unit) \<times> 'w"
  dk_remove_dir_all :: "string \<Rightarrow> 'w \<Rightarrow> (string + unit) \<times> 'w"
  dk_clock :: "'w \<Rightarrow> string + nat"
  dk_pid :: nat
  dk_sha256 :: "string \<Rightarrow> string"
  dk_show_manifest :: "backup_manifest \<Rightarrow> string"
  dk_read_manifest :: "string \<Rightarrow> string + backup_manifest"

definition lowercase_hex :: "string \<Rightarrow> string" where
  "lowercase_hex bytes =
     concat (map (\<lambda>c. [hex_digit (of_char c div 16), hex_digit (of_char c mod 16)]) bytes)"

definition hash_file :: "'w disk \<Rightarrow> string \<Rightarrow> 'w \<Rightarrow> recovery_failure + nat \<times> string" where
  "hash_file dk path w =
     (case dk_open dk path w of
        Inl e \<Rightarrow> Inl (Refused (''open '' @ path @ '': '' @ e))
      | Inr (Inl e) \<Rightarrow> Inl (Refused e)
      | Inr (Inr content) \<Rightarrow> Inr (length content, lowercase_hex (dk_sha256 dk content)))"

definition read_manifest :: "'w disk \<Rightarrow> string \<Rightarrow> 'w \<Rightarrow> recovery_failure + backup_manifest" where
  "read_manifest dk path w =
     (case dk_open dk path w of
        Inl e \<Rightarrow> Inl (Refused (''open '' @ path @ '': '' @ e))
      | Inr r \<Rightarrow>
          (case try_res r (dk_read_manifest dk) of
             Inl e \<Rightarrow> Inl (Refused (''parse '' @ path @ '': '' @ e))
           | Inr m \<Rightarrow> Inr m))"

definition verify_dump :: "codec \<Rightarrow> 'w disk \<Rightarrow> string \<Rightarrow> backup_manifest \<Rightarrow> 'w \<Rightarrow> recovery_failure + backup_manifest" where
  "verify_dump cd dk input m w =
     (if bm_format_version m \<noteq> FORMAT_VERSION
      then Inl (Refused (''unsupported backup format '' @ nat_str (bm_format_version m)
             @ '' (this binary supports '' @ nat_str FORMAT_VERSION @ '')''))
      else if bm_dump_file m \<noteq> DUMP_FILE
      then Inl (Refused (''manifest dump_file must be '' @ cd_debug_str cd DUMP_FILE @ '', got ''
             @ cd_debug_str cd (bm_dump_file m)))
      else try_res (hash_file dk (path_push input DUMP_FILE) w) (\<lambda>(bytes, sha256).
        if bytes = 0 then Inl (Refused ''backup dump is empty'')
        else if bytes \<noteq> bm_dump_bytes m \<or> sha256 \<noteq> bm_dump_sha256 m
        then Inl (Refused (''backup integrity mismatch: manifest bytes='' @ nat_str (bm_dump_bytes m) @ '' sha256=''
               @ bm_dump_sha256 m @ '', actual bytes='' @ nat_str bytes @ '' sha256='' @ sha256))
        else Inr m))"

definition verify_backup :: "codec \<Rightarrow> 'w disk \<Rightarrow> string \<Rightarrow> 'w \<Rightarrow> recovery_failure + backup_manifest" where
  "verify_backup cd dk input w =
     (if \<not> dk_is_dir dk input w
      then Inl (Refused (''backup path is not a directory: '' @ input))
      else try_res (read_manifest dk (path_push input MANIFEST_FILE) w) (\<lambda>m. verify_dump cd dk input m w))"

section \<open>Operations on the database\<close>

record ('c, 'w) recovery_ops =
  ro_export :: "'c resolved_tenant \<Rightarrow> string \<Rightarrow> 'w \<Rightarrow> (recovery_failure + unit) \<times> 'w"
  ro_reset :: "'c resolved_tenant \<Rightarrow> 'w \<Rightarrow> (recovery_failure + unit) \<times> 'w"
  ro_import :: "'c resolved_tenant \<Rightarrow> string \<Rightarrow> 'w \<Rightarrow> (recovery_failure + unit) \<times> 'w"
  ro_rotate :: "'c resolved_tenant \<Rightarrow> 'w \<Rightarrow> (recovery_failure + unit) \<times> 'w"
  ro_keyguard :: "'c resolved_tenant \<Rightarrow> 'w \<Rightarrow> (recovery_failure + unit) \<times> 'w"

text \<open>What the commands need of the system: how a connection names its endpoint and root user, a child
  process under a changed environment (\<open>None\<close> removes a variable), the error texts, a scoped connection.\<close>

record process_output =
  po_success :: bool
  po_status :: string
  po_stdout :: string
  po_stderr :: string

record ('c, 'w) system =
  ss_endpoint :: "'c \<Rightarrow> string"
  ss_user :: "'c \<Rightarrow> string"
  ss_pass :: "'c \<Rightarrow> string"
  ss_spawn :: "string \<Rightarrow> string list \<Rightarrow> (string \<times> string option) list \<Rightarrow> 'w \<Rightarrow> (string + process_output) \<times> 'w"
  ss_show :: "broker_error \<Rightarrow> string"
  ss_scoped_db :: "'c resolved_tenant \<Rightarrow> ('c, 'w) tenant_db"
  ss_tokens :: token_codec
  ss_seconds :: "'w \<Rightarrow> nat"

function replace_all :: "string \<Rightarrow> string \<Rightarrow> string \<Rightarrow> string" where
  "replace_all p r s =
     (if p = [] then s
      else case split_str p s of None \<Rightarrow> s | Some (a, b) \<Rightarrow> a @ r @ replace_all p r b)"
  by pat_completeness auto
termination
  by (relation "measure (\<lambda>(p, r, s). length s)") (auto dest!: split_str_Some)

declare replace_all.simps [simp del]

definition continuation_byte :: "char \<Rightarrow> bool" where
  "continuation_byte c = byte_in 0x80 0xBF c"

text \<open>The reported output of a failed child: without the password, and cut at a byte that must start a character.\<close>

definition child_detail :: "string \<Rightarrow> process_output \<Rightarrow> recovery_failure + string" where
  "child_detail pass out =
     (let d0 = trim (po_stderr out);
          d1 = (if d0 = [] then trim (po_stdout out) else d0);
          d2 = (if pass = [] then d1 else replace_all pass ''<redacted>'' d1)
      in if length d2 \<le> 4096 then Inr d2
         else if continuation_byte (d2 ! 4096) then Inl Aborted
         else Inr (take 4096 d2 @ ''...<truncated>''))"

definition surreal ::
  "('c, 'w) system \<Rightarrow> string \<Rightarrow> string \<Rightarrow> 'c resolved_tenant \<Rightarrow> string \<Rightarrow> 'w \<Rightarrow> (recovery_failure + unit) \<times> 'w" where
  "surreal ss bin verb target file w =
     and_then (lift_res (plan_target target) w) (\<lambda>plan w1.
       let conn = rt_conn target;
           args = [verb, ''--endpoint'', ss_endpoint ss conn, ''--namespace'', tp_namespace plan,
             ''--database'', tp_database plan, ''--log'', ''error'', file];
           env = [(''SURREAL_USER'', Some (ss_user ss conn)), (''SURREAL_PASS'', Some (ss_pass ss conn)),
             (''SURREAL_AUTH_LEVEL'', Some ''root''), (''SURREAL_TOKEN'', None)]
       in case ss_spawn ss bin args env w1 of
            (Inl e, w2) \<Rightarrow> (Inl (Refused (''could not start '' @ bin @ '' '' @ verb @ '': '' @ e)), w2)
          | (Inr out, w2) \<Rightarrow>
              (if po_success out then (Inr (), w2)
               else (try_res (child_detail (ss_pass ss conn) out) (\<lambda>detail.
                       Inl (Refused (''surreal '' @ verb @ '' failed with '' @ po_status out @ '': '' @ detail))), w2)))"

definition relabel :: "string \<Rightarrow> (recovery_failure + 'a) \<times> 'w \<Rightarrow> (recovery_failure + 'a) \<times> 'w" where
  "relabel label x =
     (case x of (Inl (Refused e), w) \<Rightarrow> (Inl (Refused (label @ e)), w) | _ \<Rightarrow> x)"

definition broker_step :: "('c, 'w) system \<Rightarrow> string \<Rightarrow> (broker_error + 'a) \<times> 'w \<Rightarrow> (recovery_failure + 'a) \<times> 'w" where
  "broker_step ss label x =
     (case x of (Inl e, w) \<Rightarrow> (Inl (Refused (label @ ss_show ss e)), w) | (Inr a, w) \<Rightarrow> (Inr a, w))"

definition system_ops :: "('c, 'w) system \<Rightarrow> string \<Rightarrow> ('c, 'w) recovery_ops" where
  "system_ops ss bin =
     \<lparr>ro_export = surreal ss bin ''export'',
      ro_reset = (\<lambda>target w. broker_step ss ''reset restore target: '' (reset_database_for_restore (ss_scoped_db ss) target w)),
      ro_import = surreal ss bin ''import'',
      ro_rotate = (\<lambda>target w. broker_step ss ''rotate restored access: '' (rotate_restored_access (ss_scoped_db ss) target w)),
      ro_keyguard = (\<lambda>target w. broker_step ss ''post-restore keyguard: ''
        (assert_access_key_is_not_redacted (ss_tokens ss) (ss_seconds ss) (ss_scoped_db ss target) w))\<rparr>"

section \<open>Backup\<close>

definition staging_path :: "'w disk \<Rightarrow> string \<Rightarrow> recovery_failure + string" where
  "staging_path dk output =
     (case file_name output of
        None \<Rightarrow> Inl (Refused (''backup output needs a directory name: '' @ output))
      | Some name \<Rightarrow> Inr (with_file_name output (name @ ''.partial-'' @ nat_str (dk_pid dk))))"

definition io :: "(string + 'a) \<times> 'w \<Rightarrow> (recovery_failure + 'a) \<times> 'w" where
  "io x = (case x of (Inl e, w) \<Rightarrow> (Inl (Refused e), w) | (Inr a, w) \<Rightarrow> (Inr a, w))"

definition manifest_for :: "target_plan \<Rightarrow> nat \<Rightarrow> nat \<times> string \<Rightarrow> backup_manifest" where
  "manifest_for plan now hash =
     \<lparr>bm_format_version = FORMAT_VERSION, bm_created = now, bm_tenant = tp_tenant plan,
      bm_topology = tp_topology plan, bm_namespace = tp_namespace plan, bm_database = tp_database plan,
      bm_tenant_isolated = tp_tenant_isolated plan, bm_dump_file = DUMP_FILE,
      bm_dump_bytes = fst hash, bm_dump_sha256 = snd hash\<rparr>"

definition dump_hash :: "'w disk \<Rightarrow> string \<Rightarrow> 'w \<Rightarrow> recovery_failure + nat \<times> string" where
  "dump_hash dk dump w =
     try_res (hash_file dk dump w) (\<lambda>hash.
       if fst hash = 0 then Inl (Refused ''surreal export produced an empty dump'') else Inr hash)"

definition unix_seconds :: "'w disk \<Rightarrow> 'w \<Rightarrow> recovery_failure + nat" where
  "unix_seconds dk w = map_err (\<lambda>e. Refused (''system clock precedes Unix epoch: '' @ e)) (dk_clock dk w)"

text \<open>Filling the staging directory and publishing it.\<close>

definition fill_and_publish ::
  "codec \<Rightarrow> 'w disk \<Rightarrow> ('c, 'w) recovery_ops \<Rightarrow> 'c resolved_tenant \<Rightarrow> string \<Rightarrow> string \<Rightarrow> 'w
   \<Rightarrow> (recovery_failure + backup_manifest) \<times> 'w" where
  "fill_and_publish cd dk ops target staging output w =
     (let dump = path_push staging DUMP_FILE in
      and_then (lift_res (plan_target target) w) (\<lambda>plan w1.
      and_then (ro_export ops target dump w1) (\<lambda>_ w2.
      and_then (lift_res (dump_hash dk dump w2) w2) (\<lambda>hash w3.
      and_then (lift_res (unix_seconds dk w3) w3) (\<lambda>now w4.
      and_then (io (dk_write dk (path_push staging MANIFEST_FILE)
        (dk_show_manifest dk (manifest_for plan now hash) @ [CHR 0x0A]) w4)) (\<lambda>_ w5.
      and_then (io (dk_sync dk dump w5)) (\<lambda>_ w6.
      and_then (lift_res (verify_backup cd dk staging w6) w6) (\<lambda>verified w7.
      and_then (relabel (''publish backup '' @ staging @ '' -> '' @ output @ '': '') (io (dk_rename dk staging output w7)))
        (\<lambda>_ w8. (Inr verified, w8))))))))))"

text \<open>What is left in the staging directory is removed after an error; a panic leaves it there.\<close>

definition cleaned :: "'w disk \<Rightarrow> string \<Rightarrow> (recovery_failure + 'a) \<times> 'w \<Rightarrow> (recovery_failure + 'a) \<times> 'w" where
  "cleaned dk staging x =
     (case x of
        (Inl (Refused e), w) \<Rightarrow>
          (Inl (Refused e), if dk_exists dk staging w then snd (dk_remove_dir_all dk staging w) else w)
      | _ \<Rightarrow> x)"

definition create_backup ::
  "codec \<Rightarrow> 'w disk \<Rightarrow> ('c, 'w) recovery_ops \<Rightarrow> 'c resolved_tenant \<Rightarrow> string \<Rightarrow> 'w
   \<Rightarrow> (recovery_failure + backup_manifest) \<times> 'w" where
  "create_backup cd dk ops target output w =
     (if dk_exists dk output w
      then (Inl (Refused (''backup output already exists; refusing to overwrite: '' @ output)), w)
      else
        let dir = (case parent output of Some p \<Rightarrow> (if p \<noteq> [] then p else ''.'') | None \<Rightarrow> ''.'') in
        and_then (relabel (''create '' @ dir @ '': '') (io (dk_create_dir_all dk dir w))) (\<lambda>_ w1.
        and_then (lift_res (staging_path dk output) w1) (\<lambda>staging w2.
          if dk_exists dk staging w2
          then (Inl (Refused (''staging path already exists; inspect it instead of overwriting it: '' @ staging)), w2)
          else and_then (io (dk_create_dir dk staging w2)) (\<lambda>_ w3.
                 cleaned dk staging (fill_and_publish cd dk ops target staging output w3)))))"

section \<open>Restore\<close>

definition verify_matches_target :: "codec \<Rightarrow> 'w disk \<Rightarrow> string \<Rightarrow> target_plan \<Rightarrow> 'w \<Rightarrow> recovery_failure + backup_manifest" where
  "verify_matches_target cd dk input plan w =
     try_res (verify_backup cd dk input w) (\<lambda>m.
       if \<not> plan_matches plan m
       then Inl (Refused (''backup scope mismatch: backup tenant='' @ bm_tenant m @ '' topology='' @ bm_topology m
              @ '' target='' @ manifest_scope m @ ''; configured tenant='' @ tp_tenant plan
              @ '' topology='' @ tp_topology plan @ '' target='' @ plan_scope plan))
       else Inr m)"

definition safety_note :: "string \<Rightarrow> string \<Rightarrow> string" where
  "safety_note what safety = what @ '' safety backup is at '' @ safety @ '': ''"

definition replace_database ::
  "('c, 'w) recovery_ops \<Rightarrow> 'c resolved_tenant \<Rightarrow> string \<Rightarrow> string \<Rightarrow> 'w \<Rightarrow> (recovery_failure + unit) \<times> 'w" where
  "replace_database ops target input safety w =
     and_then (relabel (safety_note ''restore target reset failed;'' safety) (ro_reset ops target w)) (\<lambda>_ w1.
     and_then (relabel (safety_note ''restore import failed after target reset; DO NOT SERVE this target;'' safety)
       (ro_import ops target (path_push input DUMP_FILE) w1)) (\<lambda>_ w2.
     and_then (relabel (safety_note ''restore imported but signing-key remediation failed; DO NOT SERVE this target;'' safety)
       (ro_rotate ops target w2)) (\<lambda>_ w3.
     relabel (safety_note ''restore imported but failed the signing-key guard; DO NOT SERVE this target;'' safety)
       (ro_keyguard ops target w3))))"

text \<open>The checks before anything is written.\<close>

definition restore_preflight ::
  "codec \<Rightarrow> 'w disk \<Rightarrow> 'c resolved_tenant \<Rightarrow> string \<Rightarrow> string \<Rightarrow> string option \<Rightarrow> 'w
   \<Rightarrow> recovery_failure + target_plan \<times> backup_manifest" where
  "restore_preflight cd dk target input safety confirm w =
     try_res (plan_target target) (\<lambda>plan.
       if \<not> tp_tenant_isolated plan
       then Inl (Refused (''refusing tenant restore for topology '' @ tp_topology plan @ '': target '' @ plan_scope plan
              @ '' contains shared tenant data; use a separately designed whole-database recovery procedure''))
       else try_res (verify_matches_target cd dk input plan w) (\<lambda>m.
         if confirm \<noteq> Some (plan_scope plan)
         then Inl (Refused (''restore drops and recreates '' @ plan_scope plan @ ''; repeat with --confirm-drop '' @ plan_scope plan))
         else if components input = components safety \<or> path_starts_with safety input
         then Inl (Refused ''--safety-backup must be outside the backup being restored'')
         else Inr (plan, m)))"

definition restore ::
  "codec \<Rightarrow> 'w disk \<Rightarrow> ('c, 'w) recovery_ops \<Rightarrow> 'c resolved_tenant \<Rightarrow> string \<Rightarrow> string \<Rightarrow> string option \<Rightarrow> 'w
   \<Rightarrow> (recovery_failure + backup_manifest) \<times> 'w" where
  "restore cd dk ops target input safety confirm w =
     and_then (lift_res (restore_preflight cd dk target input safety confirm w) w) (\<lambda>(plan, m) w1.
     and_then (relabel ''safety backup failed; live target was not changed: '' (create_backup cd dk ops target safety w1)) (\<lambda>_ w2.
     and_then (lift_res (verify_matches_target cd dk input plan w2) w2) (\<lambda>pre_drop w3.
       if pre_drop \<noteq> m
       then (Inl (Refused ''restore input changed during preflight; live target was not changed''), w3)
       else and_then (replace_database ops target input safety w3) (\<lambda>_ w4. (Inr m, w4)))))"

section \<open>Running a command\<close>

definition yes_no :: "bool \<Rightarrow> string" where
  "yes_no b = (if b then ''true'' else ''false'')"

definition named_target ::
  "codec \<Rightarrow> ('c, 'w) system \<Rightarrow> 'c tenancy option \<Rightarrow> string \<Rightarrow> string \<Rightarrow> recovery_failure + 'c resolved_tenant \<times> target_plan" where
  "named_target cd ss tenancy needs tenant =
     (case tenancy of
        None \<Rightarrow> Inl (Refused needs)
      | Some t \<Rightarrow>
          try_res (map_err (\<lambda>e. Refused (ss_show ss e)) (tenancy_resolve cd t tenant)) (\<lambda>target.
          try_res (plan_target target) (\<lambda>plan. Inr (target, plan))))"

definition run_verify :: "codec \<Rightarrow> 'w disk \<Rightarrow> string \<Rightarrow> 'w \<Rightarrow> (recovery_failure + string) \<times> 'w" where
  "run_verify cd dk input w =
     lift_res (try_res (verify_backup cd dk input w) (\<lambda>m.
       Inr (''backup verified: tenant='' @ bm_tenant m @ '' topology='' @ bm_topology m @ '' target='' @ manifest_scope m
         @ '' bytes='' @ nat_str (bm_dump_bytes m) @ '' sha256='' @ bm_dump_sha256 m))) w"

definition run_backup ::
  "codec \<Rightarrow> 'w disk \<Rightarrow> ('c, 'w) system \<Rightarrow> 'c tenancy option \<Rightarrow> string \<Rightarrow> string \<Rightarrow> string \<Rightarrow> bool \<Rightarrow> 'w
   \<Rightarrow> (recovery_failure + string) \<times> 'w" where
  "run_backup cd dk ss tenancy tenant output bin dry_run w =
     and_then (lift_res (named_target cd ss tenancy ''backup needs tenancy config'' tenant) w) (\<lambda>(target, plan) w1.
       if dry_run
       then (Inr (''dry run: backup tenant='' @ tp_tenant plan @ '' topology='' @ tp_topology plan @ '' target=''
              @ plan_scope plan @ '' isolated='' @ yes_no (tp_tenant_isolated plan) @ '' output='' @ output), w1)
       else and_then (create_backup cd dk (system_ops ss bin) target output w1) (\<lambda>m w2.
         (Inr (''backup complete: tenant='' @ bm_tenant m @ '' target='' @ manifest_scope m @ '' output='' @ output
            @ '' bytes='' @ nat_str (bm_dump_bytes m) @ '' sha256='' @ bm_dump_sha256 m), w2)))"

definition run_restore ::
  "codec \<Rightarrow> 'w disk \<Rightarrow> ('c, 'w) system \<Rightarrow> 'c tenancy option \<Rightarrow> string \<Rightarrow> string \<Rightarrow> string \<Rightarrow> string option \<Rightarrow> string
   \<Rightarrow> bool \<Rightarrow> 'w \<Rightarrow> (recovery_failure + string) \<times> 'w" where
  "run_restore cd dk ss tenancy tenant input safety confirm bin dry_run w =
     and_then (lift_res (named_target cd ss tenancy ''restore needs tenancy config'' tenant) w) (\<lambda>(target, plan) w1.
       if \<not> tp_tenant_isolated plan
       then (Inl (Refused (''refusing tenant restore for topology '' @ tp_topology plan @ '': target '' @ plan_scope plan
              @ '' contains shared tenant data'')), w1)
       else and_then (lift_res (verify_matches_target cd dk input plan w1) w1) (\<lambda>_ w2.
         if dk_exists dk safety w2
         then (Inl (Refused (''safety backup output already exists; refusing to overwrite: '' @ safety)), w2)
         else if dry_run
         then (Inr (''dry run: restore tenant='' @ tp_tenant plan @ '' topology='' @ tp_topology plan @ '' target=''
                @ plan_scope plan @ '' input='' @ input @ '' safety_backup='' @ safety
                @ ''; steps=verify,safety-export,drop-and-create,import,rotate-access,keyguard''), w2)
         else and_then (restore cd dk (system_ops ss bin) target input safety confirm w2) (\<lambda>m w3.
           (Inr (''restore complete: tenant='' @ bm_tenant m @ '' target='' @ manifest_scope m @ '' source='' @ input
              @ '' safety_backup='' @ safety @ ''; all sessions invalidated and keyguard passed''), w3))))"

definition run_command ::
  "codec \<Rightarrow> 'w disk \<Rightarrow> ('c, 'w) system \<Rightarrow> recovery_command \<Rightarrow> 'c tenancy option \<Rightarrow> 'w \<Rightarrow> (recovery_failure + string) \<times> 'w" where
  "run_command cd dk ss command tenancy w =
     (case command of
        Verify input \<Rightarrow> run_verify cd dk input w
      | Backup tenant output bin dry_run \<Rightarrow> run_backup cd dk ss tenancy tenant output bin dry_run w
      | Restore tenant input safety confirm bin dry_run \<Rightarrow>
          run_restore cd dk ss tenancy tenant input safety confirm bin dry_run w)"

end
