(* ===== verification/Recovery_Proofs.thy ===== *)
theory Recovery_Proofs
  imports Recovery
begin

text \<open>
  What the recovery commands keep: paths and their components, what a verified backup is, a disk and
  database on which a restore can be undone, and a concrete one.
\<close>

section \<open>Paths\<close>

lemma split_char_append: "split_char c (a @ c # b) = split_char c a @ split_char c b"
proof (induction a)
  case (Cons x a)
  then show ?case by (cases "split_char c a") (auto simp: split_char_nonempty split: list.splits)
qed simp

lemma hd_split_append: "hd (split_char c a @ xs) = hd (split_char c a)"
  by (simp add: split_char_nonempty)

lemma path_parts_append [simp]: "path_parts (a @ b) = path_parts a @ path_parts b"
  by (simp add: path_parts_def)

definition plain_name :: "string \<Rightarrow> bool" where
  "plain_name n = (n \<noteq> [] \<and> n \<noteq> ''.'' \<and> n \<noteq> ''..'' \<and> CHR ''/'' \<notin> set n)"

lemma path_parts_name [simp]: "plain_name n \<Longrightarrow> path_parts [n] = [Normal n]"
  by (simp add: plain_name_def path_parts_def path_part_def)

lemma components_snoc:
  assumes "p \<noteq> []"
  shows "components (p @ CHR ''/'' # b) = components p @ path_parts (split_char CHR ''/'' b)"
  using assms by (simp add: components_def split_char_append hd_split_append Let_def)

lemma components_name: "plain_name n \<Longrightarrow> components n = [Normal n]"
  by (cases n) (auto simp: components_def plain_name_def split_char_none path_parts_def path_part_def)

lemma components_slash: "p \<noteq> [] \<Longrightarrow> components (p @ ''/'') = components p"
  using components_snoc [of p "[]"] by (simp add: path_parts_def)

lemma components_push:
  assumes "plain_name n"
  shows "components (path_push p n) = components p @ [Normal n]"
proof (cases "p = []")
  case True
  have "path_push [] n = n" by (simp add: path_push_def)
  with True show ?thesis using components_name [OF assms] by (simp add: components_def [of "[]"] path_parts_def)
next
  case False
  have n: "\<not> (n \<noteq> [] \<and> hd n = CHR ''/'')" "split_char CHR ''/'' n = [n]"
    using assms by (cases n; auto simp: plain_name_def split_char_none)+
  show ?thesis
  proof (cases "last p = CHR ''/''")
    case True
    then have p: "p = butlast p @ ''/''" using False by (metis append_butlast_last_id)
    show ?thesis
    proof (cases "butlast p = []")
      case True
      with p have "p = ''/''" by simp
      moreover have "path_parts [[], n] = [Normal n]"
        using path_parts_name [OF assms] by (simp add: path_parts_def)
      ultimately show ?thesis using n by (auto simp: path_push_def components_def) (simp_all add: path_parts_def)
    next
      case False
      from components_snoc [OF this, of n] components_slash [OF this] p n \<open>p \<noteq> []\<close> True
      show ?thesis using path_parts_name [OF assms] by (simp add: path_push_def) (metis append.assoc append_Cons append_Nil)
    qed
  next
    case False
    with \<open>p \<noteq> []\<close> components_snoc [of p n] n path_parts_name [OF assms] show ?thesis by (auto simp: path_push_def)
  qed
qed

lemma path_parts_single: "path_parts [b] = (if b = [] \<or> b = ''.'' then [] else [path_part b])"
  by (simp add: path_parts_def)

lemma path_parts_one: "path_parts [b] = [] \<or> (\<exists>x. path_parts [b] = [x])"
  by (simp add: path_parts_single)

lemma shorter_prefix:
  assumes "components p \<noteq> []" and "last (components p) \<noteq> RootDir"
  shows "\<exists>k \<le> length p. components (take k p) = butlast (components p)"
  using assms
proof (induction "length p" arbitrary: p rule: less_induct)
  case less
  show ?case
  proof (cases "CHR ''/'' \<in> set p")
    case False
    then have "p = [] \<or> hd p \<noteq> CHR ''/''" by (cases p) auto
    then have "components p = (if p = ''.'' then CurDir # path_parts [p] else path_parts [p])"
      by (auto simp: components_def split_char_none [OF False])
    then have "butlast (components p) = []" by (simp add: path_parts_single)
    then show ?thesis by (intro exI [of _ 0]) (simp add: components_def path_parts_def)
  next
    case True
    then obtain a b where p: "p = a @ CHR ''/'' # b" and b: "CHR ''/'' \<notin> set b"
      by (metis split_list_last)
    show ?thesis
    proof (cases "a = []")
      case True
      have "components p = RootDir # path_parts [b]"
        by (simp add: p True components_def split_char_none [OF b]) (simp add: path_parts_def)
      with less.prems(2) path_parts_one [of b] have "butlast (components p) = [RootDir]" by auto
      then show ?thesis by (intro exI [of _ 1]) (simp add: p True components_def path_parts_def)
    next
      case False
      from components_snoc [OF this, of b] have c: "components p = components a @ path_parts [b]"
        by (simp add: p split_char_none [OF b])
      show ?thesis
      proof (cases "path_parts [b] = []")
        case True
        with less.hyps [of a] less.prems c obtain k where "k \<le> length a" "components (take k a) = butlast (components p)"
          by (auto simp: p)
        then show ?thesis by (intro exI [of _ k]) (simp add: p)
      next
        case False
        with path_parts_one [of b] c have "butlast (components p) = components a" by auto
        then show ?thesis by (intro exI [of _ "length a"]) (simp add: p)
      qed
    qed
  qed
qed

lemma parent_components:
  assumes "file_name p = Some n"
  obtains t where "parent p = Some t" "components t = butlast (components p)" "components p = components t @ [Normal n]"
proof -
  from assms have p: "components p \<noteq> []" "last (components p) = Normal n"
    by (auto simp: file_name_def split: if_splits path_part.splits)
  with shorter_prefix [of p] obtain k where "k \<le> length p" "components (take k p) = butlast (components p)" by auto
  then have "\<exists>t \<in> set (map (\<lambda>n. take n p) [0..<length p + 1]). components t = butlast (components p)" by force
  then obtain t where "parent p = Some t"
    using p by (cases "parent p") (auto simp: parent_def find_None_iff)
  moreover from this p have "components t = butlast (components p)"
    by (auto simp: parent_def find_Some_iff split: if_splits)
  moreover from this p have "components p = components t @ [Normal n]" by (metis append_butlast_last_id)
  ultimately show ?thesis by (rule that)
qed

text \<open>The staging directory is beside the output, under another name.\<close>

lemma file_name_plain: "file_name p = Some n \<Longrightarrow> CHR ''/'' \<notin> set n \<and> n \<noteq> []"
proof -
  have seg: "x \<in> set (split_char c s) \<Longrightarrow> c \<notin> set x" for c s and x :: string
    by (induction s arbitrary: x) (auto split: list.splits if_splits)
  assume "file_name p = Some n"
  then have "Normal n \<in> set (components p)"
    by (auto simp: file_name_def split: if_splits path_part.splits) (metis last_in_set)
  then have "n \<in> set (split_char CHR ''/'' p)" and "n \<noteq> []"
    by (auto simp: components_def Let_def path_parts_def path_part_def split: if_splits)
  with seg show ?thesis by blast
qed

lemma staging_components:
  assumes "staging_path dk output = Inr staging"
  shows "\<exists>t n. parent output = Some t \<and> components output = components t @ [Normal n]
    \<and> components staging = components t @ [Normal (n @ ''.partial-'' @ nat_str (dk_pid dk))]"
proof -
  from assms obtain n where n: "file_name output = Some n" and s: "staging = with_file_name output (n @ ''.partial-'' @ nat_str (dk_pid dk))"
    by (auto simp: staging_path_def split: option.splits)
  from parent_components [OF n] obtain t where t: "parent output = Some t" "components output = components t @ [Normal n]" by blast
  have "CHR ''/'' \<notin> set (nat_str k)" for k using nat_str_digits [of k] by (auto simp: list_all_iff is_digit_def)
  with file_name_plain [OF n] have "plain_name (n @ ''.partial-'' @ nat_str (dk_pid dk))"
    by (auto simp: plain_name_def append_eq_Cons_conv)
  from components_push [OF this, of t] t n show ?thesis by (auto simp: s with_file_name_def)
qed

section \<open>Verified backups\<close>

definition same_files :: "'w disk \<Rightarrow> 'w \<Rightarrow> 'w \<Rightarrow> bool" where
  "same_files dk w w' = (\<forall>p. dk_open dk p w' = dk_open dk p w \<and> dk_is_dir dk p w' = dk_is_dir dk p w)"

lemma same_files_trans: "same_files dk w w1 \<Longrightarrow> same_files dk w1 w2 \<Longrightarrow> same_files dk w w2"
  by (simp add: same_files_def)

lemma verify_same_files: "same_files dk w w' \<Longrightarrow> verify_backup cd dk p w' = verify_backup cd dk p w"
proof -
  assume s: "same_files dk w w'"
  then have "hash_file dk q w' = hash_file dk q w" "read_manifest dk q w' = read_manifest dk q w"
    "dk_is_dir dk q w' = dk_is_dir dk q w" for q
    by (simp_all add: same_files_def hash_file_def read_manifest_def)
  note reads = this
  show ?thesis unfolding verify_backup_def verify_dump_def reads ..
qed

lemma matches_same_files: "same_files dk w w' \<Longrightarrow> verify_matches_target cd dk p plan w' = verify_matches_target cd dk p plan w"
  by (simp add: verify_matches_target_def verify_same_files)

lemma hash_file_Inr: "hash_file dk p w = Inr h \<longleftrightarrow>
    (\<exists>c. dk_open dk p w = Inr (Inr c) \<and> h = (length c, lowercase_hex (dk_sha256 dk c)))"
  by (auto simp: hash_file_def split: sum.splits)

lemma read_manifest_Inr: "read_manifest dk p w = Inr m \<longleftrightarrow>
    (\<exists>s. dk_open dk p w = Inr (Inr s) \<and> dk_read_manifest dk s = Inr m)"
  by (auto simp: read_manifest_def try_res_def split: sum.splits)

lemma verify_dump_Inr: "verify_dump cd dk p m w = Inr m' \<longleftrightarrow> m' = m
    \<and> bm_format_version m = FORMAT_VERSION \<and> bm_dump_file m = DUMP_FILE
    \<and> (\<exists>c. dk_open dk (path_push p DUMP_FILE) w = Inr (Inr c) \<and> c \<noteq> []
         \<and> bm_dump_bytes m = length c \<and> bm_dump_sha256 m = lowercase_hex (dk_sha256 dk c))"
proof (cases "hash_file dk (path_push p DUMP_FILE) w")
  case (Inl e)
  then show ?thesis by (auto simp: verify_dump_def try_res_def) (use Inl in \<open>simp add: hash_file_def\<close>)
next
  case (Inr h)
  then obtain c where "dk_open dk (path_push p DUMP_FILE) w = Inr (Inr c)" "h = (length c, lowercase_hex (dk_sha256 dk c))"
    by (auto simp: hash_file_Inr)
  with Inr show ?thesis by (auto simp: verify_dump_def try_res_def)
qed

text \<open>A backup verifies exactly when it is a directory with a readable manifest of this format and a
  dump that is not empty and has the manifest's size and hash.\<close>

lemma verify_backup_Inr:
  "verify_backup cd dk p w = Inr m \<longleftrightarrow>
    dk_is_dir dk p w
    \<and> (\<exists>s. dk_open dk (path_push p MANIFEST_FILE) w = Inr (Inr s) \<and> dk_read_manifest dk s = Inr m)
    \<and> bm_format_version m = FORMAT_VERSION \<and> bm_dump_file m = DUMP_FILE
    \<and> (\<exists>c. dk_open dk (path_push p DUMP_FILE) w = Inr (Inr c) \<and> c \<noteq> []
         \<and> bm_dump_bytes m = length c \<and> bm_dump_sha256 m = lowercase_hex (dk_sha256 dk c))"
  by (auto simp: verify_backup_def verify_dump_Inr try_res_Inr read_manifest_Inr)

lemma matches_target_Inr:
  "verify_matches_target cd dk p plan w = Inr m \<longleftrightarrow> verify_backup cd dk p w = Inr m \<and> plan_matches plan m"
  by (auto simp: verify_matches_target_def try_res_Inr split: if_splits)

lemma io_simps [simp]:
  "snd (io x) = snd x" "io x = (Inr a, w) \<longleftrightarrow> x = (Inr a, w)"
  by (auto simp: io_def split: prod.splits sum.splits)

lemma relabel_simps [simp]:
  "snd (relabel l x) = snd x" "relabel l x = (Inr a, w) \<longleftrightarrow> x = (Inr a, w)"
  by (auto simp: relabel_def split: prod.splits sum.splits recovery_failure.splits)

lemma relabel_Refused: "relabel l x = (Inl (Refused e), w) \<longleftrightarrow> (\<exists>e0. x = (Inl (Refused e0), w) \<and> e = l @ e0)"
  by (auto simp: relabel_def split: prod.splits sum.splits recovery_failure.splits)

lemma io_Inl: "io x = (Inl e, w) \<Longrightarrow> \<exists>e0. x = (Inl e0, w)"
  by (auto simp: io_def split: prod.splits sum.splits)

lemma relabel_Inl: "relabel l x = (Inl e, w) \<Longrightarrow> \<exists>e0. x = (Inl e0, w)"
  by (auto simp: relabel_def split: prod.splits sum.splits recovery_failure.splits)

lemma cleaned_Inr [simp]: "cleaned dk s x = (Inr a, w) \<longleftrightarrow> x = (Inr a, w)"
  by (auto simp: cleaned_def split: prod.splits sum.splits recovery_failure.splits)

lemma plain_backup_files [simp]: "plain_name DUMP_FILE" "plain_name MANIFEST_FILE"
  by (simp_all add: plain_name_def DUMP_FILE_def MANIFEST_FILE_def)

lemma backup_files_differ: "components (path_push p DUMP_FILE) \<noteq> components (path_push p MANIFEST_FILE)"
  by (simp add: components_push) (simp add: DUMP_FILE_def MANIFEST_FILE_def)

lemma and_then_keeps:
  assumes "view (snd x) = v" and "\<And>a w. view w = v \<Longrightarrow> view (snd (f a w)) = v"
  shows "view (snd (and_then x f)) = v"
  using assms by (cases x; cases "fst x") auto

lemma if_view: "(P \<Longrightarrow> view (snd a) = v) \<Longrightarrow> (\<not> P \<Longrightarrow> view (snd b) = v) \<Longrightarrow> view (snd (if P then a else b)) = v"
  by simp

text \<open>
  A restore that may still be undone: the input is a verified backup of this very target, its scope
  was confirmed, and the safety directory is a verified backup whose dump is the former content \<open>d\<close>.
\<close>

definition restorable ::
  "'w disk \<Rightarrow> ('d \<Rightarrow> string) \<Rightarrow> 'c resolved_tenant \<Rightarrow> codec \<Rightarrow> string \<Rightarrow> string \<Rightarrow> string option \<Rightarrow> 'd \<Rightarrow> 'w
   \<Rightarrow> backup_manifest \<Rightarrow> bool" where
  "restorable dk dump_of target cd input safety confirm d w m =
     (\<exists>plan sm. plan_target target = Inr plan \<and> tp_tenant_isolated plan \<and> confirm = Some (plan_scope plan)
        \<and> verify_backup cd dk input w = Inr m \<and> plan_matches plan m
        \<and> verify_backup cd dk safety w = Inr sm \<and> plan_matches plan sm
        \<and> dk_open dk (path_push safety DUMP_FILE) w = Inr (Inr (dump_of d)))"

section \<open>A disk and a database\<close>

text \<open>
  The database's content \<open>live\<close> is what a restore puts at risk. Files do not touch it, an export writes
  it as a text, and the other operations leave the files alone. Renaming a directory moves its files.
\<close>

locale recovery_world =
  fixes dk :: "'w disk" and ops :: "('c, 'w) recovery_ops" and target :: "'c resolved_tenant"
    and live :: "'w \<Rightarrow> 'd" and dump_of :: "'d \<Rightarrow> string"
  assumes files_live: "live (snd (dk_create_dir_all dk p w)) = live w" "live (snd (dk_create_dir dk p w)) = live w"
      "live (snd (dk_write dk p s w)) = live w" "live (snd (dk_sync dk p w)) = live w"
      "live (snd (dk_rename dk p q w)) = live w" "live (snd (dk_remove_dir_all dk p w)) = live w"
    and export_live: "live (snd (ro_export ops target p w)) = live w"
    and keyguard_live: "live (snd (ro_keyguard ops target w)) = live w"
    and export_dumps: "ro_export ops target p w = (Inr (), w') \<Longrightarrow> dk_open dk p w' = Inr (Inr (dump_of (live w)))"
    and write_reads: "dk_write dk p s w = (Inr (), w') \<Longrightarrow> dk_open dk p w' = Inr (Inr s)"
    and write_keeps: "components q \<noteq> components p \<Longrightarrow> dk_open dk q (snd (dk_write dk p s w)) = dk_open dk q w"
    and sync_keeps: "dk_open dk q (snd (dk_sync dk p w)) = dk_open dk q w"
    and rename_moves: "dk_rename dk p q w = (Inr (), w') \<Longrightarrow> plain_name n \<Longrightarrow>
      dk_open dk (path_push q n) w' = dk_open dk (path_push p n) w \<and> dk_is_dir dk q w' = dk_is_dir dk p w"
    and manifest_reads: "dk_read_manifest dk (dk_show_manifest dk m @ [CHR 0x0A]) = Inr m"
    and database_files: "same_files dk w (snd (ro_reset ops target w))" "same_files dk w (snd (ro_import ops target p w))"
      "same_files dk w (snd (ro_rotate ops target w))" "same_files dk w (snd (ro_keyguard ops target w))"
begin

lemma fill_live: "live (snd (fill_and_publish cd dk ops target staging output w)) = live w"
  unfolding fill_and_publish_def Let_def
  by (intro and_then_keeps [where view = live]) (simp_all add: lift_res_def files_live export_live)

lemma cleaned_live: "live (snd (cleaned dk staging x)) = live (snd x)"
  by (cases x) (auto simp: cleaned_def files_live split: sum.split recovery_failure.split)

lemma backup_live: "live (snd (create_backup cd dk ops target output w)) = live w"
  unfolding create_backup_def Let_def
  by (intro if_view [where view = live] and_then_keeps [where view = live]) (simp_all add: lift_res_def files_live cleaned_live fill_live)

text \<open>A published backup is complete: it verifies, it is of this target, its dump is the database's content.\<close>

lemma fill_published:
  assumes "fill_and_publish cd dk ops target staging output w = (Inr m, w')"
  shows "\<exists>plan. plan_target target = Inr plan \<and> plan_matches plan m \<and> verify_backup cd dk output w' = Inr m
    \<and> dk_open dk (path_push output DUMP_FILE) w' = Inr (Inr (dump_of (live w)))"
proof -
  let ?dump = "path_push staging DUMP_FILE" and ?man = "path_push staging MANIFEST_FILE"
  obtain plan w1 hash now w2 w3 where plan: "plan_target target = Inr plan"
    and e: "ro_export ops target ?dump w = (Inr (), w1)"
    and wr: "dk_write dk ?man (dk_show_manifest dk (manifest_for plan now hash) @ [CHR 0x0A]) w1 = (Inr (), w2)"
    and sy: "dk_sync dk ?dump w2 = (Inr (), w3)"
    and v: "verify_backup cd dk staging w3 = Inr m"
    and rn: "dk_rename dk staging output w3 = (Inr (), w')"
    using assms by (auto simp: fill_and_publish_def and_then_Inr Let_def)
  have "dk_open dk ?man w3 = Inr (Inr (dk_show_manifest dk (manifest_for plan now hash) @ [CHR 0x0A]))"
    using write_reads [OF wr] sync_keeps [of ?man ?dump w2] by (simp add: sy)
  with v have m: "m = manifest_for plan now hash" by (auto simp: verify_backup_Inr manifest_reads)
  have "dk_open dk ?dump w2 = dk_open dk ?dump w1"
    using write_keeps [OF backup_files_differ, of staging "dk_show_manifest dk (manifest_for plan now hash) @ [CHR 0x0A]" w1]
    by (simp only: wr snd_conv)
  then have "dk_open dk ?dump w3 = Inr (Inr (dump_of (live w)))"
    using export_dumps [OF e] sync_keeps [of ?dump ?dump w2] by (simp add: sy)
  with rename_moves [OF rn plain_backup_files(1)] have "dk_open dk (path_push output DUMP_FILE) w' = Inr (Inr (dump_of (live w)))"
    by simp
  moreover have "verify_backup cd dk output w' = Inr m"
    using v rename_moves [OF rn plain_backup_files(1)] rename_moves [OF rn plain_backup_files(2)]
    unfolding verify_backup_Inr by simp
  moreover have "plan_matches plan m" by (simp add: m plan_matches_def manifest_for_def)
  ultimately show ?thesis using plan by blast
qed

lemma backup_published:
  assumes "create_backup cd dk ops target output w = (Inr m, w')"
  shows "\<exists>plan. plan_target target = Inr plan \<and> plan_matches plan m \<and> verify_backup cd dk output w' = Inr m
    \<and> dk_open dk (path_push output DUMP_FILE) w' = Inr (Inr (dump_of (live w)))"
proof -
  obtain dir w1 staging w2 where d: "dk_create_dir_all dk dir w = (Inr (), w1)" and c: "dk_create_dir dk staging w1 = (Inr (), w2)"
    and f: "fill_and_publish cd dk ops target staging output w2 = (Inr m, w')"
    using assms by (auto simp: create_backup_def Let_def and_then_Inr split: if_splits)
  have "live w2 = live w" using files_live(1) [of dir w] files_live(2) [of staging w1] by (simp add: d c)
  with fill_published [OF f] show ?thesis by simp
qed


text \<open>Replacing the database leaves the files alone, and an error names the safety backup.\<close>

lemma replace_files: "same_files dk w (snd (replace_database ops target input safety w))"
proof -
  have seq: "same_files dk w (snd (and_then x f))"
    if "same_files dk w (snd x)" "\<And>a w1. same_files dk w w1 \<Longrightarrow> same_files dk w (snd (f a w1))"
    for x :: "(recovery_failure + unit) \<times> 'w" and f
    using that by (cases x; cases "fst x") auto
  have "same_files dk w (snd (ro_reset ops target w))" by (rule database_files)
  moreover have "same_files dk w (snd (ro_import ops target p w1))" "same_files dk w (snd (ro_rotate ops target w1))"
    "same_files dk w (snd (ro_keyguard ops target w1))" if "same_files dk w w1" for p w1
    using same_files_trans [OF that] database_files(2-4) by blast+
  ultimately show ?thesis unfolding replace_database_def by (intro seq) simp_all
qed

lemma replace_answer:
  assumes "replace_database ops target input safety w = (r, w')"
  shows "r = Inr () \<Longrightarrow> \<exists>w3. ro_keyguard ops target w3 = (Inr (), w')"
    and "r = Inl (Refused e) \<Longrightarrow> \<exists>a b. e = a @ safety @ b"
proof -
  have names: "\<exists>a b. e = a @ safety @ b" if "relabel (safety_note what safety) x = (Inl (Refused e), w1)"
    for what and x :: "(recovery_failure + unit) \<times> 'w" and w1
  proof -
    from that obtain e0 where "e = (what @ '' safety backup is at '') @ safety @ ('': '' @ e0)"
      by (auto simp: relabel_Refused safety_note_def)
    then show ?thesis by blast
  qed
  show "r = Inr () \<Longrightarrow> \<exists>w3. ro_keyguard ops target w3 = (Inr (), w')"
    using assms by (auto simp: replace_database_def and_then_Inr)
  assume "r = Inl (Refused e)"
  with assms show "\<exists>a b. e = a @ safety @ b"
    unfolding replace_database_def by (fastforce simp: and_then_Inl dest: names)
qed

text \<open>A restore that changed the database, or returned well, has a verified backup of what was there.\<close>

lemma restore_restorable:
  assumes "restore cd dk ops target input safety confirm w = (r, w')"
  shows "live w' = live w \<and> \<not> is_ok_res r
    \<or> (\<exists>m. restorable dk dump_of target cd input safety confirm (live w) w' m
         \<and> (\<forall>m'. r = Inr m' \<longrightarrow> m' = m \<and> (\<exists>w3. ro_keyguard ops target w3 = (Inr (), w')))
         \<and> (\<forall>e. r = Inl (Refused e) \<longrightarrow> (\<exists>a b. e = a @ safety @ b)))"
proof (cases "\<exists>e. restore_preflight cd dk target input safety confirm w = Inl e")
  case True
  with assms show ?thesis by (auto simp: restore_def lift_res_def)
next
  case False
  then obtain plan m where pre: "restore_preflight cd dk target input safety confirm w = Inr (plan, m)"
    by (cases "restore_preflight cd dk target input safety confirm w") auto
  then have plan: "plan_target target = Inr plan" "tp_tenant_isolated plan" "confirm = Some (plan_scope plan)"
    by (auto simp: restore_preflight_def try_res_Inr split: if_splits)
  obtain rb w2 where b: "create_backup cd dk ops target safety w = (rb, w2)" by fastforce
  from backup_live [of cd safety w] have live2: "live w2 = live w" by (simp add: b)
  show ?thesis
  proof (cases "\<exists>sm. rb = Inr sm \<and> verify_matches_target cd dk input plan w2 = Inr m")
    case False
    have "snd (restore cd dk ops target input safety confirm w) = w2"
      "\<not> is_ok_res (fst (restore cd dk ops target input safety confirm w))"
      using pre b False
      by (cases rb; cases "verify_matches_target cd dk input plan w2";
          simp add: restore_def relabel_def split: recovery_failure.split)+
    with assms have "w' = w2 \<and> \<not> is_ok_res r" by simp
    with live2 show ?thesis by simp
  next
    case True
    then obtain sm where sm: "rb = Inr sm" and v: "verify_matches_target cd dk input plan w2 = Inr m" by blast
    obtain q where q: "replace_database ops target input safety w2 = (q, w')" and r: "r = map_sum id (\<lambda>_. m) q"
      using assms pre b sm v
      by (cases "replace_database ops target input safety w2"; cases "fst (replace_database ops target input safety w2)")
        (auto simp: restore_def relabel_def)
    have same: "same_files dk w2 w'" using replace_files [of w2 input safety] by (simp add: q)
    from backup_published [OF b [unfolded sm]] plan(1)
    have safe: "plan_matches plan sm" "verify_backup cd dk safety w2 = Inr sm"
      "dk_open dk (path_push safety DUMP_FILE) w2 = Inr (Inr (dump_of (live w)))" by auto
    have "restorable dk dump_of target cd input safety confirm (live w) w' m"
      using plan safe v same unfolding restorable_def
      by (intro exI [of _ plan] exI [of _ sm])
        (simp add: verify_same_files [OF same] matches_target_Inr, simp add: same_files_def)
    with replace_answer [OF q] r show ?thesis by (cases q) auto
  qed
qed

end

section \<open>Existing paths\<close>

lemma starts_with_push:
  assumes "plain_name n" and "path_starts_with p (path_push q n)"
  shows "path_starts_with p q"
proof -
  from assms have "take (Suc (length (components q))) (components p) = components q @ [Normal n]"
    by (simp add: path_starts_with_def components_push)
  from arg_cong [OF this, of "take (length (components q))"] show ?thesis
    by (simp add: path_starts_with_def min_def)
qed

text \<open>Creating a directory with its parents makes no path exist but prefixes of it, other operations none but
  extensions of theirs, and a failed renaming none.\<close>

locale careful_world = recovery_world dk ops target live dump_of
  for dk :: "'w disk" and ops :: "('c, 'w) recovery_ops" and target :: "'c resolved_tenant"
    and live :: "'w \<Rightarrow> 'd" and dump_of :: "'d \<Rightarrow> string" +
  assumes exists_dirs: "\<not> path_starts_with d q \<Longrightarrow> dk_exists dk q (snd (dk_create_dir_all dk d w)) = dk_exists dk q w"
    and exists_dir: "\<not> path_starts_with q p \<Longrightarrow> dk_exists dk q (snd (dk_create_dir dk p w)) = dk_exists dk q w"
    and exists_write: "\<not> path_starts_with q p \<Longrightarrow> dk_exists dk q (snd (dk_write dk p s w)) = dk_exists dk q w"
    and exists_remove: "\<not> path_starts_with q p \<Longrightarrow> dk_exists dk q (snd (dk_remove_dir_all dk p w)) = dk_exists dk q w"
    and exists_export: "\<not> path_starts_with q p \<Longrightarrow> dk_exists dk q (snd (ro_export ops target p w)) = dk_exists dk q w"
    and exists_sync: "dk_exists dk q (snd (dk_sync dk p w)) = dk_exists dk q w"
    and exists_rename: "dk_rename dk p q w = (Inl e, w') \<Longrightarrow> dk_exists dk x w' = dk_exists dk x w"
begin

lemma fill_failed:
  assumes "fill_and_publish cd dk ops target staging output w = (Inl e, w')" and "\<not> path_starts_with output staging"
  shows "dk_exists dk output w' = dk_exists dk output w"
proof -
  have apart: "\<not> path_starts_with output (path_push staging n)" if "plain_name n" for n
    using assms(2) starts_with_push [OF that] by blast
  have "dk_exists dk output w1 = dk_exists dk output w"
    if "ro_export ops target (path_push staging DUMP_FILE) w = (x, w1)" for x w1
    using exists_export [OF apart [OF plain_backup_files(1)], of w] that by simp
  moreover have "dk_exists dk output w2 = dk_exists dk output w1"
    if "dk_write dk (path_push staging MANIFEST_FILE) s w1 = (x, w2)" for s x w1 w2
    using exists_write [OF apart [OF plain_backup_files(2)], of s w1] that by simp
  moreover have "dk_exists dk output w2 = dk_exists dk output w1" if "dk_sync dk p w1 = (x, w2)" for p x w1 w2
    using that exists_sync by (metis snd_conv)
  ultimately show ?thesis using assms(1) exists_rename
    unfolding fill_and_publish_def Let_def by (fastforce simp: and_then_Inl dest!: io_Inl relabel_Inl)
qed

text \<open>A backup appears at the output whole or not at all.\<close>

lemma backup_whole_or_absent:
  assumes "create_backup cd dk ops target output w = (Inl e, w')" and "file_name output = Some n"
  shows "dk_exists dk output w' = dk_exists dk output w"
proof -
  from parent_components [OF assms(2)] obtain t where t: "parent output = Some t" "components output = components t @ [Normal n]" by blast
  have dir: "\<not> path_starts_with (if t \<noteq> [] then t else ''.'') output"
    using t(2) by (auto simp: path_starts_with_def) (auto simp: components_def path_parts_def split: if_splits)
  have stage: "\<not> path_starts_with output staging" if "staging_path dk output = Inr staging" for staging
    using staging_components [OF that] t by (auto simp: path_starts_with_def)
  have clean: "dk_exists dk output (snd (cleaned dk staging x)) = dk_exists dk output (snd x)"
    if "\<not> path_starts_with output staging" for staging and x :: "(recovery_failure + backup_manifest) \<times> 'w"
    using exists_remove [OF that] by (cases x) (auto simp: cleaned_def split: sum.split recovery_failure.split)
  have fill: "dk_exists dk output w2 = dk_exists dk output w1"
    if s: "\<not> path_starts_with output staging" and "cleaned dk staging (fill_and_publish cd dk ops target staging output w1) = (Inl x, w2)"
    for staging x w1 w2
  proof -
    obtain q w3 where q: "fill_and_publish cd dk ops target staging output w1 = (q, w3)" by fastforce
    with that(2) obtain y where "q = Inl y" by (cases q) (auto simp: cleaned_def split: recovery_failure.splits)
    with q fill_failed [OF _ s] clean [OF s, of "(q, w3)"] that(2) show ?thesis by simp
  qed
  have "dk_exists dk output w1 = dk_exists dk output w" if "dk_create_dir_all dk (if t \<noteq> [] then t else ''.'') w = (x, w1)" for x w1
    using exists_dirs [OF dir, of w] that by simp
  moreover have "dk_exists dk output w2 = dk_exists dk output w1"
    if "staging_path dk output = Inr staging" "dk_create_dir dk staging w1 = (x, w2)" for staging x w1 w2
    using exists_dir [OF stage [OF that(1)], of w1] that(2) by simp
  ultimately show ?thesis using assms(1) fill stage
    unfolding create_backup_def Let_def t(1) option.case
    by (fastforce simp: and_then_Inl dest!: io_Inl relabel_Inl split: if_splits)
qed

end

end
