(* ===== verification/Recovery_Demo.thy ===== *)
theory Recovery_Demo
  imports Recovery_Proofs Text_Read
begin

text \<open>
  A disk that is a table from paths to directories and files, a database that is a text and a signing
  key, and the child process that exports and imports it: a \<open>careful_world\<close> for the system's own
  operations. An export redacts the key, an import installs the placeholder.
\<close>

section \<open>Manifests as text\<close>

fun put_text :: "string \<Rightarrow> string" where
  "put_text [] = '';''"
| "put_text (c # s) = CHR ''.'' # c # put_text s"

fun get_text :: "string \<Rightarrow> string \<times> string" where
  "get_text (d # c # r) = (if d = CHR ''.'' then case get_text r of (s, r') \<Rightarrow> (c # s, r') else ([], c # r))"
| "get_text _ = ([], [])"

lemma get_put [simp]: "get_text (put_text s @ r) = (s, r)"
  by (induction s) (simp_all, cases r, simp_all)

definition show_manifest :: "backup_manifest \<Rightarrow> string" where
  "show_manifest m =
     put_text (nat_str (bm_format_version m)) @ put_text (nat_str (bm_created m)) @ put_text (bm_tenant m)
     @ put_text (bm_topology m) @ put_text (bm_namespace m) @ put_text (bm_database m)
     @ put_text (if bm_tenant_isolated m then ''y'' else ''n'') @ put_text (bm_dump_file m)
     @ put_text (nat_str (bm_dump_bytes m)) @ put_text (bm_dump_sha256 m)"

definition scan_manifest :: "string \<Rightarrow> backup_manifest" where
  "scan_manifest s0 =
     (let (a, s1) = get_text s0; (b, s2) = get_text s1; (c, s3) = get_text s2; (d, s4) = get_text s3;
          (e, s5) = get_text s4; (f, s6) = get_text s5; (g, s7) = get_text s6; (h, s8) = get_text s7;
          (i, s9) = get_text s8; (j, s10) = get_text s9
      in \<lparr>bm_format_version = digits_val a, bm_created = digits_val b, bm_tenant = c, bm_topology = d,
          bm_namespace = e, bm_database = f, bm_tenant_isolated = (g = ''y''), bm_dump_file = h,
          bm_dump_bytes = digits_val i, bm_dump_sha256 = j\<rparr>)"

lemma scan_show: "scan_manifest (show_manifest m @ r) = m"
  by (simp add: scan_manifest_def show_manifest_def digits_val_nat_str)

section \<open>The site\<close>

record site =
  st_files :: "path_part list \<Rightarrow> string option option"
  st_data :: string
  st_key :: string

definition under :: "path_part list \<Rightarrow> path_part list \<Rightarrow> bool" where
  "under base p = (take (length base) p = base)"

definition site_disk :: "site disk" where
  "site_disk =
     \<lparr>dk_exists = (\<lambda>p w. st_files w (components p) \<noteq> None),
      dk_is_dir = (\<lambda>p w. st_files w (components p) = Some None),
      dk_open = (\<lambda>p w. case st_files w (components p) of
         None \<Rightarrow> Inl ''not found'' | Some None \<Rightarrow> Inr (Inl ''is a directory'') | Some (Some c) \<Rightarrow> Inr (Inr c)),
      dk_create_dir_all = (\<lambda>p w. (Inr (), w\<lparr>st_files := (\<lambda>x. if st_files w x = None \<and> under x (components p)
         then Some None else st_files w x)\<rparr>)),
      dk_create_dir = (\<lambda>p w. if st_files w (components p) \<noteq> None then (Inl ''exists'', w)
         else (Inr (), w\<lparr>st_files := (st_files w)(components p \<mapsto> None)\<rparr>)),
      dk_write = (\<lambda>p s w. (Inr (), w\<lparr>st_files := (st_files w)(components p \<mapsto> Some s)\<rparr>)),
      dk_sync = (\<lambda>p w. (Inr (), w)),
      dk_rename = (\<lambda>p q w. if st_files w (components p) = None then (Inl ''not found'', w)
         else (Inr (), w\<lparr>st_files := (\<lambda>x. if under (components q) x
                then st_files w (components p @ drop (length (components q)) x)
                else if under (components p) x then None else st_files w x)\<rparr>)),
      dk_remove_dir_all = (\<lambda>p w. (Inr (), w\<lparr>st_files := (\<lambda>x. if under (components p) x then None else st_files w x)\<rparr>)),
      dk_clock = (\<lambda>w. Inr 1000), dk_pid = 7, dk_sha256 = (\<lambda>s. s),
      dk_show_manifest = show_manifest, dk_read_manifest = (\<lambda>s. Inr (scan_manifest s))\<rparr>"

definition site_dump :: "string \<times> string \<Rightarrow> string" where
  "site_dump d = ''DUMP '' @ fst d"

definition site_live :: "site \<Rightarrow> string \<times> string" where
  "site_live w = (st_data w, st_key w)"

definition site_spawn :: "string \<Rightarrow> string list \<Rightarrow> (string \<times> string option) list \<Rightarrow> site \<Rightarrow> (string + process_output) \<times> site" where
  "site_spawn bin args env w =
     (let f = components (last args); ok = \<lparr>po_success = True, po_status = ''0'', po_stdout = [], po_stderr = []\<rparr> in
      if hd args = ''export'' then (Inr ok, w\<lparr>st_files := (st_files w)(f \<mapsto> Some (site_dump (site_live w)))\<rparr>)
      else case st_files w f of
        Some (Some c) \<Rightarrow> (Inr ok, w\<lparr>st_data := drop 5 c, st_key := REDACTED_KEY\<rparr>)
      | _ \<Rightarrow> (Inl ''no such file'', w))"

definition site_tokens :: token_codec where
  "site_tokens = \<lparr>tk_b64 = (\<lambda>s. s), tk_hmac = (\<lambda>k s. k), tk_show = (\<lambda>j. [])\<rparr>"

definition fresh_key :: string where
  "fresh_key = replicate 64 CHR ''k''"

definition site_db :: "unit resolved_tenant \<Rightarrow> (unit, site) tenant_db" where
  "site_db target =
     \<lparr>td_target = target, td_access = ''account'',
      td_root = (\<lambda>q w. if take 6 q = ''RETURN'' then (Inr (JString fresh_key), w) else (Inr JNull, w\<lparr>st_key := fresh_key\<rparr>)),
      td_root_ns = (\<lambda>q w. (Inr JNull, w\<lparr>st_data := [], st_key := []\<rparr>)),
      td_root_raw = (\<lambda>q w. (Inr [], w)),
      td_session = (\<lambda>auth q w. if drop (length auth - length (st_key w)) auth = st_key w then (Inr JNull, w)
         else (Inl (PermissionDenied ''bad token''), w))\<rparr>"

definition site_system :: "(unit, site) system" where
  "site_system =
     \<lparr>ss_endpoint = (\<lambda>_. ''http://db''), ss_user = (\<lambda>_. ''root''), ss_pass = (\<lambda>_. ''secret''), ss_spawn = site_spawn,
      ss_show = (\<lambda>_. ''error''), ss_scoped_db = site_db, ss_tokens = site_tokens, ss_seconds = (\<lambda>_. 1000)\<rparr>"

definition acme :: "unit resolved_tenant" where
  "acme = \<lparr>rt_tenant_id = ''acme'', rt_namespace = ''frust'', rt_database = ''acme'', rt_environment = None,
     rt_conn = (), rt_strategy = DatabasePerTenant ''frust''\<rparr>"

section \<open>Its laws\<close>

lemma plan_acme: "plan_target acme = Inr \<lparr>tp_tenant = ''acme'', tp_topology = ''database-per-tenant'', tp_namespace = ''frust'',
    tp_database = ''acme'', tp_tenant_isolated = True\<rparr>"
  by (simp add: plan_target_def acme_def strategy_backup_plan_def database_backup_def strategy_name_def)

lemma site_export: "ro_export (system_ops site_system bin) acme p w =
    (Inr (), w\<lparr>st_files := (st_files w)(components p \<mapsto> Some (site_dump (site_live w)))\<rparr>)"
  by (simp add: system_ops_def surreal_def plan_acme site_system_def site_spawn_def Let_def)

lemma site_import: "same_files site_disk w (snd (ro_import (system_ops site_system bin) acme p w))"
  by (simp add: system_ops_def surreal_def plan_acme site_system_def site_spawn_def same_files_def site_disk_def Let_def
      split: option.split)

lemma same_site: "st_files w' = st_files w \<Longrightarrow> same_files site_disk w w'"
  by (simp add: same_files_def site_disk_def)

lemma session_site: "snd (td_session (site_db acme) auth q w) = w"
  by (simp add: site_db_def)

lemma snd_broker_step [simp]: "snd (broker_step ss l x) = snd x"
  by (auto simp: broker_step_def split: prod.split sum.split)

lemma keyguard_site: "snd (ro_keyguard (system_ops site_system bin) acme w) = w"
proof -
  have "snd (store_accepts_key tk clock (site_db acme) k w) = w" for tk clock k
    by (simp add: store_accepts_key_def site_db_def Let_def split: broker_error.split)
  then have "snd (assert_access_key_is_not_redacted tk clock (site_db acme) w) = w" for tk clock
    unfolding assert_access_key_is_not_redacted_def by (intro and_then_keeps [where view = "\<lambda>x. x"]) auto
  then show ?thesis by (simp add: system_ops_def site_system_def)
qed

lemma reset_site: "st_files (snd (ro_reset (system_ops site_system bin) acme w)) = st_files w"
  by (simp add: system_ops_def site_system_def reset_database_for_restore_def acme_def strategy_backup_plan_def
      database_backup_def site_db_def broker_step_def)

lemma rotate_site: "st_files (snd (ro_rotate (system_ops site_system bin) acme w)) = st_files w"
proof -
  have root: "st_files (snd (td_root (site_db acme) q w)) = st_files w" for q w
    by (simp add: site_db_def)
  have "st_files (snd (rotate_restored_access site_db acme w)) = st_files w"
    unfolding rotate_restored_access_def Let_def
    by (intro and_then_keeps [where view = st_files]) (auto simp: root lift_res_def split: option.split intro!: and_then_keeps [where view = st_files])
  then show ?thesis by (simp add: system_ops_def site_system_def)
qed

lemma demo_careful_world: "careful_world site_disk (system_ops site_system ''surreal'') acme site_live site_dump"
proof unfold_locales
  show "dk_open site_disk (path_push q n) w' = dk_open site_disk (path_push p n) w \<and> dk_is_dir site_disk q w' = dk_is_dir site_disk p w"
    if "dk_rename site_disk p q w = (Inr (), w')" "plain_name n" for p q w w' n
    using that by (auto simp: site_disk_def components_push under_def split: if_splits)
qed (auto simp: site_export site_import keyguard_site same_site reset_site rotate_site,
  auto simp: site_disk_def site_live_def scan_show path_starts_with_def under_def split: if_splits)

interpretation demo_world: careful_world site_disk "system_ops site_system ''surreal''" acme site_live site_dump
  by (rule demo_careful_world)

end
