(* ===== verification/Props_Recovery.thy ===== *)
theory Props_Recovery
  imports Recovery_Demo
begin

text \<open>Properties of backup and restore.\<close>

text \<open>C18: a restore can be undone: if the live database was changed, or the restore returned well, the input is
  a verified backup of this very target, its scope was confirmed and is one tenant's alone, and the safety
  directory is a verified backup that holds the database as it was; an error after the change names
  that directory, and a good end had the key guard's approval.\<close>

theorem restore_is_recoverable:
  assumes "recovery_world dk ops target live dump_of"
    and "restore cd dk ops target input safety confirm w = (r, w')"
  shows "live w' = live w \<and> \<not> is_ok_res r
    \<or> (\<exists>m. restorable dk dump_of target cd input safety confirm (live w) w' m
         \<and> (\<forall>m'. r = Inr m' \<longrightarrow> m' = m \<and> (\<exists>w3. ro_keyguard ops target w3 = (Inr (), w')))
         \<and> (\<forall>e. r = Inl (Refused e) \<longrightarrow> (\<exists>a b. e = a @ safety @ b)))"
  by (rule recovery_world.restore_restorable [OF assms])

definition site_before :: site where
  "site_before = \<lparr>st_files = (\<lambda>_. None), st_data = ''one'', st_key = ''old''\<rparr>"

definition plain_codec :: codec where
  "plain_codec = \<lparr>cd_show = (\<lambda>_. []), cd_debug_str = (\<lambda>s. s), cd_snapshot_to_string = (\<lambda>_. Inl []),
     cd_snapshot_from_str = (\<lambda>_. Inl []), cd_history_rows = (\<lambda>_. Inl []), cd_string_rows = (\<lambda>_ _. Inl [])\<rparr>"

text \<open>The site after a backup and later writes.\<close>

definition manifest_one :: backup_manifest where
  "manifest_one = \<lparr>bm_format_version = 1, bm_created = 1000, bm_tenant = ''acme'', bm_topology = ''database-per-tenant'',
     bm_namespace = ''frust'', bm_database = ''acme'', bm_tenant_isolated = True, bm_dump_file = ''dump.surql'',
     bm_dump_bytes = 8, bm_dump_sha256 = lowercase_hex ''DUMP one''\<rparr>"

definition site_backed :: site where
  "site_backed =
     \<lparr>st_files = map_of [([Normal ''b'', Normal ''one'', Normal ''dump.surql''], Some ''DUMP one''),
        ([Normal ''b'', Normal ''one'', Normal ''manifest.json''], Some (show_manifest manifest_one @ [CHR 0x0A])),
        ([Normal ''b'', Normal ''one''], None), ([Normal ''b''], None)],
      st_data = ''two'', st_key = ''old''\<rparr>"

text \<open>The first backup is restored over later data: the later data is in the safety backup.\<close>

theorem restore_is_recoverable_witness:
  "\<exists>m. restorable site_disk site_dump acme plain_codec ''b/one'' ''b/two'' (Some ''frust/acme'') (site_live site_backed)
     (snd (restore plain_codec site_disk (system_ops site_system ''surreal'') acme ''b/one'' ''b/two'' (Some ''frust/acme'') site_backed)) m"
proof -
  have "is_ok_res (fst (restore plain_codec site_disk (system_ops site_system ''surreal'') acme ''b/one'' ''b/two''
      (Some ''frust/acme'') site_backed))" by code_simp
  then show ?thesis
    using restore_is_recoverable [OF careful_world.axioms(1) [OF demo_careful_world] prod.collapse [symmetric],
        of plain_codec "''b/one''" "''b/two''" "Some ''frust/acme''" site_backed] by blast
qed

text \<open>C19: a backup is there whole or not at all: if it succeeds, the output verifies, is of this target and holds
  the database's content; if it fails, or panics, the output exists no more than before; the
  database is never changed.\<close>

theorem backup_is_whole_or_absent:
  assumes "careful_world dk ops target live dump_of" and "file_name output = Some n"
    and "create_backup cd dk ops target output w = (r, w')"
  shows "live w' = live w
    \<and> (case r of
         Inl e \<Rightarrow> dk_exists dk output w' = dk_exists dk output w
       | Inr m \<Rightarrow> \<exists>plan. plan_target target = Inr plan \<and> plan_matches plan m \<and> verify_backup cd dk output w' = Inr m
           \<and> dk_open dk (path_push output DUMP_FILE) w' = Inr (Inr (dump_of (live w))))"
proof -
  note rec = careful_world.axioms(1) [OF assms(1)]
  have "live w' = live w" using recovery_world.backup_live [OF rec] assms(3) by (metis snd_conv)
  moreover note recovery_world.backup_published [OF rec] careful_world.backup_whole_or_absent [OF assms(1) _ assms(2)]
  ultimately show ?thesis using assms(3) by (auto split: sum.split)
qed

text \<open>The backup of the demonstration site.\<close>

theorem backup_is_whole_or_absent_witness:
  "\<exists>m w'. create_backup plain_codec site_disk (system_ops site_system ''surreal'') acme ''b/one'' site_before = (Inr m, w')
     \<and> verify_backup plain_codec site_disk ''b/one'' w' = Inr m
     \<and> dk_open site_disk (path_push ''b/one'' DUMP_FILE) w' = Inr (Inr ''DUMP one'')"
proof -
  let ?b = "create_backup plain_codec site_disk (system_ops site_system ''surreal'') acme ''b/one'' site_before"
  have f: "file_name ''b/one'' = Some ''one''" by code_simp
  have "is_ok_res (fst ?b)" by code_simp
  then obtain m where m: "?b = (Inr m, snd ?b)" by (cases ?b; cases "fst ?b") auto
  from backup_is_whole_or_absent [OF demo_careful_world f m]
  have "verify_backup plain_codec site_disk ''b/one'' (snd ?b) = Inr m"
    "dk_open site_disk (path_push ''b/one'' DUMP_FILE) (snd ?b) = Inr (Inr (site_dump (site_live site_before)))" by auto
  moreover have "site_dump (site_live site_before) = ''DUMP one''" by code_simp
  ultimately show ?thesis using m by (intro exI [of _ m] exI [of _ "snd ?b"]) simp
qed

end
