(* ===== verification/Http_Contract.thy ===== *)
theory Http_Contract
  imports Prelude
begin

text \<open>
  \<open>kernel/src/http_contract.rs\<close>: the method policy of the REST surface, decided from method and path
  before a request reaches any handler.
\<close>

type_synonym method_policy = "string list"

datatype method_gate = Dispatch | Options method_policy | MethodNotAllowed method_policy | UnknownRoute

definition allow_header :: "method_policy \<Rightarrow> string" where
  "allow_header p = join '', '' p"

definition policy_get :: method_policy where "policy_get = [''GET'', ''HEAD'', ''OPTIONS'']"
definition policy_stateful_get :: method_policy where "policy_stateful_get = [''GET'', ''OPTIONS'']"
definition policy_post :: method_policy where "policy_post = [''POST'', ''OPTIONS'']"
definition policy_delete :: method_policy where "policy_delete = [''DELETE'', ''OPTIONS'']"
definition policy_app_route :: method_policy where "policy_app_route = [''GET'', ''POST'', ''OPTIONS'']"

text \<open>\<open>trim_matches('/')\<close> and the segments.\<close>

definition trim_slashes :: "string \<Rightarrow> string" where
  "trim_slashes s = rev (dropWhile ((=) CHR ''/'') (rev (dropWhile ((=) CHR ''/'') s)))"

definition url_path :: "string \<Rightarrow> string" where
  "url_path url = hd (split_char CHR ''?'' url)"

definition url_segments :: "string \<Rightarrow> string list" where
  "url_segments url = split_char CHR ''/'' (trim_slashes (url_path url))"

definition segments_policy :: "string list \<Rightarrow> method_policy option" where
  "segments_policy segs =
     (case segs of
        [a] \<Rightarrow>
          (if a \<in> set [''health'', ''metrics'', ''ready''] then Some policy_get
           else if a \<in> set [''login'', ''logout''] then Some policy_post
           else if a = ''meta'' then Some policy_get
           else if a \<in> set [''doctype'', ''notification''] then Some policy_post
           else if a = ''app'' then Some policy_get
           else None)
      | [a, b] \<Rightarrow>
          (if a = ''revoke'' then Some policy_post
           else if a = ''meta'' then Some policy_get
           else if a \<in> set [''subscribe'', ''unsubscribe'', ''read'', ''single'', ''write'', ''aggregate'', ''enqueue'']
             then Some policy_post
           else if a = ''mail'' \<and> b = ''outbox'' then Some policy_get
           else if a = ''lag'' then Some policy_get
           else if a = ''events'' then Some policy_stateful_get
           else if a = ''app'' \<and> b \<in> set [''plan'', ''install'', ''update''] then Some policy_post
           else None)
      | [a, b, c] \<Rightarrow>
          (if a = ''doc'' then Some policy_delete
           else if a = ''doctype'' \<and> c \<in> set [''script'', ''reclaim''] then Some policy_post
           else if a = ''transition'' then Some policy_post
           else if a = ''single'' \<and> c = ''write'' then Some policy_post
           else if a \<in> set [''workflow'', ''audit''] then Some policy_get
           else if a = ''app'' \<and> c = ''export'' then Some policy_get
           else if a = ''app'' \<and> c \<in> set [''disable'', ''enable'', ''uninstall''] then Some policy_post
           else if a = ''app'' then Some policy_app_route
           else None)
      | _ \<Rightarrow> None)"

definition policy_for :: "string \<Rightarrow> method_policy option" where
  "policy_for url = segments_policy (url_segments url)"

definition method_gate :: "string \<Rightarrow> string \<Rightarrow> method_gate" where
  "method_gate meth url =
     (case policy_for url of
        None \<Rightarrow> UnknownRoute
      | Some p \<Rightarrow>
          (if meth = ''OPTIONS'' then Options p
           else if meth \<in> set p then Dispatch else MethodNotAllowed p))"

section \<open>The gate\<close>

text \<open>A request that changes state on the server is never reached by a reading method.\<close>

definition is_plain_get :: "string \<Rightarrow> bool" where
  "is_plain_get url = (policy_for url = Some policy_get)"

lemma policies_distinct:
  "policy_get \<noteq> policy_stateful_get" "policy_get \<noteq> policy_post" "policy_get \<noteq> policy_delete" "policy_get \<noteq> policy_app_route"
  by (simp_all add: policy_get_def policy_stateful_get_def policy_post_def policy_delete_def policy_app_route_def)

lemma policy_for_cases:
  "policy_for url = Some p \<Longrightarrow> p \<in> {policy_get, policy_stateful_get, policy_post, policy_delete, policy_app_route}"
  by (auto simp: policy_for_def segments_policy_def split: list.splits if_splits)

lemma head_only_plain_get: "method_gate ''HEAD'' url = Dispatch \<longleftrightarrow> is_plain_get url"
  using policy_for_cases [of url] policies_distinct
  by (cases "policy_for url")
    (auto simp: method_gate_def is_plain_get_def policy_get_def policy_stateful_get_def policy_post_def
      policy_delete_def policy_app_route_def)

end
