(* ===== verification/Router.thy ===== *)
theory Router
  imports Contract Toposort
begin

text \<open>
  \<open>kernel/src/router.rs\<close>: one process, many tenants. The contexts are an association list keyed by
  tenant id; a context is any type \<open>'c\<close> with the tenant id of its broker, and the resolved targets of
  the tenancy strategy are any type \<open>'r\<close> with their id.
\<close>

type_synonym 'c tenant_router = "(string \<times> 'c) list"

text \<open>The contexts of all registered targets, or the first error.\<close>

fun router_build ::
  "('r \<Rightarrow> string) \<Rightarrow> ('c \<Rightarrow> string) \<Rightarrow> (string \<Rightarrow> string) \<Rightarrow> ('r \<Rightarrow> broker_error + 'c) \<Rightarrow> 'r list
   \<Rightarrow> 'c tenant_router \<Rightarrow> broker_error + 'c tenant_router" where
  "router_build target_id ctx_id dbg mk [] contexts = Inr contexts"
| "router_build target_id ctx_id dbg mk (target # targets) contexts =
     (case mk target of
        Inl e \<Rightarrow> Inl e
      | Inr ctx \<Rightarrow>
          (let id = target_id target in
           if ctx_id ctx \<noteq> id
           then Inl (InvalidValue (''router: context for '' @ dbg id @ '' is scoped to '' @ dbg (ctx_id ctx)))
           else router_build target_id ctx_id dbg mk targets (hm_insert id ctx contexts)))"

definition router_single :: "('c \<Rightarrow> string) \<Rightarrow> 'c \<Rightarrow> 'c tenant_router" where
  "router_single ctx_id ctx = [(ctx_id ctx, ctx)]"

definition router_len :: "'c tenant_router \<Rightarrow> nat" where
  "router_len r = length r"

definition router_is_empty :: "'c tenant_router \<Rightarrow> bool" where
  "router_is_empty r = (r = [])"

definition router_get :: "string \<Rightarrow> 'c tenant_router \<Rightarrow> 'c option" where
  "router_get tenant r = map_of r tenant"

definition router_sole :: "'c tenant_router \<Rightarrow> 'c option" where
  "router_sole r = (case r of [(_, ctx)] \<Rightarrow> Some ctx | _ \<Rightarrow> None)"

definition mint_token :: "string \<Rightarrow> string \<Rightarrow> string" where
  "mint_token tenant secret = tenant @ ''.'' @ secret"

definition route_token :: "'c tenant_router \<Rightarrow> string \<Rightarrow> ('c \<times> string) option" where
  "route_token r token =
     (case split_once CHR ''.'' token of
        None \<Rightarrow> None
      | Some (prefix, secret) \<Rightarrow>
          (if secret = [] \<or> \<not> list_all is_alnum secret then None
           else case map_of r prefix of None \<Rightarrow> None | Some ctx \<Rightarrow> Some (ctx, secret)))"

section \<open>The tenant in a host name\<close>

text \<open>
  \<open>parse::<IpAddr>()\<close> of a text without a colon: four decimal octets of at most three digits, without
  leading zeros.
\<close>

definition is_octet :: "string \<Rightarrow> bool" where
  "is_octet p = (p \<noteq> [] \<and> length p \<le> 3 \<and> list_all is_digit p \<and> (length p = 1 \<or> hd p \<noteq> CHR ''0'') \<and> digits_val p \<le> 255)"

definition is_ipv4 :: "string \<Rightarrow> bool" where
  "is_ipv4 s = (let ps = split_char CHR ''.'' s in length ps = 4 \<and> list_all is_octet ps)"

definition subdomain_of :: "string \<Rightarrow> string option" where
  "subdomain_of host0 =
     (let host = trim (hd (split_char CHR '':'' host0)) in
      if host = [] \<or> is_ipv4 host then None
      else let labels = split_char CHR ''.'' host in
        if length labels < 3 \<or> hd labels = [] then None else Some (hd labels))"

section \<open>Routing\<close>

text \<open>Every context stands under the id of the tenant it serves.\<close>

definition router_inv :: "('c \<Rightarrow> string) \<Rightarrow> 'c tenant_router \<Rightarrow> bool" where
  "router_inv ctx_id r = (distinct (map fst r) \<and> list_all (\<lambda>(id, ctx). ctx_id ctx = id) r)"

lemma router_inv_insert:
  "router_inv ctx_id r \<Longrightarrow> ctx_id ctx = tid \<Longrightarrow> router_inv ctx_id (hm_insert tid ctx r)"
  by (auto simp: router_inv_def hm_insert_def list_all_iff distinct_map_filter)

lemma router_build_inv:
  "router_build target_id ctx_id dbg mk targets r = Inr r' \<Longrightarrow> router_inv ctx_id r \<Longrightarrow> router_inv ctx_id r'"
  by (induction target_id ctx_id dbg mk targets r rule: router_build.induct)
    (auto simp: Let_def split: sum.splits if_splits intro: router_inv_insert)

text \<open>Every registered target got a context of its own.\<close>

lemma router_build_keys:
  "router_build target_id ctx_id dbg mk targets r = Inr r' \<Longrightarrow> fst ` set r' = fst ` set r \<union> target_id ` set targets"
proof (induction target_id ctx_id dbg mk targets r rule: router_build.induct)
  case (2 target_id ctx_id dbg mk target targets contexts)
  then obtain ctx where c: "mk target = Inr ctx" "ctx_id ctx = target_id target"
    "router_build target_id ctx_id dbg mk targets (hm_insert (target_id target) ctx contexts) = Inr r'"
    by (auto simp: Let_def split: sum.splits if_splits)
  have "fst ` set (hm_insert (target_id target) ctx contexts) = insert (target_id target) (fst ` set contexts)"
    by (auto simp: hm_insert_def)
  with 2(1) [OF c(1) refl _ c(3)] c(2) show ?case by auto
qed simp

text \<open>A routed request goes to the context of the tenant its token names, with a harmless secret.\<close>

lemma route_token_Some:
  assumes "router_inv ctx_id r" and "route_token r token = Some (ctx, secret)"
  shows "ctx_id ctx \<in> fst ` set r \<and> token = mint_token (ctx_id ctx) secret \<and> secret \<noteq> [] \<and> list_all is_alnum secret"
proof -
  obtain prefix where p: "split_once CHR ''.'' token = Some (prefix, secret)" "secret \<noteq> []" "list_all is_alnum secret"
    "map_of r prefix = Some ctx"
    using assms(2) by (auto simp: route_token_def split: option.splits if_splits)
  have m: "(prefix, ctx) \<in> set r" using p(4) by (rule map_of_SomeD)
  then have "ctx_id ctx = prefix" using assms(1) by (auto simp: router_inv_def list_all_iff)
  with p m show ?thesis by (force simp: mint_token_def split_once_Some)
qed

lemma route_minted:
  assumes "map_of r tenant = Some ctx" and "CHR ''.'' \<notin> set tenant" and "secret \<noteq> []" and "list_all is_alnum secret"
  shows "route_token r (mint_token tenant secret) = Some (ctx, secret)"
proof -
  have "split_once CHR ''.'' (mint_token tenant secret) = Some (tenant, secret)"
    unfolding split_once_Some using assms(2) by (simp add: mint_token_def)
  then show ?thesis using assms by (simp add: route_token_def)
qed

end
