(* ===== verification/Spec2Isabelle.thy ===== *)
theory Spec2Isabelle
  imports Props_Schema Props_Review Props_Run Props_Fleet Props_Lock Props_Money Props_Kernel Props_Sync Props_Broker Props_Worker Props_Rollup Props_Hooks Props_Recovery Http_Contract Router
begin

text \<open>
  A model of the schema engine (\<open>src/frust-kernel/orm\<close>) and of the pure parts of the kernel
  (\<open>src/frust-kernel/kernel\<close>).

  \<^bold>\<open>The program.\<close> The engine keeps the tables of one or many tenants in step with what the apps
  declare. A resource is a name, a text of DEFINE statements and the names it links to. The engine
  parses the text into a snapshot of objects, reads the last recorded snapshot from a history table,
  takes the difference, asks a policy whether the change may be applied, and applies it in one
  transaction with its history row, under a lock row. A fleet run does this for a list of tenants
  with a checkpoint row per tenant. The kernel compiles doctypes to such resources, compiles
  filters to query text, judges workflow transitions, limits and orders the tenants' work, routes
  tokens and HTTP methods, computes with decimals, and serves documents through a broker that checks
  which fields a role may read, runs hooks around writes, caches metadata by generation and queues
  notifications. Workers claim queued jobs under leases, deliver the queued mail, and fold the
  database's change feed into totals. Hooks are the apps' scripts and compiled guests; a dispatcher
  runs them in instances that it keeps and reuses across tenants.

  \<^bold>\<open>Theories of the engine.\<close>
  \<^item> Prelude, Ordered\_Map: text functions of the Rust standard library on byte strings (splitting,
    trimming, case), fallible maps over lists, \<open>BTreeMap\<close> as an association list in key order with an
    interface locale and its interpretation.
  \<^item> Field (\<open>field.rs\<close>), Schema (\<open>schema.rs\<close>), Classify (\<open>classify.rs\<close>), Decision (\<open>decision.rs\<close>):
    types, snapshots, differences, the report on every changed field and the two policies.
    Schema\_Exec gives the database's reading of the emitted statements, the abstract state against
    which a migration is shown to reach its target.
  \<^item> Resource (\<open>resource.rs\<close>): statements, results, connections (functions on an abstract world),
    SQL literals, durations, the accessors of JSON values.
  \<^item> Toposort, Migrator, Migrator\_Run (\<open>lib.rs\<close>): dependency order; options, reports, history, one
    migration's transaction, the lock; the runs. Frame, Toposort\_Proofs and Migrator\_Proofs
    hold their lemmas, Lock the step relation of the lock protocol.
  \<^item> Fleet (\<open>fleet.rs\<close>) with Fleet\_Store (the interface of a checkpoint table), Fleet\_Proofs and
    Fleet\_Demo (a concrete database); Drift (\<open>drift.rs\<close>); Artifacts (\<open>artifacts.rs\<close>).

  \<^bold>\<open>Theories of the kernel.\<close>
  \<^item> Decimal, Decimal\_Proofs (\<open>decimal.rs\<close>): a mantissa in the range of \<open>i128\<close> and a
    scale, with every saturation and overflow of the code written out.
  \<^item> Contract (\<open>contract.rs\<close>), Surql (\<open>surql.rs\<close>), Surql\_Proofs: values, paths and filters and their
    text, against a lexer of the query language.
  \<^item> Workflow (\<open>workflow.rs\<close>); Fairness, Fairness\_Proofs (\<open>fairness.rs\<close>); Http\_Contract
    (\<open>http_contract.rs\<close>); Router (\<open>router.rs\<close>); Tenant\_Gen (\<open>tenant_gen.rs\<close>).
  \<^item> Effects: sequencing of fallible steps on a world,
    the shapes of query answers.
  \<^item> Doctype (the compiler from doctypes to DDL in \<open>sync.rs\<close>); Tenancy
    (\<open>tenancy.rs\<close> and the engine's view of it); Sync\_Load (the metadata loaders), Sync\_Run (carried
    columns, single documents, the sync itself), Statements and Sync\_Proofs (where a schema text is
    between two statements, so that appending to it adds objects and nothing else).
  \<^item> Mail (\<open>mail.rs\<close>): notification rules, conditions on decimals, templates, recipients.
  \<^item> Broker (reads and aggregates, the metadata cache, hook chains) and Broker\_Write (writes, deletes,
    transitions, notifications, the queue entry) model \<open>broker.rs\<close>. Broker\_Proofs states what every
    verb keeps as a locale over an invariant of the kernel and interprets it for the cache;
    Broker\_Atomic shows which documents a refused write leaves alone; Broker\_Demo is a concrete
    database with two users, a hooked doctype and a rule.
  \<^item> Worker (\<open>worker.rs\<close>): leases, claims, the fair search for the next job, running a job under the
    authority its requester has now, settling it, the resident loop; Mail\_Worker: the drain pass of
    the outbox. Job\_Queue gives the meaning of the worker's statements as a step relation on rows, with
    the invariants of every interleaving of workers; Job\_Refine shows, in a locale over a job store,
    that the worker's operations are runs of it, and that the loop ends; Job\_Demo reads the statements'
    texts and so interprets the locale. Mail\_Store and Mail\_Demo do the same for the outbox.
  \<^item> Text\_Diff, Change\_Feed, Rollup (\<open>aggregates.rs\<close>): undoing a text patch, undoing the operations of a
    feed entry on a document, folding the decoded changes into totals and committing them with the
    cursor. A panic of the code is the error \<open>Panicked\<close>. Rollup\_Proofs computes the exact sums,
    Rollup\_Store states the database's laws (a batch is committed as a whole or not at all, even when
    its answer is lost; the feed only grows) as a locale and proves what a pass and the drain loop
    keep; Text\_Read and Rollup\_Demo read the statements' texts and interpret it.
  \<^item> Hooks (\<open>hooks.rs\<close> and the HTTP hook runner of \<open>broker.rs\<close>): documents to and from guests, instances
    and their fuel, the pool, the scripts of a tenant's doctype, the chain with its named
    refusals. Hooks\_Proofs states what a guest promises (an instance answers as its script does, and
    metadata changes only with the tenant's generation) as a locale and shows that the pool is
    invisible; its last section has a concrete guest.
  \<^item> Provision (\<open>meta.rs\<close>, \<open>keyguard.rs\<close>, \<open>provision.rs\<close>): the kernel's own DDL, the forged-token test, the
    statements that create, reset and re-key a tenant's database. Recovery (\<open>recovery.rs\<close>): the backup
    and restore commands over a disk of parameters, with the standard library's paths modelled on
    their texts. Recovery\_Proofs states what files, exports and renamings promise as locales and shows
    what a backup and a restore leave behind; Recovery\_Demo interprets them on a concrete site.

  The theories Props\_* hold the properties, one per claim, each with a concrete instance.

  \<^bold>\<open>Conventions.\<close> Errors are values of a sum, the error on the left. State is passed explicitly; the
  database is an abstract world, connections and tenancy are records of functions on it. Loops are
  structural recursions or have a measure (the passes of a claim round, Kahn's algorithm). Machine
  integers are integers whose bounds, wraps and saturations are written where the code meets
  them: \<open>i128\<close> in decimals, \<open>u32\<close> for scales, \<open>u64\<close> for the round counter and hashes. Strings are lists
  of bytes.

  The broker's environment is a record of functions: the statements under the root and the caller's
  session, the hooks, the generation counter and the trace id are read from and written to the
  abstract world; its own state (caches, admission buckets, counted mail failures) is the record
  \<open>kernel\<close> around that world. Laws such as \<^emph>\<open>a failing statement changes nothing\<close> are named hypotheses of the
  properties, and each is shown of a concrete database in one of the Demo theories. The
  worker's clock and process number are parameters; its loop and the drain loop of the
  rollups are partial functions whose value \<open>None\<close> would be not returning, and properties show that they
  return.

  \<^bold>\<open>What is not modelled.\<close> Sockets, files, threads, processes, logging and metrics; the
  database itself. The WebAssembly engine (compiling, linking, its fuel and its time limit) is a function
  from a guest, its fuel and a document to an answer and the fuel left. Durations and admission buckets use rationals where the code uses
  \<open>f64\<close>. The iteration order of hash maps is first insertion, or a parameter where a result depends
  on it. JSON codecs are parameters. Of the kernel, the REST surface (\<open>rest.rs\<close>), app
  manifests (\<open>app.rs\<close>), the boot sequence (\<open>boot.rs\<close>), plugin routes (\<open>routes.rs\<close>), live subscriptions
  (\<open>realtime.rs\<close>, \<open>wsrpc.rs\<close>), telemetry and the database transport (\<open>db.rs\<close>) are left out. Files and child
  processes are parameters of the recovery commands.
\<close>

end
